(* ===== verification/Prelude.thy ===== *)
theory Prelude
  imports Complex_Main
begin

text \<open>
  Shared vocabulary of the development: the lemma collections the component theories fill,
  Go's integers and clocks, and the two contracts several components share. The locale
  \<^verbatim>\<open>step_machine\<close> is a component with an invariant that each of its
  operations keeps; the locale \<^verbatim>\<open>keyed_store\<close> is a store of values under
  keys, read and replaced one key at a time.
\<close>

named_theorems op_defs "definitions of operations, unfolded together"
named_theorems guard_simps "characteristic equations of the code's guards"

subsection \<open>Go integers and clocks\<close>

text \<open>Go's \<^verbatim>\<open>int64\<close> subtraction wraps around.\<close>

definition wrap64 :: "int \<Rightarrow> int" where
  "wrap64 x = (x + 2 ^ 63) mod 2 ^ 64 - 2 ^ 63"

definition in_int64 :: "int \<Rightarrow> bool" where
  "in_int64 x \<longleftrightarrow> - (2 ^ 63) \<le> x \<and> x < 2 ^ 63"

lemma wrap64_id [simp]: "in_int64 x \<Longrightarrow> wrap64 x = x"
  by (simp add: wrap64_def in_int64_def)

lemma in_int64_diff:
  "0 \<le> a \<Longrightarrow> 0 \<le> b \<Longrightarrow> in_int64 a \<Longrightarrow> in_int64 b \<Longrightarrow> in_int64 (a - b)"
  by (simp add: in_int64_def)

lemma wrap64_diff:
  "0 \<le> a \<Longrightarrow> 0 \<le> b \<Longrightarrow> in_int64 a \<Longrightarrow> in_int64 b \<Longrightarrow> wrap64 (a - b) = a - b"
  by (simp add: in_int64_diff)

text \<open>Integer division and remainder truncate towards zero.\<close>

definition go_div :: "int \<Rightarrow> int \<Rightarrow> int" where
  "go_div a b = sgn a * sgn b * (\<bar>a\<bar> div \<bar>b\<bar>)"

definition go_mod :: "int \<Rightarrow> int \<Rightarrow> int" where
  "go_mod a b = a - b * go_div a b"

lemma go_div_nonneg: "0 \<le> a \<Longrightarrow> 0 < b \<Longrightarrow> go_div a b = a div b"
  by (cases "a = 0") (simp_all add: go_div_def)

lemma go_mod_nonneg: "0 \<le> a \<Longrightarrow> 0 < b \<Longrightarrow> go_mod a b = a mod b"
  by (simp add: go_mod_def go_div_nonneg minus_mult_div_eq_mod)

text \<open>
  A \<^verbatim>\<open>time.Time\<close> is its monotonic reading in nanoseconds;
  \<^verbatim>\<open>time.Sub\<close> and \<^verbatim>\<open>time.Since\<close> saturate at the
  ends of \<^verbatim>\<open>time.Duration\<close>.
\<close>

type_synonym gotime = int
type_synonym duration = int

definition time_sub :: "gotime \<Rightarrow> gotime \<Rightarrow> duration" where
  "time_sub a b = max (- (2 ^ 63)) (min (2 ^ 63 - 1) (a - b))"

definition second :: duration where
  "second = 1000000000"

lemma time_sub_ge:
  "- (2 ^ 63) < d \<Longrightarrow> d < 2 ^ 63 \<Longrightarrow> d \<le> time_sub a b \<longleftrightarrow> d \<le> a - b"
  by (auto simp: time_sub_def)

lemma time_sub_mono: "a \<le> a' \<Longrightarrow> time_sub a b \<le> time_sub a' b"
  by (auto simp: time_sub_def)

subsection \<open>Lists\<close>

text \<open>The last \<^verbatim>\<open>n\<close> elements: Go's \<^verbatim>\<open>xs[len(xs)-n:]\<close>, all of a shorter list.\<close>

definition last_n :: "nat \<Rightarrow> 'a list \<Rightarrow> 'a list" where
  "last_n n xs = (if length xs \<le> n then xs else drop (length xs - n) xs)"

lemma length_last_n [simp]: "length (last_n n xs) = min n (length xs)"
  by (simp add: last_n_def)

lemma set_last_n: "set (last_n n xs) \<subseteq> set xs"
  by (auto simp: last_n_def dest: in_set_dropD)

lemma last_n_Nil [simp]: "last_n n [] = []"
  by (simp add: last_n_def)

lemma last_last_n: "0 < n \<Longrightarrow> xs \<noteq> [] \<Longrightarrow> last (last_n n xs) = last xs"
  by (simp add: last_n_def)

lemma last_n_eq_Nil: "0 < n \<Longrightarrow> last_n n xs = [] \<longleftrightarrow> xs = []"
  by (auto simp: last_n_def)

text \<open>The first result of a function along a list.\<close>

fun first_some :: "('a \<Rightarrow> 'b option) \<Rightarrow> 'a list \<Rightarrow> 'b option" where
  "first_some f [] = None"
| "first_some f (x # xs) = (case f x of Some y \<Rightarrow> Some y | None \<Rightarrow> first_some f xs)"

lemma first_some_SomeD: "first_some f xs = Some y \<Longrightarrow> \<exists>x \<in> set xs. f x = Some y"
  by (induction xs) (auto split: option.splits)

lemma first_some_None: "first_some f xs = None \<longleftrightarrow> (\<forall>x \<in> set xs. f x = None)"
  by (induction xs) (auto split: option.splits)

subsection \<open>Components with an invariant\<close>

locale step_machine =
  fixes step :: "'e \<Rightarrow> 's \<Rightarrow> 's"
    and ok :: "'s \<Rightarrow> bool"
  assumes step_ok: "ok s \<Longrightarrow> ok (step e s)"
begin

lemma run_ok: "ok s \<Longrightarrow> ok (fold step es s)"
  by (induction es arbitrary: s) (auto intro: step_ok)

lemma run_all_ok: "ok s \<Longrightarrow> ok (fold step (take n es) s)"
  by (rule run_ok)

end

text \<open>
  A machine with an absorbing condition: once it holds, every operation keeps it. It extends
  the invariant contract by the set of states the machine cannot leave.
\<close>

locale absorbing_machine = step_machine +
  fixes stuck :: "'s \<Rightarrow> bool"
  assumes step_stuck: "ok s \<Longrightarrow> stuck s \<Longrightarrow> stuck (step e s)"
begin

lemma run_stuck: "ok s \<Longrightarrow> stuck s \<Longrightarrow> stuck (fold step es s)"
  by (induction es arbitrary: s) (auto intro: step_stuck step_ok)

end

subsection \<open>Stores of values under keys\<close>

locale keyed_store =
  fixes get :: "'k \<Rightarrow> 'm \<Rightarrow> 'v option"
    and put :: "'k \<Rightarrow> 'v \<Rightarrow> 'm \<Rightarrow> 'm"
  assumes get_put: "get k (put k v m) = Some v"
    and get_put_other: "k' \<noteq> k \<Longrightarrow> get k' (put k v m) = get k' m"
begin

lemma get_put_if: "get k' (put k v m) = (if k' = k then Some v else get k' m)"
  by (simp add: get_put get_put_other)

lemma put_put: "get k' (put k w (put k v m)) = get k' (put k w m)"
  by (simp add: get_put_if)

lemma put_comm: "k \<noteq> l \<Longrightarrow> get k' (put k v (put l w m)) = get k' (put l w (put k v m))"
  by (simp add: get_put_if)

lemma run_frame:
  "\<forall>(k, v) \<in> set kvs. k \<noteq> k' \<Longrightarrow> get k' (fold (\<lambda>(k, v). put k v) kvs m) = get k' m"
  by (induction kvs arbitrary: m) (auto simp: get_put_other)

end

end
