(* ===== verification/GoStrings.thy ===== *)
theory GoStrings
  imports Prelude
begin

text \<open>
  Go strings are byte sequences; here a string is its list of bytes (\<^verbatim>\<open>char\<close>).
  The functions of the packages \<^verbatim>\<open>strings\<close> and \<^verbatim>\<open>strconv\<close> the source uses are
  defined on bytes: white space is recognised in its UTF-8 encoding, and
  \<^verbatim>\<open>ToLower\<close> takes the Unicode case table as an argument that only strings with
  non-ASCII bytes consult.
\<close>

definition HasPrefix :: "string \<Rightarrow> string \<Rightarrow> bool" where
  "HasPrefix s p \<longleftrightarrow> take (length p) s = p"

definition HasSuffix :: "string \<Rightarrow> string \<Rightarrow> bool" where
  "HasSuffix s p \<longleftrightarrow> length p \<le> length s \<and> drop (length s - length p) s = p"

definition TrimPrefix :: "string \<Rightarrow> string \<Rightarrow> string" where
  "TrimPrefix s p = (if HasPrefix s p then drop (length p) s else s)"

fun Contains :: "string \<Rightarrow> string \<Rightarrow> bool" where
  "Contains [] sub = (sub = [])"
| "Contains (c # cs) sub = (HasPrefix (c # cs) sub \<or> Contains cs sub)"

lemma HasPrefix_append [simp]: "HasPrefix (p @ s) p"
  by (simp add: HasPrefix_def)

lemma HasPrefix_iff: "HasPrefix s p \<longleftrightarrow> (\<exists>r. s = p @ r)"
proof
  assume "HasPrefix s p"
  then have "s = p @ drop (length p) s" by (metis HasPrefix_def append_take_drop_id)
  then show "\<exists>r. s = p @ r" ..
qed auto

lemma Contains_iff: "Contains s sub \<longleftrightarrow> (\<exists>a b. s = a @ sub @ b)"
proof (induction s)
  case step: (Cons c cs)
  show ?case
  proof
    assume "Contains (c # cs) sub"
    then consider r where "c # cs = sub @ r" | a b where "cs = a @ sub @ b"
      using step.IH by (auto simp: HasPrefix_iff)
    then show "\<exists>a b. c # cs = a @ sub @ b"
      by cases (metis append_Nil, metis append_Cons)
  next
    assume "\<exists>a b. c # cs = a @ sub @ b"
    then obtain a b where "c # cs = a @ sub @ b" by blast
    show "Contains (c # cs) sub"
    proof (cases a)
      case Nil
      with \<open>c # cs = a @ sub @ b\<close> have "HasPrefix (c # cs) sub"
        unfolding HasPrefix_iff by auto
      then show ?thesis by simp
    next
      case (Cons x a')
      with \<open>c # cs = a @ sub @ b\<close> have "cs = a' @ sub @ b" by simp
      with step.IH show ?thesis by auto
    qed
  qed
qed auto

text \<open>Decimal rendering of integers.\<close>

fun show_nat :: "nat \<Rightarrow> string" where
  "show_nat n = (if n < 10 then [char_of (48 + n)]
                 else show_nat (n div 10) @ [char_of (48 + n mod 10)])"

declare show_nat.simps [simp del]

definition Itoa :: "int \<Rightarrow> string" where
  "Itoa x = (if x < 0 then CHR ''-'' # show_nat (nat (- x)) else show_nat (nat x))"

lemma show_nat_not_Nil [simp]: "show_nat n \<noteq> []"
  by (subst show_nat.simps) simp

text \<open>ASCII case folding; other strings go through the table \<^verbatim>\<open>uni\<close>.\<close>

definition ascii_lower :: "char \<Rightarrow> char" where
  "ascii_lower c = (let n = of_char c :: nat
     in if 65 \<le> n \<and> n \<le> 90 then char_of (n + 32) else c)"

definition is_ascii :: "char \<Rightarrow> bool" where
  "is_ascii c \<longleftrightarrow> (of_char c :: nat) < 128"

definition ToLower :: "(string \<Rightarrow> string) \<Rightarrow> string \<Rightarrow> string" where
  "ToLower uni s = (if list_all is_ascii s then map ascii_lower s else uni s)"

text \<open>White space: the six ASCII characters and the Unicode spaces in UTF-8.\<close>

definition bytes :: "nat list \<Rightarrow> string" where
  "bytes = map char_of"

definition space_runes :: "string list" where
  "space_runes = map bytes
     ([[9], [10], [11], [12], [13], [32], [194, 133], [194, 160], [225, 154, 128],
       [226, 128, 168], [226, 128, 169], [226, 128, 175], [226, 129, 159], [227, 128, 128]]
      @ map (\<lambda>k. [226, 128, 128 + k]) [0..<11])"

definition leading_space :: "string \<Rightarrow> nat" where
  "leading_space s = (case find (HasPrefix s) space_runes of Some w \<Rightarrow> length w | None \<Rightarrow> 0)"

definition trailing_space :: "string \<Rightarrow> nat" where
  "trailing_space s = (case find (HasSuffix s) space_runes of Some w \<Rightarrow> length w | None \<Rightarrow> 0)"

function TrimLeftSpace :: "string \<Rightarrow> string" where
  "TrimLeftSpace s =
     (if 0 < leading_space s \<and> s \<noteq> [] then TrimLeftSpace (drop (leading_space s) s) else s)"
  by pat_completeness auto
termination
  by (relation "measure length") auto

function TrimRightSpace :: "string \<Rightarrow> string" where
  "TrimRightSpace s =
     (if 0 < trailing_space s \<and> s \<noteq> []
      then TrimRightSpace (take (length s - trailing_space s) s) else s)"
  by pat_completeness auto
termination
  by (relation "measure length") auto

declare TrimLeftSpace.simps [simp del] TrimRightSpace.simps [simp del]

definition TrimSpace :: "string \<Rightarrow> string" where
  "TrimSpace s = TrimRightSpace (TrimLeftSpace s)"

fun TrimRightDots :: "string \<Rightarrow> string" where
  "TrimRightDots s = rev (dropWhile (\<lambda>c. c = CHR ''.'') (rev s))"

lemma space_runes_nonempty: "w \<in> set space_runes \<Longrightarrow> w \<noteq> []"
  by (auto simp: space_runes_def bytes_def)

lemma leading_space_Nil [simp]: "leading_space [] = 0"
  using space_runes_nonempty
  by (auto simp: leading_space_def HasPrefix_def find_Some_iff split: option.split)

lemma trailing_space_Nil [simp]: "trailing_space [] = 0"
  using space_runes_nonempty
  by (auto simp: trailing_space_def HasSuffix_def find_Some_iff split: option.split)

lemma TrimSpace_Nil [simp]: "TrimSpace [] = []"
  by (simp add: TrimSpace_def TrimLeftSpace.simps TrimRightSpace.simps)

lemma length_TrimLeftSpace: "length (TrimLeftSpace s) \<le> length s"
proof (induction s rule: TrimLeftSpace.induct)
  case (1 s)
  show ?case
  proof (cases "0 < leading_space s \<and> s \<noteq> []")
    case True
    with 1 show ?thesis by (subst TrimLeftSpace.simps) simp
  next
    case False
    then show ?thesis by (subst TrimLeftSpace.simps) auto
  qed
qed

text \<open>A string that starts and ends with a visible ASCII character has nothing to trim.\<close>

definition visible :: "char \<Rightarrow> bool" where
  "visible c \<longleftrightarrow> 33 \<le> (of_char c :: nat) \<and> (of_char c :: nat) \<le> 126"

lemma space_runes_ends:
  "w \<in> set space_runes \<Longrightarrow> \<not> visible (hd w) \<and> \<not> visible (last w)"
  by (auto simp: space_runes_def bytes_def visible_def)

lemma leading_space_visible: "visible (hd s) \<Longrightarrow> leading_space s = 0"
proof (cases "find (HasPrefix s) space_runes")
  case (Some w)
  then have w: "w \<in> set space_runes" "HasPrefix s w" by (auto simp: find_Some_iff)
  moreover assume "visible (hd s)"
  moreover have "hd s = hd w"
    using w space_runes_nonempty [of w] by (auto simp: HasPrefix_iff)
  ultimately show ?thesis using space_runes_ends [of w] by simp
qed (simp add: leading_space_def)

lemma trailing_space_visible: "visible (last s) \<Longrightarrow> trailing_space s = 0"
proof (cases "find (HasSuffix s) space_runes")
  case (Some w)
  then have "w \<in> set space_runes" "HasSuffix s w" by (auto simp: find_Some_iff)
  moreover assume "visible (last s)"
  ultimately show ?thesis
    using space_runes_nonempty [of w] space_runes_ends [of w]
    by (metis HasSuffix_def last_drop length_greater_0_conv diff_less drop_eq_Nil less_le_not_le
        linorder_not_less)
qed (simp add: trailing_space_def)

lemma TrimSpace_visible [simp]:
  "visible (hd s) \<Longrightarrow> visible (last s) \<Longrightarrow> TrimSpace s = s"
  by (simp add: TrimSpace_def TrimLeftSpace.simps [of s] TrimRightSpace.simps [of s]
      leading_space_visible trailing_space_visible)

text \<open>Trimming twice is trimming once.\<close>

lemma HasPrefix_of_prefix: "HasPrefix (take n s) w \<Longrightarrow> HasPrefix s w"
  by (metis HasPrefix_iff append_assoc append_take_drop_id)

lemma leading_space_0: "leading_space s = 0 \<longleftrightarrow> (\<forall>w \<in> set space_runes. \<not> HasPrefix s w)"
proof (cases "find (HasPrefix s) space_runes")
  case None
  then have "leading_space s = 0" by (simp add: leading_space_def)
  moreover from None have "\<forall>w \<in> set space_runes. \<not> HasPrefix s w"
    unfolding find_None_iff by blast
  ultimately show ?thesis by simp
next
  case (Some w)
  then have "w \<in> set space_runes" "HasPrefix s w" by (auto simp: find_Some_iff)
  with Some space_runes_nonempty [of w] show ?thesis by (auto simp: leading_space_def)
qed

lemma leading_space_take: "leading_space s = 0 \<Longrightarrow> leading_space (take n s) = 0"
  unfolding leading_space_0 by (blast dest: HasPrefix_of_prefix)

lemma TrimLeftSpace_done: "leading_space (TrimLeftSpace s) = 0"
proof (induction s rule: TrimLeftSpace.induct)
  case (1 s)
  then show ?case
    by (cases "0 < leading_space s \<and> s \<noteq> []")
      (simp_all add: TrimLeftSpace.simps [of s], fastforce)
qed

lemma TrimRightSpace_done: "trailing_space (TrimRightSpace s) = 0"
proof (induction s rule: TrimRightSpace.induct)
  case (1 s)
  then show ?case
    by (cases "0 < trailing_space s \<and> s \<noteq> []")
      (simp_all add: TrimRightSpace.simps [of s], fastforce)
qed

lemma TrimRightSpace_prefix: "\<exists>n. TrimRightSpace s = take n s"
proof (induction s rule: TrimRightSpace.induct)
  case (1 s)
  show ?case
  proof (cases "0 < trailing_space s \<and> s \<noteq> []")
    case True
    with 1 obtain n where "TrimRightSpace (take (length s - trailing_space s) s)
        = take n (take (length s - trailing_space s) s)" by blast
    with True show ?thesis
      by (intro exI [of _ "min n (length s - trailing_space s)"])
        (simp add: TrimRightSpace.simps [of s])
  next
    case False
    then show ?thesis
      by (intro exI [of _ "length s"]) (auto simp: TrimRightSpace.simps [of s])
  qed
qed

lemma TrimSpace_idem [simp]: "TrimSpace (TrimSpace s) = TrimSpace s"
proof -
  obtain n where "TrimSpace s = take n (TrimLeftSpace s)"
    using TrimRightSpace_prefix [of "TrimLeftSpace s"] by (auto simp: TrimSpace_def)
  then have "leading_space (TrimSpace s) = 0"
    using leading_space_take [OF TrimLeftSpace_done] by simp
  moreover have "trailing_space (TrimSpace s) = 0"
    by (simp add: TrimSpace_def TrimRightSpace_done)
  ultimately show ?thesis
    by (simp add: TrimSpace_def [of "TrimSpace s"] TrimLeftSpace.simps [of "TrimSpace s"]
        TrimRightSpace.simps [of "TrimSpace s"])
qed

text \<open>Joining with a separator, as \<^verbatim>\<open>strings.Join\<close>.\<close>

fun Join :: "string list \<Rightarrow> string \<Rightarrow> string" where
  "Join [] sep = []"
| "Join [x] sep = x"
| "Join (x # y # xs) sep = x @ sep @ Join (y # xs) sep"

text \<open>The base name of a slash-separated path, as \<^verbatim>\<open>filepath.Base\<close>.\<close>

definition path_Base :: "string \<Rightarrow> string" where
  "path_Base p =
     (if p = [] then ''.''
      else let q = rev (dropWhile (\<lambda>c. c = CHR ''/'') (rev p));
               b = rev (takeWhile (\<lambda>c. c \<noteq> CHR ''/'') (rev q))
           in if b = [] then ''/'' else b)"

end
