(* ===== verification/Json.thy ===== *)
theory Json
  imports GoStrings "HOL-Library.AList"
begin

text \<open>
  JSON values as \<^verbatim>\<open>encoding/json\<close> decodes them into \<^verbatim>\<open>interface{}\<close>: a Go map is an
  association list, read with \<^verbatim>\<open>map_of\<close> and written with \<^verbatim>\<open>AList.update\<close>, so the order
  of the list is the order of insertion and no meaning depends on it.
\<close>

datatype json =
    JNull
  | JBool bool
  | JInt int
  | JFloat rat
  | JStr string
  | JArr "json list"
  | JObj "(string \<times> json) list"

type_synonym jobj = "(string \<times> json) list"

fun is_obj :: "json \<Rightarrow> bool" where
  "is_obj (JObj m) = True"
| "is_obj j = False"

text \<open>The store of fields of an object obeys the contract of a keyed store.\<close>

definition obj_get :: "string \<Rightarrow> jobj \<Rightarrow> json option" where
  "obj_get k m = map_of m k"

definition obj_put :: "string \<Rightarrow> json \<Rightarrow> jobj \<Rightarrow> jobj" where
  "obj_put = AList.update"

lemma obj_get_put [simp]: "obj_get k' (obj_put k v m) = (if k' = k then Some v else obj_get k' m)"
  by (simp add: obj_get_def obj_put_def update_conv)

interpretation fields: keyed_store obj_get obj_put
  by unfold_locales simp_all

lemma obj_get_Nil [simp]: "obj_get k [] = None"
  by (simp add: obj_get_def)

lemma obj_get_Cons [simp]: "obj_get k ((k', v) # m) = (if k = k' then Some v else obj_get k m)"
  by (auto simp: obj_get_def)

definition obj_delete :: "string \<Rightarrow> jobj \<Rightarrow> jobj" where
  "obj_delete = AList.delete"

lemma obj_get_delete [simp]: "obj_get k' (obj_delete k m) = (if k' = k then None else obj_get k' m)"
  by (simp add: obj_get_def obj_delete_def delete_conv')

text \<open>Reading along a path of keys through nested objects.\<close>

fun obj_path :: "string list \<Rightarrow> json \<Rightarrow> json option" where
  "obj_path [] j = Some j"
| "obj_path (k # ks) (JObj m) = (case obj_get k m of None \<Rightarrow> None | Some j \<Rightarrow> obj_path ks j)"
| "obj_path (k # ks) j = None"

end
