(* ===== verification/Status.thy ===== *)
theory Status
  imports GoStrings
begin

text \<open>
  The notification statuses of \<^verbatim>\<open>internal/analyzer/analyzer.go\<close> (a Go string type
  with these constants) and the constants' text, under which configuration and metrics are keyed.
\<close>

datatype status =
    StatusAgentStopping | StatusAgentError | StatusTaskComplete | StatusReviewComplete
  | StatusQuestion | StatusPlanReady | StatusSessionLimitReached | StatusAPIError
  | StatusAPIErrorOverloaded | StatusPermissionRequest | StatusUnknown

fun status_string :: "status \<Rightarrow> string" where
  "status_string StatusAgentStopping = ''agent_stopping''"
| "status_string StatusAgentError = ''agent_error''"
| "status_string StatusTaskComplete = ''task_complete''"
| "status_string StatusReviewComplete = ''review_complete''"
| "status_string StatusQuestion = ''question''"
| "status_string StatusPlanReady = ''plan_ready''"
| "status_string StatusSessionLimitReached = ''session_limit_reached''"
| "status_string StatusAPIError = ''api_error''"
| "status_string StatusAPIErrorOverloaded = ''api_error_overloaded''"
| "status_string StatusPermissionRequest = ''permission_request''"
| "status_string StatusUnknown = ''unknown''"

lemma status_string_inject: "status_string s = status_string t \<longleftrightarrow> s = t"
  by (cases s; cases t) simp_all

lemma status_string_not_Nil [simp]: "status_string s \<noteq> []"
  by (cases s) simp_all

end
