(* ===== verification/SessionName.thy ===== *)
theory SessionName
  imports GoStrings
begin

text \<open>
  \<^verbatim>\<open>internal/sessionname/sessionname.go\<close>: the friendly label of a session, a word
  chosen by the first six hexadecimal digits of the session identifier.
\<close>

definition adjectives :: "string list" where
  "adjectives =
     [''bold'', ''brave'', ''bright'', ''calm'', ''clever'',
      ''cool'', ''cosmic'', ''crisp'', ''daring'', ''eager'',
      ''fair'', ''fancy'', ''fast'', ''gentle'', ''glad'',
      ''grand'', ''happy'', ''kind'', ''lively'', ''lucky'',
      ''merry'', ''noble'', ''proud'', ''quick'', ''quiet'',
      ''rapid'', ''smart'', ''solid'', ''swift'', ''warm'',
      ''wise'', ''witty'', ''zesty'', ''agile'', ''alert'']"

definition nouns :: "string list" where
  "nouns =
     [''bear'', ''bird'', ''cat'', ''deer'', ''eagle'',
      ''fish'', ''fox'', ''hawk'', ''lion'', ''owl'',
      ''star'', ''moon'', ''sun'', ''wind'', ''wave'',
      ''tree'', ''river'', ''mountain'', ''ocean'', ''cloud'',
      ''tiger'', ''wolf'', ''dragon'', ''phoenix'', ''falcon'',
      ''comet'', ''galaxy'', ''planet'', ''nova'', ''meteor'',
      ''forest'', ''canyon'', ''valley'', ''peak'', ''storm'']"

subsection \<open>Scanning a hexadecimal number\<close>

text \<open>
  \<^verbatim>\<open>fmt.Sscanf(s, "%x", &n)\<close>: spaces are skipped but a newline is an error, one sign
  is accepted, then the longest run of hexadecimal digits and underscores is taken; an empty run
  and an underscore are errors.
\<close>

definition hex_digit :: "char \<Rightarrow> nat option" where
  "hex_digit c = (let n = of_char c :: nat in
     if 48 \<le> n \<and> n \<le> 57 then Some (n - 48)
     else if 97 \<le> n \<and> n \<le> 102 then Some (n - 87)
     else if 65 \<le> n \<and> n \<le> 70 then Some (n - 55)
     else None)"

fun hex_value :: "nat list \<Rightarrow> nat \<Rightarrow> nat" where
  "hex_value [] acc = acc"
| "hex_value (d # ds) acc = hex_value ds (16 * acc + d)"

definition scan_sign :: "string \<Rightarrow> int \<times> string" where
  "scan_sign s =
     (case s of
        [] \<Rightarrow> (1, [])
      | c # cs \<Rightarrow> if c = CHR ''+'' then (1, cs) else if c = CHR ''-'' then (-1, cs) else (1, s))"

definition hex_blanks :: "string \<Rightarrow> string" where
  "hex_blanks = takeWhile (\<lambda>c. c \<in> set (CHR '' '' # bytes [9, 10, 11, 12, 13]))"

definition hex_run :: "string \<Rightarrow> string" where
  "hex_run = takeWhile (\<lambda>c. hex_digit c \<noteq> None \<or> c = CHR ''_'')"

definition sscanf_hex :: "string \<Rightarrow> int option" where
  "sscanf_hex s =
     (let blanks = hex_blanks s;
          (sign, rest) = scan_sign (drop (length blanks) s);
          run = hex_run rest
      in if char_of (10::nat) \<in> set blanks \<or> run = [] \<or> CHR ''_'' \<in> set run then None
         else Some (sign * int (hex_value (map (the \<circ> hex_digit) run) 0)))"

definition hexToInt :: "string \<Rightarrow> int" where
  "hexToInt hex =
     (let hex = (if 6 < length hex then take 6 hex else hex)
      in case sscanf_hex hex of None \<Rightarrow> 0 | Some n \<Rightarrow> n)"

definition GenerateSessionName :: "(string \<Rightarrow> string) \<Rightarrow> string \<Rightarrow> string" where
  "GenerateSessionName uni sessionID =
     (if sessionID = [] \<or> sessionID = ''unknown'' then ''unknown''
      else
        (let cleanID = ToLower uni (filter (\<lambda>c. c \<noteq> CHR ''-'') sessionID)
         in if length cleanID < 8 then ''unknown''
            else
              (let allWords = adjectives @ nouns;
                   index = go_mod (hexToInt (take 8 cleanID)) (int (length allWords))
               in allWords ! nat index)))"

definition GenerateSessionLabel :: "(string \<Rightarrow> string) \<Rightarrow> string \<Rightarrow> string" where
  "GenerateSessionLabel uni sessionID =
     (let name = GenerateSessionName uni sessionID
      in if name = ''unknown'' then ''unknown''
         else name @ '' '' @ take 8 (takeWhile (\<lambda>c. c \<noteq> CHR ''-'') sessionID))"

subsection \<open>The index is in range\<close>

lemma hex_digit_less: "hex_digit c = Some d \<Longrightarrow> d < 16"
  by (auto simp: hex_digit_def Let_def split: if_splits)

lemma hex_value_bound:
  "list_all (\<lambda>d. d < 16) ds \<Longrightarrow> hex_value ds acc < (acc + 1) * 16 ^ length ds"
proof (induction ds arbitrary: acc)
  case (Cons d ds)
  then have "hex_value ds (16 * acc + d) < (16 * acc + d + 1) * 16 ^ length ds" by simp
  also have "\<dots> \<le> (16 * acc + 16) * 16 ^ length ds"
    using Cons.prems by (intro mult_right_mono) auto
  finally show ?case by (simp add: algebra_simps)
qed simp

lemma scan_sign_bounds:
  "\<bar>fst (scan_sign s)\<bar> = 1" "length (snd (scan_sign s)) \<le> length s"
  by (simp_all add: scan_sign_def split: list.split)

lemma length_hex_run: "length (hex_run s) \<le> length s"
  by (simp add: hex_run_def length_takeWhile_le)

lemma hex_run_value:
  assumes "CHR ''_'' \<notin> set (hex_run s)"
  shows "hex_value (map (the \<circ> hex_digit) (hex_run s)) 0 < 16 ^ length (hex_run s)"
proof -
  have "\<exists>d. hex_digit c = Some d" if "c \<in> set (hex_run s)" for c
    using that assms unfolding hex_run_def by (auto dest: set_takeWhileD)
  then have "list_all (\<lambda>d. d < 16) (map (the \<circ> hex_digit) (hex_run s))"
    unfolding list_all_iff using hex_digit_less by fastforce
  then show ?thesis using hex_value_bound [of "map (the \<circ> hex_digit) (hex_run s)" 0] by simp
qed

lemma sscanf_hex_bound:
  assumes "sscanf_hex s = Some n"
  shows "\<bar>n\<bar> < 16 ^ length s"
proof -
  let ?sr = "scan_sign (drop (length (hex_blanks s)) s)"
  let ?run = "hex_run (snd ?sr)"
  let ?v = "hex_value (map (the \<circ> hex_digit) ?run) 0"
  have n: "n = fst ?sr * int ?v" and nu: "CHR ''_'' \<notin> set ?run"
    using assms by (auto simp: sscanf_hex_def Let_def split_beta split: if_splits)
  have "length ?run \<le> length s"
    using length_hex_run [of "snd ?sr"] scan_sign_bounds(2) [of "drop (length (hex_blanks s)) s"]
    by simp
  then have "(16::nat) ^ length ?run \<le> 16 ^ length s" by (rule power_increasing) simp
  with hex_run_value [OF nu] have "?v < 16 ^ length s" by (rule less_le_trans)
  then have "int ?v < 16 ^ length s" by (metis of_nat_less_iff of_nat_numeral of_nat_power)
  then show ?thesis by (simp add: n abs_mult scan_sign_bounds)
qed

lemma hexToInt_bound: "\<bar>hexToInt s\<bar> < 16 ^ 6"
proof -
  have *: "\<bar>n\<bar> < 16 ^ 6" if "sscanf_hex t = Some n" and "length t \<le> 6" for t n
  proof -
    have "\<bar>n\<bar> < 16 ^ length t" by (rule sscanf_hex_bound [OF that(1)])
    also have "(16::int) ^ length t \<le> 16 ^ 6" using that(2) by (intro power_increasing) auto
    finally show ?thesis .
  qed
  show ?thesis
    using * [of s] * [of "take 6 s"] by (auto simp: hexToInt_def Let_def split: option.split)
qed

text \<open>Without a minus sign the number is not negative.\<close>

lemma scan_sign_nonneg: "CHR ''-'' \<notin> set s \<Longrightarrow> fst (scan_sign s) = 1"
  by (auto simp: scan_sign_def split: list.split)

lemma hexToInt_nonneg:
  assumes "CHR ''-'' \<notin> set s"
  shows "0 \<le> hexToInt s"
proof -
  have "0 \<le> n" if "sscanf_hex t = Some n" and "CHR ''-'' \<notin> set t" for t n
  proof -
    have "CHR ''-'' \<notin> set (drop (length (hex_blanks t)) t)" using that(2) by (meson in_set_dropD)
    from scan_sign_nonneg [OF this] that(1) show ?thesis
      by (auto simp: sscanf_hex_def Let_def split_beta split: if_splits)
  qed
  moreover have "CHR ''-'' \<notin> set (take 6 s)" using assms by (meson in_set_takeD)
  ultimately show ?thesis using assms by (auto simp: hexToInt_def Let_def split: option.split)
qed

lemma ascii_lower_minus: "ascii_lower c = CHR ''-'' \<Longrightarrow> c = CHR ''-''"
proof (cases "65 \<le> (of_char c :: nat) \<and> (of_char c :: nat) \<le> 90")
  case True
  assume "ascii_lower c = CHR ''-''"
  with True have "char_of ((of_char c :: nat) + 32) = CHR ''-''"
    by (simp add: ascii_lower_def Let_def)
  then have "(of_char (char_of ((of_char c :: nat) + 32)) :: nat) = of_char (CHR ''-'')" by simp
  with True show ?thesis by simp
qed (simp add: ascii_lower_def Let_def)

lemma ToLower_no_minus:
  assumes "\<forall>s. CHR ''-'' \<notin> set (uni s)"
  shows "CHR ''-'' \<notin> set (ToLower uni (filter (\<lambda>c. c \<noteq> CHR ''-'') s))"
  using assms by (auto simp: ToLower_def dest!: ascii_lower_minus [OF sym])

lemma length_allWords: "length (adjectives @ nouns) = 70"
  by (simp add: adjectives_def nouns_def)

subsection \<open>Properties\<close>

text \<open>
  Theorem. The word index never leaves the list: the generated name of a session is
  \<^verbatim>\<open>unknown\<close> or one of the seventy words, whatever bytes the identifier holds,
  provided the case table produces no minus sign.
\<close>

theorem session_name_from_pool:
  assumes "\<forall>s. CHR ''-'' \<notin> set (uni s)"
  shows "GenerateSessionName uni sessionID \<in> insert ''unknown'' (set (adjectives @ nouns))"
proof -
  let ?id = "ToLower uni (filter (\<lambda>c. c \<noteq> CHR ''-'') sessionID)"
  let ?h = "hexToInt (take 8 ?id)"
  have "0 \<le> ?h"
    using hexToInt_nonneg [of "take 8 ?id"] ToLower_no_minus [OF assms] by (meson in_set_takeD)
  then have "go_mod ?h (int (length (adjectives @ nouns))) = ?h mod 70"
    by (simp add: length_allWords go_mod_nonneg del: length_append)
  moreover have "0 \<le> ?h mod 70" "?h mod 70 < 70" by simp_all
  ultimately have "nat (go_mod ?h (int (length (adjectives @ nouns)))) < length (adjectives @ nouns)"
    by (simp add: length_allWords del: length_append)
  then show ?thesis
    by (auto simp: GenerateSessionName_def Let_def simp del: set_append length_append)
qed

lemma session_name_from_pool_witness:
  "GenerateSessionName (\<lambda>s. []) ''73b5e210-ec1a-4294-96e4-c2aecb2e1063''
     \<in> insert ''unknown'' (set (adjectives @ nouns))"
  by (rule session_name_from_pool) simp

end
