(* ===== verification/Template.thy ===== *)
theory Template
  imports Json Status SessionName
begin

text \<open>
  \<^verbatim>\<open>internal/webhook/runtime.go\<close>: the \<^verbatim>\<open>${{ ... }}\<close> templates of webhook headers
  and payload fields. The clock's renderings, the environment and the git metadata are read
  through the context record; the metadata, which the code loads once per context, is a field.
\<close>

record SendContext =
  sc_Status :: status
  sc_Message :: string
  sc_SessionID :: string
  sc_CWD :: string
  sc_SessionName :: string
  sc_GitBranch :: string
  sc_Folder :: string
  sc_RawBody :: string
  sc_ActionSummary :: string
  sc_AgentSource :: string

record GitMetadata =
  gm_Branch :: string
  gm_UserName :: string
  gm_UserEmail :: string
  gm_CommitHash :: string
  gm_CommitShortHash :: string
  gm_CommitAuthorName :: string
  gm_CommitAuthorEmail :: string

record runtimeContext =
  rc_sendCtx :: SendContext
  rc_title :: string
  rc_rfc3339 :: string
  rc_unix :: int
  rc_unix_ms :: int
  rc_env :: "string \<rightharpoonup> string"
  rc_gitMeta :: GitMetadata
  rc_uni :: "string \<Rightarrow> string"

text \<open>
  An unknown template and a top-level value of the wrong shape are the errors of this file;
  an unavailable value is \<^verbatim>\<open>ok = false\<close>, here \<^verbatim>\<open>None\<close> inside \<^verbatim>\<open>Inr\<close>.
\<close>

datatype template_error = UnknownTemplate string | FieldsNotObject

datatype tvalue = TStr string | TInt int

fun stringifyTemplateValue :: "tvalue \<Rightarrow> string" where
  "stringifyTemplateValue (TStr s) = s"
| "stringifyTemplateValue (TInt n) = Itoa n"

fun tvalue_json :: "tvalue \<Rightarrow> json" where
  "tvalue_json (TStr s) = JStr s"
| "tvalue_json (TInt n) = JInt n"

definition normalizeAgentSource :: "string \<Rightarrow> string" where
  "normalizeAgentSource source = (if source = [] then ''claude'' else source)"

subsection \<open>Values of a token\<close>

definition nonempty :: "string \<Rightarrow> template_error + tvalue option" where
  "nonempty s = Inr (if s = [] then None else Some (TStr s))"

definition lookupGitTemplateValue ::
    "runtimeContext \<Rightarrow> string \<Rightarrow> template_error + tvalue option" where
  "lookupGitTemplateValue c token =
     (let meta = rc_gitMeta c; ctx = rc_sendCtx c in
      if token = ''git.branch'' then
        (if sc_GitBranch ctx \<noteq> [] then Inr (Some (TStr (sc_GitBranch ctx)))
         else nonempty (gm_Branch meta))
      else if token = ''git.user.name'' then nonempty (gm_UserName meta)
      else if token = ''git.user.email'' then nonempty (gm_UserEmail meta)
      else if token = ''git.commit.hash'' then nonempty (gm_CommitHash meta)
      else if token = ''git.commit.short_hash'' then nonempty (gm_CommitShortHash meta)
      else if token = ''git.commit.author.name'' then nonempty (gm_CommitAuthorName meta)
      else if token = ''git.commit.author.email'' then nonempty (gm_CommitAuthorEmail meta)
      else Inl (UnknownTemplate token))"

definition lookupTemplateValue ::
    "runtimeContext \<Rightarrow> string \<Rightarrow> template_error + tvalue option" where
  "lookupTemplateValue c token =
     (let ctx = rc_sendCtx c; str = (\<lambda>s. Inr (Some (TStr s))) in
      if token = ''status'' then str (status_string (sc_Status ctx))
      else if token = ''title'' then str (rc_title c)
      else if token = ''message'' then str (sc_Message ctx)
      else if token = ''session_id'' then str (sc_SessionID ctx)
      else if token = ''session_name'' then
        (if sc_SessionName ctx \<noteq> [] then str (sc_SessionName ctx)
         else str (GenerateSessionLabel (rc_uni c) (sc_SessionID ctx)))
      else if token = ''source'' then str ''claude-notifications''
      else if token = ''agent_source'' then str (normalizeAgentSource (sc_AgentSource ctx))
      else if token = ''cwd'' then str (sc_CWD ctx)
      else if token = ''folder'' then
        (if sc_Folder ctx \<noteq> [] then str (sc_Folder ctx)
         else if sc_CWD ctx = [] then Inr None
         else str (path_Base (sc_CWD ctx)))
      else if token = ''raw_body'' then nonempty (sc_RawBody ctx)
      else if token = ''action_summary'' then nonempty (sc_ActionSummary ctx)
      else if token = ''time.rfc3339'' then str (rc_rfc3339 c)
      else if token = ''time.unix'' then Inr (Some (TInt (rc_unix c)))
      else if token = ''time.unix_ms'' then Inr (Some (TInt (rc_unix_ms c)))
      else if HasPrefix token ''env.'' then
        (case rc_env c (TrimPrefix token ''env.'') of
           Some v \<Rightarrow> Inr (Some (TStr v))
         | None \<Rightarrow> Inr None)
      else if HasPrefix token ''git.'' then lookupGitTemplateValue c token
      else Inl (UnknownTemplate token))"

subsection \<open>Finding the templates of a string\<close>

text \<open>
  The matches of \<^verbatim>\<open>\$\{\{\s*([^{}]+?)\s*\}\}\<close>, left to right: a match is
  \<^verbatim>\<open>${{\<close>, a non-empty run without braces and \<^verbatim>\<open>}}\<close>. The scan cuts the string
  into the characters outside the matches and the runs inside them.
\<close>

datatype segment = Lit char | Tok string

definition is_brace :: "char \<Rightarrow> bool" where
  "is_brace c \<longleftrightarrow> c = CHR ''{'' \<or> c = CHR ''}''"

definition match_at :: "string \<Rightarrow> string option" where
  "match_at s =
     (if HasPrefix s ''${{''
      then (let body = takeWhile (\<lambda>c. \<not> is_brace c) (drop 3 s)
            in if body \<noteq> [] \<and> HasPrefix (drop (3 + length body) s) ''}}'' then Some body else None)
      else None)"

function templatePattern :: "string \<Rightarrow> segment list" where
  "templatePattern [] = []"
| "templatePattern (c # cs) =
     (case match_at (c # cs) of
        Some body \<Rightarrow> Tok body # templatePattern (drop (length body + 5) (c # cs))
      | None \<Rightarrow> Lit c # templatePattern cs)"
  by pat_completeness auto
termination
  by (relation "measure length") auto

fun unparse :: "segment list \<Rightarrow> string" where
  "unparse [] = []"
| "unparse (Lit c # r) = c # unparse r"
| "unparse (Tok b # r) = ''${{'' @ b @ ''}}'' @ unparse r"

text \<open>\<^verbatim>\<open>resolveString\<close>: one template that is the whole string keeps its type, otherwise
  the values are spliced into the text; a value is never scanned again.\<close>

fun splice :: "runtimeContext \<Rightarrow> segment list \<Rightarrow> template_error + string option" where
  "splice c [] = Inr (Some [])"
| "splice c (Lit x # r) =
     (case splice c r of Inr (Some s) \<Rightarrow> Inr (Some (x # s)) | e \<Rightarrow> e)"
| "splice c (Tok b # r) =
     (case lookupTemplateValue c (TrimSpace b) of
        Inl e \<Rightarrow> Inl e
      | Inr None \<Rightarrow> Inr None
      | Inr (Some v) \<Rightarrow>
          (case splice c r of
             Inr (Some s) \<Rightarrow> Inr (Some (stringifyTemplateValue v @ s)) | e \<Rightarrow> e))"

definition resolveString :: "runtimeContext \<Rightarrow> string \<Rightarrow> template_error + tvalue option" where
  "resolveString c input =
     (case templatePattern input of
        [Tok b] \<Rightarrow> lookupTemplateValue c (TrimSpace b)
      | segs \<Rightarrow> (case splice c segs of
                   Inl e \<Rightarrow> Inl e
                 | Inr None \<Rightarrow> Inr None
                 | Inr (Some s) \<Rightarrow> Inr (Some (TStr s))))"

subsection \<open>Headers and payload fields\<close>

fun resolveHeaders :: "runtimeContext \<Rightarrow> (string \<times> string) list \<Rightarrow> (string \<times> string) list" where
  "resolveHeaders c [] = []"
| "resolveHeaders c ((key, v) # hs) =
     (case resolveString c v of
        Inr (Some r) \<Rightarrow> (key, stringifyTemplateValue r) # resolveHeaders c hs
      | _ \<Rightarrow> resolveHeaders c hs)"

fun resolveValue :: "runtimeContext \<Rightarrow> json \<Rightarrow> template_error + json option"
and resolveFields :: "runtimeContext \<Rightarrow> (string \<times> json) list \<Rightarrow> template_error + (string \<times> json) list"
and resolveItems :: "runtimeContext \<Rightarrow> json list \<Rightarrow> template_error + json list" where
  "resolveValue c (JStr s) =
     (case resolveString c s of
        Inl e \<Rightarrow> Inl e
      | Inr None \<Rightarrow> Inr None
      | Inr (Some v) \<Rightarrow> Inr (Some (tvalue_json v)))"
| "resolveValue c (JObj m) =
     (case resolveFields c m of Inl e \<Rightarrow> Inl e | Inr m' \<Rightarrow> Inr (Some (JObj m')))"
| "resolveValue c (JArr xs) =
     (case resolveItems c xs of Inl e \<Rightarrow> Inl e | Inr xs' \<Rightarrow> Inr (Some (JArr xs')))"
| "resolveValue c v = Inr (Some v)"
| "resolveFields c [] = Inr []"
| "resolveFields c ((key, item) # m) =
     (case resolveValue c item of
        Inl e \<Rightarrow> Inl e
      | Inr r \<Rightarrow>
          (case resolveFields c m of
             Inl e \<Rightarrow> Inl e
           | Inr m' \<Rightarrow> Inr (case r of Some v \<Rightarrow> (key, v) # m' | None \<Rightarrow> m')))"
| "resolveItems c [] = Inr []"
| "resolveItems c (item # xs) =
     (case resolveValue c item of
        Inl e \<Rightarrow> Inl e
      | Inr r \<Rightarrow>
          (case resolveItems c xs of
             Inl e \<Rightarrow> Inl e
           | Inr xs' \<Rightarrow> Inr (case r of Some v \<Rightarrow> v # xs' | None \<Rightarrow> xs')))"

definition resolvePayloadFields :: "runtimeContext \<Rightarrow> jobj \<Rightarrow> template_error + jobj" where
  "resolvePayloadFields c flds =
     (if flds = [] then Inr []
      else (case resolveValue c (JObj flds) of
              Inl e \<Rightarrow> Inl e
            | Inr None \<Rightarrow> Inr []
            | Inr (Some (JObj m)) \<Rightarrow> Inr m
            | Inr (Some _) \<Rightarrow> Inl FieldsNotObject))"

text \<open>Merging objects: objects under the same key are merged, anything else is overridden.\<close>

function (sequential) mergePayloadMaps :: "jobj \<Rightarrow> jobj \<Rightarrow> jobj" where
  "mergePayloadMaps base [] = base"
| "mergePayloadMaps base ((key, value) # rest) =
     mergePayloadMaps
       (obj_put key
          (case (obj_get key base, value) of
             (Some (JObj ex), JObj ov) \<Rightarrow> JObj (mergePayloadMaps ex ov)
           | _ \<Rightarrow> value) base)
       rest"
  by pat_completeness auto
termination
  by (relation "measure (\<lambda>(base, ov). size (JObj ov))") auto

subsection \<open>The scan loses nothing\<close>

lemma drop_token:
  "drop (length b + 3) (''${{'' @ b @ r) = r"
  "drop (length b + 5) (''${{'' @ b @ ''}}'' @ r) = r"
  using append_eq_conv_conj [of "''${{'' @ b" r] append_eq_conv_conj [of "''${{'' @ b @ ''}}'' " r]
  by (simp_all add: numeral_eq_Suc)

lemma match_at_split:
  assumes "match_at s = Some b"
  shows "s = ''${{'' @ b @ ''}}'' @ drop (length b + 5) s" and "b \<noteq> []"
    and "list_all (\<lambda>c. \<not> is_brace c) b"
proof -
  from assms have pre: "HasPrefix s ''${{''" and b: "b = takeWhile (\<lambda>c. \<not> is_brace c) (drop 3 s)"
    and ne: "b \<noteq> []" and post: "HasPrefix (drop (3 + length b) s) ''}}''"
    by (auto simp: match_at_def Let_def split: if_splits)
  from pre obtain r where s: "s = ''${{'' @ r" unfolding HasPrefix_iff by blast
  then have "drop 3 s = r" by simp
  with b have "r = b @ dropWhile (\<lambda>c. \<not> is_brace c) r"
    using takeWhile_dropWhile_id [of "\<lambda>c. \<not> is_brace c" r] by simp
  then obtain r' where r: "r = b @ r'" by blast
  have "drop (3 + length b) s = r'"
    using drop_token(1) [of b r'] unfolding s r by (simp add: add.commute)
  with post obtain t where "r' = ''}}'' @ t"
    unfolding HasPrefix_iff by auto
  with s r have "s = ''${{'' @ b @ ''}}'' @ t" by simp
  moreover from this have "drop (length b + 5) s = t"
    using drop_token(2) [of b t] by simp
  ultimately show "s = ''${{'' @ b @ ''}}'' @ drop (length b + 5) s" by simp
  show "b \<noteq> []" by (rule ne)
  show "list_all (\<lambda>c. \<not> is_brace c) b"
    unfolding b list_all_iff by (auto dest: set_takeWhileD)
qed

lemma unparse_templatePattern: "unparse (templatePattern s) = s"
proof (induction s rule: templatePattern.induct)
  case (2 c cs)
  show ?case
  proof (cases "match_at (c # cs)")
    case None
    with 2 show ?thesis by simp
  next
    case (Some b)
    have "unparse (templatePattern (c # cs))
        = ''${{'' @ b @ ''}}'' @ unparse (templatePattern (drop (length b + 5) (c # cs)))"
      using Some by simp
    also have "\<dots> = ''${{'' @ b @ ''}}'' @ drop (length b + 5) (c # cs)"
      using 2(2) [OF Some] by simp
    also have "\<dots> = c # cs"
      using match_at_split(1) [OF Some] by (rule sym)
    finally show ?thesis .
  qed
qed simp

fun seg_ok :: "segment \<Rightarrow> bool" where
  "seg_ok (Lit c) = (c \<noteq> CHR ''$'')"
| "seg_ok (Tok b) = (b \<noteq> [] \<and> list_all (\<lambda>c. \<not> is_brace c) b)"

lemma takeWhile_body:
  "list_all (\<lambda>c. \<not> is_brace c) b \<Longrightarrow>
     takeWhile (\<lambda>c. \<not> is_brace c) (b @ CHR ''}'' # r) = b"
  by (induction b) (auto simp: is_brace_def)

lemma match_at_unparse:
  "seg_ok (Tok b) \<Longrightarrow> match_at (''${{'' @ b @ ''}}'' @ r) = Some b"
  using drop_token(1) [of b "''}}'' @ r"]
  by (simp add: match_at_def HasPrefix_def takeWhile_body add.commute)

lemma match_at_lit: "c \<noteq> CHR ''$'' \<Longrightarrow> match_at (c # cs) = None"
  by (simp add: match_at_def HasPrefix_def)

lemma templatePattern_unparse:
  "list_all seg_ok segs \<Longrightarrow> templatePattern (unparse segs) = segs"
proof (induction segs)
  case (Cons a segs)
  then show ?case
  proof (cases a)
    case (Tok b)
    with Cons.prems have "match_at (''${{'' @ b @ ''}}'' @ unparse segs) = Some b"
      by (intro match_at_unparse) simp
    with Tok Cons drop_token(2) [of b "unparse segs"] show ?thesis by simp
  qed (simp add: match_at_lit)
qed simp

lemma templatePattern_ok: "Tok b \<in> set (templatePattern s) \<Longrightarrow> seg_ok (Tok b)"
proof (induction s rule: templatePattern.induct)
  case (2 c cs)
  then show ?case
    by (cases "match_at (c # cs)")
      (use match_at_split(2,3)[of "c # cs"] in \<open>auto split: option.splits\<close>)
qed simp

subsection \<open>What resolving a string does\<close>

fun seg_value :: "runtimeContext \<Rightarrow> segment \<Rightarrow> template_error + tvalue option" where
  "seg_value c (Lit x) = Inr (Some (TStr [x]))"
| "seg_value c (Tok b) = lookupTemplateValue c (TrimSpace b)"

fun seg_text :: "runtimeContext \<Rightarrow> segment \<Rightarrow> string" where
  "seg_text c s = (case seg_value c s of Inr (Some v) \<Rightarrow> stringifyTemplateValue v | _ \<Rightarrow> [])"

definition seg_available :: "runtimeContext \<Rightarrow> segment \<Rightarrow> bool" where
  "seg_available c s \<longleftrightarrow> (\<exists>v. seg_value c s = Inr (Some v))"

lemma splice_available:
  "list_all (seg_available c) segs \<Longrightarrow> splice c segs = Inr (Some (concat (map (seg_text c) segs)))"
  by (induction c segs rule: splice.induct)
    (auto simp: seg_available_def split: sum.splits option.splits)

lemma splice_unavailable:
  "\<not> list_all (seg_available c) segs \<Longrightarrow> \<nexists>s. splice c segs = Inr (Some s)"
  by (induction c segs rule: splice.induct)
    (auto simp: seg_available_def split: sum.splits option.splits)

lemma splice_unknown:
  "splice c segs = Inl e \<Longrightarrow> \<exists>b. Tok b \<in> set segs \<and> lookupTemplateValue c (TrimSpace b) = Inl e"
  by (induction c segs rule: splice.induct)
    (auto split: sum.splits option.splits)

lemma merge_get:
  assumes "distinct (map fst ov)"
  shows "obj_get k (mergePayloadMaps base ov) =
    (case obj_get k ov of
       None \<Rightarrow> obj_get k base
     | Some v \<Rightarrow> Some (case (obj_get k base, v) of
                   (Some (JObj ex), JObj m) \<Rightarrow> JObj (mergePayloadMaps ex m)
                 | _ \<Rightarrow> v))"
  using assms
proof (induction ov arbitrary: base)
  case (Cons kv rest)
  obtain key v where kv: "kv = (key, v)" by (cases kv)
  from Cons.prems kv have "obj_get key rest = None"
    by (auto simp: obj_get_def map_of_eq_None_iff image_iff)
  with Cons kv show ?case by (cases "obj_get k rest") auto
qed simp

text \<open>
  Theorem. Finding the templates of a string and writing them back is lossless in both
  directions: the pieces of any string spell it, and a text whose literal characters are not
  dollar signs and whose templates are non-empty and brace-free is cut into exactly its pieces.
\<close>

theorem template_scan_roundtrip:
  "unparse (templatePattern s) = s \<and>
   (list_all seg_ok segs \<longrightarrow> templatePattern (unparse segs) = segs)"
  by (simp add: unparse_templatePattern templatePattern_unparse)

lemma template_scan_roundtrip_witness:
  "templatePattern (unparse [Tok ''title'', Lit CHR ''!'']) = [Tok ''title'', Lit CHR ''!'']"
  using template_scan_roundtrip [of "[]" "[Tok ''title'', Lit CHR ''!'']"]
  by (simp add: is_brace_def)

text \<open>
  Theorem. A text of literals and templates, unless it is a single template, resolves to the
  values spliced in order when every value is available, and to nothing or an error otherwise.
  The values are inserted as they are: a template inside a value, such as one written into the
  notification's message, is not expanded.
\<close>

theorem template_values_spliced_once:
  assumes "list_all seg_ok segs" and "\<forall>b. segs \<noteq> [Tok b]"
  shows "(list_all (seg_available c) segs \<longrightarrow>
            resolveString c (unparse segs) = Inr (Some (TStr (concat (map (seg_text c) segs)))))
       \<and> (\<not> list_all (seg_available c) segs \<longrightarrow>
            (\<nexists>v. resolveString c (unparse segs) = Inr (Some v)))"
proof -
  have "resolveString c (unparse segs)
      = (case splice c segs of
           Inl e \<Rightarrow> Inl e | Inr None \<Rightarrow> Inr None | Inr (Some s) \<Rightarrow> Inr (Some (TStr s)))"
    using assms templatePattern_unparse [of segs]
    by (auto simp: resolveString_def split: list.split segment.split)
  then show ?thesis
    using splice_unavailable [of c segs]
    by (auto simp: splice_available split: sum.splits option.splits)
qed

definition injected_context :: runtimeContext where
  "injected_context =
     \<lparr>rc_sendCtx =
        \<lparr>sc_Status = StatusQuestion, sc_Message = ''${{env.KEY}}'', sc_SessionID = ''s'',
         sc_CWD = [], sc_SessionName = [], sc_GitBranch = [], sc_Folder = [], sc_RawBody = [],
         sc_ActionSummary = [], sc_AgentSource = []\<rparr>,
      rc_title = [], rc_rfc3339 = [], rc_unix = 0, rc_unix_ms = 0,
      rc_env = Map.empty(''KEY'' \<mapsto> ''secret''),
      rc_gitMeta = \<lparr>gm_Branch = [], gm_UserName = [], gm_UserEmail = [], gm_CommitHash = [],
                    gm_CommitShortHash = [], gm_CommitAuthorName = [], gm_CommitAuthorEmail = []\<rparr>,
      rc_uni = id\<rparr>"

lemma template_values_spliced_once_witness:
  "resolveString injected_context ''>${{message}}'' = Inr (Some (TStr ''>${{env.KEY}}''))"
proof -
  have t: "TrimSpace ''message'' = ''message''" by (simp add: visible_def)
  show ?thesis
    using template_values_spliced_once [of "[Lit CHR ''>'', Tok ''message'']" injected_context]
    by (simp add: is_brace_def seg_available_def t lookupTemplateValue_def injected_context_def)
qed

end
