(* ===== verification/Runes.thy ===== *)
theory Runes
  imports GoStrings
begin

text \<open>
  Text in UTF-8, decoded into runes the way a Go conversion to \<^verbatim>\<open>[]rune\<close> does: a rune is
  its encoding, and a byte that starts no rune becomes the replacement character. Encoding a
  string as JSON makes the same replacement, so a string read back is \<^verbatim>\<open>json_string\<close> of
  the one written.
\<close>

definition byte_in :: "nat \<Rightarrow> nat \<Rightarrow> char \<Rightarrow> bool" where
  "byte_in lo hi c \<longleftrightarrow> lo \<le> (of_char c :: nat) \<and> (of_char c :: nat) \<le> hi"

abbreviation cont :: "char \<Rightarrow> bool" where
  "cont \<equiv> byte_in 128 191"

definition second_ok :: "nat \<Rightarrow> char \<Rightarrow> bool" where
  "second_ok b0 c =
     (if b0 = 224 then byte_in 160 191 c
      else if b0 = 237 then byte_in 128 159 c
      else if b0 = 240 then byte_in 144 191 c
      else if b0 = 244 then byte_in 128 143 c
      else cont c)"

definition rune_len :: "string \<Rightarrow> nat" where
  "rune_len s =
     (case s of
        [] \<Rightarrow> 0
      | c0 # t \<Rightarrow>
          let b0 = of_char c0 :: nat in
          if b0 < 128 then 1
          else if b0 < 194 then 0
          else if b0 < 224 then (case t of c1 # _ \<Rightarrow> if cont c1 then 2 else 0 | _ \<Rightarrow> 0)
          else if b0 < 240 then
            (case t of c1 # c2 # _ \<Rightarrow> if second_ok b0 c1 \<and> cont c2 then 3 else 0 | _ \<Rightarrow> 0)
          else if b0 < 245 then
            (case t of c1 # c2 # c3 # _ \<Rightarrow>
               if second_ok b0 c1 \<and> cont c2 \<and> cont c3 then 4 else 0 | _ \<Rightarrow> 0)
          else 0)"

definition replacement :: string where
  "replacement = bytes [239, 191, 189]"

function runes :: "string \<Rightarrow> string list" where
  "runes [] = []"
| "runes (c # cs) =
     (let n = rune_len (c # cs)
      in if n = 0 then replacement # runes cs
         else take n (c # cs) # runes (drop n (c # cs)))"
  by pat_completeness auto
termination
  by (relation "measure length") auto

definition json_string :: "string \<Rightarrow> string" where
  "json_string s = concat (runes s)"

subsection \<open>Runes survive cutting and joining\<close>

definition is_rune :: "string \<Rightarrow> bool" where
  "is_rune r \<longleftrightarrow> r \<noteq> [] \<and> rune_len r = length r"

lemma list_upto4:
  obtains "s = []" | a where "s = [a]" | a b where "s = [a, b]" | a b c where "s = [a, b, c]"
    | a b c d u where "s = a # b # c # d # u"
  by (cases s rule: list.exhaust, blast)
    (metis list.exhaust)

lemma rune_len_take:
  assumes "0 < rune_len s"
  shows "rune_len s \<le> length s" and "rune_len (take (rune_len s) s @ t) = rune_len s"
proof -
  have "rune_len s \<le> length s \<and> rune_len (take (rune_len s) s @ t) = rune_len s"
    using assms
    by (cases s rule: list_upto4) (auto simp: rune_len_def Let_def split: if_splits)
  then show "rune_len s \<le> length s" "rune_len (take (rune_len s) s @ t) = rune_len s"
    by simp_all
qed

lemma is_rune_replacement: "is_rune replacement"
  by (simp add: is_rune_def replacement_def rune_len_def bytes_def second_ok_def byte_in_def)

lemma is_rune_take: "0 < rune_len s \<Longrightarrow> is_rune (take (rune_len s) s)"
  using rune_len_take(1) [of s] rune_len_take(2) [of s "[]"] by (auto simp: is_rune_def)

lemma is_rune_append: "is_rune r \<Longrightarrow> rune_len (r @ t) = length r"
  using rune_len_take(2) [of r t] by (simp add: is_rune_def)

lemma runes_are_runes: "r \<in> set (runes s) \<Longrightarrow> is_rune r"
proof (induction s rule: runes.induct)
  case (2 c cs)
  then show ?case
    by (cases "rune_len (c # cs) = 0")
      (auto simp: Let_def is_rune_replacement simp del: take_Suc_Cons intro: is_rune_take)
qed simp

lemma runes_append: "is_rune r \<Longrightarrow> runes (r @ t) = r # runes t"
proof -
  assume r: "is_rune r"
  then obtain c cs where rc: "r = c # cs" by (cases r) (auto simp: is_rune_def)
  have "rune_len (c # (cs @ t)) = Suc (length cs)"
    using is_rune_append [OF r, of t] rc by simp
  then show ?thesis by (simp add: rc Let_def)
qed

lemma runes_concat: "list_all is_rune rs \<Longrightarrow> runes (concat rs @ t) = rs @ runes t"
  by (induction rs) (auto simp: runes_append)

lemma runes_ascii: "is_ascii c \<Longrightarrow> runes (c # t) = [c] # runes t"
  by (simp add: rune_len_def is_ascii_def)

declare runes.simps(2) [simp del]

lemma runes_json_string: "runes (json_string s) = runes s"
  using runes_concat [of "runes s" "[]"]
  by (simp add: json_string_def list_all_iff runes_are_runes)

lemma json_string_idem [simp]: "json_string (json_string s) = json_string s"
  by (simp add: json_string_def runes_json_string [unfolded json_string_def])

lemma json_string_Nil [simp]: "json_string [] = []"
  by (simp add: json_string_def)

lemma json_string_eq_Nil [simp]: "json_string s = [] \<longleftrightarrow> s = []"
proof (cases s)
  case (Cons c cs)
  then have "runes s \<noteq> []" by (simp add: runes.simps(2) Let_def)
  then show ?thesis
    using runes_are_runes [of _ s] Cons by (cases "runes s") (auto simp: json_string_def is_rune_def)
qed simp

lemma json_string_ascii: "list_all is_ascii s \<Longrightarrow> json_string s = s"
  by (induction s) (auto simp: json_string_def runes_ascii)

subsection \<open>Counting runes of a part\<close>

lemma rune_bytes: "is_rune r \<Longrightarrow> length r = 1 \<or> (\<forall>c \<in> set r. \<not> is_ascii c)"
  by (cases r rule: list_upto4)
    (auto simp: is_rune_def rune_len_def is_ascii_def second_ok_def byte_in_def Let_def
      split: if_splits list.splits)

text \<open>Cutting at an ASCII character cuts between runes.\<close>

lemma cut_at_ascii:
  "list_all is_rune rs \<Longrightarrow> k < length (concat rs) \<Longrightarrow> is_ascii (concat rs ! k) \<Longrightarrow>
     \<exists>j < length rs. take k (concat rs) = concat (take j rs)
        \<and> take (k + 1) (concat rs) = concat (take (j + 1) rs)"
proof (induction rs arbitrary: k)
  case (Cons r rs)
  show ?case
  proof (cases "k < length r")
    case True
    with Cons.prems have "is_ascii (r ! k)" "r ! k \<in> set r" by (auto simp: nth_append)
    with Cons.prems(1) rune_bytes [of r] have "length r = 1" by auto
    with True show ?thesis by (intro exI [of _ 0]) (auto simp: length_Suc_conv)
  next
    case False
    then have *: "k - length r < length (concat rs)" "is_ascii (concat rs ! (k - length r))"
      using Cons.prems by (auto simp: nth_append)
    from Cons.IH [OF _ *] Cons.prems(1) obtain j where j: "j < length rs"
      "take (k - length r) (concat rs) = concat (take j rs)"
      "take (k - length r + 1) (concat rs) = concat (take (j + 1) rs)" by auto
    with False show ?thesis
      by (intro exI [of _ "Suc j"]) (auto simp: Suc_diff_le not_less)
  qed
qed simp

lemma runes_of_concat: "list_all is_rune rs \<Longrightarrow> runes (concat rs) = rs"
  using runes_concat [of rs "[]"] by simp

lemma runes_text: "list_all is_rune (runes s)"
  by (simp add: list_all_iff runes_are_runes)

lemma runes_take: "list_all is_rune (take k (runes s))"
  using runes_text [of s] by (auto simp: list_all_iff dest: in_set_takeD)

lemma space_runes_are_runes: "w \<in> set space_runes \<Longrightarrow> is_rune w \<and> \<not> cont (hd w)"
  by (auto simp: space_runes_def bytes_def is_rune_def rune_len_def second_ok_def byte_in_def)

lemma second_ok_cont: "second_ok b c \<Longrightarrow> cont c"
  by (auto simp: second_ok_def byte_in_def split: if_splits)

lemma rune_len_append_new:
  assumes "s \<noteq> []" and "w \<noteq> []" and "\<not> cont (hd w)"
  shows "rune_len (s @ w) = rune_len s"
proof -
  obtain d w' where w: "w = d # w'" using assms(2) by (cases w) auto
  with assms(3) have "\<not> cont d" "\<not> second_ok b d" for b by (auto dest: second_ok_cont)
  with assms(1) w show ?thesis
    by (cases s rule: list_upto4) (simp_all add: rune_len_def Let_def split: list.split)
qed

lemma runes_append_new:
  "w \<noteq> [] \<Longrightarrow> \<not> cont (hd w) \<Longrightarrow> runes (s @ w) = runes s @ runes w"
proof (induction s rule: runes.induct)
  case (2 c cs)
  have n: "rune_len (c # cs @ w) = rune_len (c # cs)"
    using rune_len_append_new [of "c # cs" w] 2 by simp
  have "rune_len (c # cs) \<le> Suc (length cs)"
    using rune_len_take(1) [of "c # cs"] by (cases "rune_len (c # cs) = 0") auto
  then show ?case
    using 2 n by (auto simp: runes.simps(2) Let_def take_Cons' drop_Cons')
qed simp

lemma runes_TrimLeftSpace: "length (runes (TrimLeftSpace s)) \<le> length (runes s)"
proof (induction s rule: TrimLeftSpace.induct)
  case (1 s)
  show ?case
  proof (cases "find (HasPrefix s) space_runes")
    case (Some w)
    then have w: "w \<in> set space_runes" "HasPrefix s w" by (auto simp: find_Some_iff)
    then obtain t where s: "s = w @ t" by (auto simp: HasPrefix_iff)
    have len: "leading_space s = length w" using Some by (simp add: leading_space_def)
    have t: "drop (leading_space s) s = t" unfolding len by (simp add: s)
    have pos: "0 < leading_space s \<and> s \<noteq> []" using len s space_runes_nonempty [OF w(1)] by auto
    have "TrimLeftSpace s = TrimLeftSpace t"
      by (subst TrimLeftSpace.simps) (simp only: pos t if_True simp_thms)
    moreover have "length (runes (TrimLeftSpace t)) \<le> length (runes t)"
      using 1 [OF pos] by (simp only: t)
    moreover have "runes s = w # runes t"
      using space_runes_are_runes [OF w(1)] unfolding s by (simp add: runes_append)
    ultimately show ?thesis by simp
  next
    case None
    then have "leading_space s = 0" by (simp add: leading_space_def)
    then show ?thesis by (subst TrimLeftSpace.simps) simp
  qed
qed

lemma runes_TrimRightSpace: "length (runes (TrimRightSpace s)) \<le> length (runes s)"
proof (induction s rule: TrimRightSpace.induct)
  case (1 s)
  show ?case
  proof (cases "find (HasSuffix s) space_runes")
    case (Some w)
    let ?t = "take (length s - length w) s"
    from Some have w: "w \<in> set space_runes" "HasSuffix s w" by (auto simp: find_Some_iff)
    then have s: "?t @ w = s" by (metis HasSuffix_def append_take_drop_id)
    have len: "trailing_space s = length w" using Some by (simp add: trailing_space_def)
    have wne: "w \<noteq> []" using w(1) by (rule space_runes_nonempty)
    then have pos: "0 < trailing_space s \<and> s \<noteq> []" using len s by auto
    have "TrimRightSpace s = TrimRightSpace ?t"
      by (subst TrimRightSpace.simps) (use pos in \<open>simp add: len\<close>)
    moreover have "length (runes (TrimRightSpace ?t)) \<le> length (runes ?t)"
      using 1 [OF pos] by (simp only: len)
    moreover have "runes (?t @ w) = runes ?t @ runes w"
      using wne space_runes_are_runes [OF w(1)] by (intro runes_append_new) simp_all
    then have "length (runes ?t) \<le> length (runes s)" by (simp only: s) simp
    ultimately show ?thesis by (simp only: le_trans)
  next
    case None
    then have "trailing_space s = 0" by (simp add: trailing_space_def)
    then show ?thesis by (subst TrimRightSpace.simps) simp
  qed
qed

lemma runes_TrimSpace: "length (runes (TrimSpace s)) \<le> length (runes s)"
  unfolding TrimSpace_def
  by (rule le_trans [OF runes_TrimRightSpace runes_TrimLeftSpace])

subsection \<open>Words\<close>

fun take_word :: "string \<Rightarrow> string" where
  "take_word [] = []"
| "take_word (c # cs) = (if 0 < leading_space (c # cs) then [] else c # take_word cs)"

lemma take_word_nonempty: "s \<noteq> [] \<Longrightarrow> leading_space s = 0 \<Longrightarrow> take_word s \<noteq> []"
  by (cases s) auto

function Fields :: "string \<Rightarrow> string list" where
  "Fields s =
     (let t = TrimLeftSpace s in
      if t = [] then [] else take_word t # Fields (drop (length (take_word t)) t))"
  by pat_completeness auto
termination
proof (relation "measure length", goal_cases)
  case (2 s t)
  then have "t \<noteq> []" "leading_space t = 0" by (simp_all add: TrimLeftSpace_done)
  then have "take_word t \<noteq> []" by (rule take_word_nonempty)
  then have "1 \<le> length (take_word t)" "1 \<le> length t" using \<open>t \<noteq> []\<close>
    by (simp_all add: Suc_le_eq)
  moreover have "length t \<le> length s" using 2 by (simp add: length_TrimLeftSpace)
  ultimately have "length t - length (take_word t) < length s" by linarith
  then show ?case by simp
qed simp

declare Fields.simps [simp del]

definition one_line :: "string \<Rightarrow> string" where
  "one_line s = Join (Fields s) '' ''"

subsection \<open>Valid text and control characters\<close>

definition valid_utf8 :: "string \<Rightarrow> bool" where
  "valid_utf8 s \<longleftrightarrow> concat (runes s) = s"

definition control_rune :: "string \<Rightarrow> bool" where
  "control_rune r =
     (case r of
        [c] \<Rightarrow> byte_in 0 31 c \<or> byte_in 127 127 c
      | [c, d] \<Rightarrow> byte_in 194 194 c \<and> byte_in 128 159 d
      | _ \<Rightarrow> False)"

end
