(* ===== verification/Formatters.thy ===== *)
theory Formatters
  imports Template Runes
begin

text \<open>
  \<^verbatim>\<open>internal/webhook/formatters.go\<close>: the payloads of the Slack, Discord, Telegram
  and Lark presets. The clock's readings are arguments.
\<close>

definition discordEmbedAuthorLimit :: int where "discordEmbedAuthorLimit = 256"
definition discordEmbedFooterLimit :: int where "discordEmbedFooterLimit = 2048"

definition agentNotificationsLogoURL :: string where
  "agentNotificationsLogoURL =
     ''https://777genius.github.io/agent-notifications/agent-notifications-logo.png''"

definition agentDisplayName :: "string \<Rightarrow> string" where
  "agentDisplayName source =
     (let normalized = normalizeAgentSource source in
      if normalized = ''codex'' then ''Codex''
      else if normalized = ''opencode'' then ''OpenCode''
      else if normalized = ''gemini'' then ''Gemini CLI''
      else if normalized = ''pi'' then ''Pi''
      else if normalized = ''qoder'' then ''Qoder''
      else if normalized = ''claude'' then ''Claude''
      else normalized)"

subsection \<open>Truncation\<close>

definition truncateMiddle :: "string \<Rightarrow> int \<Rightarrow> string" where
  "truncateMiddle s limit =
     (let rs = runes s in
      if int (length rs) \<le> limit \<or> limit \<le> 0 then s
      else if limit = 1 then concat (take 1 rs)
      else if limit = 2 then ''..''
      else
        (let available = limit - 3;
             head = available div 2;
             tail = available - head
         in concat (take (nat head) rs) @ ''...'' @ concat (drop (length rs - nat tail) rs)))"

subsection \<open>Action segments\<close>

fun Split_from :: "string \<Rightarrow> string \<Rightarrow> string \<Rightarrow> string list" where
  "Split_from sep acc [] = [rev acc]"
| "Split_from sep acc (c # cs) =
     (if sep \<noteq> [] \<and> HasPrefix (c # cs) sep
      then rev acc # Split_from sep [] (drop (length sep - 1) cs)
      else Split_from sep (c # acc) cs)"

definition actionEmojiField :: "(string \<times> string) list" where
  "actionEmojiField =
     [(bytes [240, 159, 147, 157], ''New''),
      (bytes [226, 156, 143, 239, 184, 143], ''Edited''),
      (bytes [226, 150, 182], ''Commands''),
      (bytes [226, 143, 177], ''Duration'')]"

definition embed_field :: "string \<Rightarrow> string \<Rightarrow> json" where
  "embed_field name v = JObj [(''name'', JStr name), (''value'', JStr v), (''inline'', JBool True)]"

fun action_fields :: "string list \<Rightarrow> json list \<times> string list" where
  "action_fields [] = ([], [])"
| "action_fields (seg # segs) =
     (let (flds, unknown) = action_fields segs; seg = TrimSpace seg in
      if seg = [] then (flds, unknown)
      else (case find (\<lambda>(p, name). HasPrefix seg p) actionEmojiField of
              Some (p, name) \<Rightarrow>
                (let v = TrimSpace (TrimPrefix seg p)
                 in if v = [] then (flds, unknown) else (embed_field name v # flds, unknown))
            | None \<Rightarrow> (flds, seg # unknown)))"

definition parseActionSummary :: "string \<Rightarrow> json list" where
  "parseActionSummary s =
     (let s = TrimSpace s in
      if s = [] then []
      else (let (flds, unknown) = action_fields (Split_from ''  '' [] s)
            in if unknown \<noteq> [] then flds @ [embed_field ''Details'' (Join unknown '' '')]
               else flds))"

subsection \<open>Status styles\<close>

fun getColorForStatus :: "status \<Rightarrow> string" where
  "getColorForStatus StatusTaskComplete = ''#28a745''"
| "getColorForStatus StatusReviewComplete = ''#17a2b8''"
| "getColorForStatus StatusQuestion = ''#ffc107''"
| "getColorForStatus StatusPlanReady = ''#007bff''"
| "getColorForStatus StatusPermissionRequest = ''#fd7e14''"
| "getColorForStatus _ = ''#6c757d''"

fun getDiscordColorInt :: "status \<Rightarrow> int" where
  "getDiscordColorInt StatusTaskComplete = 0x28a745"
| "getDiscordColorInt StatusReviewComplete = 0x17a2b8"
| "getDiscordColorInt StatusQuestion = 0xffc107"
| "getDiscordColorInt StatusPlanReady = 0x007bff"
| "getDiscordColorInt StatusPermissionRequest = 0xfd7e14"
| "getDiscordColorInt _ = 0x6c757d"

fun getEmojiForStatus :: "status \<Rightarrow> string" where
  "getEmojiForStatus StatusTaskComplete = bytes [226, 156, 133]"
| "getEmojiForStatus StatusReviewComplete = bytes [240, 159, 148, 141]"
| "getEmojiForStatus StatusQuestion = bytes [226, 157, 147]"
| "getEmojiForStatus StatusPlanReady = bytes [240, 159, 147, 139]"
| "getEmojiForStatus StatusPermissionRequest = bytes [240, 159, 148, 144]"
| "getEmojiForStatus _ = bytes [226, 132, 185, 239, 184, 143]"

fun getLarkColorTemplate :: "status \<Rightarrow> string" where
  "getLarkColorTemplate StatusTaskComplete = ''green''"
| "getLarkColorTemplate StatusReviewComplete = ''yellow''"
| "getLarkColorTemplate StatusQuestion = ''red''"
| "getLarkColorTemplate StatusPlanReady = ''blue''"
| "getLarkColorTemplate StatusPermissionRequest = ''orange''"
| "getLarkColorTemplate _ = ''grey''"

subsection \<open>The presets\<close>

definition middle_dot :: string where
  "middle_dot = '' '' @ bytes [194, 183] @ '' ''"

definition SlackFormatter_Format :: "int \<Rightarrow> SendContext \<Rightarrow> string \<Rightarrow> json" where
  "SlackFormatter_Format now ctx title =
     JObj [(''attachments'', JArr
       [JObj [(''color'', JStr (getColorForStatus (sc_Status ctx))),
              (''title'', JStr title),
              (''text'', JStr (sc_Message ctx)),
              (''footer'', JStr (''Session: '' @ sc_SessionID ctx @ '' | ''
                                  @ agentDisplayName (sc_AgentSource ctx))),
              (''footer_icon'', JStr agentNotificationsLogoURL),
              (''ts'', JInt now),
              (''mrkdwn_in'', JArr [JStr ''text''])]])]"

definition buildDiscordAuthor :: "(string \<Rightarrow> string) \<Rightarrow> SendContext \<Rightarrow> string" where
  "buildDiscordAuthor uni ctx =
     (let name = (if sc_SessionName ctx = [] \<and> sc_SessionID ctx \<noteq> []
                  then GenerateSessionLabel uni (sc_SessionID ctx) else sc_SessionName ctx)
      in if name = [] then []
         else
           (let parts = [name] @ (if sc_Folder ctx \<noteq> [] then [sc_Folder ctx] else []);
                author = Join parts middle_dot;
                author = (if sc_GitBranch ctx \<noteq> [] then author @ '' ('' @ sc_GitBranch ctx @ '')''
                          else author)
            in truncateMiddle author discordEmbedAuthorLimit))"

definition buildDiscordFooter :: "SendContext \<Rightarrow> string" where
  "buildDiscordFooter ctx =
     (if sc_SessionID ctx = [] then ''Agent Notifications''
      else truncateMiddle (''Session: '' @ sc_SessionID ctx) discordEmbedFooterLimit)"

definition DiscordFormatter_Format ::
    "(string \<Rightarrow> string) \<Rightarrow> string \<Rightarrow> SendContext \<Rightarrow> string \<Rightarrow> json" where
  "DiscordFormatter_Format uni now3339 ctx title =
     (let author = buildDiscordAuthor uni ctx;
          body = TrimSpace (sc_RawBody ctx);
          description = (if body = [] then sc_Message ctx else body);
          flds = parseActionSummary (sc_ActionSummary ctx);
          embed =
            [(''title'', JStr title),
             (''color'', JInt (getDiscordColorInt (sc_Status ctx))),
             (''timestamp'', JStr now3339)]
            @ (if author \<noteq> [] then [(''author'', JObj [(''name'', JStr author)])] else [])
            @ (if description \<noteq> [] then [(''description'', JStr description)] else [])
            @ (if flds \<noteq> [] then [(''fields'', JArr flds)] else [])
            @ [(''footer'', JObj [(''text'', JStr (buildDiscordFooter ctx))])]
      in JObj [(''username'', JStr (agentDisplayName (sc_AgentSource ctx))),
               (''avatar_url'', JStr agentNotificationsLogoURL),
               (''embeds'', JArr [JObj embed])])"

definition newline :: string where
  "newline = bytes [10]"

definition TelegramFormatter_Format :: "string \<Rightarrow> SendContext \<Rightarrow> string \<Rightarrow> json" where
  "TelegramFormatter_Format chatID ctx title =
     (let text = ''<b>'' @ getEmojiForStatus (sc_Status ctx) @ '' '' @ title @ ''</b>''
            @ newline @ newline @ sc_Message ctx @ newline @ newline
            @ ''<i>Session: '' @ sc_SessionID ctx @ middle_dot
            @ agentDisplayName (sc_AgentSource ctx) @ ''</i>''
      in JObj [(''chat_id'', JStr chatID), (''text'', JStr text), (''parse_mode'', JStr ''HTML'')])"

definition plain_text :: "string \<Rightarrow> json" where
  "plain_text s = JObj [(''tag'', JStr ''plain_text''), (''content'', JStr s)]"

definition LarkFormatter_Format :: "SendContext \<Rightarrow> string \<Rightarrow> json" where
  "LarkFormatter_Format ctx title =
     JObj [(''msg_type'', JStr ''interactive''),
           (''card'', JObj
             [(''config'', JObj [(''wide_screen_mode'', JBool True)]),
              (''header'', JObj
                [(''title'', plain_text title),
                 (''template'', JStr (getLarkColorTemplate (sc_Status ctx)))]),
              (''elements'', JArr
                [JObj [(''tag'', JStr ''div''), (''text'', plain_text (sc_Message ctx))],
                 JObj [(''tag'', JStr ''hr'')],
                 JObj [(''tag'', JStr ''div''),
                       (''text'', plain_text (''Session: '' @ sc_SessionID ctx @ middle_dot
                                    @ agentDisplayName (sc_AgentSource ctx)))]])])]"

subsection \<open>Truncation keeps the limit\<close>

lemma truncateMiddle_runes:
  assumes "0 < limit"
  shows "int (length (runes (truncateMiddle s limit))) \<le> limit"
proof -
  let ?rs = "runes s"
  have all: "list_all is_rune ?rs" by (auto simp: list_all_iff runes_are_runes)
  have tk: "list_all is_rune (take n ?rs)" and dr: "list_all is_rune (drop n ?rs)" for n
    using all by (auto simp: list_all_iff dest: in_set_takeD in_set_dropD)
  consider "int (length ?rs) \<le> limit" | "limit < int (length ?rs)" "limit = 1"
    | "limit < int (length ?rs)" "limit = 2" | "limit < int (length ?rs)" "3 \<le> limit"
    using assms by linarith
  then show ?thesis
  proof cases
    case 2
    then show ?thesis
      using runes_concat [OF tk, of 1 "[]"] by (simp add: truncateMiddle_def)
  next
    case 3
    have "runes ''..'' = [''.'', ''.'']"
      using runes_ascii [of "CHR ''.''" "''.''"] runes_ascii [of "CHR ''.''" "[]"]
      by (simp add: is_ascii_def)
    with 3 show ?thesis by (simp add: truncateMiddle_def)
  next
    case 4
    let ?h = "nat ((limit - 3) div 2)" and ?t = "nat (limit - 3 - (limit - 3) div 2)"
    have eq: "truncateMiddle s limit
        = concat (take ?h ?rs) @ ''...'' @ concat (drop (length ?rs - ?t) ?rs)"
      using 4 by (simp add: truncateMiddle_def Let_def)
    have "runes (''...'' @ concat (drop (length ?rs - ?t) ?rs))
        = [''.'', ''.'', ''.''] @ drop (length ?rs - ?t) ?rs"
      using runes_concat [OF dr, of "length ?rs - ?t" "[]"]
      by (simp add: runes_ascii is_ascii_def)
    then have "runes (truncateMiddle s limit)
        = take ?h ?rs @ [''.'', ''.'', ''.''] @ drop (length ?rs - ?t) ?rs"
      unfolding eq by (simp only: runes_concat [OF tk])
    then have "length (runes (truncateMiddle s limit)) \<le> ?h + 3 + ?t"
      by (simp, linarith)
    then show ?thesis using 4 by linarith
  qed (simp add: truncateMiddle_def)
qed

subsection \<open>Embed fields\<close>

definition field_ok :: "json \<Rightarrow> bool" where
  "field_ok j \<longleftrightarrow> (\<exists>name v. j = embed_field name v \<and> v \<noteq> [])"

lemma field_okI: "v \<noteq> [] \<Longrightarrow> field_ok (embed_field name v)"
  by (auto simp: field_ok_def)

lemma Join_nonempty: "xs \<noteq> [] \<Longrightarrow> list_all (\<lambda>x. x \<noteq> []) xs \<Longrightarrow> Join xs sep \<noteq> []"
  by (induction xs sep rule: Join.induct) auto

lemma action_fields_ok:
  "list_all field_ok (fst (action_fields segs)) \<and>
   list_all (\<lambda>x. x \<noteq> []) (snd (action_fields segs))"
  by (induction segs)
    (auto simp: Let_def split_beta intro: field_okI split: option.split)

lemma parseActionSummary_ok: "list_all field_ok (parseActionSummary s)"
  using action_fields_ok [of "Split_from ''  '' [] (TrimSpace s)"]
  by (simp add: parseActionSummary_def Let_def split_beta field_okI Join_nonempty)

text \<open>
  Theorem. The rich embed respects Discord's limits, which reject a whole message that
  breaks them: the author line and the footer have at most 256 and 2048 characters, whatever the
  session, folder and branch are called, and every field cut from an action summary has a
  non-empty value.
\<close>

theorem discord_limits:
  "length (runes (buildDiscordAuthor uni ctx)) \<le> 256 \<and>
   length (runes (buildDiscordFooter ctx)) \<le> 2048 \<and>
   list_all field_ok (parseActionSummary summary)"
proof -
  have "length (runes ''Agent Notifications'') \<le> 2048"
    by (simp add: runes_ascii is_ascii_def)
  then have "length (runes (buildDiscordFooter ctx)) \<le> 2048"
    using truncateMiddle_runes [of 2048 "''Session: '' @ sc_SessionID ctx"]
    unfolding buildDiscordFooter_def discordEmbedFooterLimit_def by auto
  moreover have "length (runes (buildDiscordAuthor uni ctx)) \<le> 256"
    using truncateMiddle_runes [of 256]
    by (auto simp: buildDiscordAuthor_def discordEmbedAuthorLimit_def Let_def)
  ultimately show ?thesis by (simp add: parseActionSummary_ok)
qed

end
