(* ===== verification/Config.thy ===== *)
theory Config
  imports Json
begin

text \<open>
  \<^verbatim>\<open>internal/config\<close>: the configuration (\<^verbatim>\<open>config.go\<close>), its accessors
  (\<^verbatim>\<open>config_accessors.go\<close>), validation (\<^verbatim>\<open>config_validation.go\<close>) and
  defaults (\<^verbatim>\<open>config_defaults.go\<close>). A pointer field is an option, a map that may be
  nil an option of an association list or map. \<^verbatim>\<open>filepath.Join\<close> is an argument.
\<close>

subsection \<open>The data\<close>

datatype float64 = Fin rat | PosInf | NegInf | NaN

fun IsNaN :: "float64 \<Rightarrow> bool" where
  "IsNaN NaN = True"
| "IsNaN f = False"

text \<open>Comparison of floats: no comparison with NaN holds.\<close>

fun flt_less :: "float64 \<Rightarrow> float64 \<Rightarrow> bool" where
  "flt_less (Fin a) (Fin b) = (a < b)"
| "flt_less NaN b = False"
| "flt_less a NaN = False"
| "flt_less NegInf b = (b \<noteq> NegInf)"
| "flt_less a PosInf = (a \<noteq> PosInf)"
| "flt_less a b = False"

record RetrySettings =
  rs_Enabled :: bool
  rs_MaxAttempts :: int
  rs_InitialBackoff :: string
  rs_MaxBackoff :: string

record CircuitBreakerSettings =
  cs_Enabled :: bool
  cs_FailureThreshold :: int
  cs_Timeout :: string
  cs_SuccessThreshold :: int

record RateLimitSettings =
  rl_Enabled :: bool
  rl_RequestsPerMinute :: int

record WebhookConfig =
  wc_Enabled :: bool
  wc_Preset :: string
  wc_URL :: string
  wc_ChatID :: string
  wc_Format :: string
  wc_Headers :: "(string \<times> string) list option"
  wc_PayloadFields :: "jobj option"
  wc_Retry :: RetrySettings
  wc_CircuitBreaker :: CircuitBreakerSettings
  wc_RateLimit :: RateLimitSettings

record DesktopConfig =
  dc_Enabled :: bool
  dc_Sound :: bool
  dc_SystemSound :: "bool option"
  dc_TerminalBell :: "bool option"
  dc_Volume :: float64
  dc_AudioDevice :: string
  dc_AppIcon :: string
  dc_ClickToFocus :: bool
  dc_TerminalClickConsentVersion :: "int option"
  dc_ShowSessionLabel :: "bool option"
  dc_TerminalBundleID :: string
  dc_ZellijFocus :: string

record SuppressFilter =
  sf_Name :: string
  sf_Status :: "string option"
  sf_GitBranch :: "string option"
  sf_Folder :: "string option"

record NotificationsConfig =
  nc_Desktop :: DesktopConfig
  nc_Webhook :: WebhookConfig
  nc_SuppressQuestionAfterTaskCompleteSeconds :: "int option"
  nc_SuppressQuestionAfterAnyNotificationSeconds :: "int option"
  nc_NotifyOnSubagentStop :: bool
  nc_SuppressForSubagents :: "bool option"
  nc_NotifyOnTextResponse :: "bool option"
  nc_RespectJudgeMode :: "bool option"
  nc_SuppressFilters :: "SuppressFilter list"
  nc_TeamMode :: string
  nc_NotifyOnlyWhenUnfocused :: "bool option"
  nc_NotifyDelaySeconds :: "int option"
  nc_RespectDoNotDisturb :: "string option"
  nc_RespectDisplaySleep :: "bool option"
  nc_ReplaceNotificationsPerSession :: "bool option"

text \<open>A channel override is a pointer to a struct with a pointer: two levels of option.\<close>

record StatusInfo =
  si_Enabled :: "bool option"
  si_Desktop :: "bool option option"
  si_Webhook :: "bool option option"
  si_Title :: string
  si_Sound :: string

record Config =
  c_Notifications :: NotificationsConfig
  c_Statuses :: "(string \<rightharpoonup> StatusInfo) option"
  c_Benchmark :: bool

abbreviation c_Webhook :: "Config \<Rightarrow> WebhookConfig" where
  "c_Webhook c \<equiv> nc_Webhook (c_Notifications c)"

abbreviation c_Desktop :: "Config \<Rightarrow> DesktopConfig" where
  "c_Desktop c \<equiv> nc_Desktop (c_Notifications c)"

text \<open>Reading a map that may be nil.\<close>

definition status_lookup :: "Config \<Rightarrow> string \<Rightarrow> StatusInfo option" where
  "status_lookup c st = (case c_Statuses c of None \<Rightarrow> None | Some m \<Rightarrow> m st)"

definition deref :: "'a \<Rightarrow> 'a option \<Rightarrow> 'a" where
  "deref d p = (case p of None \<Rightarrow> d | Some v \<Rightarrow> v)"

lemma deref_simps [simp]: "deref d None = d" "deref d (Some v) = v"
  by (simp_all add: deref_def)

subsection \<open>Suppress filters\<close>

definition Matches :: "SuppressFilter \<Rightarrow> string \<Rightarrow> string \<Rightarrow> string \<Rightarrow> bool" where
  "Matches f st gitBranch folder =
     (if sf_Status f \<noteq> None \<and> the (sf_Status f) \<noteq> st then False
      else if sf_GitBranch f \<noteq> None \<and> the (sf_GitBranch f) \<noteq> gitBranch then False
      else if sf_Folder f \<noteq> None \<and> the (sf_Folder f) \<noteq> folder then False
      else True)"

definition HasConditions :: "SuppressFilter \<Rightarrow> bool" where
  "HasConditions f \<longleftrightarrow> sf_Status f \<noteq> None \<or> sf_GitBranch f \<noteq> None \<or> sf_Folder f \<noteq> None"

fun filter_any :: "SuppressFilter list \<Rightarrow> string \<Rightarrow> string \<Rightarrow> string \<Rightarrow> bool" where
  "filter_any [] st gitBranch folder = False"
| "filter_any (f # fs) st gitBranch folder =
     (if \<not> HasConditions f then filter_any fs st gitBranch folder
      else if Matches f st gitBranch folder then True
      else filter_any fs st gitBranch folder)"

definition ShouldFilter :: "Config \<Rightarrow> string \<Rightarrow> string \<Rightarrow> string \<Rightarrow> bool" where
  "ShouldFilter c = filter_any (nc_SuppressFilters (c_Notifications c))"

subsection \<open>Accessors\<close>

definition GetStatusInfo :: "Config \<Rightarrow> string \<Rightarrow> StatusInfo \<times> bool" where
  "GetStatusInfo c st =
     (case status_lookup c st of
        Some info \<Rightarrow> (info, True)
      | None \<Rightarrow> (\<lparr>si_Enabled = None, si_Desktop = None, si_Webhook = None, si_Title = [],
                   si_Sound = []\<rparr>, False))"

definition IsSystemSoundEnabled :: "Config option \<Rightarrow> bool" where
  "IsSystemSoundEnabled oc =
     (case oc of None \<Rightarrow> False
      | Some c \<Rightarrow> dc_Sound (c_Desktop c) \<and> dc_SystemSound (c_Desktop c) = Some True)"

definition IsDesktopEnabled :: "Config \<Rightarrow> bool" where
  "IsDesktopEnabled c = dc_Enabled (c_Desktop c)"

definition IsWebhookEnabled :: "Config \<Rightarrow> bool" where
  "IsWebhookEnabled c = wc_Enabled (c_Webhook c)"

definition IsAnyNotificationEnabled :: "Config \<Rightarrow> bool" where
  "IsAnyNotificationEnabled c \<longleftrightarrow> IsDesktopEnabled c \<or> IsWebhookEnabled c"

definition GetSuppressQuestionAfterTaskCompleteSeconds :: "Config \<Rightarrow> int" where
  "GetSuppressQuestionAfterTaskCompleteSeconds c =
     deref 12 (nc_SuppressQuestionAfterTaskCompleteSeconds (c_Notifications c))"

definition defaultSuppressQuestionAfterAnyNotificationSeconds :: int where
  "defaultSuppressQuestionAfterAnyNotificationSeconds = 7"

definition GetSuppressQuestionAfterAnyNotificationSeconds :: "Config \<Rightarrow> int" where
  "GetSuppressQuestionAfterAnyNotificationSeconds c =
     deref defaultSuppressQuestionAfterAnyNotificationSeconds
       (nc_SuppressQuestionAfterAnyNotificationSeconds (c_Notifications c))"

definition ShouldNotifyOnTextResponse :: "Config \<Rightarrow> bool" where
  "ShouldNotifyOnTextResponse c = deref True (nc_NotifyOnTextResponse (c_Notifications c))"

definition ShouldSuppressForSubagents :: "Config \<Rightarrow> bool" where
  "ShouldSuppressForSubagents c = deref True (nc_SuppressForSubagents (c_Notifications c))"

definition IsBenchmarkEnabled :: "Config \<Rightarrow> bool" where
  "IsBenchmarkEnabled c = c_Benchmark c"

definition ShouldRespectJudgeMode :: "Config \<Rightarrow> bool" where
  "ShouldRespectJudgeMode c = deref True (nc_RespectJudgeMode (c_Notifications c))"

definition ShouldNotifyOnlyWhenUnfocused :: "Config \<Rightarrow> bool" where
  "ShouldNotifyOnlyWhenUnfocused c =
     deref False (nc_NotifyOnlyWhenUnfocused (c_Notifications c))"

definition GetNotifyDelaySeconds :: "Config \<Rightarrow> int" where
  "GetNotifyDelaySeconds c =
     (case nc_NotifyDelaySeconds (c_Notifications c) of
        None \<Rightarrow> 0
      | Some d \<Rightarrow> if d < 0 then 0 else d)"

definition GetDoNotDisturbMode :: "(string \<Rightarrow> string) \<Rightarrow> Config \<Rightarrow> string" where
  "GetDoNotDisturbMode uni c =
     (case nc_RespectDoNotDisturb (c_Notifications c) of
        None \<Rightarrow> ''off''
      | Some v \<Rightarrow>
          (let m = ToLower uni (TrimSpace v)
           in if m = ''silent'' then ''silent''
              else if m = ''suppress'' then ''suppress''
              else ''off''))"

definition ShouldRespectDisplaySleep :: "Config \<Rightarrow> bool" where
  "ShouldRespectDisplaySleep c = deref False (nc_RespectDisplaySleep (c_Notifications c))"

definition ShouldReplaceNotificationsPerSession :: "Config \<Rightarrow> bool" where
  "ShouldReplaceNotificationsPerSession c =
     deref False (nc_ReplaceNotificationsPerSession (c_Notifications c))"

definition GetTeamMode :: "Config \<Rightarrow> string" where
  "GetTeamMode c =
     (let m = nc_TeamMode (c_Notifications c)
      in if m = ''wait-all'' \<or> m = ''never'' then m else ''always'')"

definition IsStatusEnabled :: "Config \<Rightarrow> string \<Rightarrow> bool" where
  "IsStatusEnabled c st =
     (case status_lookup c st of
        None \<Rightarrow> True
      | Some info \<Rightarrow> (case si_Enabled info of None \<Rightarrow> True | Some b \<Rightarrow> b))"

definition isStatusChannelEnabled :: "bool option option \<Rightarrow> bool" where
  "isStatusChannelEnabled channel =
     (case channel of None \<Rightarrow> True | Some None \<Rightarrow> True | Some (Some b) \<Rightarrow> b)"

definition IsTerminalBellEnabled :: "Config \<Rightarrow> bool" where
  "IsTerminalBellEnabled c = deref True (dc_TerminalBell (c_Desktop c))"

definition IsSessionLabelEnabled :: "Config \<Rightarrow> bool" where
  "IsSessionLabelEnabled c = deref True (dc_ShowSessionLabel (c_Desktop c))"

definition IsStatusDesktopEnabled :: "Config \<Rightarrow> string \<Rightarrow> bool" where
  "IsStatusDesktopEnabled c st =
     (if \<not> IsDesktopEnabled c \<or> \<not> IsStatusEnabled c st then False
      else (case status_lookup c st of
              None \<Rightarrow> True
            | Some info \<Rightarrow> isStatusChannelEnabled (si_Desktop info)))"

definition IsStatusWebhookEnabled :: "Config \<Rightarrow> string \<Rightarrow> bool" where
  "IsStatusWebhookEnabled c st =
     (if \<not> IsWebhookEnabled c \<or> \<not> IsStatusEnabled c st then False
      else (case status_lookup c st of
              None \<Rightarrow> True
            | Some info \<Rightarrow> isStatusChannelEnabled (si_Webhook info)))"

subsection \<open>Validation\<close>

datatype config_error =
    VolumeOutOfRange | ConsentVersionNot1 | InvalidPreset string | InvalidFormat string
  | PayloadFieldsNeedJSON | URLRequired | ChatIDRequired
  | TaskCompleteCooldownNegative | AnyNotificationCooldownNegative | DelayNegative
  | InvalidTeamMode string | FilterWithoutCondition nat | FilterInvalidStatus nat string

definition validPresets :: "string list" where
  "validPresets = [''slack'', ''discord'', ''telegram'', ''lark'', ''custom'']"

definition validFormats :: "string list" where
  "validFormats = [''json'', ''text'']"

definition validTeamModes :: "string list" where
  "validTeamModes = ['''', ''wait-all'', ''always'', ''never'']"

definition validStatuses :: "string list" where
  "validStatuses =
     [''task_complete'', ''review_complete'', ''question'', ''plan_ready'',
      ''session_limit_reached'', ''api_error'', ''api_error_overloaded'', ''agent_error'',
      ''permission_request'']"

fun validateFilters :: "nat \<Rightarrow> SuppressFilter list \<Rightarrow> config_error option" where
  "validateFilters i [] = None"
| "validateFilters i (f # fs) =
     (if \<not> HasConditions f then Some (FilterWithoutCondition i)
      else if sf_Status f \<noteq> None \<and> the (sf_Status f) \<notin> set validStatuses
           then Some (FilterInvalidStatus i (the (sf_Status f)))
      else validateFilters (Suc i) fs)"

definition negative :: "int option \<Rightarrow> bool" where
  "negative p \<longleftrightarrow> (case p of None \<Rightarrow> False | Some v \<Rightarrow> v < 0)"

definition Validate :: "Config \<Rightarrow> config_error option" where
  "Validate c =
     (let n = c_Notifications c; d = nc_Desktop n; w = nc_Webhook n in
      if IsNaN (dc_Volume d) \<or> flt_less (dc_Volume d) (Fin 0) \<or> flt_less (Fin 1) (dc_Volume d)
        then Some VolumeOutOfRange
      else if dc_TerminalClickConsentVersion d \<noteq> None
              \<and> the (dc_TerminalClickConsentVersion d) \<noteq> 1 then Some ConsentVersionNot1
      else if wc_Enabled w \<and> wc_Preset w \<notin> set validPresets
        then Some (InvalidPreset (wc_Preset w))
      else if wc_Enabled w \<and> wc_Format w \<notin> set validFormats
        then Some (InvalidFormat (wc_Format w))
      else if wc_Enabled w \<and> wc_Preset w = ''custom'' \<and> wc_Format w = ''text''
              \<and> 0 < length (deref [] (wc_PayloadFields w)) then Some PayloadFieldsNeedJSON
      else if wc_Enabled w \<and> wc_URL w = [] then Some URLRequired
      else if wc_Enabled w \<and> wc_Preset w = ''telegram'' \<and> wc_ChatID w = []
        then Some ChatIDRequired
      else if negative (nc_SuppressQuestionAfterTaskCompleteSeconds n)
        then Some TaskCompleteCooldownNegative
      else if negative (nc_SuppressQuestionAfterAnyNotificationSeconds n)
        then Some AnyNotificationCooldownNegative
      else if negative (nc_NotifyDelaySeconds n) then Some DelayNegative
      else if nc_TeamMode n \<notin> set validTeamModes then Some (InvalidTeamMode (nc_TeamMode n))
      else validateFilters 0 (nc_SuppressFilters n))"

end
