(* ===== verification/ConfigDefaults.thy ===== *)
theory ConfigDefaults
  imports Config
begin

text \<open>
  \<^verbatim>\<open>internal/config/config_defaults.go\<close>, the asset root it depends on, and
  \<^verbatim>\<open>mergeObjects\<close> of \<^verbatim>\<open>agents.go\<close>, by which an agent's profile overrides the
  global one. \<^verbatim>\<open>filepath.Join\<close> is the argument \<^verbatim>\<open>join\<close>.
\<close>

subsection \<open>Default configuration\<close>

definition unresolvedRoots :: "string list" where
  "unresolvedRoots =
     ['''', ''$AGENT_NOTIFICATIONS_ROOT'', ''${AGENT_NOTIFICATIONS_ROOT}'',
      ''$CLAUDE_PLUGIN_ROOT'', ''${CLAUDE_PLUGIN_ROOT}'']"

definition isUnresolvedPluginRoot :: "string \<Rightarrow> bool" where
  "isUnresolvedPluginRoot pluginRoot \<longleftrightarrow> pluginRoot \<in> set unresolvedRoots"

definition resolved_env :: "(string \<rightharpoonup> string) \<Rightarrow> string \<Rightarrow> string option" where
  "resolved_env env k =
     (case env k of
        Some v \<Rightarrow> if isUnresolvedPluginRoot v then None else Some v
      | None \<Rightarrow> None)"

definition assetRoot :: "string \<Rightarrow> (string \<rightharpoonup> string) option \<Rightarrow> string" where
  "assetRoot pluginRoot lookupEnv =
     (if pluginRoot \<noteq> [] then pluginRoot
      else case lookupEnv of
             None \<Rightarrow> ''.''
           | Some env \<Rightarrow>
               (case resolved_env env ''AGENT_NOTIFICATIONS_ROOT'' of
                  Some v \<Rightarrow> v
                | None \<Rightarrow> (case resolved_env env ''CLAUDE_PLUGIN_ROOT'' of
                             Some v \<Rightarrow> v | None \<Rightarrow> ''.'')))"

definition titled :: "string \<Rightarrow> string \<Rightarrow> StatusInfo" where
  "titled title sound =
     \<lparr>si_Enabled = None, si_Desktop = None, si_Webhook = None, si_Title = title,
      si_Sound = sound\<rparr>"

definition default_status_list :: "(string list \<Rightarrow> string) \<Rightarrow> string \<Rightarrow> (string \<times> StatusInfo) list"
  where
  "default_status_list join rt =
     (let sound = (\<lambda>f. join [rt, ''sounds'', f]); red = bytes [240, 159, 148, 180] in
      [(''agent_stopping'', titled ''Copilot in VS Code'' []),
       (''agent_error'', titled (red @ '' Agent error'') (sound ''error.mp3'')),
       (''task_complete'', titled (bytes [226, 156, 133] @ '' Completed'') (sound ''task-complete.mp3'')),
       (''review_complete'', titled (bytes [240, 159, 148, 141] @ '' Review'')
          (sound ''review-complete.mp3'')),
       (''question'', titled (bytes [226, 157, 147] @ '' Question'') (sound ''question.mp3'')),
       (''plan_ready'', titled (bytes [240, 159, 147, 139] @ '' Plan'') (sound ''plan-ready.mp3'')),
       (''session_limit_reached'',
          titled (bytes [226, 143, 177, 239, 184, 143] @ '' Session Limit Reached'')
            (sound ''error.mp3'')),
       (''api_error'', titled (red @ '' API Error: 401'') (sound ''error.mp3'')),
       (''api_error_overloaded'', titled (red @ '' API Error'') (sound ''error.mp3'')),
       (''permission_request'', titled (bytes [240, 159, 148, 144] @ '' Permission Request'')
          (sound ''question.mp3''))])"

definition defaultStatuses :: "(string list \<Rightarrow> string) \<Rightarrow> string \<Rightarrow> string \<rightharpoonup> StatusInfo" where
  "defaultStatuses join rt = map_of (default_status_list join rt)"

definition buildDefaultConfig :: "(string list \<Rightarrow> string) \<Rightarrow> string \<Rightarrow> Config" where
  "buildDefaultConfig join rt =
     \<lparr>c_Notifications =
        \<lparr>nc_Desktop =
           \<lparr>dc_Enabled = True, dc_Sound = True, dc_SystemSound = None, dc_TerminalBell = None,
            dc_Volume = Fin 1, dc_AudioDevice = [], dc_AppIcon = join [rt, ''claude_icon.png''],
            dc_ClickToFocus = True, dc_TerminalClickConsentVersion = None,
            dc_ShowSessionLabel = None, dc_TerminalBundleID = [], dc_ZellijFocus = []\<rparr>,
         nc_Webhook =
           \<lparr>wc_Enabled = False, wc_Preset = ''custom'', wc_URL = [], wc_ChatID = [],
            wc_Format = ''json'', wc_Headers = Some [], wc_PayloadFields = Some [],
            wc_Retry = \<lparr>rs_Enabled = True, rs_MaxAttempts = 3, rs_InitialBackoff = ''1s'',
                        rs_MaxBackoff = ''10s''\<rparr>,
            wc_CircuitBreaker = \<lparr>cs_Enabled = True, cs_FailureThreshold = 5, cs_Timeout = ''30s'',
                                 cs_SuccessThreshold = 2\<rparr>,
            wc_RateLimit = \<lparr>rl_Enabled = True, rl_RequestsPerMinute = 10\<rparr>\<rparr>,
         nc_SuppressQuestionAfterTaskCompleteSeconds = Some 12,
         nc_SuppressQuestionAfterAnyNotificationSeconds =
           Some defaultSuppressQuestionAfterAnyNotificationSeconds,
         nc_NotifyOnSubagentStop = False, nc_SuppressForSubagents = None,
         nc_NotifyOnTextResponse = None, nc_RespectJudgeMode = None, nc_SuppressFilters = [],
         nc_TeamMode = [], nc_NotifyOnlyWhenUnfocused = None, nc_NotifyDelaySeconds = None,
         nc_RespectDoNotDisturb = None, nc_RespectDisplaySleep = None,
         nc_ReplaceNotificationsPerSession = None\<rparr>,
      c_Statuses = Some (defaultStatuses join rt),
      c_Benchmark = False\<rparr>"

definition defaultConfig ::
    "(string list \<Rightarrow> string) \<Rightarrow> (string \<rightharpoonup> string) \<Rightarrow> string \<Rightarrow> Config" where
  "defaultConfig join env resolvedPluginRoot =
     (let pluginRoot = (if resolvedPluginRoot = [] then assetRoot [] (Some env)
                        else resolvedPluginRoot);
          pluginRoot = (if isUnresolvedPluginRoot pluginRoot then ''.'' else pluginRoot)
      in buildDefaultConfig join pluginRoot)"

subsection \<open>Filling in defaults\<close>

definition desktopDefaults :: "DesktopConfig \<Rightarrow> DesktopConfig" where
  "desktopDefaults d = (if dc_Volume d = Fin 0 then d\<lparr>dc_Volume := Fin 1\<rparr> else d)"

definition webhookDefaults :: "WebhookConfig \<Rightarrow> WebhookConfig" where
  "webhookDefaults w =
     (let w = (if wc_Preset w = [] then w\<lparr>wc_Preset := ''custom''\<rparr> else w);
          w = (if wc_Format w = [] then w\<lparr>wc_Format := ''json''\<rparr> else w);
          w = (if wc_Headers w = None then w\<lparr>wc_Headers := Some []\<rparr> else w)
      in (if wc_PayloadFields w = None then w\<lparr>wc_PayloadFields := Some []\<rparr> else w))"

definition or_else :: "'a option \<Rightarrow> 'a \<Rightarrow> 'a option" where
  "or_else p d = (case p of None \<Rightarrow> Some d | Some v \<Rightarrow> Some v)"

definition applyDefaults ::
    "(string list \<Rightarrow> string) \<Rightarrow> (string \<rightharpoonup> string) \<Rightarrow> string \<Rightarrow> Config \<Rightarrow> Config" where
  "applyDefaults join env pluginRoot c =
     (let n = c_Notifications c;
          n = n\<lparr>nc_Desktop := desktopDefaults (nc_Desktop n),
                nc_Webhook := webhookDefaults (nc_Webhook n),
                nc_SuppressQuestionAfterTaskCompleteSeconds :=
                  or_else (nc_SuppressQuestionAfterTaskCompleteSeconds n) 12,
                nc_SuppressQuestionAfterAnyNotificationSeconds :=
                  or_else (nc_SuppressQuestionAfterAnyNotificationSeconds n)
                    defaultSuppressQuestionAfterAnyNotificationSeconds\<rparr>;
          defaults = the (c_Statuses (defaultConfig join env pluginRoot))
      in c\<lparr>c_Notifications := n,
           c_Statuses := Some (case c_Statuses c of
                                 None \<Rightarrow> defaults
                               | Some m \<Rightarrow> defaults ++ m)\<rparr>)"

subsection \<open>Agent profiles\<close>

text \<open>
  The keys from the root are joined with slashes; two such pointers are replaced, not merged.
\<close>

definition replaced_pointers :: "string list" where
  "replaced_pointers =
     [''/notifications/webhook/headers'', ''/notifications/webhook/payloadFields'']"

fun as_obj :: "json option \<Rightarrow> jobj" where
  "as_obj (Some (JObj m)) = m"
| "as_obj v = []"

function (sequential) mergeObjects :: "jobj \<Rightarrow> jobj \<Rightarrow> string \<Rightarrow> jobj" where
  "mergeObjects base [] path = base"
| "mergeObjects base ((key, value) # rest) path =
     mergeObjects
       (obj_put key
          (case value of
             JObj right \<Rightarrow>
               if path @ ''/'' @ key \<in> set replaced_pointers then value
               else JObj (mergeObjects (as_obj (obj_get key base)) right (path @ ''/'' @ key))
           | _ \<Rightarrow> value) base)
       rest path"
  by pat_completeness auto
termination
  by (relation "measure (\<lambda>(base, ov, path). size (JObj ov))") auto

subsection \<open>Lookup in a merged object\<close>

text \<open>Objects of the standard library's decoder have distinct keys at every level.\<close>

fun json_ok :: "json \<Rightarrow> bool" where
  "json_ok (JObj m) = (distinct (map fst m) \<and> list_all (json_ok \<circ> snd) m)"
| "json_ok (JArr xs) = list_all json_ok xs"
| "json_ok v = True"

lemma mergeObjects_get:
  assumes "distinct (map fst ov)"
  shows "obj_get k (mergeObjects base ov path) =
    (case obj_get k ov of
       None \<Rightarrow> obj_get k base
     | Some (JObj right) \<Rightarrow>
         Some (if path @ ''/'' @ k \<in> set replaced_pointers then JObj right
               else JObj (mergeObjects (as_obj (obj_get k base)) right (path @ ''/'' @ k)))
     | Some v \<Rightarrow> Some v)"
  using assms
proof (induction ov arbitrary: base)
  case (Cons kv rest)
  obtain key v where kv: "kv = (key, v)" by (cases kv)
  from Cons.prems kv have "obj_get key rest = None"
    by (auto simp: obj_get_def map_of_eq_None_iff image_iff)
  with Cons kv show ?case
    by (cases "k = key"; cases "obj_get k rest"; cases v) (auto split: json.split)
qed simp

lemma json_ok_get: "json_ok (JObj m) \<Longrightarrow> obj_get k m = Some v \<Longrightarrow> json_ok v"
  by (auto simp: obj_get_def list_all_iff dest!: map_of_SomeD)

text \<open>The paths a profile leaves alone: it has no entry where the path leaves its objects.\<close>

fun silent_at :: "string \<Rightarrow> string list \<Rightarrow> jobj \<Rightarrow> bool" where
  "silent_at path [] ov = False"
| "silent_at path (k # ks) ov =
     (case obj_get k ov of
        None \<Rightarrow> True
      | Some (JObj right) \<Rightarrow>
          path @ ''/'' @ k \<notin> set replaced_pointers \<and> silent_at (path @ ''/'' @ k) ks right
      | Some v \<Rightarrow> False)"

lemma silent_nonempty: "silent_at path ks ov \<Longrightarrow> ks \<noteq> []"
  by (cases ks) auto

lemma obj_path_as_obj:
  "ks \<noteq> [] \<Longrightarrow> obj_path ks (JObj (as_obj r)) = (case r of None \<Rightarrow> None | Some j \<Rightarrow> obj_path ks j)"
  by (cases r rule: as_obj.cases; cases ks) auto

lemma mergeObjects_overrides:
  "json_ok (JObj ov) \<Longrightarrow> obj_path ks (JObj ov) = Some v \<Longrightarrow> \<not> is_obj v \<Longrightarrow>
     obj_path ks (JObj (mergeObjects base ov path)) = Some v"
proof (induction ks arbitrary: ov base path)
  case (Cons k ks)
  then obtain j where j: "obj_get k ov = Some j" "obj_path ks j = Some v"
    by (auto split: option.splits)
  have "json_ok j" using json_ok_get [OF Cons.prems(1) j(1)] .
  with Cons j show ?case
    by (cases j) (auto simp: mergeObjects_get)
qed auto

lemma mergeObjects_silent:
  "json_ok (JObj ov) \<Longrightarrow> silent_at path ks ov \<Longrightarrow>
     obj_path ks (JObj (mergeObjects base ov path)) = obj_path ks (JObj base)"
proof (induction ks arbitrary: ov base path)
  case (Cons k ks)
  show ?case
  proof (cases "obj_get k ov")
    case None
    with Cons show ?thesis by (simp add: mergeObjects_get)
  next
    case (Some j)
    with Cons.prems obtain right where right: "j = JObj right"
      "path @ ''/'' @ k \<notin> set replaced_pointers" "silent_at (path @ ''/'' @ k) ks right"
      by (cases j) auto
    with Cons.IH [of right] json_ok_get [OF Cons.prems(1) Some] Some Cons.prems
    show ?thesis
      by (simp add: mergeObjects_get obj_path_as_obj [OF silent_nonempty [OF right(3)]])
  qed
qed simp

text \<open>
  Theorem. The value an agent's profile gives at any path of keys is the effective one, and
  a path the profile is silent about keeps the global value: profiles override per field, except
  that webhook headers and payload fields are replaced as a whole.
\<close>

theorem profile_overrides_per_field:
  assumes "json_ok (JObj ov)"
  shows "(obj_path ks (JObj ov) = Some v \<and> \<not> is_obj v \<longrightarrow>
            obj_path ks (JObj (mergeObjects base ov path)) = Some v)
       \<and> (silent_at path ks ov \<longrightarrow>
            obj_path ks (JObj (mergeObjects base ov path)) = obj_path ks (JObj base))"
  using assms by (simp add: mergeObjects_overrides mergeObjects_silent)

lemma profile_overrides_per_field_witness:
  "let ov = [(''notifications'', JObj [(''teamMode'', JStr ''never'')])];
       base = [(''notifications'', JObj [(''teamMode'', JStr ''always''), (''volume'', JInt 1)])];
       m = JObj (mergeObjects base ov [])
   in obj_path [''notifications'', ''teamMode''] m = Some (JStr ''never'')
      \<and> obj_path [''notifications'', ''volume''] m = Some (JInt 1)"
  using profile_overrides_per_field
    [of "[(''notifications'', JObj [(''teamMode'', JStr ''never'')])]"
      "[''notifications'', ''teamMode'']" "JStr ''never''"
      "[(''notifications'', JObj [(''teamMode'', JStr ''always''), (''volume'', JInt 1)])]" "[]"]
    profile_overrides_per_field
    [of "[(''notifications'', JObj [(''teamMode'', JStr ''never'')])]"
      "[''notifications'', ''volume'']" "JStr ''never''"
      "[(''notifications'', JObj [(''teamMode'', JStr ''always''), (''volume'', JInt 1)])]" "[]"]
  by (simp add: replaced_pointers_def)

subsection \<open>Defaults\<close>

lemma desktopDefaults_idem: "desktopDefaults (desktopDefaults d) = desktopDefaults d"
  by (simp add: desktopDefaults_def)

lemma webhookDefaults_idem: "webhookDefaults (webhookDefaults w) = webhookDefaults w"
  by (cases "wc_Preset w = []"; cases "wc_Format w = []"; cases "wc_Headers w";
      cases "wc_PayloadFields w"; simp add: webhookDefaults_def)

lemma or_else_idem: "or_else (or_else p d) d = or_else p d"
  by (cases p) (simp_all add: or_else_def)

lemma map_add_absorb: "m ++ m = m" "m ++ (m ++ n) = m ++ n"
  by (simp_all add: map_add_def fun_eq_iff split: option.split)

lemma applyDefaults_idem:
  "applyDefaults join env rt (applyDefaults join env rt c) = applyDefaults join env rt c"
  by (cases "c_Statuses c")
    (simp_all add: applyDefaults_def Let_def desktopDefaults_idem webhookDefaults_idem or_else_idem
      map_add_absorb)

text \<open>
  Theorem. Filling in defaults changes only what is missing: doing it twice is doing it once,
  an explicit status entry, cooldown, preset or webhook header set is kept, every status of the
  default configuration has an entry afterwards, and the default configuration is valid.
\<close>

theorem defaults_fill_only_gaps:
  "let c' = applyDefaults join env rt c in
     applyDefaults join env rt c' = c' \<and>
     Validate (defaultConfig join env rt) = None \<and>
     (\<forall>st. status_lookup c' st =
        (case status_lookup c st of
           Some info \<Rightarrow> Some info
         | None \<Rightarrow> status_lookup (defaultConfig join env rt) st)) \<and>
     GetSuppressQuestionAfterTaskCompleteSeconds c' = GetSuppressQuestionAfterTaskCompleteSeconds c \<and>
     GetSuppressQuestionAfterAnyNotificationSeconds c'
       = GetSuppressQuestionAfterAnyNotificationSeconds c \<and>
     wc_Preset (c_Webhook c') = (if wc_Preset (c_Webhook c) = [] then ''custom''
                                 else wc_Preset (c_Webhook c)) \<and>
     deref [] (wc_Headers (c_Webhook c')) = deref [] (wc_Headers (c_Webhook c))"
proof -
  have "Validate (defaultConfig join env rt) = None"
    by (simp add: Validate_def defaultConfig_def buildDefaultConfig_def Let_def negative_def
        validTeamModes_def defaultSuppressQuestionAfterAnyNotificationSeconds_def)
  moreover have "status_lookup (applyDefaults join env rt c) st =
      (case status_lookup c st of
           Some info \<Rightarrow> Some info
         | None \<Rightarrow> status_lookup (defaultConfig join env rt) st)" for st
    by (simp add: applyDefaults_def status_lookup_def Let_def map_add_def defaultConfig_def
        buildDefaultConfig_def split: option.split)
  moreover have "deref [] (wc_Headers (webhookDefaults w)) = deref [] (wc_Headers w)"
    and "wc_Preset (webhookDefaults w) = (if wc_Preset w = [] then ''custom'' else wc_Preset w)" for w
    by (auto simp: webhookDefaults_def)
  ultimately show ?thesis
    by (simp add: Let_def applyDefaults_idem)
      (simp add: applyDefaults_def Let_def or_else_def
        GetSuppressQuestionAfterTaskCompleteSeconds_def
        GetSuppressQuestionAfterAnyNotificationSeconds_def split: option.split)
qed

end
