(* ===== verification/Payload.thy ===== *)
theory Payload
  imports Formatters ConfigDefaults
begin

text \<open>
  The payload part of \<^verbatim>\<open>internal/webhook/webhook.go\<close>: the body of a request by
  preset, the custom formats, and the configured payload fields merged into a JSON body. A body
  is the value handed to \<^verbatim>\<open>json.Marshal\<close>, or text.
\<close>

datatype payload_error = TemplateError template_error | FieldsNeedJSONPayload

datatype body = JsonBody json | TextBody string

definition reservedCustomPayloadKeys :: "string list" where
  "reservedCustomPayloadKeys =
     [''schema_version'', ''status'', ''notification_type'', ''agent_source'']"

definition applyPayloadFields ::
    "jobj \<Rightarrow> runtimeContext \<Rightarrow> json \<Rightarrow> string list \<Rightarrow> payload_error + json" where
  "applyPayloadFields flds c base protectedKeys =
     (case resolvePayloadFields c flds of
        Inl e \<Rightarrow> Inl (TemplateError e)
      | Inr extra \<Rightarrow>
          if extra = [] then Inr base
          else (case base of
                  JObj baseMap \<Rightarrow>
                    Inr (JObj (mergePayloadMaps baseMap (fold obj_delete protectedKeys extra)))
                | _ \<Rightarrow> Inl FieldsNeedJSONPayload))"

definition custom_base :: "runtimeContext \<Rightarrow> jobj" where
  "custom_base c =
     (let ctx = rc_sendCtx c in
      [(''schema_version'', JStr ''1.0''),
       (''status'', JStr (status_string (sc_Status ctx))),
       (''notification_type'', JStr (status_string (sc_Status ctx))),
       (''agent_source'', JStr (normalizeAgentSource (sc_AgentSource ctx))),
       (''message'', JStr (sc_Message ctx)),
       (''timestamp'', JStr (rc_rfc3339 c)),
       (''session_id'', JStr (sc_SessionID ctx)),
       (''source'', JStr ''claude-notifications''),
       (''title'', JStr (rc_title c))])"

definition buildCustomPayload ::
    "jobj \<Rightarrow> runtimeContext \<Rightarrow> string \<Rightarrow> payload_error + (body \<times> string)" where
  "buildCustomPayload flds c format =
     (if format = ''text'' then
        Inr (TextBody (''['' @ status_string (sc_Status (rc_sendCtx c)) @ ''] ''
               @ sc_Message (rc_sendCtx c)), ''text/plain'')
      else (case applyPayloadFields flds c (JObj (custom_base c)) reservedCustomPayloadKeys of
              Inl e \<Rightarrow> Inl e
            | Inr p \<Rightarrow> Inr (JsonBody p, ''application/json'')))"

text \<open>The formatter of a preset; \<^verbatim>\<open>unix\<close> and \<^verbatim>\<open>rfc\<close> are its clock's renderings.\<close>

definition formatters ::
    "(string \<Rightarrow> string) \<Rightarrow> string \<Rightarrow> int \<Rightarrow> string \<Rightarrow> string \<Rightarrow> (SendContext \<Rightarrow> string \<Rightarrow> json) option"
  where
  "formatters uni chatID unix rfc preset =
     (if preset = ''slack'' then Some (SlackFormatter_Format unix)
      else if preset = ''discord'' then Some (DiscordFormatter_Format uni rfc)
      else if preset = ''telegram'' then Some (TelegramFormatter_Format chatID)
      else if preset = ''lark'' then Some LarkFormatter_Format
      else None)"

definition buildPayload ::
    "WebhookConfig \<Rightarrow> int \<Rightarrow> string \<Rightarrow> runtimeContext \<Rightarrow> payload_error + (body \<times> string)" where
  "buildPayload w unix rfc c =
     (let flds = deref [] (wc_PayloadFields w) in
      case formatters (rc_uni c) (wc_ChatID w) unix rfc (wc_Preset w) of
        Some format \<Rightarrow>
          (case applyPayloadFields flds c (format (rc_sendCtx c) (rc_title c)) [] of
             Inl e \<Rightarrow> Inl e
           | Inr p \<Rightarrow> Inr (JsonBody p, ''application/json''))
      | None \<Rightarrow> buildCustomPayload flds c (wc_Format w))"

subsection \<open>Resolved fields\<close>

lemma resolveFields_keys:
  "resolveFields c m = Inr m' \<Longrightarrow> set (map fst m') \<subseteq> set (map fst m)"
proof (induction m arbitrary: m')
  case (Cons kv m)
  obtain key item where kv: "kv = (key, item)" by (cases kv)
  with Cons.prems obtain r m2 where "resolveValue c item = Inr r" "resolveFields c m = Inr m2"
    "m' = (case r of Some v \<Rightarrow> (key, v) # m2 | None \<Rightarrow> m2)"
    by (auto split: sum.splits)
  with Cons.IH [of m2] kv show ?case by (auto split: option.splits)
qed simp

lemma resolveFields_distinct:
  "resolveFields c m = Inr m' \<Longrightarrow> distinct (map fst m) \<Longrightarrow> distinct (map fst m')"
proof (induction m arbitrary: m')
  case (Cons kv m)
  obtain key item where kv: "kv = (key, item)" by (cases kv)
  with Cons.prems obtain r m2 where r: "resolveValue c item = Inr r" "resolveFields c m = Inr m2"
    "m' = (case r of Some v \<Rightarrow> (key, v) # m2 | None \<Rightarrow> m2)"
    by (auto split: sum.splits)
  with resolveFields_keys [of c m m2] Cons kv show ?case by (auto split: option.splits)
qed simp

lemma resolvePayloadFields_distinct:
  "resolvePayloadFields c flds = Inr extra \<Longrightarrow> distinct (map fst flds) \<Longrightarrow>
     distinct (map fst extra)"
  by (auto simp: resolvePayloadFields_def split: if_splits sum.splits option.splits json.splits
      intro: resolveFields_distinct)

lemma obj_get_fold_delete:
  "obj_get k (fold obj_delete ks m) = (if k \<in> set ks then None else obj_get k m)"
  by (induction ks arbitrary: m) auto

lemma distinct_fold_delete:
  "distinct (map fst m) \<Longrightarrow> distinct (map fst (fold obj_delete ks m))"
  by (induction ks arbitrary: m) (simp_all add: obj_delete_def distinct_delete)

lemma merge_keeps: "obj_get k ov = None \<Longrightarrow> obj_get k (mergePayloadMaps base ov) = obj_get k base"
  by (induction base ov rule: mergePayloadMaps.induct) (auto split: if_splits)

text \<open>
  Theorem. Whatever the configured payload fields are, a custom JSON body carries the
  identity fields the sender computed: schema version 1.0, the status, its alias and the agent;
  and any other field the configuration resolves to a non-object value has that value.
\<close>

theorem custom_identity_reserved:
  assumes "buildCustomPayload flds c format = Inr (b, ct)" and "format \<noteq> ''text''"
    and "distinct (map fst flds)"
  shows "\<exists>p. b = JsonBody (JObj p) \<and> ct = ''application/json'' \<and>
     obj_get ''schema_version'' p = Some (JStr ''1.0'') \<and>
     obj_get ''status'' p = Some (JStr (status_string (sc_Status (rc_sendCtx c)))) \<and>
     obj_get ''notification_type'' p = obj_get ''status'' p \<and>
     obj_get ''agent_source'' p
       = Some (JStr (normalizeAgentSource (sc_AgentSource (rc_sendCtx c)))) \<and>
     (\<forall>extra k v. resolvePayloadFields c flds = Inr extra \<and> obj_get k extra = Some v \<and>
        \<not> is_obj v \<and> k \<notin> set reservedCustomPayloadKeys \<longrightarrow> obj_get k p = Some v)"
proof -
  from assms obtain extra where extra: "resolvePayloadFields c flds = Inr extra"
    by (auto simp: buildCustomPayload_def applyPayloadFields_def split: sum.splits)
  let ?ov = "fold obj_delete reservedCustomPayloadKeys extra"
  let ?p = "if extra = [] then custom_base c else mergePayloadMaps (custom_base c) ?ov"
  have p: "b = JsonBody (JObj ?p) \<and> ct = ''application/json''"
    using assms extra by (auto simp: buildCustomPayload_def applyPayloadFields_def)
  have reserved: "obj_get k ?p = obj_get k (custom_base c)"
    if "k \<in> set reservedCustomPayloadKeys" for k
    using merge_keeps [of k ?ov] that by (simp add: obj_get_fold_delete)
  have "distinct (map fst ?ov)"
    using resolvePayloadFields_distinct [OF extra assms(3)] by (rule distinct_fold_delete)
  then have other: "obj_get k ?p = Some v"
    if "obj_get k extra = Some v" "\<not> is_obj v" "k \<notin> set reservedCustomPayloadKeys" for k v
    using that
    by (cases v; cases "extra = []")
      (auto simp: merge_get obj_get_fold_delete split: option.split json.split)
  from reserved [of "''schema_version''"] reserved [of "''status''"]
    reserved [of "''notification_type''"] reserved [of "''agent_source''"] p other extra
  show ?thesis
    by (intro exI [of _ ?p]) (simp add: reservedCustomPayloadKeys_def custom_base_def Let_def)
qed

lemma buildPayload_json:
  assumes "buildPayload w unix rfc c = Inr (b, ct)" and "wc_Preset w \<noteq> ''custom''"
    and "wc_Preset w \<in> set validPresets"
  shows "\<exists>p. b = JsonBody (JObj p) \<and> ct = ''application/json''"
  using assms
  by (auto simp: buildPayload_def formatters_def validPresets_def applyPayloadFields_def Let_def
      SlackFormatter_Format_def DiscordFormatter_Format_def TelegramFormatter_Format_def
      LarkFormatter_Format_def split: sum.splits if_splits)

definition sample_context :: runtimeContext where
  "sample_context =
     \<lparr>rc_sendCtx =
        \<lparr>sc_Status = StatusQuestion, sc_Message = ''hi'', sc_SessionID = ''s'', sc_CWD = [],
         sc_SessionName = [], sc_GitBranch = [], sc_Folder = [], sc_RawBody = [],
         sc_ActionSummary = [], sc_AgentSource = ''codex''\<rparr>,
      rc_title = ''Question'', rc_rfc3339 = ''now'', rc_unix = 7, rc_unix_ms = 7000,
      rc_env = Map.empty,
      rc_gitMeta = \<lparr>gm_Branch = [], gm_UserName = [], gm_UserEmail = [], gm_CommitHash = [],
                    gm_CommitShortHash = [], gm_CommitAuthorName = [], gm_CommitAuthorEmail = []\<rparr>,
      rc_uni = id\<rparr>"

lemma sample_agent: "sc_AgentSource (rc_sendCtx sample_context) = ''codex''"
  by (simp add: sample_context_def)

lemma sample_fields:
  "resolvePayloadFields sample_context
     [(''agent_source'', JStr ''fake''), (''env'', JStr ''${{message}}'')]
   = Inr [(''agent_source'', JStr ''fake''), (''env'', JStr ''hi'')]"
proof -
  have t: "TrimSpace ''message'' = ''message''" by (simp add: visible_def)
  have "templatePattern ''fake'' = [Lit CHR ''f'', Lit CHR ''a'', Lit CHR ''k'', Lit CHR ''e'']"
    using templatePattern_unparse [of "[Lit CHR ''f'', Lit CHR ''a'', Lit CHR ''k'', Lit CHR ''e'']"]
    by simp
  moreover have "templatePattern ''${{message}}'' = [Tok ''message'']"
    using templatePattern_unparse [of "[Tok ''message'']"] by (simp add: is_brace_def)
  ultimately show ?thesis
    by (simp add: resolvePayloadFields_def resolveString_def t lookupTemplateValue_def
        sample_context_def)
qed

lemma custom_identity_reserved_witness:
  "\<exists>p. buildCustomPayload [(''agent_source'', JStr ''fake''), (''env'', JStr ''${{message}}'')]
         sample_context ''json'' = Inr (JsonBody (JObj p), ''application/json'') \<and>
       obj_get ''agent_source'' p = Some (JStr ''codex'') \<and>
       obj_get ''env'' p = Some (JStr ''hi'')"
proof -
  let ?fs = "[(''agent_source'', JStr ''fake''), (''env'', JStr ''${{message}}'')]"
  obtain b ct where b: "buildCustomPayload ?fs sample_context ''json'' = Inr (b, ct)"
    by (simp add: buildCustomPayload_def applyPayloadFields_def sample_fields)
  have "custom_base sample_context \<noteq> []" by (simp add: custom_base_def Let_def)
  from custom_identity_reserved [OF b] obtain p where
    "b = JsonBody (JObj p)" "ct = ''application/json''"
    "obj_get ''agent_source'' p
       = Some (JStr (normalizeAgentSource (sc_AgentSource (rc_sendCtx sample_context))))"
    "\<forall>extra k v. resolvePayloadFields sample_context ?fs = Inr extra \<and> obj_get k extra = Some v \<and>
        \<not> is_obj v \<and> k \<notin> set reservedCustomPayloadKeys \<longrightarrow> obj_get k p = Some v"
    by auto
  with b show ?thesis
    by (intro exI [of _ p])
      (simp add: sample_fields sample_agent normalizeAgentSource_def
        reservedCustomPayloadKeys_def)
qed

end
