(* ===== verification/WebhookError.thy ===== *)
theory WebhookError
  imports Prelude
begin

text \<open>
  The error values of \<^verbatim>\<open>internal/webhook\<close>: the sentinels, the HTTP error, errors
  wrapped with \<^verbatim>\<open>fmt.Errorf("...: %w", err)\<close>, and the outward redaction of
  \<^verbatim>\<open>redaction.go\<close>. Two errors are equal exactly when they are the same
  sentinel; \<^verbatim>\<open>errors.Is\<close> walks the wrapping chain.
\<close>

datatype gerr =
    Canceled
  | DeadlineExceeded
  | ErrCircuitOpen
  | ErrRateLimitExceeded
  | HTTPError (statusCode: int) (httpStatus: string) (httpBody: string)
  | Opaque string
  | Wrapped string gerr

fun errors_Is :: "gerr \<Rightarrow> gerr \<Rightarrow> bool" where
  "errors_Is (Wrapped msg e) target = errors_Is e target"
| "errors_Is e target = (e = target)"

definition redaction_sentinels :: "gerr list" where
  "redaction_sentinels = [Canceled, DeadlineExceeded, ErrCircuitOpen, ErrRateLimitExceeded]"

definition safeWebhookError :: "gerr option \<Rightarrow> gerr option" where
  "safeWebhookError err =
     (case err of
        None \<Rightarrow> None
      | Some e \<Rightarrow>
          (case find (errors_Is e) redaction_sentinels of
             Some s \<Rightarrow> Some s
           | None \<Rightarrow> Some (Opaque ''webhook delivery failed'')))"

text \<open>
  \<^verbatim>\<open>HTTPError.Error()\<close>: the text shown for an HTTP failure, with the body cut at
  200 bytes; \<^verbatim>\<open>itoa\<close> is the standard library's rendering of the status code.
\<close>

definition HTTPError_Error :: "(int \<Rightarrow> string) \<Rightarrow> int \<Rightarrow> string \<Rightarrow> string \<Rightarrow> string" where
  "HTTPError_Error itoa code status body =
     (if body \<noteq> [] then
        (let b = (if 200 < length body then take 200 body @ ''...'' else body)
         in ''HTTP '' @ itoa code @ '': '' @ status @ '' - '' @ b)
      else ''HTTP '' @ itoa code @ '': '' @ status)"

subsection \<open>Nothing but a sentinel leaves the package\<close>

definition outward_errors :: "gerr set" where
  "outward_errors = set redaction_sentinels \<union> {Opaque ''webhook delivery failed''}"

lemma safeWebhookError_range:
  "safeWebhookError err = Some e \<Longrightarrow> e \<in> outward_errors"
  by (auto simp: safeWebhookError_def outward_errors_def find_Some_iff nth_mem
      split: option.splits)

lemma safeWebhookError_None [simp]: "safeWebhookError err = None \<longleftrightarrow> err = None"
  by (auto simp: safeWebhookError_def split: option.splits)

lemma errors_Is_sentinel_refl: "s \<in> set redaction_sentinels \<Longrightarrow> errors_Is s s"
  by (auto simp: redaction_sentinels_def)

lemma errors_Is_unique:
  "errors_Is e s \<Longrightarrow> errors_Is e t \<Longrightarrow> s = t"
  by (induction e s rule: errors_Is.induct) auto

lemma safeWebhookError_keeps:
  assumes "errors_Is e s" and "s \<in> set redaction_sentinels"
  shows "safeWebhookError (Some e) = Some s"
proof (cases "find (errors_Is e) redaction_sentinels")
  case None
  with assms show ?thesis by (auto simp: find_None_iff)
next
  case (Some s')
  then have "errors_Is e s'" by (auto simp: find_Some_iff)
  with assms(1) have "s' = s" by (blast dest: errors_Is_unique)
  with Some show ?thesis by (simp add: safeWebhookError_def)
qed

lemma safeWebhookError_idem:
  "safeWebhookError (safeWebhookError err) = safeWebhookError err"
proof (cases "safeWebhookError err")
  case (Some e)
  then have "e \<in> outward_errors" by (rule safeWebhookError_range)
  then have "safeWebhookError (Some e) = Some e"
    by (auto simp: outward_errors_def redaction_sentinels_def safeWebhookError_def)
  with Some show ?thesis by simp
qed (simp add: safeWebhookError_def)

lemma length_HTTPError_Error:
  "length (HTTPError_Error itoa code status body)
     \<le> length (itoa code) + length status + 213"
  by (auto simp: HTTPError_Error_def Let_def)

end
