(* ===== verification/CircuitBreaker.thy ===== *)
theory CircuitBreaker
  imports WebhookError
begin

text \<open>
  \<^verbatim>\<open>internal/webhook/circuitbreaker.go\<close>. The breaker is a record; every method is
  a function of the clock readings it takes. \<^verbatim>\<open>getState\<close> reads the state under
  the read lock and upgrades Open to HalfOpen under the write lock with a second check, so the
  two critical sections are separate definitions and the concurrent use of the breaker is the
  step relation \<^verbatim>\<open>cb_step\<close> in which other callers may run between them.
\<close>

datatype CircuitBreakerState = StateClosed | StateOpen | StateHalfOpen

fun CircuitBreakerState_String :: "CircuitBreakerState \<Rightarrow> string" where
  "CircuitBreakerState_String StateClosed = ''closed''"
| "CircuitBreakerState_String StateOpen = ''open''"
| "CircuitBreakerState_String StateHalfOpen = ''half-open''"

record circuit_breaker =
  failureThreshold :: int
  successThreshold :: int
  cb_timeout :: duration
  cb_state :: CircuitBreakerState
  failureCount :: int
  successCount :: int
  lastStateChange :: gotime

definition NewCircuitBreaker :: "int \<Rightarrow> int \<Rightarrow> duration \<Rightarrow> gotime \<Rightarrow> circuit_breaker" where
  "NewCircuitBreaker ft st tmo now =
     \<lparr>failureThreshold = ft, successThreshold = st, cb_timeout = tmo, cb_state = StateClosed,
      failureCount = 0, successCount = 0, lastStateChange = now\<rparr>"

definition cb_timed_out :: "gotime \<Rightarrow> gotime \<Rightarrow> circuit_breaker \<Rightarrow> bool" where
  "cb_timed_out now since cb \<longleftrightarrow> cb_timeout cb \<le> time_sub now since"

text \<open>The critical section under the write lock: check again, then move to HalfOpen.\<close>

definition getState_upgrade ::
    "gotime \<Rightarrow> gotime \<Rightarrow> circuit_breaker \<Rightarrow> CircuitBreakerState \<times> circuit_breaker" where
  "getState_upgrade t2 t3 cb =
     (if cb_state cb = StateOpen \<and> cb_timed_out t2 (lastStateChange cb) cb
      then (StateHalfOpen, cb\<lparr>cb_state := StateHalfOpen, successCount := 0, failureCount := 0,
              lastStateChange := t3\<rparr>)
      else (StateOpen, cb))"

definition getState ::
    "gotime \<Rightarrow> gotime \<Rightarrow> gotime \<Rightarrow> circuit_breaker \<Rightarrow> CircuitBreakerState \<times> circuit_breaker"
  where
  "getState t1 t2 t3 cb =
     (if cb_state cb = StateOpen \<and> cb_timed_out t1 (lastStateChange cb) cb
      then getState_upgrade t2 t3 cb
      else (cb_state cb, cb))"

definition recordSuccess :: "gotime \<Rightarrow> circuit_breaker \<Rightarrow> circuit_breaker" where
  "recordSuccess now cb =
     (case cb_state cb of
        StateHalfOpen \<Rightarrow>
          (let cb' = cb\<lparr>successCount := successCount cb + 1\<rparr>
           in if successThreshold cb \<le> successCount cb'
              then cb'\<lparr>cb_state := StateClosed, failureCount := 0, successCount := 0,
                        lastStateChange := now\<rparr>
              else cb')
      | StateClosed \<Rightarrow> cb\<lparr>failureCount := 0\<rparr>
      | StateOpen \<Rightarrow> cb)"

definition recordFailure :: "gotime \<Rightarrow> circuit_breaker \<Rightarrow> circuit_breaker" where
  "recordFailure now cb =
     (case cb_state cb of
        StateHalfOpen \<Rightarrow>
          cb\<lparr>cb_state := StateOpen, failureCount := 0, successCount := 0, lastStateChange := now\<rparr>
      | StateClosed \<Rightarrow>
          (let cb' = cb\<lparr>failureCount := failureCount cb + 1\<rparr>
           in if failureThreshold cb \<le> failureCount cb'
              then cb'\<lparr>cb_state := StateOpen, failureCount := 0, lastStateChange := now\<rparr>
              else cb')
      | StateOpen \<Rightarrow> cb)"

definition GetState :: "circuit_breaker \<Rightarrow> CircuitBreakerState" where
  "GetState cb = cb_state cb"

definition cb_GetStats :: "circuit_breaker \<Rightarrow> CircuitBreakerState \<times> int \<times> int" where
  "cb_GetStats cb = (cb_state cb, failureCount cb, successCount cb)"

text \<open>
  \<^verbatim>\<open>Execute\<close> with one caller: \<^verbatim>\<open>t1\<close>, \<^verbatim>\<open>t2\<close>, \<^verbatim>\<open>t3\<close> are
  the readings \<^verbatim>\<open>getState\<close> takes and \<^verbatim>\<open>t4\<close> the one after the call;
  \<^verbatim>\<open>fn\<close> acts on the rest of the world.
\<close>

definition Execute ::
    "gotime \<Rightarrow> gotime \<Rightarrow> gotime \<Rightarrow> gotime \<Rightarrow> ('w \<Rightarrow> gerr option \<times> 'w)
     \<Rightarrow> circuit_breaker \<Rightarrow> 'w \<Rightarrow> gerr option \<times> circuit_breaker \<times> 'w" where
  "Execute t1 t2 t3 t4 fn cb w =
     (let (st, cb1) = getState t1 t2 t3 cb
      in if st = StateOpen then (Some ErrCircuitOpen, cb1, w)
         else (let (err, w') = fn w
               in (err, (if err \<noteq> None then recordFailure t4 cb1 else recordSuccess t4 cb1), w')))"

lemmas cb_ops [op_defs] =
  getState_def getState_upgrade_def recordSuccess_def recordFailure_def GetState_def

subsection \<open>Invariant\<close>

text \<open>
  Between calls the counters are what the state says: no successes are counted while closed, no
  failures while half-open, nothing while open, and a counter that is in use is below its
  threshold.
\<close>

definition cb_inv :: "circuit_breaker \<Rightarrow> bool" where
  "cb_inv cb \<longleftrightarrow>
     (case cb_state cb of
        StateClosed \<Rightarrow> successCount cb = 0 \<and> 0 \<le> failureCount cb \<and>
                        failureCount cb < max 1 (failureThreshold cb)
      | StateOpen \<Rightarrow> failureCount cb = 0 \<and> successCount cb = 0
      | StateHalfOpen \<Rightarrow> failureCount cb = 0 \<and> 0 \<le> successCount cb \<and>
                        successCount cb < max 1 (successThreshold cb))"

lemma cb_inv_New: "cb_inv (NewCircuitBreaker ft st tmo now)"
  by (simp add: cb_inv_def NewCircuitBreaker_def)

lemma cb_inv_upgrade: "cb_inv cb \<Longrightarrow> cb_inv (snd (getState_upgrade t2 t3 cb))"
  by (auto simp: cb_inv_def getState_upgrade_def split: CircuitBreakerState.splits)

lemma cb_inv_getState: "cb_inv cb \<Longrightarrow> cb_inv (snd (getState t1 t2 t3 cb))"
  by (simp add: getState_def cb_inv_upgrade)

lemma cb_inv_recordSuccess: "cb_inv cb \<Longrightarrow> cb_inv (recordSuccess now cb)"
  by (auto simp: cb_inv_def recordSuccess_def Let_def split: CircuitBreakerState.splits)

lemma cb_inv_recordFailure: "cb_inv cb \<Longrightarrow> cb_inv (recordFailure now cb)"
  by (auto simp: cb_inv_def recordFailure_def Let_def split: CircuitBreakerState.splits)

text \<open>The calls a caller makes on the breaker, as one step function.\<close>

datatype cb_call = Probe gotime gotime gotime | Succeeded gotime | Failed gotime

fun cb_apply :: "cb_call \<Rightarrow> circuit_breaker \<Rightarrow> circuit_breaker" where
  "cb_apply (Probe t1 t2 t3) cb = snd (getState t1 t2 t3 cb)"
| "cb_apply (Succeeded t) cb = recordSuccess t cb"
| "cb_apply (Failed t) cb = recordFailure t cb"

lemma cb_inv_apply: "cb_inv cb \<Longrightarrow> cb_inv (cb_apply c cb)"
  by (cases c) (auto intro: cb_inv_getState cb_inv_recordSuccess cb_inv_recordFailure)

interpretation cbm: step_machine cb_apply cb_inv
  by unfold_locales (rule cb_inv_apply)

lemma cb_config_frame [simp]:
  "failureThreshold (cb_apply c cb) = failureThreshold cb"
  "successThreshold (cb_apply c cb) = successThreshold cb"
  "cb_timeout (cb_apply c cb) = cb_timeout cb"
  by (cases c; simp add: op_defs Let_def split: CircuitBreakerState.splits)+

subsection \<open>When a closed breaker opens\<close>

text \<open>The outcomes of the calls, oldest first, with the clock reading each is recorded at.\<close>

definition cb_records :: "(bool \<times> gotime) list \<Rightarrow> circuit_breaker \<Rightarrow> circuit_breaker" where
  "cb_records rs cb = fold (\<lambda>(b, t). if b then recordSuccess t else recordFailure t) rs cb"

lemma cb_records_snoc [simp]:
  "cb_records (rs @ [(b, t)]) cb =
     (if b then recordSuccess t (cb_records rs cb) else recordFailure t (cb_records rs cb))"
  by (simp add: cb_records_def)

text \<open>The abstract rule: the breaker opens on \<^verbatim>\<open>n\<close> failures in a row.\<close>

definition has_run :: "nat \<Rightarrow> bool list \<Rightarrow> bool" where
  "has_run n bs \<longleftrightarrow> (\<exists>xs ys. bs = xs @ replicate n False @ ys)"

definition trailing :: "bool list \<Rightarrow> nat" where
  "trailing bs = length (takeWhile Not (rev bs))"

lemma trailing_snoc [simp]: "trailing (bs @ [b]) = (if b then 0 else Suc (trailing bs))"
  by (simp add: trailing_def)

lemma trailing_Nil [simp]: "trailing [] = 0"
  by (simp add: trailing_def)

lemma has_run_Nil [simp]: "0 < n \<Longrightarrow> \<not> has_run n []"
  by (simp add: has_run_def)

lemma trailing_ge_iff: "n \<le> trailing bs \<longleftrightarrow> (\<exists>xs. bs = xs @ replicate n False)"
proof (induction bs arbitrary: n rule: rev_induct)
  case Nil
  then show ?case by auto
next
  case (snoc b bs)
  show ?case
  proof (cases n)
    case (Suc m)
    then show ?thesis
      using snoc.IH [of m] by (auto simp flip: replicate_append_same)
  qed simp
qed

lemma has_run_snoc:
  assumes "0 < n"
  shows "has_run n (bs @ [b]) \<longleftrightarrow> has_run n bs \<or> n \<le> trailing (bs @ [b])"
proof
  assume "has_run n (bs @ [b])"
  then obtain xs ys where eq: "bs @ [b] = xs @ replicate n False @ ys"
    by (auto simp: has_run_def)
  show "has_run n bs \<or> n \<le> trailing (bs @ [b])"
  proof (cases ys rule: rev_cases)
    case Nil
    with eq show ?thesis by (metis append_Nil2 trailing_ge_iff)
  next
    case (snoc zs z)
    with eq have "bs = xs @ replicate n False @ zs" by simp
    then show ?thesis by (auto simp: has_run_def)
  qed
next
  assume "has_run n bs \<or> n \<le> trailing (bs @ [b])"
  then show "has_run n (bs @ [b])"
  proof
    assume "has_run n bs"
    then obtain xs ys where "bs = xs @ replicate n False @ ys" by (auto simp: has_run_def)
    then have "bs @ [b] = xs @ replicate n False @ (ys @ [b])" by simp
    then show ?thesis unfolding has_run_def by blast
  next
    assume "n \<le> trailing (bs @ [b])"
    then obtain xs where "bs @ [b] = xs @ replicate n False" unfolding trailing_ge_iff by blast
    then have "bs @ [b] = xs @ replicate n False @ []" by simp
    then show ?thesis unfolding has_run_def by blast
  qed
qed

lemma cb_records_closed:
  assumes "0 < ft"
  shows "let cb = cb_records rs (NewCircuitBreaker ft st tmo now); bs = map fst rs
         in failureThreshold cb = ft \<and>
            (if has_run (nat ft) bs then cb_state cb = StateOpen
             else cb_state cb = StateClosed \<and> failureCount cb = int (trailing bs) \<and>
                  trailing bs < nat ft)"
proof (induction rs rule: rev_induct)
  case Nil
  with assms show ?case by (simp add: cb_records_def NewCircuitBreaker_def)
next
  case (snoc r rs)
  obtain b t where r: "r = (b, t)" by (cases r)
  have pos: "0 < nat ft" using assms by simp
  show ?case
    using snoc.IH assms
    by (auto simp: r Let_def has_run_snoc [OF pos] recordSuccess_def recordFailure_def
        split: if_splits)
qed

lemma getState_open_before_timeout:
  "cb_state cb = StateOpen \<Longrightarrow> \<not> cb_timed_out t1 (lastStateChange cb) cb \<Longrightarrow>
   getState t1 t2 t3 cb = (StateOpen, cb)"
  by (simp add: getState_def)

subsection \<open>Probing\<close>

lemma half_open_successes:
  assumes "cb_state cb = StateHalfOpen" and "successCount cb = 0"
    and "int (length ts) < successThreshold cb"
  shows "cb_records (map (Pair True) ts) cb
       = cb\<lparr>successCount := int (length ts)\<rparr>"
  using assms(3)
proof (induction ts rule: rev_induct)
  case Nil
  with assms show ?case by (simp add: cb_records_def)
next
  case (snoc t ts)
  then have "cb_records (map (Pair True) ts) cb = cb\<lparr>successCount := int (length ts)\<rparr>"
    by simp
  with snoc.prems assms show ?case
    by (simp add: cb_records_def recordSuccess_def Let_def)
qed

subsection \<open>Concurrent callers\<close>

text \<open>
  A caller of \<^verbatim>\<open>Execute\<close> is outside, has read the breaker under the read lock,
  waits for the write lock to upgrade, or runs its function. The clock only moves forward.
\<close>

datatype cb_pc = Outside | Seen CircuitBreakerState gotime | Upgrading | Calling

record cb_sys =
  sys_cb :: circuit_breaker
  sys_now :: gotime
  sys_pc :: "nat \<Rightarrow> cb_pc"

definition set_pc :: "nat \<Rightarrow> cb_pc \<Rightarrow> cb_sys \<Rightarrow> cb_sys" where
  "set_pc i p s = s\<lparr>sys_pc := (sys_pc s)(i := p)\<rparr>"

lemma set_pc_simps [simp]:
  "sys_cb (set_pc i p s) = sys_cb s"
  "sys_now (set_pc i p s) = sys_now s"
  "sys_pc (set_pc i p s) j = (if j = i then p else sys_pc s j)"
  by (simp_all add: set_pc_def)

inductive cb_step :: "cb_sys \<Rightarrow> cb_sys \<Rightarrow> bool" where
  tick: "0 \<le> d \<Longrightarrow> cb_step s (s\<lparr>sys_now := sys_now s + d\<rparr>)"
| read: "sys_pc s i = Outside \<Longrightarrow>
    cb_step s (set_pc i (Seen (cb_state (sys_cb s)) (lastStateChange (sys_cb s))) s)"
| pass: "sys_pc s i = Seen st lc \<Longrightarrow> st \<noteq> StateOpen \<Longrightarrow> cb_step s (set_pc i Calling s)"
| reject: "sys_pc s i = Seen StateOpen lc \<Longrightarrow> \<not> cb_timed_out (sys_now s) lc (sys_cb s) \<Longrightarrow>
    cb_step s (set_pc i Outside s)"
| want: "sys_pc s i = Seen StateOpen lc \<Longrightarrow> cb_timed_out (sys_now s) lc (sys_cb s) \<Longrightarrow>
    cb_step s (set_pc i Upgrading s)"
| upgrade: "sys_pc s i = Upgrading \<Longrightarrow>
    getState_upgrade (sys_now s) (sys_now s) (sys_cb s) = (StateHalfOpen, cb') \<Longrightarrow>
    cb_step s (set_pc i Calling (s\<lparr>sys_cb := cb'\<rparr>))"
| lost: "sys_pc s i = Upgrading \<Longrightarrow>
    getState_upgrade (sys_now s) (sys_now s) (sys_cb s) = (StateOpen, cb') \<Longrightarrow>
    cb_step s (set_pc i Outside (s\<lparr>sys_cb := cb'\<rparr>))"
| succeed: "sys_pc s i = Calling \<Longrightarrow>
    cb_step s (set_pc i Outside (s\<lparr>sys_cb := recordSuccess (sys_now s) (sys_cb s)\<rparr>))"
| failed: "sys_pc s i = Calling \<Longrightarrow>
    cb_step s (set_pc i Outside (s\<lparr>sys_cb := recordFailure (sys_now s) (sys_cb s)\<rparr>))"

inductive_cases cb_stepE: "cb_step s t"

lemma cb_step_now: "cb_step s t \<Longrightarrow> sys_now s \<le> sys_now t"
  by (induction rule: cb_step.induct) auto

lemma cb_steps_now: "cb_step\<^sup>*\<^sup>* s t \<Longrightarrow> sys_now s \<le> sys_now t"
  by (induction rule: rtranclp_induct) (auto dest: cb_step_now)

lemma getState_upgrade_cases:
  "getState_upgrade t2 t3 cb = (st, cb') \<Longrightarrow>
   (st = StateHalfOpen \<and> cb_state cb = StateOpen \<and> cb_timed_out t2 (lastStateChange cb) cb \<and>
    cb' = cb\<lparr>cb_state := StateHalfOpen, successCount := 0, failureCount := 0,
             lastStateChange := t3\<rparr>)
   \<or> (st = StateOpen \<and> cb' = cb)"
  by (auto simp: getState_upgrade_def split: if_splits)

lemma cb_step_timeout: "cb_step s t \<Longrightarrow> cb_timeout (sys_cb t) = cb_timeout (sys_cb s)"
  by (induction rule: cb_step.induct)
    (auto simp: recordSuccess_def recordFailure_def Let_def dest!: getState_upgrade_cases
      split: CircuitBreakerState.splits)

lemma cb_step_inv: "cb_step s t \<Longrightarrow> cb_inv (sys_cb s) \<Longrightarrow> cb_inv (sys_cb t)"
proof (induction rule: cb_step.induct)
  case (upgrade s i cb')
  then show ?case using cb_inv_upgrade [of "sys_cb s" "sys_now s" "sys_now s"] by simp
next
  case (lost s i cb')
  then show ?case using cb_inv_upgrade [of "sys_cb s" "sys_now s" "sys_now s"] by simp
qed (auto intro: cb_inv_recordSuccess cb_inv_recordFailure)

lemma cb_steps_inv: "cb_step\<^sup>*\<^sup>* s t \<Longrightarrow> cb_inv (sys_cb s) \<Longrightarrow> cb_inv (sys_cb t)"
  by (induction rule: rtranclp_induct) (auto dest: cb_step_inv)

text \<open>While the open period lasts, no step of any caller changes the breaker.\<close>

lemma cb_step_open:
  "cb_step s t \<Longrightarrow> cb_state (sys_cb s) = StateOpen \<Longrightarrow>
   \<not> cb_timed_out (sys_now s) (lastStateChange (sys_cb s)) (sys_cb s) \<Longrightarrow> sys_cb t = sys_cb s"
  by (induction rule: cb_step.induct)
    (auto simp: recordSuccess_def recordFailure_def dest!: getState_upgrade_cases)

lemma cb_timed_out_mono:
  "t \<le> t' \<Longrightarrow> cb_timed_out t since cb \<Longrightarrow> cb_timed_out t' since cb"
  using time_sub_mono [of t t' since] by (simp add: cb_timed_out_def)

text \<open>At most one waiting caller gets through per expiry: after the upgrade the others lose.\<close>

lemma upgrade_once:
  "getState_upgrade t2 t3 cb = (StateHalfOpen, cb') \<Longrightarrow>
   getState_upgrade t2' t3' cb' = (StateOpen, cb')"
  by (auto simp: getState_upgrade_def split: if_splits)

subsection \<open>Properties\<close>

text \<open>
  Property C25. A new breaker is open after a sequence of recorded outcomes exactly when that
  sequence contains \<^verbatim>\<open>failureThreshold\<close> failures in a row; otherwise it is
  closed and its failure count is the number of failures since the last success.
\<close>

theorem breaker_opens_iff_failure_run:
  assumes "0 < ft"
  shows "let cb = cb_records rs (NewCircuitBreaker ft st tmo now)
         in (cb_state cb = StateOpen) = has_run (nat ft) (map fst rs) \<and>
            (cb_state cb \<noteq> StateOpen \<longrightarrow>
               cb_state cb = StateClosed \<and> failureCount cb = int (trailing (map fst rs)))"
  using cb_records_closed [OF assms, of rs st tmo now] by (auto simp: Let_def split: if_splits)

lemma breaker_opens_iff_failure_run_witness:
  "cb_state (cb_records [(False, 1), (True, 2), (False, 3), (False, 4)]
     (NewCircuitBreaker 2 1 5 0)) = StateOpen"
proof -
  have "has_run (nat 2) (map fst [(False, 1::int), (True, 2), (False, 3), (False, 4)])"
    unfolding has_run_def
    by (rule exI [of _ "[False, True]"], rule exI [of _ "[]"]) (simp add: numeral_2_eq_2)
  then show ?thesis
    using breaker_opens_iff_failure_run
      [of 2 "[(False, 1), (True, 2), (False, 3), (False, 4)]" 1 5 0]
    by (simp add: Let_def)
qed

text \<open>
  Theorem. However many callers use the breaker at once, an open breaker stays exactly as it
  is, with the same opening time, until its timeout has passed on the clock.
\<close>

theorem breaker_stays_open_until_timeout:
  assumes "cb_step\<^sup>*\<^sup>* s t" and "cb_state (sys_cb s) = StateOpen"
    and "\<not> cb_timed_out (sys_now t) (lastStateChange (sys_cb s)) (sys_cb s)"
  shows "sys_cb t = sys_cb s"
  using assms(1,3)
proof (induction rule: rtranclp_induct)
  case (step u v)
  have "\<not> cb_timed_out (sys_now u) (lastStateChange (sys_cb s)) (sys_cb s)"
    using step.prems cb_step_now [OF step.hyps(2)] cb_timed_out_mono by blast
  with step.IH have "sys_cb u = sys_cb s" by simp
  with step.hyps(2) \<open>\<not> cb_timed_out (sys_now u) _ _\<close> assms(2) show ?case
    using cb_step_open [of u v] by simp
qed simp

lemma breaker_stays_open_until_timeout_witness:
  "let cb = recordFailure 0 (NewCircuitBreaker 1 1 10 0);
       s = \<lparr>sys_cb = cb, sys_now = 3, sys_pc = (\<lambda>_. Calling)\<rparr>
   in cb_state cb = StateOpen \<and>
      (\<exists>t. cb_step s t \<and> sys_pc t 7 = Outside \<and> sys_cb t = cb)"
proof -
  let ?cb = "recordFailure 0 (NewCircuitBreaker 1 1 10 0)"
  let ?s = "\<lparr>sys_cb = ?cb, sys_now = 3, sys_pc = (\<lambda>_. Calling)\<rparr>"
  let ?t = "set_pc 7 Outside (?s\<lparr>sys_cb := recordSuccess (sys_now ?s) (sys_cb ?s)\<rparr>)"
  have step: "cb_step ?s ?t" by (rule cb_step.succeed) simp
  have "sys_cb ?t = sys_cb ?s"
    by (rule breaker_stays_open_until_timeout [of ?s ?t])
      (use step in \<open>auto simp: recordFailure_def NewCircuitBreaker_def cb_timed_out_def
         time_sub_def set_pc_def\<close>)
  with step have "cb_step ?s ?t \<and> sys_pc ?t 7 = Outside \<and> sys_cb ?t = ?cb" by simp
  moreover have "cb_state ?cb = StateOpen"
    by (simp add: recordFailure_def NewCircuitBreaker_def)
  ultimately show ?thesis unfolding Let_def by blast
qed

text \<open>
  Theorem. In every interleaving of any number of callers from a new breaker, the counters
  keep their meaning: no successes while closed, no failures while half-open, both zero while
  open, and each counter in use below its threshold.
\<close>

theorem breaker_counters_invariant:
  assumes "cb_step\<^sup>*\<^sup>* \<lparr>sys_cb = NewCircuitBreaker ft st tmo now, sys_now = now,
                       sys_pc = (\<lambda>_. Outside)\<rparr> t"
  shows "cb_inv (sys_cb t)"
  using assms cb_steps_inv [OF assms] by (simp add: cb_inv_New)

lemma breaker_counters_invariant_witness:
  "\<exists>t :: cb_sys. sys_pc t 0 = Seen StateClosed 5 \<and> cb_inv (sys_cb t)"
proof -
  let ?s = "\<lparr>sys_cb = NewCircuitBreaker 3 2 10 5, sys_now = 5, sys_pc = (\<lambda>_. Outside)\<rparr>"
  have "cb_step ?s (set_pc 0 (Seen (cb_state (sys_cb ?s)) (lastStateChange (sys_cb ?s))) ?s)"
    by (rule cb_step.read) simp
  then have "cb_step\<^sup>*\<^sup>* ?s (set_pc 0 (Seen StateClosed 5) ?s)"
    by (simp add: NewCircuitBreaker_def r_into_rtranclp)
  then have "cb_inv (sys_cb (set_pc 0 (Seen StateClosed 5) ?s))"
    by (rule breaker_counters_invariant)
  then have "sys_pc (set_pc 0 (Seen StateClosed 5) ?s) 0 = Seen StateClosed 5 \<and>
      cb_inv (sys_cb (set_pc 0 (Seen StateClosed 5) ?s))" by simp
  then show ?thesis by (rule exI)
qed

text \<open>
  Theorem. Probing: once the timeout has passed, a call on an open breaker runs its function
  in the half-open state; then exactly \<^verbatim>\<open>successThreshold\<close> successes in a row
  close the breaker, and a failure before that opens it again at that time.
\<close>

theorem breaker_half_open_recovery:
  assumes "cb_state cb = StateOpen" and "cb_timed_out t1 (lastStateChange cb) cb"
    and "t1 \<le> t2" and "int (length ts) + 1 = successThreshold cb"
  shows "let (st, cb1) = getState t1 t2 t3 cb; cb2 = cb_records (map (Pair True) ts) cb1
         in st = StateHalfOpen \<and> cb_state cb2 = StateHalfOpen \<and>
            cb_state (recordSuccess t cb2) = StateClosed \<and>
            cb_state (recordFailure t cb2) = StateOpen \<and>
            lastStateChange (recordFailure t cb2) = t"
proof -
  let ?cb1 = "cb\<lparr>cb_state := StateHalfOpen, successCount := 0, failureCount := 0,
                lastStateChange := t3\<rparr>"
  have get: "getState t1 t2 t3 cb = (StateHalfOpen, ?cb1)"
    using assms(1-3) cb_timed_out_mono [OF assms(3)] by (simp add: getState_def getState_upgrade_def)
  have "cb_records (map (Pair True) ts) ?cb1 = ?cb1\<lparr>successCount := int (length ts)\<rparr>"
    by (rule half_open_successes) (use assms(4) in simp_all)
  with get assms(4) show ?thesis
    by (simp add: Let_def recordSuccess_def recordFailure_def)
qed

lemma breaker_half_open_recovery_witness:
  "let cb = recordFailure 0 (NewCircuitBreaker 1 2 10 0)
   in fst (getState 10 10 10 cb) = StateHalfOpen \<and>
      cb_state (recordSuccess 12 (recordSuccess 11 (snd (getState 10 10 10 cb)))) = StateClosed"
proof -
  let ?cb = "recordFailure 0 (NewCircuitBreaker 1 2 10 0)"
  have "cb_state ?cb = StateOpen" "cb_timed_out 10 (lastStateChange ?cb) ?cb"
    "int (length [11 :: int]) + 1 = successThreshold ?cb"
    by (simp_all add: recordFailure_def NewCircuitBreaker_def cb_timed_out_def time_sub_def)
  from breaker_half_open_recovery [OF this(1,2) order_refl this(3), of 10 12]
  show ?thesis by (simp add: Let_def split_beta cb_records_def)
qed

end
