(* ===== verification/RateLimiter.thy ===== *)
theory RateLimiter
  imports WebhookError
begin

text \<open>
  \<^verbatim>\<open>internal/webhook/ratelimiter.go\<close>: the token bucket. The code's
  \<^verbatim>\<open>float64\<close> tokens are exact rationals here, so rounding is not modelled; clock
  readings are nanoseconds. \<^verbatim>\<open>Wait\<close> is driven by a schedule that says, per
  iteration, when \<^verbatim>\<open>Allow\<close> runs and whether the context ends the wait.
\<close>

record rate_limiter =
  rl_rate :: rat
  rl_capacity :: int
  rl_tokens :: rat
  lastRefill :: gotime

definition NewRateLimiter :: "int \<Rightarrow> gotime \<Rightarrow> rate_limiter" where
  "NewRateLimiter requestsPerMinute now =
     \<lparr>rl_rate = of_int requestsPerMinute / 60, rl_capacity = requestsPerMinute,
      rl_tokens = of_int requestsPerMinute, lastRefill = now\<rparr>"

definition seconds_between :: "gotime \<Rightarrow> gotime \<Rightarrow> rat" where
  "seconds_between now since = of_int (time_sub now since) / of_int second"

definition rl_refill :: "gotime \<Rightarrow> rate_limiter \<Rightarrow> rate_limiter" where
  "rl_refill now rl =
     (let t = rl_tokens rl + seconds_between now (lastRefill rl) * rl_rate rl
      in rl\<lparr>rl_tokens := (if of_int (rl_capacity rl) < t then of_int (rl_capacity rl) else t),
            lastRefill := now\<rparr>)"

definition Allow :: "gotime \<Rightarrow> rate_limiter \<Rightarrow> bool \<times> rate_limiter" where
  "Allow now rl =
     (let rl' = rl_refill now rl
      in if 1 \<le> rl_tokens rl' then (True, rl'\<lparr>rl_tokens := rl_tokens rl' - 1\<rparr>)
         else (False, rl'))"

text \<open>
  \<^verbatim>\<open>timeUntilNextToken\<close> converts a positive number of seconds to a duration, which
  truncates. With a zero rate the code divides by zero and converts an infinite float, which Go
  leaves to the implementation: no value here.
\<close>

definition timeUntilNextToken :: "rate_limiter \<Rightarrow> duration option" where
  "timeUntilNextToken rl =
     (if 1 \<le> rl_tokens rl then Some 0
      else if rl_rate rl = 0 then None
      else Some \<lfloor>(1 - rl_tokens rl) / rl_rate rl * of_int second\<rfloor>)"

definition rl_GetStats :: "rate_limiter \<Rightarrow> rat \<times> int \<times> rat" where
  "rl_GetStats rl = (rl_tokens rl, rl_capacity rl, rl_rate rl)"

datatype wait_result = Admitted | Ended gerr | StillWaiting

fun Wait :: "(gotime \<times> gerr option) list \<Rightarrow> rate_limiter \<Rightarrow> wait_result \<times> rate_limiter" where
  "Wait [] rl = (StillWaiting, rl)"
| "Wait ((now, done) # rest) rl =
     (let (ok, rl') = Allow now rl
      in if ok then (Admitted, rl')
         else (case done of Some e \<Rightarrow> (Ended e, rl') | None \<Rightarrow> Wait rest rl'))"

fun allow_all :: "gotime list \<Rightarrow> rate_limiter \<Rightarrow> bool list \<times> rate_limiter" where
  "allow_all [] rl = ([], rl)"
| "allow_all (t # ts) rl =
     (let (b, rl1) = Allow t rl; (bs, rl2) = allow_all ts rl1 in (b # bs, rl2))"

subsection \<open>The bucket\<close>

definition rl_inv :: "rate_limiter \<Rightarrow> bool" where
  "rl_inv rl \<longleftrightarrow> 0 \<le> rl_rate rl \<and> 0 \<le> rl_capacity rl \<and> 0 \<le> rl_tokens rl \<and>
     rl_tokens rl \<le> of_int (rl_capacity rl)"

lemma rl_inv_New: "0 \<le> rpm \<Longrightarrow> rl_inv (NewRateLimiter rpm now)"
  by (simp add: rl_inv_def NewRateLimiter_def)

lemma second_pos: "0 < (of_int second :: rat)"
  by (simp add: second_def)

lemma seconds_between_nonneg: "since \<le> now \<Longrightarrow> 0 \<le> seconds_between now since"
  using second_pos by (auto simp: seconds_between_def time_sub_def)

lemma seconds_between_le:
  assumes "since \<le> now"
  shows "seconds_between now since \<le> of_int (now - since) / of_int second"
proof -
  have "time_sub now since \<le> now - since" using assms by (auto simp: time_sub_def)
  then have "(of_int (time_sub now since) :: rat) \<le> of_int (now - since)" by linarith
  then show ?thesis using second_pos unfolding seconds_between_def
    by (intro divide_right_mono) auto
qed

lemma Allow_frame [simp]:
  "rl_rate (snd (Allow now rl)) = rl_rate rl"
  "rl_capacity (snd (Allow now rl)) = rl_capacity rl"
  "lastRefill (snd (Allow now rl)) = now"
  by (simp_all add: Allow_def rl_refill_def Let_def)

lemma rl_inv_refill: "rl_inv rl \<Longrightarrow> lastRefill rl \<le> now \<Longrightarrow> rl_inv (rl_refill now rl)"
  using seconds_between_nonneg [of "lastRefill rl" now]
  by (auto simp: rl_inv_def rl_refill_def Let_def intro: add_nonneg_nonneg mult_nonneg_nonneg)

lemma rl_inv_Allow: "rl_inv rl \<Longrightarrow> lastRefill rl \<le> now \<Longrightarrow> rl_inv (snd (Allow now rl))"
  using rl_inv_refill [of rl now] by (auto simp: rl_inv_def Allow_def Let_def)

text \<open>
  Accounting for one call: what is left plus what was taken is at most what was there plus what
  the elapsed time earns.
\<close>

lemma Allow_account:
  assumes "rl_inv rl" and "lastRefill rl \<le> now"
  shows "rl_tokens (snd (Allow now rl)) + (if fst (Allow now rl) then 1 else 0)
     \<le> rl_tokens rl + of_int (now - lastRefill rl) / of_int second * rl_rate rl"
proof -
  have "rl_tokens (rl_refill now rl)
      \<le> rl_tokens rl + seconds_between now (lastRefill rl) * rl_rate rl"
    by (simp add: rl_refill_def Let_def)
  also have "\<dots> \<le> rl_tokens rl + of_int (now - lastRefill rl) / of_int second * rl_rate rl"
    using assms seconds_between_le [OF assms(2)]
    by (intro add_left_mono mult_right_mono) (auto simp: rl_inv_def)
  finally show ?thesis by (simp add: Allow_def Let_def)
qed

lemma allow_all_account:
  assumes "rl_inv rl" and "sorted (lastRefill rl # ts)"
  shows "of_nat (count_list (fst (allow_all ts rl)) True)
     \<le> rl_tokens rl + of_int (last (lastRefill rl # ts) - lastRefill rl) / of_int second * rl_rate rl"
  using assms
proof (induction ts arbitrary: rl)
  case Nil
  then show ?case by (simp add: rl_inv_def)
next
  case (Cons t ts)
  let ?rl = "snd (Allow t rl)" and ?b = "fst (Allow t rl)"
  have le: "lastRefill rl \<le> t" using Cons.prems(2) by simp
  let ?e = "\<lambda>d::int. of_int d / of_int second * rl_rate rl"
  have split: "?e (last (t # ts) - lastRefill rl)
      = ?e (last (t # ts) - t) + ?e (t - lastRefill rl)"
    by (simp only: of_int_diff diff_divide_distrib left_diff_distrib)
  have "of_nat (count_list (fst (allow_all ts ?rl)) True)
      \<le> rl_tokens ?rl + ?e (last (t # ts) - t)"
    using Cons.IH [OF rl_inv_Allow [OF Cons.prems(1) le]] Cons.prems(2) by simp
  moreover have "rl_tokens ?rl + (if ?b then 1 else 0) \<le> rl_tokens rl + ?e (t - lastRefill rl)"
    by (rule Allow_account [OF Cons.prems(1) le])
  moreover have "fst (allow_all (t # ts) rl) = ?b # fst (allow_all ts ?rl)"
    by (simp add: Let_def split_beta)
  moreover have "last (lastRefill rl # t # ts) = last (t # ts)" by simp
  ultimately show ?case using split by (cases ?b) (simp_all del: last.simps allow_all.simps)
qed

subsection \<open>Properties\<close>

text \<open>
  Property C39. A new limiter of \<^verbatim>\<open>rpm\<close> requests per minute lets at most
  \<^verbatim>\<open>rpm\<close> plus \<^verbatim>\<open>rpm\<close> per elapsed minute of the calls through,
  whatever the times of the calls are.
\<close>

theorem limiter_admits_at_most:
  assumes "0 \<le> rpm" and "sorted (now # ts)"
  shows "of_nat (count_list (fst (allow_all ts (NewRateLimiter rpm now))) True)
     \<le> (of_int rpm :: rat) + of_int rpm * of_int (last (now # ts) - now) / of_int (60 * second)"
  using allow_all_account [OF rl_inv_New [OF assms(1), of now]] assms(2)
  by (simp add: NewRateLimiter_def field_simps)

lemma limiter_admits_at_most_witness:
  "count_list (fst (allow_all [0, 0, 0] (NewRateLimiter 2 0))) True \<le> 2"
proof -
  have "of_nat (count_list (fst (allow_all [0, 0, 0] (NewRateLimiter 2 0))) True)
     \<le> (2 :: rat)"
    using limiter_admits_at_most [of 2 0 "[0, 0, 0]"] by simp
  then show ?thesis by linarith
qed

text \<open>
  Property C40. The advised time is the time a call must wait, rounded down to nanoseconds: if nobody
  else takes a token meanwhile, an attempt before the advised time has passed since the last refill
  is refused and every attempt later than it is admitted (positive rate, capacity at least one). Exactly at the advised time the truncation may cost the call
  its token, as the example shows, and \<^verbatim>\<open>Wait\<close> goes round once more.
\<close>

theorem limiter_wait_then_admitted:
  assumes "rl_inv rl" and "0 < rl_rate rl" and "1 \<le> rl_capacity rl"
    and "timeUntilNextToken rl = Some d" and "lastRefill rl \<le> now"
    and "now - lastRefill rl < 2 ^ 63"
  shows "(now < lastRefill rl + d \<longrightarrow> \<not> fst (Allow now rl))
    \<and> (lastRefill rl + d < now \<longrightarrow> fst (Allow now rl))"
proof -
  let ?s = "of_int second :: rat" and ?e = "now - lastRefill rl"
  have cap: "(1::rat) \<le> of_int (rl_capacity rl)" using assms(3) by linarith
  have s: "0 < ?s" by (rule second_pos)
  have "seconds_between now (lastRefill rl) = of_int ?e / ?s"
    using assms(5,6) by (simp add: seconds_between_def time_sub_def)
  then have allow: "fst (Allow now rl) \<longleftrightarrow> 1 \<le> rl_tokens rl + of_int ?e / ?s * rl_rate rl"
    using cap by (simp add: Allow_def rl_refill_def Let_def)
  show ?thesis
  proof (cases "1 \<le> rl_tokens rl")
    case True
    then have "d = 0" using assms(4) by (simp add: timeUntilNextToken_def)
    moreover have "0 \<le> of_int ?e / ?s * rl_rate rl" using assms(2,5) s by simp
    then have "1 \<le> rl_tokens rl + of_int ?e / ?s * rl_rate rl" using True by linarith
    ultimately show ?thesis using allow assms(5) by simp
  next
    case False
    let ?w = "(1 - rl_tokens rl) / rl_rate rl * ?s"
    have d: "d = \<lfloor>?w\<rfloor>" using False assms(2,4) by (simp add: timeUntilNextToken_def)
    have "fst (Allow now rl) \<longleftrightarrow> ?w \<le> of_int ?e"
      using allow s assms(2) by (simp add: field_simps)
    moreover have "of_int ?e < ?w" if "now < lastRefill rl + d"
      using that d by (simp add: less_floor_iff) linarith
    moreover have "?w \<le> of_int ?e" if "lastRefill rl + d < now"
      using that d by linarith
    ultimately show ?thesis by (auto simp: not_le)
  qed
qed

text \<open>Three requests a second: a third of a second is 333333333 nanoseconds and a third.\<close>

lemma limiter_wait_then_admitted_witness:
  "let rl = \<lparr>rl_rate = 3, rl_capacity = 1, rl_tokens = 0, lastRefill = 0\<rparr>
   in timeUntilNextToken rl = Some 333333333 \<and> \<not> fst (Allow 333333332 rl) \<and>
      \<not> fst (Allow 333333333 rl) \<and> fst (Allow 333333334 rl)"
proof -
  let ?rl = "\<lparr>rl_rate = 3, rl_capacity = 1, rl_tokens = 0, lastRefill = 0\<rparr>"
  have "rl_inv ?rl" by (simp add: rl_inv_def)
  moreover have t: "timeUntilNextToken ?rl = Some 333333333"
    by (simp add: timeUntilNextToken_def second_def floor_eq_iff)
  moreover have "\<not> fst (Allow 333333333 ?rl)"
    by (simp add: Allow_def rl_refill_def seconds_between_def time_sub_def second_def Let_def)
  ultimately show ?thesis
    using limiter_wait_then_admitted [of ?rl 333333333 333333332]
      limiter_wait_then_admitted [of ?rl 333333333 333333334] by (simp add: Let_def)
qed

end
