(* ===== verification/Retry.thy ===== *)
theory Retry
  imports WebhookError
begin

text \<open>
  \<^verbatim>\<open>internal/webhook/retry.go\<close>: the retry loop and its backoff. The function that
  is retried acts on a world of any type; what the context reports after an attempt and during a
  backoff, and the jitter drawn, are functions of the attempt number. The backoff's
  \<^verbatim>\<open>float64\<close> arithmetic is exact here.
\<close>

record retry_config =
  rc_Enabled :: bool
  MaxAttempts :: int
  InitialBackoff :: duration
  MaxBackoff :: duration
  Multiplier :: rat

definition DefaultRetryConfig :: retry_config where
  "DefaultRetryConfig =
     \<lparr>rc_Enabled = True, MaxAttempts = 3, InitialBackoff = second, MaxBackoff = 10 * second,
      Multiplier = 2\<rparr>"

record retry_env =
  ctx_err :: "nat \<Rightarrow> gerr option"
  backoff_done :: "nat \<Rightarrow> gerr option"
  jitter_draw :: "nat \<Rightarrow> rat"

fun isRetryable :: "gerr option \<Rightarrow> bool" where
  "isRetryable None = False"
| "isRetryable (Some (HTTPError code status body)) =
     (if 400 \<le> code \<and> code < 500 then code = 429 else True)"
| "isRetryable (Some _) = True"

definition calculateBackoff :: "retry_config \<Rightarrow> rat \<Rightarrow> nat \<Rightarrow> duration" where
  "calculateBackoff cfg draw attempt =
     (let b = of_int (InitialBackoff cfg) * Multiplier cfg ^ (attempt - 1);
          b = (if of_int (MaxBackoff cfg) < b then of_int (MaxBackoff cfg) else b);
          jitter = draw * b * (1 / 4)
      in \<lfloor>b + jitter\<rfloor>)"

text \<open>
  The loop of \<^verbatim>\<open>Do\<close>: \<^verbatim>\<open>left\<close> attempts remain, the next one is number
  \<^verbatim>\<open>attempt\<close>. The result carries the backoffs slept. With no attempt allowed the
  code wraps a nil error, which is an error all the same.
\<close>

definition exhausted :: "gerr option \<Rightarrow> gerr" where
  "exhausted lastErr =
     (case lastErr of
        Some e \<Rightarrow> Wrapped ''max retry attempts exhausted'' e
      | None \<Rightarrow> Opaque ''max retry attempts exhausted'')"

fun retry_loop ::
    "retry_config \<Rightarrow> retry_env \<Rightarrow> ('w \<Rightarrow> gerr option \<times> 'w) \<Rightarrow> nat \<Rightarrow> nat \<Rightarrow> gerr option \<Rightarrow> 'w
     \<Rightarrow> gerr option \<times> duration list \<times> 'w" where
  "retry_loop cfg env fn 0 attempt lastErr w = (Some (exhausted lastErr), [], w)"
| "retry_loop cfg env fn (Suc left) attempt lastErr w =
     (case fn w of
        (None, w') \<Rightarrow> (None, [], w')
      | (Some err, w') \<Rightarrow>
          if \<not> isRetryable (Some err)
          then (Some (Wrapped ''permanent error (non-retryable)'' err), [], w')
          else if left = 0 then (Some (exhausted (Some err)), [], w')
          else (case ctx_err env attempt of
                  Some c \<Rightarrow> (Some (Wrapped ''context cancelled'' c), [], w')
                | None \<Rightarrow>
                    let backoff = calculateBackoff cfg (jitter_draw env attempt) attempt
                    in (case backoff_done env attempt of
                          Some c \<Rightarrow> (Some (Wrapped ''context cancelled during backoff'' c), [], w')
                        | None \<Rightarrow>
                            let (r, sleeps, w'') =
                              retry_loop cfg env fn left (Suc attempt) (Some err) w'
                            in (r, backoff # sleeps, w''))))"

definition Do ::
    "retry_config \<Rightarrow> retry_env \<Rightarrow> ('w \<Rightarrow> gerr option \<times> 'w) \<Rightarrow> 'w
     \<Rightarrow> gerr option \<times> duration list \<times> 'w" where
  "Do cfg env fn w =
     (if \<not> rc_Enabled cfg then (let (r, w') = fn w in (r, [], w'))
      else retry_loop cfg env fn (nat (MaxAttempts cfg)) 1 None w)"

subsection \<open>Backoff\<close>

lemma calculateBackoff_bounds:
  assumes "0 \<le> draw" and "draw \<le> 1" and "0 \<le> InitialBackoff cfg" and "0 \<le> MaxBackoff cfg"
    and "0 \<le> Multiplier cfg"
  shows "0 \<le> calculateBackoff cfg draw attempt \<and>
         4 * calculateBackoff cfg draw attempt \<le> 5 * MaxBackoff cfg"
proof -
  define m where "m = (of_int (MaxBackoff cfg) :: rat)"
  define p where "p = of_int (InitialBackoff cfg) * Multiplier cfg ^ (attempt - 1)"
  define b where "b = (if m < p then m else p)"
  have b: "0 \<le> b" "b \<le> m" using assms(3-5) by (auto simp: b_def m_def p_def)
  have j: "0 \<le> draw * b" "draw * b \<le> b"
    using assms(1,2) b(1) by (simp_all add: mult_left_le_one_le)
  define x where "x = b + draw * b * (1 / 4)"
  have eq: "calculateBackoff cfg draw attempt = \<lfloor>x\<rfloor>"
    by (simp add: calculateBackoff_def Let_def x_def b_def m_def p_def)
  have "4 * x = 4 * b + draw * b" by (simp add: x_def)
  with b j have "4 * x \<le> 5 * m" by linarith
  moreover have "of_int \<lfloor>x\<rfloor> \<le> x" by (rule of_int_floor_le)
  ultimately have "4 * of_int \<lfloor>x\<rfloor> \<le> 5 * m" by linarith
  then have "4 * \<lfloor>x\<rfloor> \<le> 5 * MaxBackoff cfg" unfolding m_def by linarith
  moreover have "0 \<le> \<lfloor>x\<rfloor>" using b(1) j(1) by (simp add: x_def)
  ultimately show ?thesis using eq by simp
qed

lemma retry_loop_sleeps:
  "\<forall>s \<in> set (fst (snd (retry_loop cfg env fn left attempt lastErr w))).
     \<exists>k. s = calculateBackoff cfg (jitter_draw env k) k"
proof (induction left arbitrary: attempt lastErr w)
  case (Suc left)
  then show ?case by (auto simp: Let_def split_beta split: option.splits)
qed simp

lemma retry_loop_sleep_count:
  "length (fst (snd (retry_loop cfg env fn left attempt lastErr w))) \<le> left - 1"
proof (induction left arbitrary: attempt lastErr w)
  case (Suc left)
  have "0 < left \<Longrightarrow> Suc (length (fst (snd (retry_loop cfg env fn left a l v)))) \<le> left" for a l v
    using Suc.IH [of a l v] by simp
  then show ?case by (auto simp: Let_def split_beta split: option.splits)
qed simp

subsection \<open>Scripted outcomes\<close>

text \<open>
  A world that is the list of outcomes still to come: the next call returns the head. It makes
  the number of calls visible as the outcomes used up.
\<close>

fun scripted :: "gerr option list \<Rightarrow> gerr option \<times> gerr option list" where
  "scripted [] = (None, [])"
| "scripted (r # rs) = (r, rs)"

definition quiet :: "retry_env \<Rightarrow> bool" where
  "quiet env \<longleftrightarrow> (\<forall>k. ctx_err env k = None \<and> backoff_done env k = None)"

text \<open>The specification: the first \<^verbatim>\<open>n\<close> outcomes, up to the first that is final.\<close>

fun retry_spec :: "nat \<Rightarrow> gerr option \<Rightarrow> gerr option list \<Rightarrow> gerr option" where
  "retry_spec 0 lastErr rs = Some (exhausted lastErr)"
| "retry_spec (Suc n) lastErr [] = None"
| "retry_spec (Suc n) lastErr (None # rs) = None"
| "retry_spec (Suc n) lastErr (Some e # rs) =
     (if isRetryable (Some e) then retry_spec n (Some e) rs
      else Some (Wrapped ''permanent error (non-retryable)'' e))"

definition retry_calls :: "nat \<Rightarrow> gerr option list \<Rightarrow> nat" where
  "retry_calls n rs = min n (Suc (length (takeWhile isRetryable rs)))"

lemma retry_loop_scripted:
  assumes "quiet env" and "n \<le> length rs"
  shows "fst (retry_loop cfg env scripted n k lastErr rs) = retry_spec n lastErr rs \<and>
         snd (snd (retry_loop cfg env scripted n k lastErr rs)) = drop (retry_calls n rs) rs"
  using assms(2)
proof (induction n arbitrary: k lastErr rs)
  case 0
  then show ?case by (simp add: retry_calls_def)
next
  case (Suc n)
  then obtain r rs' where rs: "rs = r # rs'" by (cases rs) auto
  have IH: "fst (retry_loop cfg env scripted n k' le rs') = retry_spec n le rs'"
    "snd (snd (retry_loop cfg env scripted n k' le rs')) = drop (retry_calls n rs') rs'" for k' le
    using Suc.IH [of rs'] Suc.prems rs by auto
  have q: "ctx_err env k = None" "backoff_done env k = None"
    using assms(1) by (auto simp: quiet_def)
  show ?case
  proof (cases r)
    case None
    then show ?thesis by (simp add: rs retry_calls_def)
  next
    case (Some e)
    then show ?thesis
      using IH q by (cases "n = 0") (auto simp: rs retry_calls_def Let_def split_beta)
  qed
qed

subsection \<open>Properties\<close>

text \<open>
  Property C26. With an undisturbed context, \<^verbatim>\<open>Do\<close> calls the function until the
  first outcome that is a success or a permanent error, at most \<^verbatim>\<open>MaxAttempts\<close>
  times, and returns what that outcome means: nil, the permanent error, or exhaustion with the
  last error.
\<close>

theorem retry_follows_spec:
  assumes "quiet env" and "rc_Enabled cfg" and "nat (MaxAttempts cfg) \<le> length outs"
  shows "let (r, sleeps, rest) = Do cfg env scripted outs; n = nat (MaxAttempts cfg)
         in r = retry_spec n None outs \<and> rest = drop (retry_calls n outs) outs \<and>
            length sleeps \<le> n - 1"
  using assms retry_loop_scripted [OF assms(1,3), of cfg 1 None]
    retry_loop_sleep_count [of cfg env scripted "nat (MaxAttempts cfg)" 1 None outs]
  by (simp add: Do_def split_beta Let_def)

lemma retry_follows_spec_witness:
  "let env = \<lparr>ctx_err = (\<lambda>_. None), backoff_done = (\<lambda>_. None), jitter_draw = (\<lambda>_. 0)\<rparr>;
       outs = [Some (HTTPError 503 [] []), Some (HTTPError 404 [] []), None]
   in fst (Do DefaultRetryConfig env scripted outs) =
        Some (Wrapped ''permanent error (non-retryable)'' (HTTPError 404 [] [])) \<and>
      snd (snd (Do DefaultRetryConfig env scripted outs)) = [None]"
  using retry_follows_spec
    [of "\<lparr>ctx_err = (\<lambda>_. None), backoff_done = (\<lambda>_. None), jitter_draw = (\<lambda>_. 0)\<rparr>"
        DefaultRetryConfig
        "[Some (HTTPError 503 [] []), Some (HTTPError 404 [] []), None]"]
  by (simp add: quiet_def DefaultRetryConfig_def split_beta Let_def retry_calls_def
      numeral_3_eq_3)

text \<open>
  Theorem. Every backoff slept is non-negative and at most a quarter above
  \<^verbatim>\<open>MaxBackoff\<close>, and fewer backoffs than attempts are slept.
\<close>

theorem retry_backoff_bounded:
  assumes "\<forall>k. 0 \<le> jitter_draw env k \<and> jitter_draw env k \<le> 1"
    and "0 \<le> InitialBackoff cfg" and "0 \<le> MaxBackoff cfg" and "0 \<le> Multiplier cfg"
  shows "(\<forall>s \<in> set (fst (snd (Do cfg env fn w))). 0 \<le> s \<and> 4 * s \<le> 5 * MaxBackoff cfg) \<and>
         length (fst (snd (Do cfg env fn w))) \<le> nat (MaxAttempts cfg) - 1"
proof (cases "rc_Enabled cfg")
  case True
  then show ?thesis
    using retry_loop_sleeps [of cfg env fn "nat (MaxAttempts cfg)" 1 None w]
      retry_loop_sleep_count [of cfg env fn "nat (MaxAttempts cfg)" 1 None w]
      calculateBackoff_bounds assms
    by (simp add: Do_def) metis
qed (simp add: Do_def split_beta Let_def)

lemma retry_backoff_bounded_witness:
  "let env = \<lparr>ctx_err = (\<lambda>_. None), backoff_done = (\<lambda>_. None), jitter_draw = (\<lambda>_. 1)\<rparr>
   in \<forall>s \<in> set (fst (snd (Do DefaultRetryConfig env scripted [Some Canceled, None]))).
        4 * s \<le> 50 * second"
  using retry_backoff_bounded
    [of "\<lparr>ctx_err = (\<lambda>_. None), backoff_done = (\<lambda>_. None), jitter_draw = (\<lambda>_. 1)\<rparr>"
        DefaultRetryConfig scripted "[Some Canceled, None]"]
  by (simp add: DefaultRetryConfig_def second_def)

end
