(* ===== verification/Metrics.thy ===== *)
theory Metrics
  imports Status CircuitBreaker
begin

text \<open>
  \<^verbatim>\<open>internal/webhook/metrics.go\<close>. The atomic counters are fields of a record and the
  counters per status a map; a method is one update. Rates are exact rationals.
\<close>

record metrics =
  totalRequests :: int
  successfulRequests :: int
  failedRequests :: int
  retriedRequests :: int
  rateLimitedRequests :: int
  circuitOpenRequests :: int
  statusCounters :: "status \<rightharpoonup> int"
  totalLatency :: int
  requestCount :: int
  circuitBreakerState :: CircuitBreakerState

definition NewMetrics :: metrics where
  "NewMetrics =
     \<lparr>totalRequests = 0, successfulRequests = 0, failedRequests = 0, retriedRequests = 0,
      rateLimitedRequests = 0, circuitOpenRequests = 0, statusCounters = Map.empty,
      totalLatency = 0, requestCount = 0, circuitBreakerState = StateClosed\<rparr>"

definition RecordRequest :: "metrics \<Rightarrow> metrics" where
  "RecordRequest m = m\<lparr>totalRequests := totalRequests m + 1\<rparr>"

definition recordLatency :: "duration \<Rightarrow> metrics \<Rightarrow> metrics" where
  "recordLatency latency m =
     m\<lparr>totalLatency := totalLatency m + go_div latency 1000000, requestCount := requestCount m + 1\<rparr>"

definition incrementStatusCounter :: "status \<Rightarrow> metrics \<Rightarrow> metrics" where
  "incrementStatusCounter st m =
     m\<lparr>statusCounters := (statusCounters m)
         (st \<mapsto> (case statusCounters m st of None \<Rightarrow> 1 | Some n \<Rightarrow> n + 1))\<rparr>"

definition RecordSuccess :: "status \<Rightarrow> duration \<Rightarrow> metrics \<Rightarrow> metrics" where
  "RecordSuccess st latency m =
     incrementStatusCounter st
       (recordLatency latency (m\<lparr>successfulRequests := successfulRequests m + 1\<rparr>))"

definition RecordFailure :: "metrics \<Rightarrow> metrics" where
  "RecordFailure m = m\<lparr>failedRequests := failedRequests m + 1\<rparr>"

definition RecordRetry :: "metrics \<Rightarrow> metrics" where
  "RecordRetry m = m\<lparr>retriedRequests := retriedRequests m + 1\<rparr>"

definition RecordRateLimited :: "metrics \<Rightarrow> metrics" where
  "RecordRateLimited m = m\<lparr>rateLimitedRequests := rateLimitedRequests m + 1\<rparr>"

definition RecordCircuitOpen :: "metrics \<Rightarrow> metrics" where
  "RecordCircuitOpen m = m\<lparr>circuitOpenRequests := circuitOpenRequests m + 1\<rparr>"

definition UpdateCircuitBreakerState :: "CircuitBreakerState \<Rightarrow> metrics \<Rightarrow> metrics" where
  "UpdateCircuitBreakerState s m = m\<lparr>circuitBreakerState := s\<rparr>"

definition metrics_Reset :: "metrics \<Rightarrow> metrics" where
  "metrics_Reset m =
     m\<lparr>totalRequests := 0, successfulRequests := 0, failedRequests := 0, retriedRequests := 0,
       rateLimitedRequests := 0, circuitOpenRequests := 0, totalLatency := 0, requestCount := 0,
       circuitBreakerState := StateClosed, statusCounters := Map.empty\<rparr>"

record stats =
  TotalRequests :: int
  SuccessfulRequests :: int
  FailedRequests :: int
  RetriedRequests :: int
  RateLimitedRequests :: int
  CircuitOpenRequests :: int
  StatusCounts :: "status \<rightharpoonup> int"
  AverageLatencyMs :: int
  stats_CircuitBreakerState :: CircuitBreakerState

definition metrics_GetStats :: "metrics \<Rightarrow> stats" where
  "metrics_GetStats m =
     \<lparr>TotalRequests = totalRequests m, SuccessfulRequests = successfulRequests m,
      FailedRequests = failedRequests m, RetriedRequests = retriedRequests m,
      RateLimitedRequests = rateLimitedRequests m, CircuitOpenRequests = circuitOpenRequests m,
      StatusCounts = statusCounters m,
      AverageLatencyMs =
        (if 0 < requestCount m then go_div (totalLatency m) (requestCount m) else 0),
      stats_CircuitBreakerState = circuitBreakerState m\<rparr>"

definition SuccessRate :: "stats \<Rightarrow> rat" where
  "SuccessRate s = (if TotalRequests s = 0 then 0
     else of_int (SuccessfulRequests s) / of_int (TotalRequests s) * 100)"

definition FailureRate :: "stats \<Rightarrow> rat" where
  "FailureRate s = (if TotalRequests s = 0 then 0
     else of_int (FailedRequests s) / of_int (TotalRequests s) * 100)"

lemmas metrics_defs [op_defs] =
  RecordRequest_def recordLatency_def incrementStatusCounter_def RecordSuccess_def
  RecordFailure_def RecordRetry_def RecordRateLimited_def RecordCircuitOpen_def
  UpdateCircuitBreakerState_def

subsection \<open>What the counters mean\<close>

text \<open>
  Between sends every request counted is a success or a failure, the latencies counted are the
  successes, and the counters per status add up to them.
\<close>

definition status_sum :: "metrics \<Rightarrow> int" where
  "status_sum m = (\<Sum>s \<in> dom (statusCounters m). the (statusCounters m s))"

definition metrics_inv :: "metrics \<Rightarrow> bool" where
  "metrics_inv m \<longleftrightarrow>
     0 \<le> successfulRequests m \<and> 0 \<le> failedRequests m \<and> finite (dom (statusCounters m)) \<and>
     requestCount m = successfulRequests m \<and> status_sum m = successfulRequests m \<and>
     totalRequests m = successfulRequests m + failedRequests m"

lemma metrics_inv_New: "metrics_inv NewMetrics"
  by (simp add: metrics_inv_def NewMetrics_def status_sum_def)

lemma metrics_inv_Reset: "metrics_inv (metrics_Reset m)"
  by (simp add: metrics_inv_def metrics_Reset_def status_sum_def)

lemma status_sum_incr:
  assumes "finite (dom (statusCounters m))"
  shows "status_sum (incrementStatusCounter st m) = status_sum m + 1"
proof (cases "statusCounters m st")
  case None
  then have "st \<notin> dom (statusCounters m)" by auto
  then have "(\<Sum>s \<in> dom (statusCounters m). the (((statusCounters m)(st \<mapsto> 1)) s))
      = status_sum m"
    unfolding status_sum_def by (intro sum.cong) auto
  with None assms show ?thesis
    by (simp add: status_sum_def incrementStatusCounter_def domIff)
next
  case (Some n)
  let ?d = "dom (statusCounters m)" and ?f = "(statusCounters m)(st \<mapsto> n + 1)"
  have st: "st \<in> ?d" using Some by auto
  have "(\<Sum>s \<in> ?d - {st}. the (?f s)) = (\<Sum>s \<in> ?d - {st}. the (statusCounters m s))"
    by (intro sum.cong) auto
  then have "(\<Sum>s \<in> ?d. the (?f s)) = status_sum m + 1"
    using st assms Some by (simp add: status_sum_def sum.remove [of _ st])
  then show ?thesis using Some st
    by (simp add: status_sum_def incrementStatusCounter_def insert_absorb)
qed

lemma metrics_inv_success:
  "metrics_inv m \<Longrightarrow> metrics_inv (RecordSuccess st lat (RecordRequest m))"
  using status_sum_incr [of "recordLatency lat ((RecordRequest m)
      \<lparr>successfulRequests := successfulRequests (RecordRequest m) + 1\<rparr>)" st]
  by (simp add: metrics_inv_def op_defs status_sum_def)

lemma metrics_inv_failure: "metrics_inv m \<Longrightarrow> metrics_inv (RecordFailure (RecordRequest m))"
  by (simp add: metrics_inv_def op_defs status_sum_def)

lemma metrics_inv_others:
  "metrics_inv m \<Longrightarrow> metrics_inv (RecordRateLimited m)"
  "metrics_inv m \<Longrightarrow> metrics_inv (RecordCircuitOpen m)"
  "metrics_inv m \<Longrightarrow> metrics_inv (UpdateCircuitBreakerState s m)"
  by (simp_all add: metrics_inv_def op_defs status_sum_def)

lemma rates_sum:
  assumes "metrics_inv m" and "totalRequests m \<noteq> 0"
  shows "SuccessRate (metrics_GetStats m) + FailureRate (metrics_GetStats m) = 100"
proof -
  have "(of_int (successfulRequests m) + of_int (failedRequests m) :: rat) = of_int (totalRequests m)"
    using assms(1) by (simp add: metrics_inv_def)
  moreover have "(of_int (totalRequests m) :: rat) \<noteq> 0" using assms(2) by simp
  ultimately show ?thesis using assms(2)
    by (simp add: SuccessRate_def FailureRate_def metrics_GetStats_def add_divide_distrib [symmetric]
        distrib_right [symmetric])
qed

end
