(* ===== verification/Sender.thy ===== *)
theory Sender
  imports Payload CircuitBreaker RateLimiter Retry Metrics
begin

text \<open>
  The sender of \<^verbatim>\<open>internal/webhook/webhook.go\<close>: rate limiter, circuit breaker, retry,
  payload and metrics around one HTTP exchange. The HTTP client is a function on the rest of the
  world; \<^verbatim>\<open>url.Parse\<close> and \<^verbatim>\<open>time.ParseDuration\<close> are arguments, and the clock
  readings of one send are the fields of its environment.
\<close>

record http_request =
  hr_url :: string
  hr_body :: body
  hr_headers :: "(string \<times> string) list"

datatype http_outcome = CreateFailed gerr | TransportFailed gerr | Response int string string

record sender =
  s_cfg :: Config
  s_retry :: retry_config
  s_cb :: "circuit_breaker option"
  s_rl :: "rate_limiter option"
  s_metrics :: metrics

record send_env =
  se_allow :: gotime
  se_t1 :: gotime
  se_t2 :: gotime
  se_t3 :: gotime
  se_t4 :: gotime
  se_start :: gotime
  se_end :: gotime
  se_retry :: retry_env
  se_requestID :: string
  se_rfc3339 :: string
  se_unix :: int
  se_unix_ms :: int
  se_env :: "string \<rightharpoonup> string"
  se_git :: GitMetadata
  se_uni :: "string \<Rightarrow> string"

subsection \<open>Construction\<close>

text \<open>\<^verbatim>\<open>time.ParseDuration\<close> returns zero with an error, so one function gives its value.\<close>

definition or_duration :: "duration \<Rightarrow> duration \<Rightarrow> duration" where
  "or_duration d fallback = (if d = 0 then fallback else d)"

definition parseRetryConfig :: "(string \<Rightarrow> duration) \<Rightarrow> RetrySettings \<Rightarrow> retry_config" where
  "parseRetryConfig parseDuration r =
     \<lparr>rc_Enabled = rs_Enabled r, MaxAttempts = rs_MaxAttempts r,
      InitialBackoff = or_duration (parseDuration (rs_InitialBackoff r)) second,
      MaxBackoff = or_duration (parseDuration (rs_MaxBackoff r)) (10 * second),
      Multiplier = 2\<rparr>"

definition NewWithContext :: "(string \<Rightarrow> duration) \<Rightarrow> gotime \<Rightarrow> Config \<Rightarrow> sender" where
  "NewWithContext parseDuration now cfg =
     (let w = c_Webhook cfg; b = wc_CircuitBreaker w; l = wc_RateLimit w in
      \<lparr>s_cfg = cfg,
       s_retry = parseRetryConfig parseDuration (wc_Retry w),
       s_cb = (if cs_Enabled b
               then Some (NewCircuitBreaker (cs_FailureThreshold b) (cs_SuccessThreshold b)
                           (or_duration (parseDuration (cs_Timeout b)) (30 * second)) now)
               else None),
       s_rl = (if rl_Enabled l then Some (NewRateLimiter (rl_RequestsPerMinute l) now) else None),
       s_metrics = NewMetrics\<rparr>)"

definition newRuntimeContext :: "send_env \<Rightarrow> SendContext \<Rightarrow> StatusInfo \<Rightarrow> runtimeContext" where
  "newRuntimeContext env ctx info =
     \<lparr>rc_sendCtx = ctx, rc_title = si_Title info, rc_rfc3339 = se_rfc3339 env,
      rc_unix = se_unix env, rc_unix_ms = se_unix_ms env, rc_env = se_env env,
      rc_gitMeta = se_git env, rc_uni = se_uni env\<rparr>"

subsection \<open>One HTTP exchange\<close>

definition validateURL :: "(string \<Rightarrow> (string \<times> string) option) \<Rightarrow> string \<Rightarrow> string option" where
  "validateURL parseURL rawURL =
     (if rawURL = [] then Some ''URL is empty''
      else (case parseURL rawURL of
              None \<Rightarrow> Some ''invalid URL''
            | Some (scheme, host) \<Rightarrow>
                if scheme \<noteq> ''http'' \<and> scheme \<noteq> ''https'' then Some ''URL must use http or https scheme''
                else if host = [] then Some ''URL must have a host''
                else None))"

definition request_for ::
    "string \<Rightarrow> string \<Rightarrow> body \<Rightarrow> string \<Rightarrow> (string \<times> string) list \<Rightarrow> http_request" where
  "request_for requestID url payload contentType headers =
     \<lparr>hr_url = url, hr_body = payload,
      hr_headers = [(''Content-Type'', contentType), (''User-Agent'', ''claude-notifications/1.0''),
                    (''X-Request-ID'', requestID)] @ headers\<rparr>"

definition sendHTTPRequest ::
    "(http_request \<Rightarrow> 'w \<Rightarrow> http_outcome \<times> 'w) \<Rightarrow> http_request \<Rightarrow> 'w \<Rightarrow> gerr option \<times> 'w" where
  "sendHTTPRequest transport req w =
     (case transport req w of
        (CreateFailed e, w') \<Rightarrow> (Some (Wrapped ''failed to create request'' e), w')
      | (TransportFailed e, w') \<Rightarrow> (Some (Wrapped ''HTTP request failed'' e), w')
      | (Response code status rbody, w') \<Rightarrow>
          (if code < 200 \<or> 300 \<le> code
           then Some (HTTPError code status (take (1024 * 1024) rbody)) else None, w'))"

subsection \<open>A send\<close>

definition payload_gerr :: "payload_error \<Rightarrow> gerr" where
  "payload_gerr e =
     Wrapped ''failed to build payload''
       (Opaque (case e of
          TemplateError (UnknownTemplate token) \<Rightarrow> ''unknown webhook template '' @ token
        | TemplateError FieldsNotObject \<Rightarrow> ''payloadFields must resolve to a JSON object''
        | FieldsNeedJSONPayload \<Rightarrow> ''payloadFields are only supported for JSON webhook payloads''))"

definition sendWithRetryAndCircuitBreaker ::
    "(string \<Rightarrow> (string \<times> string) option) \<Rightarrow> (http_request \<Rightarrow> 'w \<Rightarrow> http_outcome \<times> 'w)
     \<Rightarrow> send_env \<Rightarrow> SendContext \<Rightarrow> sender \<Rightarrow> 'w \<Rightarrow> gerr option \<times> circuit_breaker option \<times> 'w" where
  "sendWithRetryAndCircuitBreaker parseURL transport env ctx s w =
     (let wc = c_Webhook (s_cfg s);
          info = fst (GetStatusInfo (s_cfg s) (status_string (sc_Status ctx)));
          c = newRuntimeContext env ctx info
      in case buildPayload wc (se_unix env) (se_rfc3339 env) c of
           Inl e \<Rightarrow> (Some (payload_gerr e), s_cb s, w)
         | Inr (payload, contentType) \<Rightarrow>
             (let headers = resolveHeaders c (deref [] (wc_Headers wc)) in
              case validateURL parseURL (wc_URL wc) of
                Some e \<Rightarrow> (Some (Wrapped ''invalid webhook URL'' (Opaque e)), s_cb s, w)
              | None \<Rightarrow>
                  (let fn = sendHTTPRequest transport
                              (request_for (se_requestID env) (wc_URL wc) payload contentType headers);
                       run = (\<lambda>w. let (r, sleeps, w') = Do (s_retry s) (se_retry env) fn w
                                   in (r, w'))
                   in case s_cb s of
                        Some cb \<Rightarrow>
                          (let (r, cb', w') =
                             Execute (se_t1 env) (se_t2 env) (se_t3 env) (se_t4 env) run cb w
                           in (r, Some cb', w'))
                      | None \<Rightarrow> (let (r, w') = run w in (r, None, w')))))"

definition allow_if :: "gotime \<Rightarrow> rate_limiter option \<Rightarrow> bool \<times> rate_limiter option" where
  "allow_if now l =
     (case l of
        None \<Rightarrow> (True, None)
      | Some rl \<Rightarrow> (let (ok, rl') = Allow now rl in (ok, Some rl')))"

definition breaker_open :: "circuit_breaker option \<Rightarrow> bool" where
  "breaker_open ob = (case ob of None \<Rightarrow> False | Some cb \<Rightarrow> GetState cb = StateOpen)"

definition SendWithContext ::
    "(string \<Rightarrow> (string \<times> string) option) \<Rightarrow> (http_request \<Rightarrow> 'w \<Rightarrow> http_outcome \<times> 'w)
     \<Rightarrow> send_env \<Rightarrow> SendContext \<Rightarrow> sender \<Rightarrow> 'w \<Rightarrow> gerr option \<times> sender \<times> 'w" where
  "SendWithContext parseURL transport env ctx s w =
     (if \<not> IsWebhookEnabled (s_cfg s) then (None, s, w)
      else
        (let (ok, l) = allow_if (se_allow env) (s_rl s); s = s\<lparr>s_rl := l\<rparr> in
         if \<not> ok then
           (Some ErrRateLimitExceeded, s\<lparr>s_metrics := RecordRateLimited (s_metrics s)\<rparr>, w)
         else if breaker_open (s_cb s) then
           (Some ErrCircuitOpen, s\<lparr>s_metrics := RecordCircuitOpen (s_metrics s)\<rparr>, w)
         else
           (let m = RecordRequest (s_metrics s);
                (raw, cb', w') = sendWithRetryAndCircuitBreaker parseURL transport env ctx s w;
                err = safeWebhookError raw;
                latency = time_sub (se_end env) (se_start env);
                m = (if err \<noteq> None then RecordFailure m
                     else RecordSuccess (sc_Status ctx) latency m);
                m = (case cb' of None \<Rightarrow> m
                     | Some cb \<Rightarrow> UpdateCircuitBreakerState (GetState cb) m)
            in (err, s\<lparr>s_cb := cb', s_metrics := m\<rparr>, w'))))"

text \<open>A sequence of sends, with the errors they return.\<close>

fun send_all ::
    "(string \<Rightarrow> (string \<times> string) option) \<Rightarrow> (http_request \<Rightarrow> 'w \<Rightarrow> http_outcome \<times> 'w)
     \<Rightarrow> (send_env \<times> SendContext) list \<Rightarrow> sender \<Rightarrow> 'w \<Rightarrow> gerr option list \<times> sender \<times> 'w" where
  "send_all parseURL transport [] s w = ([], s, w)"
| "send_all parseURL transport ((env, ctx) # rest) s w =
     (let (r, s', w') = SendWithContext parseURL transport env ctx s w;
          (rs, s'', w'') = send_all parseURL transport rest s' w'
      in (r # rs, s'', w''))"

subsection \<open>Lemmas on one send\<close>

lemma SendWithContext_cases:
  assumes "SendWithContext parseURL transport env ctx s w = (r, s', w')"
    and "IsWebhookEnabled (s_cfg s)"
  obtains
    (limited) "r = Some ErrRateLimitExceeded" "w' = w" "s_cb s' = s_cb s"
      "s_metrics s' = RecordRateLimited (s_metrics s)"
  | (refusing) "breaker_open (s_cb s)" "r = Some ErrCircuitOpen" "w' = w" "s_cb s' = s_cb s"
      "s_metrics s' = RecordCircuitOpen (s_metrics s)"
  | (sent) raw m where "\<not> breaker_open (s_cb s)" "r = safeWebhookError raw"
      "sendWithRetryAndCircuitBreaker parseURL transport env ctx
         (s\<lparr>s_rl := snd (allow_if (se_allow env) (s_rl s))\<rparr>) w = (raw, s_cb s', w')"
      "m = (if r \<noteq> None then RecordFailure (RecordRequest (s_metrics s))
            else RecordSuccess (sc_Status ctx) (time_sub (se_end env) (se_start env))
                   (RecordRequest (s_metrics s)))"
      "s_metrics s' = (case s_cb s' of
         None \<Rightarrow> m | Some cb \<Rightarrow> UpdateCircuitBreakerState (GetState cb) m)"
proof -
  let ?s = "s\<lparr>s_rl := snd (allow_if (se_allow env) (s_rl s))\<rparr>"
  obtain raw cb' w1 where run:
    "sendWithRetryAndCircuitBreaker parseURL transport env ctx ?s w = (raw, cb', w1)"
    by (metis prod_cases3)
  consider "\<not> fst (allow_if (se_allow env) (s_rl s))"
    | "fst (allow_if (se_allow env) (s_rl s))" "breaker_open (s_cb s)"
    | "fst (allow_if (se_allow env) (s_rl s))" "\<not> breaker_open (s_cb s)"
    by blast
  then show thesis
  proof cases
    case 1
    with assms show thesis
      by (intro limited) (auto simp: SendWithContext_def Let_def split_beta)
  next
    case 2
    with assms show thesis
      by (intro refusing) (auto simp: SendWithContext_def Let_def split_beta)
  next
    case 3
    then have "r = safeWebhookError raw" "s_cb s' = cb'" "w' = w1"
      "s_metrics s' = (case cb' of
         None \<Rightarrow> (if safeWebhookError raw \<noteq> None then RecordFailure (RecordRequest (s_metrics s))
            else RecordSuccess (sc_Status ctx) (time_sub (se_end env) (se_start env))
                   (RecordRequest (s_metrics s)))
       | Some cb \<Rightarrow> UpdateCircuitBreakerState (GetState cb)
           (if safeWebhookError raw \<noteq> None then RecordFailure (RecordRequest (s_metrics s))
            else RecordSuccess (sc_Status ctx) (time_sub (se_end env) (se_start env))
                   (RecordRequest (s_metrics s))))"
      using assms run
      by (auto simp: SendWithContext_def Let_def split_beta simp del: not_None_eq not_Some_eq)
    with 3 run show thesis
      by (intro sent [of raw "if r \<noteq> None then RecordFailure (RecordRequest (s_metrics s))
            else RecordSuccess (sc_Status ctx) (time_sub (se_end env) (se_start env))
                   (RecordRequest (s_metrics s))"]) simp_all
  qed
qed

lemma SendWithContext_frame:
  "SendWithContext parseURL transport env ctx s w = (r, s', w') \<Longrightarrow> s_cfg s' = s_cfg s"
  by (auto simp: SendWithContext_def Let_def split_beta split: if_splits)

lemma outcome_counters [simp]:
  "successfulRequests (UpdateCircuitBreakerState st m) = successfulRequests m"
  "failedRequests (UpdateCircuitBreakerState st m) = failedRequests m"
  "rateLimitedRequests (UpdateCircuitBreakerState st m) = rateLimitedRequests m"
  "circuitOpenRequests (UpdateCircuitBreakerState st m) = circuitOpenRequests m"
  "successfulRequests (RecordFailure m) = successfulRequests m"
  "failedRequests (RecordFailure m) = failedRequests m + 1"
  "rateLimitedRequests (RecordFailure m) = rateLimitedRequests m"
  "circuitOpenRequests (RecordFailure m) = circuitOpenRequests m"
  "successfulRequests (RecordSuccess t lat m) = successfulRequests m + 1"
  "failedRequests (RecordSuccess t lat m) = failedRequests m"
  "rateLimitedRequests (RecordSuccess t lat m) = rateLimitedRequests m"
  "circuitOpenRequests (RecordSuccess t lat m) = circuitOpenRequests m"
  "successfulRequests (RecordRequest m) = successfulRequests m"
  "failedRequests (RecordRequest m) = failedRequests m"
  "rateLimitedRequests (RecordRequest m) = rateLimitedRequests m"
  "circuitOpenRequests (RecordRequest m) = circuitOpenRequests m"
  "successfulRequests (RecordRateLimited m) = successfulRequests m"
  "failedRequests (RecordRateLimited m) = failedRequests m"
  "rateLimitedRequests (RecordRateLimited m) = rateLimitedRequests m + 1"
  "circuitOpenRequests (RecordRateLimited m) = circuitOpenRequests m"
  "successfulRequests (RecordCircuitOpen m) = successfulRequests m"
  "failedRequests (RecordCircuitOpen m) = failedRequests m"
  "rateLimitedRequests (RecordCircuitOpen m) = rateLimitedRequests m"
  "circuitOpenRequests (RecordCircuitOpen m) = circuitOpenRequests m + 1"
  by (simp_all add: op_defs)

definition refused :: "metrics \<Rightarrow> int" where
  "refused m = failedRequests m + rateLimitedRequests m + circuitOpenRequests m"

lemma SendWithContext_counts:
  assumes "SendWithContext parseURL transport env ctx s w = (r, s', w')"
    and "IsWebhookEnabled (s_cfg s)" and "metrics_inv (s_metrics s)"
  shows "metrics_inv (s_metrics s') \<and>
    successfulRequests (s_metrics s') = successfulRequests (s_metrics s) + (if r = None then 1 else 0) \<and>
    refused (s_metrics s') = refused (s_metrics s) + (if r = None then 0 else 1)"
  using assms(1,2)
proof (cases rule: SendWithContext_cases)
  case (sent raw m)
  then have "metrics_inv m"
    using assms(3) by (simp add: metrics_inv_success metrics_inv_failure)
  with sent show ?thesis
    by (auto simp: refused_def metrics_inv_others split: option.split)
qed (use assms(3) in \<open>simp_all add: refused_def metrics_inv_others\<close>)

lemma send_all_counts:
  assumes "IsWebhookEnabled (s_cfg s)" and "metrics_inv (s_metrics s)"
    and "send_all parseURL transport sends s w = (rs, s', w')"
  shows "metrics_inv (s_metrics s') \<and>
    successfulRequests (s_metrics s')
      = successfulRequests (s_metrics s) + int (length (filter (\<lambda>r. r = None) rs)) \<and>
    refused (s_metrics s')
      = refused (s_metrics s) + int (length (filter (\<lambda>r. r \<noteq> None) rs))"
  using assms
proof (induction parseURL transport sends s w arbitrary: rs rule: send_all.induct)
  case (2 parseURL transport env ctx rest s w)
  obtain r s1 w1 where one: "SendWithContext parseURL transport env ctx s w = (r, s1, w1)"
    by (metis prod_cases3)
  with 2(4) obtain rs' where rest: "send_all parseURL transport rest s1 w1 = (rs', s', w')"
    "rs = r # rs'"
    by (auto split: prod.splits)
  have "IsWebhookEnabled (s_cfg s1)" using SendWithContext_frame [OF one] 2(2) by simp
  then show ?case
    using 2(1) [OF one [symmetric] refl refl] SendWithContext_counts [OF one 2(2,3)] rest by auto
qed simp

subsection \<open>A concrete sender\<close>

definition sample_cfg :: Config where
  "sample_cfg =
     (let c = defaultConfig concat Map.empty ''/p''; n = c_Notifications c; w = nc_Webhook n in
      c\<lparr>c_Notifications := n\<lparr>nc_Webhook := w\<lparr>wc_Enabled := True, wc_URL := ''u'',
            wc_Retry := (wc_Retry w)\<lparr>rs_Enabled := False\<rparr>,
            wc_RateLimit := \<lparr>rl_Enabled = False, rl_RequestsPerMinute = 0\<rparr>\<rparr>\<rparr>\<rparr>)"

definition sample_env :: send_env where
  "sample_env =
     \<lparr>se_allow = 0, se_t1 = 0, se_t2 = 0, se_t3 = 0, se_t4 = 0, se_start = 0, se_end = 5000000,
      se_retry = \<lparr>ctx_err = \<lambda>_. None, backoff_done = \<lambda>_. None, jitter_draw = \<lambda>_. 0\<rparr>,
      se_requestID = ''id'', se_rfc3339 = [], se_unix = 0, se_unix_ms = 0, se_env = Map.empty,
      se_git = \<lparr>gm_Branch = [], gm_UserName = [], gm_UserEmail = [], gm_CommitHash = [],
                gm_CommitShortHash = [], gm_CommitAuthorName = [], gm_CommitAuthorEmail = []\<rparr>,
      se_uni = id\<rparr>"

definition sample_ctx :: SendContext where
  "sample_ctx =
     \<lparr>sc_Status = StatusQuestion, sc_Message = ''hi'', sc_SessionID = ''s'', sc_CWD = [],
      sc_SessionName = [], sc_GitBranch = [], sc_Folder = [], sc_RawBody = [],
      sc_ActionSummary = [], sc_AgentSource = []\<rparr>"

text \<open>A transport that accepts the first request and answers 404 afterwards.\<close>

definition sample_transport :: "http_request \<Rightarrow> nat \<Rightarrow> http_outcome \<times> nat" where
  "sample_transport req n = (Response (if n = 0 then 200 else 404) [] [], Suc n)"

abbreviation sample_send :: "nat \<Rightarrow> sender \<Rightarrow> gerr option \<times> sender \<times> nat" where
  "sample_send n s \<equiv>
     SendWithContext (\<lambda>u. Some (''https'', u)) sample_transport sample_env sample_ctx s n"

abbreviation sample_new :: sender where
  "sample_new \<equiv> NewWithContext (\<lambda>_. 0) 0 sample_cfg"

lemmas sample_defs =
  sample_cfg_def sample_env_def sample_ctx_def sample_transport_def SendWithContext_def
  NewWithContext_def defaultConfig_def buildDefaultConfig_def sendWithRetryAndCircuitBreaker_def
  buildPayload_def formatters_def buildCustomPayload_def applyPayloadFields_def
  resolvePayloadFields_def validateURL_def Execute_def Do_def sendHTTPRequest_def
  parseRetryConfig_def or_duration_def allow_if_def breaker_open_def IsWebhookEnabled_def
  GetState_def NewCircuitBreaker_def getState_def recordSuccess_def recordFailure_def
  isUnresolvedPluginRoot_def unresolvedRoots_def newRuntimeContext_def Let_def

lemma sample_enabled: "IsWebhookEnabled sample_cfg"
  by (simp add: sample_defs)

lemma sample_new_cfg: "s_cfg sample_new = sample_cfg"
  by (simp add: NewWithContext_def Let_def)

lemma sample_send_ok: "fst (sample_send 0 sample_new) = None"
  by (simp add: sample_defs safeWebhookError_def)

lemma sample_send_404:
  "fst (sample_send 1 sample_new) = Some (Opaque ''webhook delivery failed'')"
  by (simp add: sample_defs safeWebhookError_def redaction_sentinels_def)

text \<open>
  Property C24. Every send is counted exactly once: after any sequence of sends the counted
  successes are the sends that returned no error, the failed, rate-limited and circuit-open ones
  are the sends that returned an error, and every request counted is a success or a failure, with
  the counters per status adding up to the successes.
\<close>

theorem sender_counts_every_send:
  assumes "IsWebhookEnabled cfg"
    and "send_all parseURL transport sends (NewWithContext parseDuration now cfg) w = (rs, s', w')"
  shows "successfulRequests (s_metrics s') = int (length (filter (\<lambda>r. r = None) rs)) \<and>
     failedRequests (s_metrics s') + rateLimitedRequests (s_metrics s')
       + circuitOpenRequests (s_metrics s') = int (length (filter (\<lambda>r. r \<noteq> None) rs)) \<and>
     totalRequests (s_metrics s') = successfulRequests (s_metrics s') + failedRequests (s_metrics s') \<and>
     status_sum (s_metrics s') = successfulRequests (s_metrics s')"
proof -
  let ?s = "NewWithContext parseDuration now cfg"
  have new: "s_metrics ?s = NewMetrics" "s_cfg ?s = cfg"
    by (simp_all add: NewWithContext_def Let_def)
  have "metrics_inv (s_metrics s') \<and>
    successfulRequests (s_metrics s')
      = successfulRequests NewMetrics + int (length (filter (\<lambda>r. r = None) rs)) \<and>
    refused (s_metrics s') = refused NewMetrics + int (length (filter (\<lambda>r. r \<noteq> None) rs))"
    using send_all_counts [OF _ _ assms(2)] assms(1) by (simp add: new metrics_inv_New)
  then show ?thesis by (simp add: metrics_inv_def refused_def NewMetrics_def)
qed

lemma sender_counts_every_send_witness:
  "successfulRequests (s_metrics (fst (snd (sample_send 0 sample_new)))) = 1"
proof -
  let ?r = "sample_send 0 sample_new"
  have "send_all (\<lambda>u. Some (''https'', u)) sample_transport [(sample_env, sample_ctx)] sample_new 0
      = ([fst ?r], fst (snd ?r), snd (snd ?r))"
    by (simp add: split_beta)
  from sender_counts_every_send [OF sample_enabled this] show ?thesis
    by (simp add: sample_send_ok)
qed

subsection \<open>A success is an accepted request\<close>

lemma retry_loop_success:
  "retry_loop rc env fn left attempt lastErr w = (None, sleeps, w') \<Longrightarrow> \<exists>w0. fn w0 = (None, w')"
proof (induction rc env fn left attempt lastErr w arbitrary: sleeps
    rule: retry_loop.induct)
  case (2 rc env fn left attempt lastErr w)
  obtain r w1 where fn: "fn w = (r, w1)" by (cases "fn w")
  show ?case
  proof (cases r)
    case None
    with 2(2) fn show ?thesis by auto
  next
    case (Some err)
    with 2(2) fn obtain sl where
      "retry_loop rc env fn left (Suc attempt) (Some err) w1 = (None, sl, w')"
      by (auto simp: Let_def split: if_splits option.splits prod.splits)
    with 2(1) [OF fn [symmetric] Some] 2(2) fn Some show ?thesis
      by (auto simp: Let_def split_beta split: if_splits option.splits)
  qed
qed simp

lemma Do_success:
  "Do rc env fn w = (None, sleeps, w') \<Longrightarrow> \<exists>w0. fn w0 = (None, w')"
  by (auto simp: Do_def split_beta Let_def split: if_splits dest: retry_loop_success)
    (metis prod.collapse)

lemma sendHTTPRequest_success:
  "sendHTTPRequest transport req w = (None, w') \<Longrightarrow>
     \<exists>code status b. transport req w = (Response code status b, w') \<and> 200 \<le> code \<and> code < 300"
  by (auto simp: sendHTTPRequest_def split: prod.splits http_outcome.splits if_splits)

lemma Execute_success:
  "Execute t1 t2 t3 t4 run cb w = (None, cb', w') \<Longrightarrow> \<exists>w0. run w0 = (None, w')"
  by (auto simp: Execute_def Let_def split_beta split: if_splits) (metis prod.collapse)

text \<open>
  Property C34. A send that reports success ended with an accepted request: the last exchange with
  the network was a request to the configured, valid URL carrying the payload built for the
  notification and the configured headers, and the answer's status code was in the 200s.
\<close>

theorem send_success_was_accepted:
  assumes "SendWithContext parseURL transport env ctx s w = (None, s', w')"
    and "IsWebhookEnabled (s_cfg s)"
  shows "\<exists>payload ct w0 code status b.
     (let wc = c_Webhook (s_cfg s);
          info = fst (GetStatusInfo (s_cfg s) (status_string (sc_Status ctx)));
          c = newRuntimeContext env ctx info in
      buildPayload wc (se_unix env) (se_rfc3339 env) c = Inr (payload, ct) \<and>
      validateURL parseURL (wc_URL wc) = None \<and>
      transport (request_for (se_requestID env) (wc_URL wc) payload ct
                   (resolveHeaders c (deref [] (wc_Headers wc)))) w0
        = (Response code status b, w') \<and> 200 \<le> code \<and> code < 300)"
  using assms
proof (cases rule: SendWithContext_cases)
  case (sent raw m)
  define wc where "wc = c_Webhook (s_cfg s)"
  define c where
    "c = newRuntimeContext env ctx (fst (GetStatusInfo (s_cfg s) (status_string (sc_Status ctx))))"
  have "raw = None" using sent(2) by (metis safeWebhookError_None)
  with sent(3) obtain payload ct where
    built: "buildPayload wc (se_unix env) (se_rfc3339 env) c = Inr (payload, ct)" and
    url: "validateURL parseURL (wc_URL wc) = None"
    by (auto simp: sendWithRetryAndCircuitBreaker_def Let_def wc_def c_def
        split: sum.splits option.splits)
  let ?req = "request_for (se_requestID env) (wc_URL wc) payload ct
                (resolveHeaders c (deref [] (wc_Headers wc)))"
  let ?run = "\<lambda>w. let (r, sleeps, w') = Do (s_retry s) (se_retry env) (sendHTTPRequest transport ?req) w
                  in (r, w')"
  have "\<exists>w1. ?run w1 = (None, w')"
  proof (cases "s_cb s")
    case None
    with sent(3) \<open>raw = None\<close> built url have "?run w = (None, w')"
      by (simp add: sendWithRetryAndCircuitBreaker_def Let_def wc_def c_def split_beta prod_eq_iff)
    then show ?thesis ..
  next
    case (Some cb)
    obtain r cb1 w1 where run: "Execute (se_t1 env) (se_t2 env) (se_t3 env) (se_t4 env) ?run cb w
        = (r, cb1, w1)"
      by (metis prod_cases3)
    with Some sent(3) \<open>raw = None\<close> built url have "r = None" "w1 = w'"
      by (simp_all add: sendWithRetryAndCircuitBreaker_def Let_def wc_def c_def)
    with run show ?thesis
      using Execute_success [of "se_t1 env" "se_t2 env" "se_t3 env" "se_t4 env" ?run cb w cb1 w']
      by simp
  qed
  then obtain w1 where "?run w1 = (None, w')" ..
  then have "Do (s_retry s) (se_retry env) (sendHTTPRequest transport ?req) w1
      = (None, fst (snd (Do (s_retry s) (se_retry env) (sendHTTPRequest transport ?req) w1)), w')"
    by (simp add: split_beta prod_eq_iff)
  then obtain w0 where "sendHTTPRequest transport ?req w0 = (None, w')" by (blast dest: Do_success)
  then show ?thesis
    using built url unfolding wc_def [symmetric] c_def [symmetric] Let_def
    by (blast dest: sendHTTPRequest_success)
qed simp_all

lemma send_success_was_accepted_witness:
  "fst (sample_send 0 sample_new) = None \<and>
   (\<exists>req w0 code status b. sample_transport req w0 = (Response code status b, 1) \<and>
      hr_url req = ''u'' \<and> 200 \<le> code \<and> code < (300::int))"
proof -
  let ?r = "sample_send 0 sample_new"
  have "snd (snd ?r) = 1" and u: "wc_URL (c_Webhook sample_cfg) = ''u''"
    by (simp_all add: sample_defs)
  then have "?r = (None, fst (snd ?r), 1)"
    using sample_send_ok by (metis prod.collapse)
  from send_success_was_accepted [OF this] obtain req w0 code status b where
    "sample_transport req w0 = (Response code status b, 1)" "hr_url req = ''u''"
    "200 \<le> code" "code < 300"
    using sample_enabled by (auto simp: sample_new_cfg Let_def request_for_def u)
  then show ?thesis using sample_send_ok by blast
qed

text \<open>
  Theorem. No detail of an HTTP exchange leaves the sender: the error of a send is one of the
  four sentinels or the fixed text, and cancellation, expiry, an open circuit and the rate limit
  stay recognisable to the caller.
\<close>

theorem sender_errors_are_redacted:
  assumes "SendWithContext parseURL transport env ctx s w = (Some e, s', w')"
  shows "e \<in> outward_errors \<and> safeWebhookError (Some e) = Some e"
proof -
  have "\<exists>raw. Some e = safeWebhookError raw"
  proof (cases "IsWebhookEnabled (s_cfg s)")
    case True
    have lim: "Some ErrRateLimitExceeded = safeWebhookError (Some ErrRateLimitExceeded)"
      "Some ErrCircuitOpen = safeWebhookError (Some ErrCircuitOpen)"
      by (simp_all add: safeWebhookError_keeps redaction_sentinels_def)
    from assms True show ?thesis
      by (cases rule: SendWithContext_cases) (use lim in auto)
  qed (use assms in \<open>simp add: SendWithContext_def\<close>)
  then obtain raw where "Some e = safeWebhookError raw" ..
  then show ?thesis
    using safeWebhookError_range [of raw e] safeWebhookError_idem [of raw] by simp
qed

lemma sender_errors_are_redacted_witness:
  "fst (sample_send 1 sample_new) = Some (Opaque ''webhook delivery failed'') \<and>
   Opaque ''webhook delivery failed'' \<in> outward_errors"
proof -
  let ?r = "sample_send 1 sample_new"
  have "?r = (Some (Opaque ''webhook delivery failed''), fst (snd ?r), snd (snd ?r))"
    using sample_send_404 by (metis prod.collapse)
  from sender_errors_are_redacted [OF this] sample_send_404 show ?thesis by blast
qed

subsection \<open>The open breaker\<close>

text \<open>
  \<^verbatim>\<open>SendWithContext\<close> consults \<^verbatim>\<open>GetState\<close>, which never moves an open
  breaker to half-open; only \<^verbatim>\<open>Execute\<close> does, behind that check.
\<close>

definition send_step ::
    "(string \<Rightarrow> (string \<times> string) option) \<Rightarrow> (http_request \<Rightarrow> 'w \<Rightarrow> http_outcome \<times> 'w)
     \<Rightarrow> send_env \<times> SendContext \<Rightarrow> sender \<times> 'w \<Rightarrow> sender \<times> 'w" where
  "send_step parseURL transport e st =
     snd (SendWithContext parseURL transport (fst e) (snd e) (fst st) (snd st))"

lemma open_send:
  assumes "breaker_open (s_cb s)" and "SendWithContext parseURL transport env ctx s w = (r, s', w')"
  shows "breaker_open (s_cb s') \<and> w' = w \<and> (IsWebhookEnabled (s_cfg s) \<longrightarrow> r \<noteq> None)"
  using assms by (auto simp: SendWithContext_def Let_def split_beta split: if_splits)

interpretation open_sender: absorbing_machine
  "send_step parseURL transport" "\<lambda>st. IsWebhookEnabled (s_cfg (fst st))"
  "\<lambda>st. breaker_open (s_cb (fst st)) \<and> snd st = w0" for parseURL transport w0
proof unfold_locales
  fix e :: "send_env \<times> SendContext" and st :: "sender \<times> 'a"
  obtain r s' w' where
    run: "SendWithContext parseURL transport (fst e) (snd e) (fst st) (snd st) = (r, s', w')"
    by (metis prod_cases3)
  have step: "send_step parseURL transport e st = (s', w')"
    by (simp add: send_step_def run)
  show "IsWebhookEnabled (s_cfg (fst st)) \<Longrightarrow>
      IsWebhookEnabled (s_cfg (fst (send_step parseURL transport e st)))"
    using SendWithContext_frame [OF run] by (simp add: step)
  show "IsWebhookEnabled (s_cfg (fst st)) \<Longrightarrow> breaker_open (s_cb (fst st)) \<and> snd st = w0 \<Longrightarrow>
      breaker_open (s_cb (fst (send_step parseURL transport e st))) \<and>
      snd (send_step parseURL transport e st) = w0"
    using open_send [OF _ run] by (simp add: step)
qed

text \<open>
  Property C35. Once a sender's breaker is open it stays open under every sequence of sends,
  however long after its timeout they come: no send reaches the network again, and each returns
  an error. The recovery the breaker itself provides is out of the sender's reach.
\<close>

theorem open_sender_never_recovers:
  assumes "breaker_open (s_cb s)" and "IsWebhookEnabled (s_cfg s)"
  shows "breaker_open (s_cb (fst (fold (send_step parseURL transport) sends (s, w)))) \<and>
     snd (fold (send_step parseURL transport) sends (s, w)) = w \<and>
     fst (SendWithContext parseURL transport env ctx
            (fst (fold (send_step parseURL transport) sends (s, w))) w) \<noteq> None"
proof -
  let ?st = "fold (send_step parseURL transport) sends (s, w)"
  have stuck: "breaker_open (s_cb (fst ?st)) \<and> snd ?st = w"
    using open_sender.run_stuck [of "(s, w)" w parseURL transport sends] assms by simp
  have on: "IsWebhookEnabled (s_cfg (fst ?st))"
    using open_sender.run_ok [of "(s, w)" parseURL transport sends] assms by simp
  obtain r s' w' where run: "SendWithContext parseURL transport env ctx (fst ?st) w = (r, s', w')"
    by (metis prod_cases3)
  show ?thesis
    using open_send [OF conjunct1 [OF stuck] run] stuck on by (simp add: run)
qed

text \<open>A breaker opened at time 0 with a timeout of 30 s, and a send an hour later.\<close>

definition opened_sender :: sender where
  "opened_sender = sample_new\<lparr>s_cb := Some ((NewCircuitBreaker 5 2 (30 * second) 0)
     \<lparr>cb_state := StateOpen\<rparr>)\<rparr>"

definition later_env :: send_env where
  "later_env = sample_env\<lparr>se_t1 := 3600 * second, se_t2 := 3600 * second, se_t3 := 3600 * second\<rparr>"

lemma open_sender_never_recovers_witness:
  "fst (getState (3600 * second) (3600 * second) (3600 * second) (the (s_cb opened_sender)))
     = StateHalfOpen \<and>
   snd (fold (send_step (\<lambda>u. Some (''https'', u)) sample_transport)
          [(later_env, sample_ctx), (later_env, sample_ctx)] (opened_sender, 0)) = 0"
proof -
  have opened: "breaker_open (s_cb opened_sender)" "IsWebhookEnabled (s_cfg opened_sender)"
    using sample_enabled
    by (simp_all add: opened_sender_def breaker_open_def GetState_def sample_new_cfg)
  have "fst (getState (3600 * second) (3600 * second) (3600 * second)
      (the (s_cb opened_sender))) = StateHalfOpen"
    by (simp add: opened_sender_def getState_def getState_upgrade_def cb_timed_out_def time_sub_def
        NewCircuitBreaker_def second_def)
  then show ?thesis
    by (rule conjI [OF _ conjunct1 [OF conjunct2 [OF open_sender_never_recovers [OF opened]]]])
qed

end
