(* ===== verification/Dedup.thy ===== *)
theory Dedup
  imports GoStrings
begin

text \<open>
  \<^verbatim>\<open>internal/dedup/dedup.go\<close> and the file operations of \<^verbatim>\<open>internal/platform\<close> it
  uses. A directory is a map from names to modification times in seconds; an operation on a lock
  file is one function of the clock and the directory, so a sequential call composes them and
  concurrent processes interleave them (relation \<^verbatim>\<open>lock_step\<close>).
\<close>

subsection \<open>Files\<close>

record fsys =
  fs_mtime :: "string \<rightharpoonup> int"
  fs_denied :: "string \<Rightarrow> bool"

datatype lock_error = InvalidTTL | CreateFailed | RetryFailed | CreateAfterCleanupFailed | RemoveFailed

definition FileExists :: "string \<Rightarrow> fsys \<Rightarrow> bool" where
  "FileExists p fs \<longleftrightarrow> fs_mtime fs p \<noteq> None"

definition FileMTime :: "string \<Rightarrow> fsys \<Rightarrow> int" where
  "FileMTime p fs = (case fs_mtime fs p of None \<Rightarrow> 0 | Some t \<Rightarrow> t)"

definition FileAge :: "int \<Rightarrow> string \<Rightarrow> fsys \<Rightarrow> int" where
  "FileAge now p fs =
     (let mtime = FileMTime p fs in if mtime = 0 then -1 else wrap64 (now - mtime))"

text \<open>Creation with \<^verbatim>\<open>O_EXCL\<close>: None stands for an error other than an existing file.\<close>

definition AtomicCreateFile :: "int \<Rightarrow> string \<Rightarrow> fsys \<Rightarrow> bool option \<times> fsys" where
  "AtomicCreateFile now p fs =
     (if fs_mtime fs p \<noteq> None then (Some False, fs)
      else if fs_denied fs p then (None, fs)
      else (Some True, fs\<lparr>fs_mtime := (fs_mtime fs)(p \<mapsto> now)\<rparr>))"

definition Remove :: "string \<Rightarrow> fsys \<Rightarrow> bool \<times> fsys" where
  "Remove p fs =
     (if fs_mtime fs p = None \<or> fs_denied fs p then (False, fs)
      else (True, fs\<lparr>fs_mtime := (fs_mtime fs)(p := None)\<rparr>))"

definition CleanupOldFiles :: "int \<Rightarrow> (string \<Rightarrow> bool) \<Rightarrow> int \<Rightarrow> fsys \<Rightarrow> fsys" where
  "CleanupOldFiles now pattern maxAge fs =
     fs\<lparr>fs_mtime := (\<lambda>p.
          if pattern p \<and> \<not> fs_denied fs p \<and> fs_mtime fs p \<noteq> None
             \<and> 0 \<le> FileAge now p fs \<and> maxAge < FileAge now p fs
          then None else fs_mtime fs p)\<rparr>"

lemmas file_defs [op_defs] =
  FileExists_def FileMTime_def FileAge_def AtomicCreateFile_def Remove_def

subsection \<open>The manager\<close>

text \<open>
  Names are relative to the temporary directory. The source of ages may be replaced, so it is
  an argument of the lock operations.
\<close>

definition getLockPath :: "string \<Rightarrow> string option \<Rightarrow> string" where
  "getLockPath sessionID hookEvent =
     (case hookEvent of
        Some ev \<Rightarrow>
          if ev \<noteq> [] then ''claude-notification-'' @ sessionID @ ''-'' @ ev @ ''.lock''
          else ''claude-notification-'' @ sessionID @ ''.lock''
      | None \<Rightarrow> ''claude-notification-'' @ sessionID @ ''.lock'')"

definition contentLockPath :: "string \<Rightarrow> string" where
  "contentLockPath sessionID = ''claude-notification-'' @ sessionID @ ''-content.lock''"

type_synonym age_source = "string \<Rightarrow> fsys \<Rightarrow> int"

definition lockAge :: "age_source option \<Rightarrow> int \<Rightarrow> age_source" where
  "lockAge fileAge now = (case fileAge of Some f \<Rightarrow> f | None \<Rightarrow> FileAge now)"

definition CheckEarlyDuplicate ::
    "age_source \<Rightarrow> string \<Rightarrow> string option \<Rightarrow> fsys \<Rightarrow> bool" where
  "CheckEarlyDuplicate age sessionID hookEvent fs =
     (let lockPath = getLockPath sessionID hookEvent in
      if \<not> FileExists lockPath fs then False
      else (let a = age lockPath fs in
            if a = -1 then True
            else if 0 \<le> a \<and> a < 2 then True
            else False))"

text \<open>The part of an acquisition after a failed first creation, with the two ways out of it.\<close>

definition replace_lock :: "int \<Rightarrow> string \<Rightarrow> fsys \<Rightarrow> (lock_error + bool) \<times> fsys" where
  "replace_lock now p fs =
     (case AtomicCreateFile now p (snd (Remove p fs)) of
        (None, fs') \<Rightarrow> (Inl CreateAfterCleanupFailed, fs')
      | (Some created, fs') \<Rightarrow> (Inr created, fs'))"

definition AcquireLockWithTTL ::
    "age_source \<Rightarrow> int \<Rightarrow> string \<Rightarrow> int \<Rightarrow> string option \<Rightarrow> fsys \<Rightarrow> (lock_error + bool) \<times> fsys" where
  "AcquireLockWithTTL age now sessionID ttlSeconds hookEvent fs =
     (if ttlSeconds < 2 \<or> 60 < ttlSeconds then (Inl InvalidTTL, fs)
      else
        (let p = getLockPath sessionID hookEvent in
         case AtomicCreateFile now p fs of
           (None, fs1) \<Rightarrow> (Inl CreateFailed, fs1)
         | (Some True, fs1) \<Rightarrow> (Inr True, fs1)
         | (Some False, fs1) \<Rightarrow>
             (let a = age p fs1 in
              if 2 < ttlSeconds \<and> a < 0 then
                (case AtomicCreateFile now p fs1 of
                   (None, fs2) \<Rightarrow> (Inl RetryFailed, fs2)
                 | (Some created, fs2) \<Rightarrow> (Inr created, fs2))
              else if 0 \<le> a \<and> a < ttlSeconds then (Inr False, fs1)
              else replace_lock now p fs1)))"

definition AcquireLock ::
    "age_source \<Rightarrow> int \<Rightarrow> string \<Rightarrow> string option \<Rightarrow> fsys \<Rightarrow> (lock_error + bool) \<times> fsys" where
  "AcquireLock age now sessionID hookEvent fs =
     AcquireLockWithTTL age now sessionID 2 hookEvent fs"

definition remove_existing :: "string \<Rightarrow> fsys \<Rightarrow> lock_error option \<times> fsys" where
  "remove_existing p fs =
     (if FileExists p fs
      then (case Remove p fs of
              (True, fs') \<Rightarrow> (None, fs')
            | (False, fs') \<Rightarrow> (Some RemoveFailed, fs'))
      else (None, fs))"

definition ReleaseLock :: "string \<Rightarrow> string option \<Rightarrow> fsys \<Rightarrow> lock_error option \<times> fsys" where
  "ReleaseLock sessionID hookEvent fs = remove_existing (getLockPath sessionID hookEvent) fs"

definition CleanupForSession :: "string \<Rightarrow> fsys \<Rightarrow> lock_error option \<times> fsys" where
  "CleanupForSession sessionID fs = remove_existing (getLockPath sessionID None) fs"

definition is_lock_name :: "string \<Rightarrow> bool" where
  "is_lock_name p \<longleftrightarrow> HasPrefix p ''claude-notification-'' \<and> HasSuffix p ''.lock'' \<and> 25 \<le> length p"

definition dedup_Cleanup :: "int \<Rightarrow> int \<Rightarrow> fsys \<Rightarrow> fsys" where
  "dedup_Cleanup now maxAge fs = CleanupOldFiles now is_lock_name maxAge fs"

definition AcquireContentLock ::
    "age_source \<Rightarrow> int \<Rightarrow> string \<Rightarrow> fsys \<Rightarrow> (lock_error + bool) \<times> fsys" where
  "AcquireContentLock age now sessionID fs =
     (let p = contentLockPath sessionID in
      case AtomicCreateFile now p fs of
        (None, fs1) \<Rightarrow> (Inl CreateFailed, fs1)
      | (Some True, fs1) \<Rightarrow> (Inr True, fs1)
      | (Some False, fs1) \<Rightarrow>
          (let a = age p fs1 in
           if 0 \<le> a \<and> a < 5 then (Inr False, fs1) else replace_lock now p fs1))"

definition ReleaseContentLock :: "string \<Rightarrow> fsys \<Rightarrow> lock_error option \<times> fsys" where
  "ReleaseContentLock sessionID fs = remove_existing (contentLockPath sessionID) fs"

subsection \<open>A sequential call\<close>

lemma AcquireLock_absent:
  assumes "fs_mtime fs (getLockPath sid ev) = None" and "\<not> fs_denied fs (getLockPath sid ev)"
    and "2 \<le> ttl" and "ttl \<le> 60"
  shows "AcquireLockWithTTL age now sid ttl ev fs
     = (Inr True, fs\<lparr>fs_mtime := (fs_mtime fs)(getLockPath sid ev \<mapsto> now)\<rparr>)"
  using assms by (simp add: AcquireLockWithTTL_def Let_def op_defs)

lemma AcquireLock_present:
  assumes "fs_mtime fs (getLockPath sid ev) = Some t" and "\<not> fs_denied fs (getLockPath sid ev)"
    and "2 \<le> ttl" and "ttl \<le> 60"
  shows "AcquireLockWithTTL age now sid ttl ev fs =
     (if (2 < ttl \<and> age (getLockPath sid ev) fs < 0)
         \<or> (0 \<le> age (getLockPath sid ev) fs \<and> age (getLockPath sid ev) fs < ttl)
      then (Inr False, fs)
      else (Inr True, fs\<lparr>fs_mtime := (fs_mtime fs)(getLockPath sid ev \<mapsto> now)\<rparr>))"
  using assms by (simp add: AcquireLockWithTTL_def Let_def op_defs replace_lock_def)

lemma FileAge_fresh:
  "fs_mtime fs p = Some t \<Longrightarrow> 0 < t \<Longrightarrow> t \<le> now \<Longrightarrow> in_int64 now \<Longrightarrow> FileAge now p fs = now - t"
  by (simp add: op_defs Let_def wrap64_diff in_int64_def)

text \<open>
  Theorem. Alone on a writable directory, a hook event is admitted once per time to live:
  after a successful acquisition every further acquisition of the same lock is refused until the
  time to live has passed and granted once it has, in both phases of the check, and locks of
  other sessions or events are left alone.
\<close>

theorem lock_admits_once_per_ttl:
  assumes "AcquireLockWithTTL (FileAge t) t sid ttl ev fs = (Inr True, fs')"
    and "\<not> fs_denied fs (getLockPath sid ev)" and "0 < t" and "t \<le> now" and "in_int64 now"
  shows "fst (AcquireLockWithTTL (FileAge now) now sid ttl ev fs') = Inr (ttl \<le> now - t)
       \<and> (CheckEarlyDuplicate (FileAge now) sid ev fs' \<longleftrightarrow> now - t < 2)
       \<and> (\<forall>p. p \<noteq> getLockPath sid ev \<longrightarrow> fs_mtime fs' p = fs_mtime fs p)"
proof -
  let ?p = "getLockPath sid ev"
  from assms(1) have ttl: "2 \<le> ttl" "ttl \<le> 60"
    by (auto simp: AcquireLockWithTTL_def split: if_splits)
  have fs': "fs' = fs\<lparr>fs_mtime := (fs_mtime fs)(?p \<mapsto> t)\<rparr>"
    using assms(1) AcquireLock_absent [OF _ assms(2) ttl]
      AcquireLock_present [OF _ assms(2) ttl]
    by (cases "fs_mtime fs ?p") (auto split: if_splits)
  then have age: "FileAge now ?p fs' = now - t"
    using assms by (simp add: FileAge_fresh)
  have "fst (AcquireLockWithTTL (FileAge now) now sid ttl ev fs') = Inr (ttl \<le> now - t)"
    using AcquireLock_present [of fs' sid ev t ttl "FileAge now" now] assms ttl age fs' by auto
  moreover have "CheckEarlyDuplicate (FileAge now) sid ev fs' \<longleftrightarrow> now - t < 2"
    using age assms fs' by (simp add: CheckEarlyDuplicate_def FileExists_def Let_def)
  ultimately show ?thesis using fs' by simp
qed

definition empty_dir :: fsys where
  "empty_dir = \<lparr>fs_mtime = Map.empty, fs_denied = \<lambda>_. False\<rparr>"

lemma lock_admits_once_per_ttl_witness:
  "let fs' = snd (AcquireLockWithTTL (FileAge 100) 100 ''s'' 2 (Some ''Stop'') empty_dir)
   in fst (AcquireLockWithTTL (FileAge 101) 101 ''s'' 2 (Some ''Stop'') fs') = Inr False
      \<and> fst (AcquireLockWithTTL (FileAge 102) 102 ''s'' 2 (Some ''Stop'') fs') = Inr True"
proof -
  let ?fs' = "snd (AcquireLockWithTTL (FileAge 100) 100 ''s'' 2 (Some ''Stop'') empty_dir)"
  have acq: "AcquireLockWithTTL (FileAge 100) 100 ''s'' 2 (Some ''Stop'') empty_dir = (Inr True, ?fs')"
    by (simp add: AcquireLockWithTTL_def empty_dir_def op_defs)
  have "\<not> fs_denied empty_dir p" for p by (simp add: empty_dir_def)
  from lock_admits_once_per_ttl [OF acq this, of 101] lock_admits_once_per_ttl [OF acq this, of 102]
  show ?thesis by (simp add: in_int64_def Let_def)
qed

subsection \<open>Concurrent processes\<close>

text \<open>
  Hooks are separate processes. Each runs \<^verbatim>\<open>AcquireLockWithTTL\<close> on one path, one file
  operation at a time; the clock moves forward between operations.
\<close>

datatype lock_pc = PStart | PSaw | PStale | PRetry | PRemoved | PAcquired | PRefused | PFailed

record lock_sys =
  ls_now :: int
  ls_fs :: fsys
  ls_pc :: "nat \<Rightarrow> lock_pc"

definition created_pc :: "lock_pc \<Rightarrow> bool option \<Rightarrow> lock_pc" where
  "created_pc exists r =
     (case r of None \<Rightarrow> PFailed | Some created \<Rightarrow> if created then PAcquired else exists)"

definition inspect_pc :: "int \<Rightarrow> int \<Rightarrow> lock_pc" where
  "inspect_pc ttl a =
     (if 2 < ttl \<and> a < 0 then PRetry else if 0 \<le> a \<and> a < ttl then PRefused else PStale)"

definition ls_create :: "string \<Rightarrow> nat \<Rightarrow> lock_pc \<Rightarrow> lock_sys \<Rightarrow> lock_sys" where
  "ls_create p i exists s =
     s\<lparr>ls_fs := snd (AtomicCreateFile (ls_now s) p (ls_fs s)),
       ls_pc := (ls_pc s)(i := created_pc exists (fst (AtomicCreateFile (ls_now s) p (ls_fs s))))\<rparr>"

inductive lock_step :: "int \<Rightarrow> string \<Rightarrow> lock_sys \<Rightarrow> lock_sys \<Rightarrow> bool" for ttl p where
  tick: "ls_now s \<le> n \<Longrightarrow> lock_step ttl p s (s\<lparr>ls_now := n\<rparr>)"
| create: "ls_pc s i = PStart \<Longrightarrow> lock_step ttl p s (ls_create p i PSaw s)"
| inspect: "ls_pc s i = PSaw \<Longrightarrow>
    lock_step ttl p s
      (s\<lparr>ls_pc := (ls_pc s)(i := inspect_pc ttl (FileAge (ls_now s) p (ls_fs s)))\<rparr>)"
| retry: "ls_pc s i = PRetry \<Longrightarrow> lock_step ttl p s (ls_create p i PRefused s)"
| remove: "ls_pc s i = PStale \<Longrightarrow>
    lock_step ttl p s (s\<lparr>ls_fs := snd (Remove p (ls_fs s)), ls_pc := (ls_pc s)(i := PRemoved)\<rparr>)"
| recreate: "ls_pc s i = PRemoved \<Longrightarrow> lock_step ttl p s (ls_create p i PRefused s)"

inductive_cases lock_stepE: "lock_step ttl p s t"

text \<open>The end of a process whose call has this result.\<close>

definition answer_pc :: "lock_error + bool \<Rightarrow> lock_pc" where
  "answer_pc r = (case r of Inl e \<Rightarrow> PFailed | Inr acquired \<Rightarrow> if acquired then PAcquired else PRefused)"

text \<open>
  Theorem. The steps are those of the code: a process whose steps are not interleaved with others
  does what \<^verbatim>\<open>AcquireLockWithTTL\<close> does in one call, with the same directory and the same
  answer at the end, on every branch.
\<close>

theorem lock_steps_run_acquire:
  assumes "2 \<le> ttl" and "ttl \<le> 60" and "ls_pc s i = PStart"
    and "AcquireLockWithTTL (FileAge (ls_now s)) (ls_now s) sid ttl ev (ls_fs s) = (r, fs')"
  shows "(lock_step ttl (getLockPath sid ev))\<^sup>*\<^sup>* s (s\<lparr>ls_fs := fs', ls_pc := (ls_pc s)(i := answer_pc r)\<rparr>)"
proof -
  let ?p = "getLockPath sid ev" and ?now = "ls_now s" and ?fs = "ls_fs s"
  let ?at = "\<lambda>fs pc. s\<lparr>ls_fs := fs, ls_pc := (ls_pc s)(i := pc)\<rparr>"
  let ?age = "FileAge ?now ?p ?fs"
  have end_simp: "created_pc PRefused c = answer_pc (case c of None \<Rightarrow> Inl e | Some b \<Rightarrow> Inr b)" for c e
    by (simp add: created_pc_def answer_pc_def split: option.split)
  note step = lock_step.intros(2-) [where ttl = ttl and p = ?p]
  have create: "lock_step ttl ?p s (?at (snd (AtomicCreateFile ?now ?p ?fs))
      (created_pc PSaw (fst (AtomicCreateFile ?now ?p ?fs))))"
    using step(1) [of s i] assms(3) by (simp add: ls_create_def)
  have inspect: "lock_step ttl ?p (?at ?fs PSaw) (?at ?fs (inspect_pc ttl ?age))"
    using step(2) [of "?at ?fs PSaw" i] by simp
  have retry: "lock_step ttl ?p (?at ?fs PRetry) (?at (snd (AtomicCreateFile ?now ?p ?fs))
      (created_pc PRefused (fst (AtomicCreateFile ?now ?p ?fs))))"
    using step(3) [of "?at ?fs PRetry" i] by (simp add: ls_create_def)
  have remove: "lock_step ttl ?p (?at ?fs PStale) (?at (snd (Remove ?p ?fs)) PRemoved)"
    using step(4) [of "?at ?fs PStale" i] by simp
  have recreate: "lock_step ttl ?p (?at fs PRemoved) (?at (snd (AtomicCreateFile ?now ?p fs))
      (created_pc PRefused (fst (AtomicCreateFile ?now ?p fs))))" for fs
    using step(5) [of "?at fs PRemoved" i] by (simp add: ls_create_def)
  obtain c fs1 where one: "AtomicCreateFile ?now ?p ?fs = (c, fs1)" by fastforce
  show ?thesis
  proof (cases "c = Some False")
    case False
    then have "r = (case c of None \<Rightarrow> Inl CreateFailed | Some b \<Rightarrow> Inr b) \<and> fs' = fs1"
      using assms one by (auto simp: AcquireLockWithTTL_def split: option.splits bool.splits)
    moreover have "created_pc PSaw c = created_pc PRefused c"
      using False by (auto simp: created_pc_def split: option.split)
    ultimately show ?thesis using create one end_simp [of c CreateFailed] by simp
  next
    case True
    then have fs1: "fs1 = ?fs" using one by (auto simp: AtomicCreateFile_def split: if_splits)
    with create inspect True one have seen: "(lock_step ttl ?p)\<^sup>*\<^sup>* s (?at ?fs (inspect_pc ttl ?age))"
      by (simp add: created_pc_def)
    note rest = assms(1,2,4) one [unfolded True fs1]
    consider "2 < ttl \<and> ?age < 0" | "\<not> (2 < ttl \<and> ?age < 0)" "0 \<le> ?age \<and> ?age < ttl"
      | "\<not> (2 < ttl \<and> ?age < 0)" "\<not> (0 \<le> ?age \<and> ?age < ttl)" by blast
    then show ?thesis
    proof cases
      case 1
      with rest have "r = Inr False \<and> fs' = ?fs" by (simp add: AcquireLockWithTTL_def Let_def)
      with 1 seen retry rest(4) show ?thesis
        by (simp add: inspect_pc_def created_pc_def answer_pc_def rtranclp.rtrancl_into_rtrancl)
    next
      case 2
      with rest have "r = Inr False \<and> fs' = ?fs" by (auto simp: AcquireLockWithTTL_def Let_def)
      moreover from 2 have "inspect_pc ttl ?age = PRefused" by (auto simp: inspect_pc_def)
      ultimately show ?thesis using seen by (simp add: answer_pc_def)
    next
      case 3
      obtain c2 fs2 where two: "AtomicCreateFile ?now ?p (snd (Remove ?p ?fs)) = (c2, fs2)" by fastforce
      from 3 rest two have
        "r = (case c2 of None \<Rightarrow> Inl CreateAfterCleanupFailed | Some b \<Rightarrow> Inr b) \<and> fs' = fs2"
        by (auto simp: AcquireLockWithTTL_def replace_lock_def Let_def split: option.splits)
      moreover from 3 have "inspect_pc ttl ?age = PStale" by (auto simp: inspect_pc_def)
      ultimately show ?thesis
        using seen remove recreate [of "snd (Remove ?p ?fs)"] two end_simp [of c2 CreateAfterCleanupFailed]
        by (auto intro: rtranclp.rtrancl_into_rtrancl)
    qed
  qed
qed

lemma lock_step_now: "lock_step ttl p s t \<Longrightarrow> ls_now s \<le> ls_now t"
  by (erule lock_stepE) (auto simp: ls_create_def)

text \<open>
  While the lock is younger than its time to live, a process is before its creation, has seen the
  file, or is done; the file is as young as \<^verbatim>\<open>base\<close> and at most one process has it.
\<close>

definition young :: "int \<Rightarrow> string \<Rightarrow> int \<Rightarrow> bool \<Rightarrow> lock_sys \<Rightarrow> bool" where
  "young ttl p base taken s \<longleftrightarrow>
     0 < base \<and> base \<le> ls_now s \<and> in_int64 (ls_now s) \<and> ls_now s < base + ttl \<and>
     (\<forall>i. ls_pc s i \<in> {PStart, PSaw, PAcquired, PRefused, PFailed}) \<and>
     (fs_mtime (ls_fs s) p = None \<longrightarrow> \<not> taken \<and> (\<forall>i. ls_pc s i \<notin> {PSaw, PAcquired})) \<and>
     (\<forall>t. fs_mtime (ls_fs s) p = Some t \<longrightarrow> base \<le> t \<and> t \<le> ls_now s) \<and>
     (taken \<longrightarrow> (\<forall>i. ls_pc s i \<noteq> PAcquired)) \<and>
     (\<forall>i j. ls_pc s i = PAcquired \<and> ls_pc s j = PAcquired \<longrightarrow> i = j)"

lemma young_inspect:
  assumes "young ttl p base taken s" and "fs_mtime (ls_fs s) p = Some t"
  shows "inspect_pc ttl (FileAge (ls_now s) p (ls_fs s)) = PRefused"
proof -
  have "0 < t" "t \<le> ls_now s" "in_int64 (ls_now s)" "ls_now s - t < ttl"
    using assms by (auto simp: young_def)
  then show ?thesis using FileAge_fresh [OF assms(2)] by (simp add: inspect_pc_def)
qed

lemma young_create:
  assumes "young ttl p base taken s" and "ls_pc s i = PStart"
  shows "young ttl p base taken (ls_create p i PSaw s)"
  using assms
  by (cases "fs_mtime (ls_fs s) p")
    (auto simp: young_def ls_create_def AtomicCreateFile_def created_pc_def)

lemma young_refuse:
  "young ttl p base taken s \<Longrightarrow> young ttl p base taken (s\<lparr>ls_pc := (ls_pc s)(i := PRefused)\<rparr>)"
  by (simp add: young_def)

lemma young_step:
  assumes "lock_step ttl p s t" and "young ttl p base taken s"
    and "ls_now t < base + ttl" and "in_int64 (ls_now t)"
  shows "young ttl p base taken t"
proof -
  have pcs: "ls_pc s i \<in> {PStart, PSaw, PAcquired, PRefused, PFailed}" for i
    using assms(2) by (simp only: young_def)
  from assms(1) show ?thesis
  proof cases
  case (tick n)
  with assms show ?thesis by (auto simp: young_def)
next
  case (create i)
  with assms show ?thesis by (simp add: young_create)
next
  case (inspect i)
  with assms(2) obtain m where "fs_mtime (ls_fs s) p = Some m"
    by (cases "fs_mtime (ls_fs s) p") (auto simp: young_def)
  then have "inspect_pc ttl (FileAge (ls_now s) p (ls_fs s)) = PRefused"
    by (rule young_inspect [OF assms(2)])
  with inspect(1) young_refuse [OF assms(2)] show ?thesis by simp
  next
    case (retry i)
    with pcs [of i] show ?thesis by simp
  next
    case (remove i)
    with pcs [of i] show ?thesis by simp
  next
    case (recreate i)
    with pcs [of i] show ?thesis by simp
  qed
qed

lemma lock_steps_now: "(lock_step ttl p)\<^sup>*\<^sup>* s t \<Longrightarrow> ls_now s \<le> ls_now t"
proof (induction rule: rtranclp_induct)
  case (step t u)
  then show ?case using lock_step_now [OF step.hyps(2)] by linarith
qed simp

lemma young_steps:
  "(lock_step ttl p)\<^sup>*\<^sup>* s t \<Longrightarrow> young ttl p base taken s \<Longrightarrow> ls_now t < base + ttl \<Longrightarrow>
     in_int64 (ls_now t) \<Longrightarrow> young ttl p base taken t"
proof (induction rule: rtranclp_induct)
  case (step t u)
  have tu: "ls_now t \<le> ls_now u" using step.hyps(2) by (rule lock_step_now)
  have st: "ls_now s \<le> ls_now t" using step.hyps(1) by (rule lock_steps_now)
  have "in_int64 (ls_now s)" using step.prems(1) by (simp only: young_def)
  with st tu step.prems(3) have "in_int64 (ls_now t)" by (simp add: in_int64_def)
  with tu step.prems step.IH have "young ttl p base taken t" by simp
  with step.hyps(2) step.prems(2,3) show ?case by (simp add: young_step)
qed

definition lock_initial :: "int \<Rightarrow> fsys \<Rightarrow> lock_sys" where
  "lock_initial now fs = \<lparr>ls_now = now, ls_fs = fs, ls_pc = \<lambda>_. PStart\<rparr>"

text \<open>
  Property C22. However many processes race for a lock, as long as the lock is younger than its
  time to live at most one of them acquires it, and none does if the file was there before them.
\<close>

theorem lock_excludes_while_fresh:
  assumes "(lock_step ttl p)\<^sup>*\<^sup>* (lock_initial now fs) s"
    and "base = (case fs_mtime fs p of None \<Rightarrow> now | Some t \<Rightarrow> t)"
    and "0 < base" and "base \<le> now" and "ls_now s < base + ttl" and "in_int64 (ls_now s)"
  shows "(\<forall>i j. ls_pc s i = PAcquired \<and> ls_pc s j = PAcquired \<longrightarrow> i = j)
       \<and> (fs_mtime fs p \<noteq> None \<longrightarrow> (\<forall>i. ls_pc s i \<noteq> PAcquired))"
proof -
  have "ls_now (lock_initial now fs) \<le> ls_now s"
    using assms(1) by (rule lock_steps_now)
  then have "young ttl p base (fs_mtime fs p \<noteq> None) (lock_initial now fs)"
    using assms
    by (cases "fs_mtime fs p") (auto simp: young_def lock_initial_def in_int64_def)
  then have "young ttl p base (fs_mtime fs p \<noteq> None) s"
    using young_steps assms by blast
  then show ?thesis by (auto simp: young_def)
qed

subsection \<open>A stale lock\<close>

lemma lock_initial_simps [simp]:
  "ls_now (lock_initial now fs) = now" "ls_fs (lock_initial now fs) = fs"
  "ls_pc (lock_initial now fs) i = PStart"
  by (simp_all add: lock_initial_def)

text \<open>
  Property C33. Replacing a stale lock is not atomic: from any lock file older than the time to
  live, two racing processes can both acquire it, because the second removes the lock the first
  has just created on the strength of the age it read before.
\<close>

theorem stale_lock_has_two_winners:
  assumes "fs_mtime fs p = Some t" and "0 < t" and "t + ttl \<le> now" and "in_int64 now"
    and "0 < ttl" and "\<not> fs_denied fs p"
  shows "\<exists>s. (lock_step ttl p)\<^sup>*\<^sup>* (lock_initial now fs) s \<and>
             ls_pc s 0 = PAcquired \<and> ls_pc s 1 = PAcquired"
proof -
  let ?pc = "\<lambda>a b. ((\<lambda>_. PStart)(0 := a, Suc 0 := b)) :: nat \<Rightarrow> lock_pc"
  let ?st = "\<lambda>m a b. \<lparr>ls_now = now, ls_fs = fs\<lparr>fs_mtime := m\<rparr>, ls_pc = ?pc a b\<rparr>"
  let ?m = "fs_mtime fs"
  have age: "inspect_pc ttl (FileAge now p fs) = PStale"
    using assms FileAge_fresh [OF assms(1), of now] by (simp add: inspect_pc_def)
  have fs: "fs\<lparr>fs_mtime := ?m\<rparr> = fs" by simp
  have upd: "(?pc a b)(0 := c) = ?pc c b" "(?pc a b)(Suc 0 := d) = ?pc a d" for a b c d
    by (auto simp: fun_eq_iff)
  note step = lock_step.intros(2-) [where ttl = ttl and p = p]
  have "lock_initial now fs = ?st ?m PStart PStart"
    by (simp add: lock_initial_def fun_eq_iff)
  moreover have "lock_step ttl p (?st ?m PStart PStart) (?st ?m PSaw PStart)"
    using step(1) [of "?st ?m PStart PStart" 0] assms(1)
    by (simp add: ls_create_def AtomicCreateFile_def created_pc_def upd)
  moreover have "lock_step ttl p (?st ?m PSaw PStart) (?st ?m PSaw PSaw)"
    using step(1) [of "?st ?m PSaw PStart" 1] assms(1)
    by (simp add: ls_create_def AtomicCreateFile_def created_pc_def upd)
  moreover have "lock_step ttl p (?st ?m PSaw PSaw) (?st ?m PStale PSaw)"
    using step(2) [of "?st ?m PSaw PSaw" 0] by (simp add: age upd)
  moreover have "lock_step ttl p (?st ?m PStale PSaw) (?st ?m PStale PStale)"
    using step(2) [of "?st ?m PStale PSaw" 1] by (simp add: age upd)
  moreover have "lock_step ttl p (?st ?m PStale PStale) (?st (?m(p := None)) PRemoved PStale)"
    using step(4) [of "?st ?m PStale PStale" 0] assms by (simp add: Remove_def upd)
  moreover have "lock_step ttl p (?st (?m(p := None)) PRemoved PStale)
      (?st (?m(p \<mapsto> now)) PAcquired PStale)"
    using step(5) [of "?st (?m(p := None)) PRemoved PStale" 0] assms
    by (simp add: ls_create_def AtomicCreateFile_def created_pc_def upd)
  moreover have "lock_step ttl p (?st (?m(p \<mapsto> now)) PAcquired PStale)
      (?st (?m(p := None)) PAcquired PRemoved)"
    using step(4) [of "?st (?m(p \<mapsto> now)) PAcquired PStale" 1] assms by (simp add: Remove_def upd)
  moreover have "lock_step ttl p (?st (?m(p := None)) PAcquired PRemoved)
      (?st (?m(p \<mapsto> now)) PAcquired PAcquired)"
    using step(5) [of "?st (?m(p := None)) PAcquired PRemoved" 1] assms
    by (simp add: ls_create_def AtomicCreateFile_def created_pc_def upd)
  ultimately have "(lock_step ttl p)\<^sup>*\<^sup>* (lock_initial now fs) (?st (?m(p \<mapsto> now)) PAcquired PAcquired)"
    by (simp add: converse_rtranclp_into_rtranclp)
  then show ?thesis
    by (intro exI [of _ "?st (?m(p \<mapsto> now)) PAcquired PAcquired"]) simp
qed

lemma lock_excludes_while_fresh_witness:
  "\<exists>s. (lock_step 2 ''l'')\<^sup>*\<^sup>* (lock_initial 100 empty_dir) s \<and> ls_pc s 7 = PAcquired \<and>
       (\<forall>j. ls_pc s j = PAcquired \<longrightarrow> j = 7)"
proof -
  let ?s = "ls_create ''l'' 7 PSaw (lock_initial 100 empty_dir)"
  have run: "(lock_step 2 ''l'')\<^sup>*\<^sup>* (lock_initial 100 empty_dir) ?s"
    by (intro r_into_rtranclp lock_step.create) simp
  have acq: "ls_pc ?s 7 = PAcquired"
    by (simp add: ls_create_def AtomicCreateFile_def empty_dir_def created_pc_def)
  have now: "ls_now ?s < 100 + 2" "in_int64 (ls_now ?s)"
    by (simp_all add: ls_create_def in_int64_def)
  have "fs_mtime empty_dir ''l'' = None" by (simp add: empty_dir_def)
  with lock_excludes_while_fresh [OF run refl] now acq show ?thesis
    by (intro exI [of _ ?s]) (auto simp: run)
qed

lemma stale_lock_has_two_winners_witness:
  "let fs = empty_dir\<lparr>fs_mtime := [''l'' \<mapsto> 50]\<rparr> in
   \<exists>s. (lock_step 2 ''l'')\<^sup>*\<^sup>* (lock_initial 100 fs) s \<and> ls_pc s 0 = PAcquired \<and> ls_pc s 1 = PAcquired"
  using stale_lock_has_two_winners [of "empty_dir\<lparr>fs_mtime := [''l'' \<mapsto> 50]\<rparr>" "''l''" 50 2 100]
  by (simp add: empty_dir_def in_int64_def)

end
