(* ===== verification/SessionState.thy ===== *)
theory SessionState
  imports Runes Status
begin

text \<open>
  \<^verbatim>\<open>internal/state/state.go\<close>: what a session remembers between hook processes. A state file
  is read and written whole, so the store maps session identifiers to files; a file is the state
  last encoded, or bytes that do not parse. Encoding replaces bytes that are not UTF-8
  (\<^verbatim>\<open>json_string\<close>). Times are Unix seconds in \<^verbatim>\<open>int64\<close>, zero meaning never.
\<close>

record session_state =
  ss_SessionID :: string
  ss_LastInteractiveTool :: string
  ss_LastTimestamp :: int
  ss_LastTaskCompleteTime :: int
  ss_LastNotificationTime :: int
  ss_LastNotificationStatus :: string
  ss_LastNotificationMessage :: string
  ss_LastNotificationBody :: string
  ss_LastNotificationTurn :: string
  ss_LastNotificationEvent :: string
  ss_LastStopPayloadHash :: string
  ss_LastStopPayloadTime :: int
  ss_GhosttyTerminalID :: string
  ss_CWD :: string

definition new_state :: "string \<Rightarrow> session_state" where
  "new_state sid =
     \<lparr>ss_SessionID = sid, ss_LastInteractiveTool = [], ss_LastTimestamp = 0,
      ss_LastTaskCompleteTime = 0, ss_LastNotificationTime = 0, ss_LastNotificationStatus = [],
      ss_LastNotificationMessage = [], ss_LastNotificationBody = [], ss_LastNotificationTurn = [],
      ss_LastNotificationEvent = [], ss_LastStopPayloadHash = [], ss_LastStopPayloadTime = 0,
      ss_GhosttyTerminalID = [], ss_CWD = []\<rparr>"

definition json_state :: "session_state \<Rightarrow> session_state" where
  "json_state st =
     st\<lparr>ss_SessionID := json_string (ss_SessionID st),
        ss_LastInteractiveTool := json_string (ss_LastInteractiveTool st),
        ss_LastNotificationStatus := json_string (ss_LastNotificationStatus st),
        ss_LastNotificationMessage := json_string (ss_LastNotificationMessage st),
        ss_LastNotificationBody := json_string (ss_LastNotificationBody st),
        ss_LastNotificationTurn := json_string (ss_LastNotificationTurn st),
        ss_LastNotificationEvent := json_string (ss_LastNotificationEvent st),
        ss_LastStopPayloadHash := json_string (ss_LastStopPayloadHash st),
        ss_GhosttyTerminalID := json_string (ss_GhosttyTerminalID st),
        ss_CWD := json_string (ss_CWD st)\<rparr>"

datatype state_file = Parsed session_state | Corrupt

datatype state_error = ParseFailed | WriteFailed | DeleteFailed

record state_store =
  st_files :: "string \<rightharpoonup> state_file"
  st_readonly :: "string \<Rightarrow> bool"

subsection \<open>Loading and saving\<close>

definition Load :: "string \<Rightarrow> state_store \<Rightarrow> state_error + session_state option" where
  "Load sid m =
     (case st_files m sid of
        None \<Rightarrow> Inr None
      | Some Corrupt \<Rightarrow> Inl ParseFailed
      | Some (Parsed st) \<Rightarrow> Inr (Some st))"

definition Save :: "session_state \<Rightarrow> state_store \<Rightarrow> state_error option \<times> state_store" where
  "Save st m =
     (if st_readonly m (ss_SessionID st) then (Some WriteFailed, m)
      else (None, m\<lparr>st_files := (st_files m)(ss_SessionID st \<mapsto> Parsed (json_state st))\<rparr>))"

definition Delete :: "string \<Rightarrow> state_store \<Rightarrow> state_error option \<times> state_store" where
  "Delete sid m =
     (if st_files m sid = None then (None, m)
      else if st_readonly m sid then (Some DeleteFailed, m)
      else (None, m\<lparr>st_files := (st_files m)(sid := None)\<rparr>))"

text \<open>Every update loads the state, starts a new one if there is none, changes it and saves it.\<close>

definition update_session ::
    "string \<Rightarrow> (session_state \<Rightarrow> session_state) \<Rightarrow> state_store \<Rightarrow> state_error option \<times> state_store"
  where
  "update_session sid f m =
     (case Load sid m of
        Inl e \<Rightarrow> (Some e, m)
      | Inr None \<Rightarrow> Save (f (new_state sid)) m
      | Inr (Some st) \<Rightarrow> Save (f st) m)"

definition UpdateInteractiveTool ::
    "int \<Rightarrow> string \<Rightarrow> string \<Rightarrow> string \<Rightarrow> state_store \<Rightarrow> state_error option \<times> state_store" where
  "UpdateInteractiveTool now sid toolName cwd =
     update_session sid (\<lambda>st. st\<lparr>ss_LastInteractiveTool := toolName, ss_LastTimestamp := now,
                                 ss_CWD := cwd\<rparr>)"

definition UpdateGhosttyTerminalID ::
    "string \<Rightarrow> string \<Rightarrow> state_store \<Rightarrow> state_error option \<times> state_store" where
  "UpdateGhosttyTerminalID sid terminalID =
     update_session sid (\<lambda>st. st\<lparr>ss_GhosttyTerminalID := TrimSpace terminalID\<rparr>)"

definition UpdateTaskComplete :: "int \<Rightarrow> string \<Rightarrow> state_store \<Rightarrow> state_error option \<times> state_store"
  where
  "UpdateTaskComplete now sid = update_session sid (\<lambda>st. st\<lparr>ss_LastTaskCompleteTime := now\<rparr>)"

definition UpdateState ::
    "int \<Rightarrow> string \<Rightarrow> status \<Rightarrow> string \<Rightarrow> string \<Rightarrow> state_store \<Rightarrow> state_error option \<times> state_store"
  where
  "UpdateState now sid status toolName cwd m =
     (if status = StatusTaskComplete then UpdateTaskComplete now sid m
      else if status \<in> {StatusPlanReady, StatusQuestion} \<and> toolName \<noteq> []
        then UpdateInteractiveTool now sid toolName cwd m
      else (None, m))"

definition record_notification ::
    "int \<Rightarrow> status \<Rightarrow> string \<Rightarrow> string \<Rightarrow> string \<Rightarrow> string \<Rightarrow> string \<Rightarrow> session_state \<Rightarrow> session_state"
  where
  "record_notification now status message stopHash body turn event st =
     (let st = st\<lparr>ss_LastNotificationTime := now\<rparr>;
          st = (if status = StatusTaskComplete then st\<lparr>ss_LastTaskCompleteTime := now\<rparr> else st);
          st = st\<lparr>ss_LastNotificationStatus := status_string status,
                  ss_LastNotificationMessage := message, ss_LastNotificationBody := body,
                  ss_LastNotificationTurn := turn, ss_LastNotificationEvent := event\<rparr>
      in if stopHash \<noteq> [] then st\<lparr>ss_LastStopPayloadHash := stopHash, ss_LastStopPayloadTime := now\<rparr>
         else st)"

definition UpdateLastNotificationWithIdentity ::
    "int \<Rightarrow> string \<Rightarrow> status \<Rightarrow> string \<Rightarrow> string \<Rightarrow> string \<Rightarrow> string \<Rightarrow> string \<Rightarrow> state_store
     \<Rightarrow> state_error option \<times> state_store" where
  "UpdateLastNotificationWithIdentity now sid status message stopHash body turn event =
     update_session sid (record_notification now status message stopHash body turn event)"

definition UpdateLastNotificationWithStop ::
    "int \<Rightarrow> string \<Rightarrow> status \<Rightarrow> string \<Rightarrow> string \<Rightarrow> state_store \<Rightarrow> state_error option \<times> state_store" where
  "UpdateLastNotificationWithStop now sid status message stopHash =
     UpdateLastNotificationWithIdentity now sid status message stopHash [] [] []"

definition UpdateLastNotification ::
    "int \<Rightarrow> string \<Rightarrow> status \<Rightarrow> string \<Rightarrow> state_store \<Rightarrow> state_error option \<times> state_store" where
  "UpdateLastNotification now sid status message =
     UpdateLastNotificationWithStop now sid status message []"

subsection \<open>Questions asked of the state\<close>

definition elapsed_since :: "int \<Rightarrow> int \<Rightarrow> int" where
  "elapsed_since now t = wrap64 (now - t)"

definition ShouldSuppressQuestion :: "int \<Rightarrow> string \<Rightarrow> int \<Rightarrow> state_store \<Rightarrow> state_error + bool" where
  "ShouldSuppressQuestion now sid cooldownSeconds m =
     (if cooldownSeconds \<le> 0 then Inr False
      else (case Load sid m of
              Inl e \<Rightarrow> Inl e
            | Inr None \<Rightarrow> Inr False
            | Inr (Some st) \<Rightarrow>
                if ss_LastTaskCompleteTime st = 0 then Inr False
                else Inr (elapsed_since now (ss_LastTaskCompleteTime st) < cooldownSeconds)))"

definition ShouldSuppressQuestionAfterAnyNotification ::
    "int \<Rightarrow> string \<Rightarrow> int \<Rightarrow> state_store \<Rightarrow> state_error + bool" where
  "ShouldSuppressQuestionAfterAnyNotification now sid cooldownSeconds m =
     (if cooldownSeconds \<le> 0 then Inr False
      else (case Load sid m of
              Inl e \<Rightarrow> Inl e
            | Inr None \<Rightarrow> Inr False
            | Inr (Some st) \<Rightarrow>
                if ss_LastNotificationTime st = 0 then Inr False
                else Inr (elapsed_since now (ss_LastNotificationTime st) < cooldownSeconds)))"

definition normalizeMessage :: "(string \<Rightarrow> string) \<Rightarrow> string \<Rightarrow> string" where
  "normalizeMessage uni msg = ToLower uni (TrimRightDots (TrimSpace msg))"

definition IsDuplicateMessage ::
    "(string \<Rightarrow> string) \<Rightarrow> int \<Rightarrow> string \<Rightarrow> string \<Rightarrow> int \<Rightarrow> state_store \<Rightarrow> state_error + bool" where
  "IsDuplicateMessage uni now sid message windowSeconds m =
     (if windowSeconds \<le> 0 then Inr False
      else (case Load sid m of
              Inl e \<Rightarrow> Inl e
            | Inr None \<Rightarrow> Inr False
            | Inr (Some st) \<Rightarrow>
                if ss_LastNotificationTime st = 0 \<or> ss_LastNotificationMessage st = [] then Inr False
                else if windowSeconds < elapsed_since now (ss_LastNotificationTime st) then Inr False
                else Inr (normalizeMessage uni message
                          = normalizeMessage uni (ss_LastNotificationMessage st))))"

definition paired_events :: "string \<Rightarrow> string \<Rightarrow> bool" where
  "paired_events event last_event \<longleftrightarrow>
     event = ''Stop'' \<and> (last_event = ''Stop'' \<or> last_event = ''Notification'') \<or>
     event = ''Notification'' \<and> last_event = ''Stop''"

definition IsDuplicateTurnBody ::
    "(string \<Rightarrow> string) \<Rightarrow> int \<Rightarrow> string \<Rightarrow> string \<Rightarrow> string \<Rightarrow> string \<Rightarrow> int \<Rightarrow> state_store
     \<Rightarrow> state_error + bool" where
  "IsDuplicateTurnBody uni now sid body turn event windowSeconds m =
     (if body = [] \<or> turn = [] \<or> windowSeconds \<le> 0 \<or> (event \<noteq> ''Stop'' \<and> event \<noteq> ''Notification'')
      then Inr False
      else (case Load sid m of
              Inl e \<Rightarrow> Inl e
            | Inr None \<Rightarrow> Inr False
            | Inr (Some st) \<Rightarrow>
                if ss_LastNotificationTime st = 0 then Inr False
                else (let elapsed = elapsed_since now (ss_LastNotificationTime st) in
                      Inr (0 \<le> elapsed \<and> elapsed \<le> windowSeconds
                           \<and> paired_events event (ss_LastNotificationEvent st)
                           \<and> ss_LastNotificationTurn st = turn
                           \<and> normalizeMessage uni (ss_LastNotificationBody st)
                               = normalizeMessage uni body))))"

definition IsDuplicateStopPayload ::
    "int \<Rightarrow> string \<Rightarrow> string \<Rightarrow> int \<Rightarrow> state_store \<Rightarrow> state_error + bool" where
  "IsDuplicateStopPayload now sid stopHash windowSeconds m =
     (if stopHash = [] \<or> windowSeconds \<le> 0 then Inr False
      else (case Load sid m of
              Inl e \<Rightarrow> Inl e
            | Inr None \<Rightarrow> Inr False
            | Inr (Some st) \<Rightarrow>
                if ss_LastStopPayloadTime st = 0 then Inr False
                else (let elapsed = elapsed_since now (ss_LastStopPayloadTime st) in
                      Inr (0 \<le> elapsed \<and> elapsed \<le> windowSeconds
                           \<and> ss_LastStopPayloadHash st = stopHash))))"

subsection \<open>Sessions are independent\<close>

definition state_get :: "string \<Rightarrow> state_store \<Rightarrow> session_state option" where
  "state_get sid m = (case Load sid m of Inr (Some st) \<Rightarrow> Some st | _ \<Rightarrow> None)"

definition state_put :: "string \<Rightarrow> session_state \<Rightarrow> state_store \<Rightarrow> state_store" where
  "state_put sid st m = m\<lparr>st_files := (st_files m)(sid \<mapsto> Parsed st)\<rparr>"

interpretation sessions: keyed_store state_get state_put
  by unfold_locales (simp_all add: state_get_def state_put_def Load_def)

lemma Save_put:
  "\<not> st_readonly m (ss_SessionID st) \<Longrightarrow>
     Save st m = (None, state_put (ss_SessionID st) (json_state st) m)"
  by (simp add: Save_def state_put_def)

text \<open>A well-formed store: a file holds the state of its own session, as encoded.\<close>

definition store_ok :: "state_store \<Rightarrow> bool" where
  "store_ok m \<longleftrightarrow>
     (\<forall>sid st. st_files m sid = Some (Parsed st) \<longrightarrow> ss_SessionID st = sid \<and> json_state st = st)"

lemma json_state_idem [simp]: "json_state (json_state st) = json_state st"
  by (simp add: json_state_def)

lemma update_session_ok:
  assumes "store_ok m" and "json_string sid = sid"
    and "\<And>st. ss_SessionID (f st) = ss_SessionID st"
  shows "store_ok (snd (update_session sid f m))"
  using assms
  by (auto simp: store_ok_def update_session_def Load_def Save_def new_state_def json_state_def
      split: option.split state_file.split)

lemma update_session_get:
  assumes "store_ok m" and "st_files m sid \<noteq> Some Corrupt" and "\<not> st_readonly m sid"
    and "\<And>st. ss_SessionID (f st) = ss_SessionID st"
  shows "update_session sid f m = (None, state_put sid
     (json_state (f (case state_get sid m of None \<Rightarrow> new_state sid | Some st \<Rightarrow> st))) m)"
  using assms
  by (auto simp: update_session_def Load_def Save_def state_get_def state_put_def store_ok_def
      new_state_def split: option.split state_file.split)

lemma record_notification_frame [simp]:
  "ss_SessionID (record_notification now status message stopHash body turn event st) = ss_SessionID st"
  by (simp add: record_notification_def Let_def)

subsection \<open>After a notification\<close>

lemma elapsed_simps:
  "0 < t \<Longrightarrow> t \<le> now \<Longrightarrow> in_int64 now \<Longrightarrow> elapsed_since now t = now - t"
  by (simp add: elapsed_since_def wrap64_diff in_int64_def)

lemma Load_get: "state_get sid m = Some st \<Longrightarrow> Load sid m = Inr (Some st)"
  by (auto simp: state_get_def split: sum.splits option.splits)

definition noted ::
    "int \<Rightarrow> string \<Rightarrow> status \<Rightarrow> string \<Rightarrow> string \<Rightarrow> string \<Rightarrow> string \<Rightarrow> string \<Rightarrow> state_store \<Rightarrow> session_state"
  where
  "noted t sid status message stopHash body turn event m =
     json_state (record_notification t status message stopHash body turn event
       (case state_get sid m of None \<Rightarrow> new_state sid | Some st \<Rightarrow> st))"

lemma update_notification:
  assumes "store_ok m" and "st_files m sid \<noteq> Some Corrupt" and "\<not> st_readonly m sid"
  shows "UpdateLastNotificationWithIdentity t sid status message stopHash body turn event m
    = (None, state_put sid (noted t sid status message stopHash body turn event m) m)"
  using assms by (simp add: UpdateLastNotificationWithIdentity_def update_session_get noted_def)

lemma noted_simps [simp]:
  "ss_LastNotificationTime (noted t sid status message stopHash body turn event m) = t"
  "ss_LastNotificationMessage (noted t sid status message stopHash body turn event m)
     = json_string message"
  "ss_LastNotificationBody (noted t sid status message stopHash body turn event m) = json_string body"
  "ss_LastNotificationTurn (noted t sid status message stopHash body turn event m) = json_string turn"
  "ss_LastNotificationEvent (noted t sid status message stopHash body turn event m)
     = json_string event"
  "stopHash \<noteq> [] \<Longrightarrow>
     ss_LastStopPayloadHash (noted t sid status message stopHash body turn event m)
       = json_string stopHash"
  "stopHash \<noteq> [] \<Longrightarrow>
     ss_LastStopPayloadTime (noted t sid status message stopHash body turn event m) = t"
  "status = StatusTaskComplete \<Longrightarrow>
     ss_LastTaskCompleteTime (noted t sid status message stopHash body turn event m) = t"
  by (simp_all add: noted_def record_notification_def json_state_def Let_def)

text \<open>
  Property C32. After a notification of a session is recorded at time t, the three duplicate checks
  of that session say exactly this at a later time: a message is a duplicate when it equals the
  recorded one up to case, outer white space and final dots within the window; a body is one when
  it also belongs to the recorded turn and the two hook events are a Stop replay or a
  Stop/Notification pair; a Stop payload is one when its digest is the recorded digest.
\<close>

theorem recorded_notification_duplicates:
  assumes "store_ok m" and "st_files m sid \<noteq> Some Corrupt" and "\<not> st_readonly m sid"
    and "0 < t" and "t \<le> now" and "in_int64 now"
    and "json_string message = message" and "json_string body = body" and "json_string turn = turn"
    and "json_string event = event" and "json_string stopHash = stopHash"
    and "m' = snd (UpdateLastNotificationWithIdentity t sid status message stopHash body turn event m)"
  shows "IsDuplicateMessage uni now sid message' w m'
      = Inr (0 < w \<and> message \<noteq> [] \<and> now - t \<le> w
             \<and> normalizeMessage uni message' = normalizeMessage uni message)
    \<and> IsDuplicateTurnBody uni now sid body' turn' event' w m'
      = Inr (0 < w \<and> body' \<noteq> [] \<and> turn' \<noteq> [] \<and> now - t \<le> w \<and> paired_events event' event
             \<and> turn = turn' \<and> normalizeMessage uni body = normalizeMessage uni body')
    \<and> (stopHash \<noteq> [] \<longrightarrow> IsDuplicateStopPayload now sid stopHash' w m'
      = Inr (0 < w \<and> now - t \<le> w \<and> stopHash = stopHash'))"
proof -
  let ?n = "noted t sid status message stopHash body turn event m"
  have m': "m' = state_put sid ?n m"
    using assms by (simp add: update_notification)
  then have load: "Load sid m' = Inr (Some ?n)"
    by (simp add: Load_get sessions.get_put)
  have el: "elapsed_since now t = now - t" using assms by (simp add: elapsed_simps)
  have "IsDuplicateMessage uni now sid message' w m'
      = Inr (0 < w \<and> message \<noteq> [] \<and> now - t \<le> w
             \<and> normalizeMessage uni message' = normalizeMessage uni message)"
    using assms(4-11) by (simp add: IsDuplicateMessage_def load el not_less)
  moreover have "IsDuplicateTurnBody uni now sid body' turn' event' w m'
      = Inr (0 < w \<and> body' \<noteq> [] \<and> turn' \<noteq> [] \<and> now - t \<le> w \<and> paired_events event' event
             \<and> turn = turn' \<and> normalizeMessage uni body = normalizeMessage uni body')"
    using assms(4-11) by (simp add: IsDuplicateTurnBody_def load el Let_def paired_events_def)
  moreover have "stopHash \<noteq> [] \<longrightarrow> IsDuplicateStopPayload now sid stopHash' w m'
      = Inr (0 < w \<and> now - t \<le> w \<and> stopHash = stopHash')"
    using assms(4-11) by (auto simp: IsDuplicateStopPayload_def load el Let_def)
  ultimately show ?thesis by blast
qed

definition empty_store :: state_store where
  "empty_store = \<lparr>st_files = Map.empty, st_readonly = \<lambda>_. False\<rparr>"

lemma empty_store_ok: "store_ok empty_store"
  by (simp add: store_ok_def empty_store_def)

lemma recorded_notification_duplicates_witness:
  "let m' = snd (UpdateLastNotificationWithIdentity 100 ''s'' StatusTaskComplete ''done'' ''h''
                   ''b'' ''t'' ''Stop'' empty_store)
   in IsDuplicateTurnBody id 105 ''s'' ''b'' ''t'' ''Notification'' 5 m' = Inr True
      \<and> IsDuplicateStopPayload 105 ''s'' ''g'' 5 m' = Inr False"
  using recorded_notification_duplicates
    [of empty_store "''s''" 100 105 "''done''" "''b''" "''t''" "''Stop''" "''h''" _
      StatusTaskComplete id _ 5 "''b''" "''t''" "''Notification''" "''g''", OF empty_store_ok]
  by (simp add: empty_store_def json_string_ascii is_ascii_def in_int64_def paired_events_def)

text \<open>
  Theorem. A recorded notification silences the session's questions for exactly the
  configured number of seconds, a task completion also starts the task cooldown, and no other
  session is affected.
\<close>

theorem recorded_notification_cooldowns:
  assumes "store_ok m" and "st_files m sid \<noteq> Some Corrupt" and "\<not> st_readonly m sid"
    and "0 < t" and "t \<le> now" and "in_int64 now"
    and "m' = snd (UpdateLastNotificationWithIdentity t sid status message stopHash body turn event m)"
  shows "ShouldSuppressQuestionAfterAnyNotification now sid cooldown m' = Inr (now - t < cooldown)
    \<and> (status = StatusTaskComplete \<longrightarrow> ShouldSuppressQuestion now sid cooldown m' = Inr (now - t < cooldown))
    \<and> (\<forall>sid'. sid' \<noteq> sid \<longrightarrow> state_get sid' m' = state_get sid' m)"
proof -
  let ?n = "noted t sid status message stopHash body turn event m"
  have m': "m' = state_put sid ?n m"
    using assms by (simp add: update_notification)
  then have load: "Load sid m' = Inr (Some ?n)"
    by (simp add: Load_get sessions.get_put)
  have el: "elapsed_since now t = now - t" using assms by (simp add: elapsed_simps)
  have "ShouldSuppressQuestionAfterAnyNotification now sid cooldown m' = Inr (now - t < cooldown)"
    using assms(4-6) by (simp add: ShouldSuppressQuestionAfterAnyNotification_def load el)
  moreover have "status = StatusTaskComplete \<longrightarrow>
      ShouldSuppressQuestion now sid cooldown m' = Inr (now - t < cooldown)"
    using assms(4-6) by (simp add: ShouldSuppressQuestion_def load el)
  moreover have "\<forall>sid'. sid' \<noteq> sid \<longrightarrow> state_get sid' m' = state_get sid' m"
    unfolding m' by (simp add: sessions.get_put_if)
  ultimately show ?thesis by blast
qed

lemma recorded_notification_cooldowns_witness:
  "let m' = snd (UpdateLastNotificationWithIdentity 100 ''s'' StatusTaskComplete [] [] [] [] [] empty_store)
   in ShouldSuppressQuestion 111 ''s'' 12 m' = Inr True
      \<and> ShouldSuppressQuestion 112 ''s'' 12 m' = Inr False"
proof -
  let ?m = "snd (UpdateLastNotificationWithIdentity 100 ''s'' StatusTaskComplete [] [] [] [] [] empty_store)"
  have c: "st_files empty_store ''s'' \<noteq> Some Corrupt" "\<not> st_readonly empty_store ''s''"
    by (simp_all add: empty_store_def)
  have t: "(0::int) < 100" "(100::int) \<le> 111" "(100::int) \<le> 112" "in_int64 111" "in_int64 112"
    by (simp_all add: in_int64_def)
  have "ShouldSuppressQuestion 111 ''s'' 12 ?m = Inr (111 - 100 < (12::int))"
    using recorded_notification_cooldowns [OF empty_store_ok c t(1,2,4) refl] by blast
  moreover have "ShouldSuppressQuestion 112 ''s'' 12 ?m = Inr (112 - 100 < (12::int))"
    using recorded_notification_cooldowns [OF empty_store_ok c t(1,3,5) refl] by blast
  ultimately show ?thesis unfolding Let_def by simp
qed

end
