(* ===== verification/TeamState.thy ===== *)
theory TeamState
  imports GoStrings
begin

text \<open>
  \<^verbatim>\<open>internal/teamstate/teamstate.go\<close>: when a team's lead and members have all stopped,
  one notification is sent for the cycle. Every operation runs under the team's file lock, so it
  is one step on the team's files and an interleaving of the lead's and the members' hook processes
  is a sequence of operations. The teams directory and the configuration files are arguments of
  the detection; names come from decoded JSON, so encoding them again changes nothing.
\<close>

record team_member =
  tm_AgentID :: string
  tm_Name :: string
  tm_AgentType :: string

record team_config =
  tc_Name :: string
  tc_LeadSessionID :: string
  tc_Members :: "team_member list"

record team_info =
  ti_TeamName :: string
  ti_LeadSessionID :: string
  ti_Members :: "string list"
  ti_ConfigPath :: string

record team_state =
  ts_TeamName :: string
  ts_LeadStopped :: bool
  ts_LeadStopAt :: int
  ts_IdleMembers :: "string \<rightharpoonup> int"
  ts_NotifiedAt :: int

subsection \<open>Detection\<close>

text \<open>
  An entry of the teams directory: its name, whether it is a directory, and the configuration it
  holds if that can be read and parsed.
\<close>

type_synonym team_entry = "string \<times> bool \<times> team_config option"

definition nonLeadMembers :: "team_config \<Rightarrow> string list" where
  "nonLeadMembers cfg = map tm_Name (filter (\<lambda>m. tm_AgentType m \<noteq> ''team-lead'') (tc_Members cfg))"

definition team_config_path :: "string \<Rightarrow> string" where
  "team_config_path name = ''teams/'' @ name @ ''/config.json''"

fun DetectTeamLead :: "string \<Rightarrow> team_entry list \<Rightarrow> team_info option" where
  "DetectTeamLead sessionID [] = None"
| "DetectTeamLead sessionID ((name, isDir, ocfg) # rest) =
     (if \<not> isDir then DetectTeamLead sessionID rest
      else (case ocfg of
              None \<Rightarrow> DetectTeamLead sessionID rest
            | Some cfg \<Rightarrow>
                if tc_LeadSessionID cfg = sessionID then
                  (let members = nonLeadMembers cfg in
                   if members = [] then DetectTeamLead sessionID rest
                   else Some \<lparr>ti_TeamName = tc_Name cfg, ti_LeadSessionID = tc_LeadSessionID cfg,
                              ti_Members = members, ti_ConfigPath = team_config_path name\<rparr>)
                else DetectTeamLead sessionID rest))"

definition DetectTeamByName :: "string \<Rightarrow> (string \<Rightarrow> team_config option) \<Rightarrow> team_info option" where
  "DetectTeamByName teamName read =
     (case read teamName of
        None \<Rightarrow> None
      | Some cfg \<Rightarrow>
          Some \<lparr>ti_TeamName = tc_Name cfg, ti_LeadSessionID = tc_LeadSessionID cfg,
                ti_Members = nonLeadMembers cfg, ti_ConfigPath = team_config_path teamName\<rparr>)"

subsection \<open>State files\<close>

datatype team_file = TeamParsed team_state | TeamCorrupt | TeamUnreadable

datatype team_error = ReadTeamFailed | WriteTeamFailed

record team_store =
  tf_files :: "string \<rightharpoonup> team_file"
  tf_readonly :: bool

definition fresh_team :: "string \<Rightarrow> team_state" where
  "fresh_team teamName =
     \<lparr>ts_TeamName = teamName, ts_LeadStopped = False, ts_LeadStopAt = 0,
      ts_IdleMembers = Map.empty, ts_NotifiedAt = 0\<rparr>"

definition loadStateUnlocked :: "string \<Rightarrow> team_store \<Rightarrow> team_error + team_state" where
  "loadStateUnlocked teamName m =
     (case tf_files m teamName of
        None \<Rightarrow> Inr (fresh_team teamName)
      | Some TeamUnreadable \<Rightarrow> Inl ReadTeamFailed
      | Some TeamCorrupt \<Rightarrow> Inr (fresh_team teamName)
      | Some (TeamParsed s) \<Rightarrow> Inr s)"

text \<open>A write replaces the file as a whole (temporary file and rename) or leaves it alone.\<close>

definition saveStateUnlocked :: "team_state \<Rightarrow> team_store \<Rightarrow> team_error option \<times> team_store" where
  "saveStateUnlocked s m =
     (if tf_readonly m then (Some WriteTeamFailed, m)
      else (None, m\<lparr>tf_files := (tf_files m)(ts_TeamName s \<mapsto> TeamParsed s)\<rparr>))"

definition team_update ::
    "string \<Rightarrow> (team_state \<Rightarrow> team_state) \<Rightarrow> team_store \<Rightarrow> team_error option \<times> team_store" where
  "team_update teamName f m =
     (case loadStateUnlocked teamName m of
        Inl e \<Rightarrow> (Some e, m)
      | Inr s \<Rightarrow> saveStateUnlocked (f s) m)"

definition RecordLeadStopped :: "int \<Rightarrow> string \<Rightarrow> team_store \<Rightarrow> team_error option \<times> team_store" where
  "RecordLeadStopped now teamName =
     team_update teamName (\<lambda>s. s\<lparr>ts_LeadStopped := True, ts_LeadStopAt := now\<rparr>)"

definition RecordTeammateIdle ::
    "int \<Rightarrow> string \<Rightarrow> string \<Rightarrow> team_store \<Rightarrow> team_error option \<times> team_store" where
  "RecordTeammateIdle now teamName teammateName =
     team_update teamName (\<lambda>s. s\<lparr>ts_IdleMembers := (ts_IdleMembers s)(teammateName \<mapsto> now)\<rparr>)"

fun all_members_idle :: "team_state \<Rightarrow> string list \<Rightarrow> bool" where
  "all_members_idle s [] = True"
| "all_members_idle s (member # rest) =
     (if ts_IdleMembers s member = None then False else all_members_idle s rest)"

definition allIdle :: "team_state \<Rightarrow> string list \<Rightarrow> bool" where
  "allIdle s expectedMembers =
     (if \<not> ts_LeadStopped s then False
      else if \<not> all_members_idle s expectedMembers then False
      else if 0 < ts_NotifiedAt s \<and> ts_LeadStopAt s \<le> ts_NotifiedAt s then False
      else True)"

definition CheckAllIdle :: "string \<Rightarrow> string list \<Rightarrow> team_store \<Rightarrow> team_error + bool" where
  "CheckAllIdle teamName expectedMembers m =
     (case loadStateUnlocked teamName m of
        Inl e \<Rightarrow> Inl e
      | Inr s \<Rightarrow> Inr (allIdle s expectedMembers))"

definition markNotified :: "int \<Rightarrow> team_state \<Rightarrow> team_state" where
  "markNotified now s =
     s\<lparr>ts_NotifiedAt := now, ts_LeadStopped := False, ts_IdleMembers := Map.empty\<rparr>"

definition ClaimAllIdle ::
    "int \<Rightarrow> string \<Rightarrow> string list \<Rightarrow> team_store \<Rightarrow> (team_error + bool) \<times> team_store" where
  "ClaimAllIdle now teamName expectedMembers m =
     (case loadStateUnlocked teamName m of
        Inl e \<Rightarrow> (Inl e, m)
      | Inr s \<Rightarrow>
          if \<not> allIdle s expectedMembers then (Inr False, m)
          else (case saveStateUnlocked (markNotified now s) m of
                  (Some e, m') \<Rightarrow> (Inl e, m')
                | (None, m') \<Rightarrow> (Inr True, m')))"

definition MarkNotified :: "int \<Rightarrow> string \<Rightarrow> team_store \<Rightarrow> team_error option \<times> team_store" where
  "MarkNotified now teamName = team_update teamName (markNotified now)"

subsection \<open>Teams are independent\<close>

definition team_get :: "string \<Rightarrow> team_store \<Rightarrow> team_state option" where
  "team_get name m = (case loadStateUnlocked name m of Inr s \<Rightarrow> Some s | Inl _ \<Rightarrow> None)"

definition team_put :: "string \<Rightarrow> team_state \<Rightarrow> team_store \<Rightarrow> team_store" where
  "team_put name s m = m\<lparr>tf_files := (tf_files m)(name \<mapsto> TeamParsed s)\<rparr>"

interpretation teams: keyed_store team_get team_put
  by unfold_locales (simp_all add: team_get_def team_put_def loadStateUnlocked_def)

definition team_ok :: "team_store \<Rightarrow> bool" where
  "team_ok m \<longleftrightarrow> (\<forall>name s. tf_files m name = Some (TeamParsed s) \<longrightarrow> ts_TeamName s = name)"

lemma loaded_name: "team_ok m \<Longrightarrow> loadStateUnlocked name m = Inr s \<Longrightarrow> ts_TeamName s = name"
  by (auto simp: team_ok_def loadStateUnlocked_def fresh_team_def split: option.splits team_file.splits)

lemma team_ok_put: "team_ok m \<Longrightarrow> ts_TeamName s = name \<Longrightarrow> team_ok (team_put name s m)"
  by (auto simp: team_ok_def team_put_def)

lemma saveState_put:
  "ts_TeamName s = name \<Longrightarrow>
     saveStateUnlocked s m = (if tf_readonly m then (Some WriteTeamFailed, m) else (None, team_put name s m))"
  by (simp add: saveStateUnlocked_def team_put_def)

subsection \<open>Sequences of operations\<close>

datatype team_op = OLeadStopped int | OTeammateIdle int string | OClaim int "string list"

fun team_apply :: "string \<Rightarrow> team_op \<Rightarrow> team_store \<Rightarrow> bool \<times> team_store" where
  "team_apply name (OLeadStopped now) m = (False, snd (RecordLeadStopped now name m))"
| "team_apply name (OTeammateIdle now x) m = (False, snd (RecordTeammateIdle now name x m))"
| "team_apply name (OClaim now members) m =
     (case ClaimAllIdle now name members m of (r, m') \<Rightarrow> (r = Inr True, m'))"

fun team_run :: "string \<Rightarrow> team_op list \<Rightarrow> team_store \<Rightarrow> bool list \<times> team_store" where
  "team_run name [] m = ([], m)"
| "team_run name (x # xs) m =
     (let (b, m1) = team_apply name x m; (bs, m2) = team_run name xs m1 in (b # bs, m2))"

definition lead_stop_time :: "team_op \<Rightarrow> int option" where
  "lead_stop_time x = (case x of OLeadStopped t \<Rightarrow> Some t | _ \<Rightarrow> None)"

fun last_lead_stop :: "team_op list \<Rightarrow> int option \<Rightarrow> int option" where
  "last_lead_stop [] acc = acc"
| "last_lead_stop (x # xs) acc =
     last_lead_stop xs (case lead_stop_time x of Some t \<Rightarrow> Some t | None \<Rightarrow> acc)"

definition idled :: "team_op list \<Rightarrow> string set" where
  "idled xs = {x. \<exists>t. OTeammateIdle t x \<in> set xs}"

text \<open>What the file says about the cycle: claimed at \<^verbatim>\<open>t1\<close>, then \<^verbatim>\<open>lead\<close> and \<^verbatim>\<open>idle\<close> happened.\<close>

definition cycle_state :: "string \<Rightarrow> int \<Rightarrow> int option \<Rightarrow> string set \<Rightarrow> team_store \<Rightarrow> bool" where
  "cycle_state name t1 lead idle m \<longleftrightarrow>
     \<not> tf_readonly m \<and>
     (\<exists>s. team_get name m = Some s \<and> ts_TeamName s = name \<and> ts_NotifiedAt s = t1 \<and>
          ts_LeadStopped s = (lead \<noteq> None) \<and> (\<forall>t. lead = Some t \<longrightarrow> ts_LeadStopAt s = t) \<and>
          dom (ts_IdleMembers s) = idle)"

lemma team_get_load: "team_get name m = Some s \<longleftrightarrow> loadStateUnlocked name m = Inr s"
  by (auto simp: team_get_def split: sum.splits)

lemma tf_readonly_put [simp]: "tf_readonly (team_put name s m) = tf_readonly m"
  by (simp add: team_put_def)

lemma team_update_put:
  "loadStateUnlocked name m = Inr s \<Longrightarrow> \<not> tf_readonly m \<Longrightarrow> ts_TeamName (f s) = name \<Longrightarrow>
     team_update name f m = (None, team_put name (f s) m)"
  by (simp add: team_update_def saveState_put)

lemma all_members_idle_iff: "all_members_idle s xs \<longleftrightarrow> set xs \<subseteq> dom (ts_IdleMembers s)"
  by (induction xs) auto

lemma cycle_stateD:
  assumes "cycle_state name t1 lead idle m"
  obtains s where "loadStateUnlocked name m = Inr s" "ts_TeamName s = name" "ts_NotifiedAt s = t1"
    "ts_LeadStopped s = (lead \<noteq> None)" "\<forall>t. lead = Some t \<longrightarrow> ts_LeadStopAt s = t"
    "dom (ts_IdleMembers s) = idle" "\<not> tf_readonly m"
  using assms by (auto simp: cycle_state_def team_get_load)

lemma cycle_lead:
  assumes "cycle_state name t1 lead idle m"
  shows "cycle_state name t1 (Some t) idle (snd (RecordLeadStopped t name m))"
proof -
  from assms obtain s where s: "loadStateUnlocked name m = Inr s" "ts_TeamName s = name"
    "ts_NotifiedAt s = t1" "dom (ts_IdleMembers s) = idle" "\<not> tf_readonly m" by (rule cycle_stateD)
  then have "RecordLeadStopped t name m
      = (None, team_put name (s\<lparr>ts_LeadStopped := True, ts_LeadStopAt := t\<rparr>) m)"
    by (simp add: RecordLeadStopped_def team_update_put)
  then show ?thesis using s by (simp add: cycle_state_def teams.get_put)
qed

lemma cycle_idle:
  assumes "cycle_state name t1 lead idle m"
  shows "cycle_state name t1 lead (insert x idle) (snd (RecordTeammateIdle t name x m))"
proof -
  from assms obtain s where s: "loadStateUnlocked name m = Inr s" "ts_TeamName s = name"
    "ts_NotifiedAt s = t1" "ts_LeadStopped s = (lead \<noteq> None)"
    "\<forall>t. lead = Some t \<longrightarrow> ts_LeadStopAt s = t" "dom (ts_IdleMembers s) = idle" "\<not> tf_readonly m"
    by (rule cycle_stateD)
  then have "RecordTeammateIdle t name x m
      = (None, team_put name (s\<lparr>ts_IdleMembers := (ts_IdleMembers s)(x \<mapsto> t)\<rparr>) m)"
    by (simp add: RecordTeammateIdle_def team_update_put)
  then show ?thesis using s by (simp add: cycle_state_def teams.get_put)
qed

lemma cycle_claim_iff:
  assumes "cycle_state name t1 lead idle m" and "0 < t1"
  shows "fst (ClaimAllIdle now name members m)
      = Inr ((\<exists>t. lead = Some t \<and> t1 < t) \<and> set members \<subseteq> idle)"
proof -
  from assms obtain s where s: "loadStateUnlocked name m = Inr s" "ts_TeamName s = name"
    "ts_NotifiedAt s = t1" "ts_LeadStopped s = (lead \<noteq> None)"
    "\<forall>t. lead = Some t \<longrightarrow> ts_LeadStopAt s = t" "dom (ts_IdleMembers s) = idle" "\<not> tf_readonly m"
    by (auto simp: cycle_state_def team_get_load)
  then have "allIdle s members \<longleftrightarrow> (\<exists>t. lead = Some t \<and> t1 < t) \<and> set members \<subseteq> idle"
    using assms(2) by (cases lead) (auto simp: allIdle_def all_members_idle_iff)
  then show ?thesis
    using s by (simp add: ClaimAllIdle_def saveState_put markNotified_def)
qed

lemma cycle_refused_claim:
  assumes "cycle_state name t1 lead idle m" and "\<not> fst (team_apply name (OClaim now ms) m)"
  shows "cycle_state name t1 lead idle (snd (team_apply name (OClaim now ms) m))"
proof -
  from assms(1) obtain s where s: "loadStateUnlocked name m = Inr s" "ts_TeamName s = name"
    "\<not> tf_readonly m" by (rule cycle_stateD)
  have "\<not> allIdle s ms"
    using assms(2) s by (auto simp: ClaimAllIdle_def saveState_put markNotified_def)
  then have "snd (team_apply name (OClaim now ms) m) = m"
    using s(1) by (simp add: ClaimAllIdle_def)
  with assms(1) show ?thesis by simp
qed

lemma cycle_after_claim:
  assumes "team_apply name (OClaim t1 ms) m = (True, m1)" and "team_ok m"
  shows "cycle_state name t1 None {} m1"
proof -
  from assms(1) obtain s where s: "loadStateUnlocked name m = Inr s"
    by (auto simp: ClaimAllIdle_def split: sum.splits)
  moreover from this have "ts_TeamName s = name" using assms(2) by (simp add: loaded_name)
  ultimately show ?thesis
    using assms(1)
    by (auto simp: cycle_state_def ClaimAllIdle_def saveState_put markNotified_def teams.get_put
        split: if_splits)
qed

lemma idled_Cons:
  "idled (OTeammateIdle t x # xs) = insert x (idled xs)"
  "idled (OLeadStopped t # xs) = idled xs" "idled (OClaim t ms # xs) = idled xs"
  by (auto simp: idled_def)

lemma cycle_run:
  "cycle_state name t1 lead idle m \<Longrightarrow> team_run name xs m = (bs, m2) \<Longrightarrow> True \<notin> set bs \<Longrightarrow>
     cycle_state name t1 (last_lead_stop xs lead) (idle \<union> idled xs) m2"
proof (induction xs arbitrary: lead idle m bs)
  case (Cons x xs)
  obtain b m1 where one: "team_apply name x m = (b, m1)" by fastforce
  with Cons.prems obtain bs' where rest: "team_run name xs m1 = (bs', m2)" "bs = b # bs'"
    by (auto split: prod.splits)
  show ?case
  proof (cases x)
    case (OLeadStopped t)
    with one cycle_lead [OF Cons.prems(1)] have "cycle_state name t1 (Some t) idle m1" by auto
    from Cons.IH [OF this rest(1)] Cons.prems(3) rest(2) OLeadStopped show ?thesis
      by (simp add: lead_stop_time_def idled_Cons)
  next
    case (OTeammateIdle t y)
    with one cycle_idle [OF Cons.prems(1)] have "cycle_state name t1 lead (insert y idle) m1" by auto
    from Cons.IH [OF this rest(1)] Cons.prems(3) rest(2) OTeammateIdle show ?thesis
      by (simp add: lead_stop_time_def idled_Cons)
  next
    case (OClaim t ms)
    with one cycle_refused_claim [OF Cons.prems(1), of t ms] Cons.prems(3) rest(2)
    have "cycle_state name t1 lead idle m1" by simp
    from Cons.IH [OF this rest(1)] Cons.prems(3) rest(2) OClaim show ?thesis
      by (simp add: lead_stop_time_def idled_Cons)
  qed
qed (simp add: idled_def)

text \<open>
  Property C23. A team's completion is claimed once per cycle: after a claim at second t1,
  whatever the lead's and the members' hooks do without another claim succeeding, the next claim
  succeeds exactly when the lead has stopped again, at a later second than t1, and every expected
  member has gone idle again.
\<close>

theorem team_claim_once_per_cycle:
  assumes "team_ok m" and "0 < t1"
    and "team_apply name (OClaim t1 members1) m = (True, m1)"
    and "team_run name ops m1 = (bs, m2)" and "True \<notin> set bs"
  shows "fst (team_apply name (OClaim t2 members) m2) \<longleftrightarrow>
     (\<exists>t. last_lead_stop ops None = Some t \<and> t1 < t) \<and> set members \<subseteq> idled ops"
proof -
  have "cycle_state name t1 (last_lead_stop ops None) ({} \<union> idled ops) m2"
    using cycle_run [OF cycle_after_claim [OF assms(3,1)] assms(4,5)] .
  from cycle_claim_iff [OF this assms(2), of t2 members] show ?thesis
    by (auto split: prod.split)
qed

definition no_teams :: team_store where
  "no_teams = \<lparr>tf_files = Map.empty, tf_readonly = False\<rparr>"

lemma team_claim_once_per_cycle_witness:
  "let m = snd (team_run ''t'' [OLeadStopped 10, OTeammateIdle 11 ''a''] no_teams);
       m1 = snd (team_apply ''t'' (OClaim 12 [''a'']) m);
       m2 = snd (team_run ''t'' [OLeadStopped 12, OTeammateIdle 13 ''a''] m1)
   in fst (team_apply ''t'' (OClaim 12 [''a'']) m) \<and> \<not> fst (team_apply ''t'' (OClaim 14 [''a'']) m2)"
proof -
  let ?m = "snd (team_run ''t'' [OLeadStopped 10, OTeammateIdle 11 ''a''] no_teams)"
  let ?m1 = "snd (team_apply ''t'' (OClaim 12 [''a'']) ?m)"
  have defs: "team_ok ?m" "fst (team_apply ''t'' (OClaim 12 [''a'']) ?m)"
    by (simp_all add: no_teams_def RecordLeadStopped_def RecordTeammateIdle_def team_update_def
        loadStateUnlocked_def saveStateUnlocked_def fresh_team_def team_ok_def ClaimAllIdle_def
        allIdle_def markNotified_def)
  then have "team_apply ''t'' (OClaim 12 [''a'']) ?m = (True, ?m1)"
    by (metis prod.collapse)
  from team_claim_once_per_cycle [OF defs(1) _ this, of "[OLeadStopped 12, OTeammateIdle 13 ''a'']"
      "[False, False]" _ 14 "[''a'']"] defs(2)
  show ?thesis by (simp add: lead_stop_time_def Let_def)
qed

end
