(* ===== verification/Transcript.thy ===== *)
theory Transcript
  imports Json Runes
begin

text \<open>
  \<^verbatim>\<open>pkg/jsonl/jsonl.go\<close>: the messages of a transcript file and the questions the analyzer
  asks of them. Decoding one line and \<^verbatim>\<open>time.Parse\<close> are arguments; a time is an
  instant in nanoseconds.
\<close>

record content =
  ct_Type :: string
  ct_Name :: string
  ct_Text :: string
  ct_Input :: jobj

record message =
  msg_ParentUUID :: string
  msg_Type :: string
  msg_Role :: string
  msg_Content :: "content list"
  msg_ContentString :: string
  msg_Timestamp :: string
  msg_IsApiErrorMessage :: bool
  msg_Error :: string

text \<open>
  The two shapes of a message's content: \<^verbatim>\<open>str\<close> and \<^verbatim>\<open>arr\<close> are what decoding it as
  a string and as an array give.
\<close>

definition UnmarshalJSON ::
    "string option \<Rightarrow> content list option \<Rightarrow> message \<Rightarrow> message" where
  "UnmarshalJSON str arr m =
     (case str of
        Some s \<Rightarrow> m\<lparr>msg_ContentString := s\<rparr>
      | None \<Rightarrow> (case arr of Some cs \<Rightarrow> m\<lparr>msg_Content := cs\<rparr> | None \<Rightarrow> m))"

definition MarshalJSON :: "message \<Rightarrow> (string + content list) option" where
  "MarshalJSON m =
     (if msg_ContentString m \<noteq> [] then Some (Inl (msg_ContentString m))
      else if msg_Content m \<noteq> [] then Some (Inr (msg_Content m))
      else None)"

subsection \<open>Lines\<close>

text \<open>The lines of a file, the last one with or without a newline.\<close>

fun read_lines :: "string \<Rightarrow> string \<Rightarrow> string list" where
  "read_lines acc [] = [rev acc]"
| "read_lines acc (c # cs) =
     (if c = char_of (10::nat) then rev acc # read_lines [] cs else read_lines (c # acc) cs)"

definition trim_crlf :: "string \<Rightarrow> string" where
  "trim_crlf s = rev (dropWhile (\<lambda>c. c = char_of (13::nat) \<or> c = char_of (10::nat)) (rev s))"

fun parse_lines :: "(string \<Rightarrow> message option) \<Rightarrow> string list \<Rightarrow> message list" where
  "parse_lines decode [] = []"
| "parse_lines decode (l # ls) =
     (let line = trim_crlf l in
      if line = [] then parse_lines decode ls
      else (case decode line of
              Some msg \<Rightarrow> msg # parse_lines decode ls
            | None \<Rightarrow> parse_lines decode ls))"

text \<open>A read error other than the end of the file loses all messages.\<close>

definition Parse :: "(string \<Rightarrow> message option) \<Rightarrow> string \<Rightarrow> bool \<Rightarrow> message list option" where
  "Parse decode data readFails =
     (if readFails then None else Some (parse_lines decode (read_lines [] data)))"

definition ParseFile :: "(string \<Rightarrow> message option) \<Rightarrow> (string \<times> bool) option \<Rightarrow> message list option"
  where
  "ParseFile decode file =
     (case file of None \<Rightarrow> None | Some (data, readFails) \<Rightarrow> Parse decode data readFails)"

subsection \<open>Selections\<close>

definition GetLastApiErrorMessages :: "message list \<Rightarrow> nat \<Rightarrow> message list" where
  "GetLastApiErrorMessages messages count = last_n count (filter msg_IsApiErrorMessage messages)"

definition is_assistant :: "message \<Rightarrow> bool" where
  "is_assistant m \<longleftrightarrow> msg_Type m = ''assistant''"

definition GetLastAssistantMessages :: "message list \<Rightarrow> nat \<Rightarrow> message list" where
  "GetLastAssistantMessages messages count = last_n count (filter is_assistant messages)"

definition filterAssistantMessages :: "message list \<Rightarrow> message list" where
  "filterAssistantMessages messages = filter is_assistant messages"

text \<open>Strings are compared byte by byte.\<close>

fun str_le :: "string \<Rightarrow> string \<Rightarrow> bool" where
  "str_le [] t = True"
| "str_le (c # s) [] = False"
| "str_le (c # s) (d # t) =
     ((of_char c :: nat) < of_char d \<or> c = d \<and> str_le s t)"

definition is_user_text :: "message \<Rightarrow> bool" where
  "is_user_text m \<longleftrightarrow>
     msg_Type m = ''user'' \<and>
     (msg_ContentString m \<noteq> [] \<or> (msg_Content m \<noteq> [] \<and> ct_Type (hd (msg_Content m)) = ''text''))"

definition GetLastUserTimestamp :: "message list \<Rightarrow> string" where
  "GetLastUserTimestamp messages =
     (case find is_user_text (rev messages) of None \<Rightarrow> [] | Some m \<Rightarrow> msg_Timestamp m)"

definition GetLastAssistantTimestamp :: "message list \<Rightarrow> string" where
  "GetLastAssistantTimestamp messages =
     (case find is_assistant (rev messages) of None \<Rightarrow> [] | Some m \<Rightarrow> msg_Timestamp m)"

definition HasRecentApiError :: "message list \<Rightarrow> bool" where
  "HasRecentApiError messages =
     (let lastUserTS = GetLastUserTimestamp messages in
      list_ex (\<lambda>m. msg_IsApiErrorMessage m \<and>
                   (lastUserTS = [] \<or> str_le lastUserTS (msg_Timestamp m))) (rev messages))"

definition FilterMessagesAfterTimestamp ::
    "(string \<Rightarrow> int option) \<Rightarrow> message list \<Rightarrow> string \<Rightarrow> message list" where
  "FilterMessagesAfterTimestamp parseTime messages afterTimestamp =
     (if afterTimestamp = [] then filterAssistantMessages messages
      else (case parseTime afterTimestamp of
              None \<Rightarrow> filterAssistantMessages messages
            | Some afterTime \<Rightarrow>
                filter (\<lambda>m. is_assistant m \<and> msg_Timestamp m \<noteq> [] \<and>
                            (case parseTime (msg_Timestamp m) of
                               None \<Rightarrow> False | Some t \<Rightarrow> afterTime < t)) messages))"

subsection \<open>Tools and text\<close>

record tool_use =
  tu_Position :: int
  tu_Name :: string

definition message_tools :: "int \<Rightarrow> message \<Rightarrow> tool_use list" where
  "message_tools pos m =
     map (\<lambda>c. \<lparr>tu_Position = pos, tu_Name = ct_Name c\<rparr>)
       (filter (\<lambda>c. ct_Type c = ''tool_use'') (msg_Content m))"

fun tools_from :: "int \<Rightarrow> message list \<Rightarrow> tool_use list" where
  "tools_from pos [] = []"
| "tools_from pos (m # ms) = message_tools pos m @ tools_from (pos + 1) ms"

definition ExtractTools :: "message list \<Rightarrow> tool_use list" where
  "ExtractTools = tools_from 0"

definition GetLastTool :: "tool_use list \<Rightarrow> string" where
  "GetLastTool tools = (if tools = [] then [] else tu_Name (last tools))"

definition CountToolsAfterPosition :: "tool_use list \<Rightarrow> int \<Rightarrow> nat" where
  "CountToolsAfterPosition tools position = length (filter (\<lambda>t. position < tu_Position t) tools)"

fun find_tool :: "tool_use list \<Rightarrow> string \<Rightarrow> int \<Rightarrow> int" where
  "find_tool [] name position = position"
| "find_tool (t # ts) name position =
     find_tool ts name (if tu_Name t = name then tu_Position t else position)"

definition FindToolPosition :: "tool_use list \<Rightarrow> string \<Rightarrow> int" where
  "FindToolPosition tools name = find_tool tools name (-1)"

definition ExtractTextFromMessages :: "message list \<Rightarrow> string list" where
  "ExtractTextFromMessages messages =
     concat (map (\<lambda>m. map ct_Text (filter (\<lambda>c. ct_Type c = ''text'' \<and> ct_Text c \<noteq> []) (msg_Content m)))
               messages)"

definition FindLastToolUse :: "message list \<Rightarrow> string \<Rightarrow> content option" where
  "FindLastToolUse messages toolName =
     find (\<lambda>c. ct_Type c = ''tool_use'' \<and> ct_Name c = toolName)
       (rev (concat (map msg_Content (filter is_assistant messages))))"

definition ExtractToolInput :: "message list \<Rightarrow> string \<Rightarrow> jobj" where
  "ExtractToolInput messages toolName =
     (case FindLastToolUse messages toolName of None \<Rightarrow> [] | Some c \<Rightarrow> ct_Input c)"

definition CountToolsByNames :: "tool_use list \<Rightarrow> string list \<Rightarrow> nat" where
  "CountToolsByNames tools names =
     sum_list (map (\<lambda>t. length (filter (\<lambda>n. tu_Name t = n) names)) tools)"

definition HasAnyActiveTool :: "tool_use list \<Rightarrow> string list \<Rightarrow> bool" where
  "HasAnyActiveTool tools activeTools = list_ex (\<lambda>t. tu_Name t \<in> set activeTools) tools"

definition ExtractRecentText :: "message list \<Rightarrow> nat \<Rightarrow> string" where
  "ExtractRecentText messages count =
     Join (ExtractTextFromMessages (GetLastAssistantMessages messages count)) '' ''"

subsection \<open>Lemmas\<close>

lemma parse_lines_append: "parse_lines decode (xs @ ys) = parse_lines decode xs @ parse_lines decode ys"
  by (induction xs) (auto simp: Let_def split: option.split)

lemma find_tool_bound:
  "find_tool tools name p = p \<or> (\<exists>t \<in> set tools. tu_Name t = name \<and> find_tool tools name p = tu_Position t)"
  by (induction tools arbitrary: p) auto

lemma tools_from_positions: "t \<in> set (tools_from pos ms) \<Longrightarrow> pos \<le> tu_Position t"
proof (induction ms arbitrary: pos)
  case (Cons m ms)
  then show ?case by (auto simp: message_tools_def dest!: Cons.IH)
qed simp

lemma FindToolPosition_found:
  "0 \<le> FindToolPosition (ExtractTools ms) name \<longleftrightarrow> name \<in> tu_Name ` set (ExtractTools ms)"
proof
  assume "0 \<le> FindToolPosition (ExtractTools ms) name"
  with find_tool_bound [of "ExtractTools ms" name "-1"]
  show "name \<in> tu_Name ` set (ExtractTools ms)" by (auto simp: FindToolPosition_def)
next
  have *: "name \<in> tu_Name ` set tools \<Longrightarrow> \<exists>t \<in> set tools. find_tool tools name p = tu_Position t"
    for tools :: "tool_use list" and p
  proof (induction tools arbitrary: p)
    case (Cons t tools)
    show ?case
    proof (cases "name \<in> tu_Name ` set tools")
      case True
      with Cons.IH show ?thesis by auto
    next
      case False
      with Cons.prems have "tu_Name t = name" by auto
      with find_tool_bound [of tools name "tu_Position t"] False show ?thesis by auto
    qed
  qed simp
  assume "name \<in> tu_Name ` set (ExtractTools ms)"
  from * [OF this, of "-1"] tools_from_positions [of _ 0 ms]
  show "0 \<le> FindToolPosition (ExtractTools ms) name"
    by (auto simp: FindToolPosition_def ExtractTools_def)
qed

lemma last_n_append:
  "last_n n (xs @ ys) = (if n \<le> length ys then last_n n ys else last_n (n - length ys) xs @ ys)"
  by (auto simp: last_n_def)

end
