(* ===== verification/Analyzer.thy ===== *)
theory Analyzer
  imports Transcript Status ConfigDefaults
begin

text \<open>
  \<^verbatim>\<open>internal/analyzer\<close>: the status a transcript calls for (\<^verbatim>\<open>analyzer.go\<close>) and
  the one a final message alone calls for (\<^verbatim>\<open>lastmessage.go\<close>).
\<close>

definition ActiveTools :: "string list" where
  "ActiveTools = [''Write'', ''Edit'', ''Bash'', ''NotebookEdit'', ''SlashCommand'', ''KillShell'']"

definition containsIgnoreCase :: "(string \<Rightarrow> string) \<Rightarrow> string \<Rightarrow> string \<Rightarrow> bool" where
  "containsIgnoreCase uni s substr = Contains (ToLower uni s) (ToLower uni substr)"

definition mentions_session_limit :: "(string \<Rightarrow> string) \<Rightarrow> string \<Rightarrow> bool" where
  "mentions_session_limit uni text \<longleftrightarrow>
     containsIgnoreCase uni text ''Session limit reached'' \<or>
     containsIgnoreCase uni text ''session limit has been reached''"

definition detectSessionLimitReached :: "(string \<Rightarrow> string) \<Rightarrow> message list \<Rightarrow> bool" where
  "detectSessionLimitReached uni messages =
     list_ex (mentions_session_limit uni)
       (ExtractTextFromMessages (GetLastAssistantMessages messages 3))"

definition mentions_401 :: "(string \<Rightarrow> string) \<Rightarrow> string \<Rightarrow> bool" where
  "mentions_401 uni text \<longleftrightarrow>
     containsIgnoreCase uni text ''401'' \<and>
     (containsIgnoreCase uni text ''authentication_error'' \<or> containsIgnoreCase uni text ''run /login'')"

definition detectAPIErrors :: "(string \<Rightarrow> string) \<Rightarrow> message list \<Rightarrow> status" where
  "detectAPIErrors uni messages =
     (if \<not> HasRecentApiError messages then StatusUnknown
      else (let errorMessages = GetLastApiErrorMessages messages 3 in
            if errorMessages = [] then StatusUnknown
            else (let lastError = last errorMessages in
                  if msg_Error lastError = ''authentication_failed'' then StatusAPIError
                  else if list_ex (mentions_401 uni) (ExtractTextFromMessages [lastError])
                    then StatusAPIError
                  else StatusAPIErrorOverloaded)))"

text \<open>The tool-based part, on the last fifteen messages of the current response.\<close>

definition tool_status :: "message list \<Rightarrow> tool_use list \<Rightarrow> status" where
  "tool_status recentMessages tools =
     (let lastTool = GetLastTool tools;
          exitPlanPos = FindToolPosition tools ''ExitPlanMode''
      in if lastTool = ''ExitPlanMode'' then StatusPlanReady
         else if lastTool = ''AskUserQuestion'' then StatusQuestion
         else if 0 \<le> exitPlanPos \<and> 0 < CountToolsAfterPosition tools exitPlanPos
           then StatusTaskComplete
         else if 1 \<le> CountToolsByNames tools [''Read'', ''Grep'', ''Glob'']
                 \<and> \<not> HasAnyActiveTool tools ActiveTools
                 \<and> 200 < length (ExtractRecentText recentMessages 5)
           then StatusReviewComplete
         else StatusTaskComplete)"

definition response_status :: "Config \<Rightarrow> message list \<Rightarrow> status" where
  "response_status cfg filteredMessages =
     (if filteredMessages = [] then StatusUnknown
      else (let recentMessages = last_n 15 filteredMessages;
                tools = ExtractTools recentMessages
            in if tools \<noteq> [] then tool_status recentMessages tools
               else if ShouldNotifyOnTextResponse cfg then StatusTaskComplete
               else StatusUnknown))"

definition analyze_messages ::
    "(string \<Rightarrow> string) \<Rightarrow> (string \<Rightarrow> int option) \<Rightarrow> Config \<Rightarrow> message list \<Rightarrow> status" where
  "analyze_messages uni parseTime cfg messages =
     (if detectSessionLimitReached uni messages then StatusSessionLimitReached
      else if detectAPIErrors uni messages \<noteq> StatusUnknown then detectAPIErrors uni messages
      else response_status cfg
             (FilterMessagesAfterTimestamp parseTime messages (GetLastUserTimestamp messages)))"

definition AnalyzeTranscriptWithMessages ::
    "(string \<Rightarrow> string) \<Rightarrow> (string \<Rightarrow> int option) \<Rightarrow> message list option \<Rightarrow> Config
     \<Rightarrow> status \<times> message list option" where
  "AnalyzeTranscriptWithMessages uni parseTime parsed cfg =
     (case parsed of
        None \<Rightarrow> (StatusUnknown, None)
      | Some messages \<Rightarrow> (analyze_messages uni parseTime cfg messages, Some messages))"

definition AnalyzeTranscript ::
    "(string \<Rightarrow> string) \<Rightarrow> (string \<Rightarrow> int option) \<Rightarrow> message list option \<Rightarrow> Config \<Rightarrow> status" where
  "AnalyzeTranscript uni parseTime parsed cfg =
     fst (AnalyzeTranscriptWithMessages uni parseTime parsed cfg)"

definition GetStatusForPreToolUse :: "string \<Rightarrow> status" where
  "GetStatusForPreToolUse toolName =
     (if toolName = ''ExitPlanMode'' then StatusPlanReady
      else if toolName = ''AskUserQuestion'' then StatusQuestion
      else StatusUnknown)"

subsection \<open>A final message alone\<close>

definition maxErrorMessageRunes :: nat where
  "maxErrorMessageRunes = 300"

definition errorMessagePatterns :: "(string \<times> status) list" where
  "errorMessagePatterns =
     [(''session limit reached'', StatusSessionLimitReached),
      (''usage limit reached'', StatusSessionLimitReached),
      (''rate limit reached'', StatusAPIErrorOverloaded),
      (''rate limit exceeded'', StatusAPIErrorOverloaded),
      (''rate-limited'', StatusAPIErrorOverloaded),
      (''too many requests'', StatusAPIErrorOverloaded),
      (''quota exceeded'', StatusAPIErrorOverloaded),
      (''currently overloaded'', StatusAPIErrorOverloaded),
      (''authentication failed'', StatusAPIError),
      (''invalid api key'', StatusAPIError),
      (''api error'', StatusAPIError),
      (''stream error'', StatusAPIError),
      (''context window exceeded'', StatusAPIError)]"

definition detectMessageErrorStatus :: "(string \<Rightarrow> string) \<Rightarrow> string \<Rightarrow> status" where
  "detectMessageErrorStatus uni trimmed =
     (if trimmed = [] \<or> maxErrorMessageRunes < length (runes trimmed) then StatusUnknown
      else (let lower = ToLower uni trimmed in
            case find (\<lambda>(pattern, st). Contains lower pattern) errorMessagePatterns of
              Some (pattern, st) \<Rightarrow> st
            | None \<Rightarrow> StatusUnknown))"

definition questionMarks :: "string list" where
  "questionMarks = [''?'', bytes [239, 188, 159], bytes [216, 159]]"

definition ClassifyLastMessage :: "(string \<Rightarrow> string) \<Rightarrow> string \<Rightarrow> status" where
  "ClassifyLastMessage uni text =
     (let trimmed = TrimSpace text in
      if trimmed = [] then StatusTaskComplete
      else if detectMessageErrorStatus uni trimmed \<noteq> StatusUnknown
        then detectMessageErrorStatus uni trimmed
      else if list_ex (HasSuffix trimmed) questionMarks then StatusQuestion
      else StatusTaskComplete)"

subsection \<open>Only the current response counts\<close>

lemma find_first: "\<forall>x \<in> set xs. \<not> P x \<Longrightarrow> P u \<Longrightarrow> find P (xs @ u # ys) = Some u"
  by (induction xs) auto

lemma find_user:
  "is_user_text user \<Longrightarrow> \<forall>m \<in> set new. \<not> is_user_text m \<Longrightarrow>
     GetLastUserTimestamp (old @ user # new) = msg_Timestamp user"
proof -
  assume user: "is_user_text user" and new: "\<forall>m \<in> set new. \<not> is_user_text m"
  have "find is_user_text (rev new @ user # rev old) = Some user"
    using new user by (intro find_first) auto
  then show ?thesis by (simp add: GetLastUserTimestamp_def)
qed

lemma ExtractText_append:
  "ExtractTextFromMessages (xs @ ys) = ExtractTextFromMessages xs @ ExtractTextFromMessages ys"
  by (simp add: ExtractTextFromMessages_def)

lemma ExtractText_subset:
  "set xs \<subseteq> set ys \<Longrightarrow> set (ExtractTextFromMessages xs) \<subseteq> set (ExtractTextFromMessages ys)"
  by (auto simp: ExtractTextFromMessages_def)

text \<open>A mention of the session limit in the current response is one in the last messages of all.\<close>

lemma session_limit_current:
  assumes "detectSessionLimitReached uni new"
  shows "detectSessionLimitReached uni (old @ new)"
proof (cases "3 \<le> length (filter is_assistant new)")
  case True
  with assms show ?thesis
    by (simp add: detectSessionLimitReached_def GetLastAssistantMessages_def last_n_append)
next
  case False
  moreover have "last_n 3 (filter is_assistant new) = filter is_assistant new"
    using False by (simp add: last_n_def)
  ultimately show ?thesis using assms
    by (simp add: detectSessionLimitReached_def GetLastAssistantMessages_def last_n_append
        ExtractText_append)
qed

lemma api_error_history:
  assumes "is_user_text user" and "\<forall>m \<in> set new. \<not> is_user_text m" and "msg_Timestamp user \<noteq> []"
    and "\<forall>m \<in> set old. msg_IsApiErrorMessage m \<longrightarrow> \<not> str_le (msg_Timestamp user) (msg_Timestamp m)"
  shows "detectAPIErrors uni (old @ user # new) = detectAPIErrors uni (user # new)"
proof -
  have "HasRecentApiError (old @ user # new) = HasRecentApiError (user # new)"
    using find_user [OF assms(1,2), of old] find_user [OF assms(1,2), of "[]"] assms(3,4)
    by (auto simp: HasRecentApiError_def Let_def list_ex_iff)
  moreover have "last (last_n 3 (filter msg_IsApiErrorMessage (old @ user # new)))
      = last (last_n 3 (filter msg_IsApiErrorMessage (user # new)))
      \<and> last_n 3 (filter msg_IsApiErrorMessage (old @ user # new)) \<noteq> []
      \<and> last_n 3 (filter msg_IsApiErrorMessage (user # new)) \<noteq> []"
    if "HasRecentApiError (user # new)"
  proof -
    have "filter msg_IsApiErrorMessage (user # new) \<noteq> []"
      using that unfolding HasRecentApiError_def Let_def list_ex_iff filter_empty_conv by auto
    moreover have "last_n 3 xs \<noteq> [] \<and> last (last_n 3 xs) = last xs" if "xs \<noteq> []" for xs :: "message list"
      using that by (cases xs) (auto simp: last_n_def)
    ultimately show ?thesis by (simp add: last_append del: filter.simps)
  qed
  ultimately show ?thesis
    by (auto simp: detectAPIErrors_def GetLastApiErrorMessages_def Let_def simp del: filter.simps filter_append)
qed

text \<open>
  Property C37. What came before the last user message (with a timestamp that parses), if it is
  stamped no later and its API errors earlier, changes the verdict in one way only: the last three assistant messages, which may reach back behind it,
  mention the session limit. Otherwise the verdict is that of the transcript starting with that
  user message; in particular a plan, a question or an API error of an earlier response cannot come
  back. (API errors are compared by the text of their timestamps, the others by the parsed time, as
  in the code.)
\<close>

theorem analyzer_ignores_history:
  assumes "is_user_text user" and "\<forall>m \<in> set new. \<not> is_user_text m"
    and "parseTime (msg_Timestamp user) = Some u" and "msg_Timestamp user \<noteq> []"
    and "\<forall>m \<in> set old. \<forall>t. parseTime (msg_Timestamp m) = Some t \<longrightarrow> t \<le> u"
    and "\<forall>m \<in> set old. msg_IsApiErrorMessage m \<longrightarrow> \<not> str_le (msg_Timestamp user) (msg_Timestamp m)"
  shows "analyze_messages uni parseTime cfg (old @ user # new)
       = (if \<exists>text \<in> set (ExtractTextFromMessages (GetLastAssistantMessages (old @ user # new) 3)).
               mentions_session_limit uni text
          then StatusSessionLimitReached else analyze_messages uni parseTime cfg (user # new))"
proof -
  have ts: "GetLastUserTimestamp (old @ user # new) = msg_Timestamp user"
    "GetLastUserTimestamp (user # new) = msg_Timestamp user"
    using find_user [OF assms(1,2), of old] find_user [OF assms(1,2), of "[]"] by simp_all
  have "filter (\<lambda>m. is_assistant m \<and> msg_Timestamp m \<noteq> [] \<and>
      (case parseTime (msg_Timestamp m) of None \<Rightarrow> False | Some t \<Rightarrow> u < t)) old = []"
    using assms(5) by (auto simp: filter_empty_conv split: option.split)
  then have recent: "FilterMessagesAfterTimestamp parseTime (old @ user # new) (msg_Timestamp user)
      = FilterMessagesAfterTimestamp parseTime (user # new) (msg_Timestamp user)"
    using assms(3,4) by (simp add: FilterMessagesAfterTimestamp_def)
  have limit: "detectSessionLimitReached uni (old @ user # new) \<longleftrightarrow>
      (\<exists>text \<in> set (ExtractTextFromMessages (GetLastAssistantMessages (old @ user # new) 3)).
         mentions_session_limit uni text)"
    by (simp add: detectSessionLimitReached_def list_ex_iff)
  have "analyze_messages uni parseTime cfg (old @ user # new)
       = (if detectSessionLimitReached uni (old @ user # new) then StatusSessionLimitReached
          else analyze_messages uni parseTime cfg (user # new))"
    using recent session_limit_current [of uni "user # new" old]
      api_error_history [OF assms(1,2,4,6), of uni]
    by (auto simp: analyze_messages_def ts)
  with limit show ?thesis by simp
qed

text \<open>A response that runs a tool, after an earlier one that asked for a plan and failed.\<close>

definition sample_message :: "string \<Rightarrow> string \<Rightarrow> content list \<Rightarrow> string \<Rightarrow> message" where
  "sample_message ts ty cs str =
     \<lparr>msg_ParentUUID = [], msg_Type = ty, msg_Role = [], msg_Content = cs, msg_ContentString = str,
      msg_Timestamp = ts, msg_IsApiErrorMessage = False, msg_Error = []\<rparr>"

definition tool_block :: "string \<Rightarrow> content" where
  "tool_block name = \<lparr>ct_Type = ''tool_use'', ct_Name = name, ct_Text = [], ct_Input = []\<rparr>"

definition sample_clock :: "string \<Rightarrow> int option" where
  "sample_clock = map_of [(''1'', 1), (''2'', 2), (''3'', 3)]"

lemma analyzer_ignores_history_witness:
  "analyze_messages id sample_clock (defaultConfig concat Map.empty ''/p'')
     ([sample_message ''1'' ''assistant'' [tool_block ''ExitPlanMode''] [],
       (sample_message ''1'' ''assistant'' [] [])\<lparr>msg_IsApiErrorMessage := True\<rparr>]
      @ sample_message ''2'' ''user'' [] ''go''
      # [sample_message ''3'' ''assistant'' [tool_block ''Write''] []]) = StatusTaskComplete"
proof -
  let ?old = "[sample_message ''1'' ''assistant'' [tool_block ''ExitPlanMode''] [],
    (sample_message ''1'' ''assistant'' [] [])\<lparr>msg_IsApiErrorMessage := True\<rparr>]"
  let ?user = "sample_message ''2'' ''user'' [] ''go''"
  let ?new = "[sample_message ''3'' ''assistant'' [tool_block ''Write''] []]"
  let ?cfg = "defaultConfig concat Map.empty ''/p''"
  have "\<not> str_le ''2'' ''1''" by code_simp
  then have "analyze_messages id sample_clock ?cfg (?old @ ?user # ?new)
      = analyze_messages id sample_clock ?cfg (?user # ?new)"
    by (subst analyzer_ignores_history [of ?user ?new sample_clock 2])
      (simp_all add: sample_message_def is_user_text_def sample_clock_def tool_block_def
        ExtractTextFromMessages_def is_assistant_def GetLastAssistantMessages_def last_n_def)
  also have "\<dots> = StatusTaskComplete"
    by (simp add: analyze_messages_def sample_message_def tool_block_def detectSessionLimitReached_def
        GetLastAssistantMessages_def is_assistant_def last_n_def ExtractTextFromMessages_def
        detectAPIErrors_def HasRecentApiError_def Let_def GetLastUserTimestamp_def is_user_text_def
        FilterMessagesAfterTimestamp_def sample_clock_def response_status_def ExtractTools_def
        message_tools_def tool_status_def GetLastTool_def FindToolPosition_def
        CountToolsByNames_def)
  finally show ?thesis .
qed

text \<open>
  Theorem. The verdict on a response with tools follows its last tool: a plan or a question
  exactly when that is what the tool asks for; a review only if something was read, nothing active
  was run, no plan was followed by other tools and more than 200 bytes were written; everything
  else is a completed task.
\<close>

theorem tool_status_follows_last_tool:
  assumes "tools = ExtractTools recent"
  shows "(tool_status recent tools = StatusPlanReady \<longleftrightarrow> GetLastTool tools = ''ExitPlanMode'')
    \<and> (tool_status recent tools = StatusQuestion \<longleftrightarrow> GetLastTool tools = ''AskUserQuestion'')
    \<and> (tool_status recent tools = StatusReviewComplete \<longrightarrow>
          (\<exists>t \<in> set tools. tu_Name t \<in> {''Read'', ''Grep'', ''Glob''}) \<and>
          (\<forall>t \<in> set tools. tu_Name t \<notin> set ActiveTools) \<and>
          (\<forall>t \<in> set tools. tu_Name t = ''ExitPlanMode'' \<longrightarrow>
             (\<forall>t' \<in> set tools. tu_Position t' \<le> FindToolPosition tools ''ExitPlanMode'')) \<and>
          200 < length (ExtractRecentText recent 5))
    \<and> tool_status recent tools
        \<in> {StatusPlanReady, StatusQuestion, StatusReviewComplete, StatusTaskComplete}"
proof -
  have read: "\<exists>t \<in> set ts. tu_Name t \<in> {''Read'', ''Grep'', ''Glob''}"
    if "0 < CountToolsByNames ts [''Read'', ''Grep'', ''Glob'']" for ts :: "tool_use list"
    using that by (induction ts) (auto simp: CountToolsByNames_def split: if_splits)
  have plan: "0 \<le> FindToolPosition tools ''ExitPlanMode''"
    if "t \<in> set tools" "tu_Name t = ''ExitPlanMode''" for t
    using that FindToolPosition_found [of recent "''ExitPlanMode''"] assms by force
  have review: "tool_status recent tools = StatusReviewComplete \<Longrightarrow>
      1 \<le> CountToolsByNames tools [''Read'', ''Grep'', ''Glob''] \<and>
      \<not> HasAnyActiveTool tools ActiveTools \<and> 200 < length (ExtractRecentText recent 5) \<and>
      \<not> (0 \<le> FindToolPosition tools ''ExitPlanMode'' \<and>
         0 < CountToolsAfterPosition tools (FindToolPosition tools ''ExitPlanMode''))"
    by (simp add: tool_status_def Let_def split: if_splits)
  have "tool_status recent tools = StatusReviewComplete \<longrightarrow>
          (\<exists>t \<in> set tools. tu_Name t \<in> {''Read'', ''Grep'', ''Glob''}) \<and>
          (\<forall>t \<in> set tools. tu_Name t \<notin> set ActiveTools) \<and>
          (\<forall>t \<in> set tools. tu_Name t = ''ExitPlanMode'' \<longrightarrow>
             (\<forall>t' \<in> set tools. tu_Position t' \<le> FindToolPosition tools ''ExitPlanMode'')) \<and>
          200 < length (ExtractRecentText recent 5)"
    using review read [of tools] plan
    by (fastforce simp: HasAnyActiveTool_def list_ex_iff CountToolsAfterPosition_def
        filter_empty_conv not_less)
  then show ?thesis
    by (simp add: tool_status_def Let_def split: if_splits)
qed

lemma tool_status_follows_last_tool_witness:
  "let recent = [sample_message ''1'' ''assistant'' [tool_block ''AskUserQuestion''] []]
   in tool_status recent (ExtractTools recent) = StatusQuestion"
  using tool_status_follows_last_tool
    [of "ExtractTools [sample_message ''1'' ''assistant'' [tool_block ''AskUserQuestion''] []]"
      "[sample_message ''1'' ''assistant'' [tool_block ''AskUserQuestion''] []]", OF refl]
  by (simp add: ExtractTools_def message_tools_def sample_message_def tool_block_def GetLastTool_def)

subsection \<open>The final-message heuristic\<close>

lemma error_status_range:
  "detectMessageErrorStatus uni s \<noteq> StatusUnknown \<Longrightarrow>
     detectMessageErrorStatus uni s \<in> {StatusSessionLimitReached, StatusAPIErrorOverloaded, StatusAPIError}
     \<and> length (runes s) \<le> 300
     \<and> (\<exists>(p, st) \<in> set errorMessagePatterns. Contains (ToLower uni s) p \<and>
           st = detectMessageErrorStatus uni s)"
proof -
  assume known: "detectMessageErrorStatus uni s \<noteq> StatusUnknown"
  then obtain p st where f:
    "find (\<lambda>(pattern, st). Contains (ToLower uni s) pattern) errorMessagePatterns = Some (p, st)"
    and st: "detectMessageErrorStatus uni s = st" and len: "length (runes s) \<le> 300"
    by (auto simp: detectMessageErrorStatus_def maxErrorMessageRunes_def Let_def
        split: if_splits option.splits)
  from f have mem: "(p, st) \<in> set errorMessagePatterns" "Contains (ToLower uni s) p"
    by (auto simp: find_Some_iff) (metis nth_mem)
  from mem(1) have "st \<in> {StatusSessionLimitReached, StatusAPIErrorOverloaded, StatusAPIError}"
    by (auto simp: errorMessagePatterns_def)
  with mem st len show ?thesis by blast
qed

text \<open>
  Theorem. A final message alone is classified by what it says: an error status means it is
  at most 300 characters long and contains one of the failure phrases of that status, a question
  that it ends in a question mark, and anything else, the empty message included, is a completed
  task. Outer white space does not matter.
\<close>

theorem classify_last_message:
  "ClassifyLastMessage uni (TrimSpace text) = ClassifyLastMessage uni text
   \<and> (case ClassifyLastMessage uni text of
        StatusTaskComplete \<Rightarrow> True
      | StatusQuestion \<Rightarrow> list_ex (HasSuffix (TrimSpace text)) questionMarks
      | st \<Rightarrow> st \<in> {StatusSessionLimitReached, StatusAPIErrorOverloaded, StatusAPIError} \<and>
             length (runes (TrimSpace text)) \<le> 300 \<and>
             (\<exists>(p, st') \<in> set errorMessagePatterns.
                Contains (ToLower uni (TrimSpace text)) p \<and> st' = st))"
proof -
  let ?e = "detectMessageErrorStatus uni (TrimSpace text)"
  consider "?e = StatusUnknown" | "?e \<noteq> StatusUnknown" "TrimSpace text \<noteq> []"
    by (cases "TrimSpace text = []") (auto simp: detectMessageErrorStatus_def)
  then show ?thesis
  proof cases
    case 1
    then show ?thesis by (simp add: ClassifyLastMessage_def Let_def)
  next
    case 2
    with error_status_range [OF 2(1)] show ?thesis
      by (auto simp: ClassifyLastMessage_def Let_def split: status.split)
  qed
qed

end
