(* ===== verification/ClaudeTranscript.thy ===== *)
theory ClaudeTranscript
  imports Analyzer
begin

text \<open>
  \<^verbatim>\<open>internal/hooks/claude_transcript.go\<close>: a Claude Stop whose transcript may still be
  growing. The settle loop is driven by the polls that fit before its deadline, each a file size
  and what parsing the file gives at that moment; SHA-256 is an argument.
\<close>

subsection \<open>Failure notices\<close>

definition claudeFailurePhrases :: "(string \<times> status) list" where
  "claudeFailurePhrases =
     [(''session limit reached'', StatusSessionLimitReached),
      (''usage limit reached'', StatusSessionLimitReached),
      (''rate limit reached'', StatusAPIErrorOverloaded),
      (''rate limit exceeded'', StatusAPIErrorOverloaded),
      (''too many requests'', StatusAPIErrorOverloaded),
      (''quota exceeded'', StatusAPIErrorOverloaded),
      (''currently overloaded'', StatusAPIErrorOverloaded),
      (''authentication failed'', StatusAPIError),
      (''invalid api key'', StatusAPIError),
      (''api error'', StatusAPIError),
      (''stream error'', StatusAPIError),
      (''context window exceeded'', StatusAPIError)]"

definition success_words :: "string list" where
  "success_words = [''fixed'', ''resolved'', ''handled'', ''corrected'', ''mitigated'']"

definition reports_success :: "string \<Rightarrow> bool" where
  "reports_success detail = list_ex (\<lambda>w. HasPrefix detail (w @ '' '') \<or> detail = w) success_words"

definition match_phrase :: "string \<Rightarrow> string \<times> status \<Rightarrow> status option" where
  "match_phrase firstLine ps =
     (let (phrase, st) = ps in
      if firstLine = phrase \<or> firstLine = phrase @ ''.'' then Some st
      else (case find (\<lambda>sep. HasPrefix firstLine (phrase @ sep)) ['':'', ''. '', '' - ''] of
              None \<Rightarrow> None
            | Some sep \<Rightarrow>
                Some (if reports_success (TrimSpace (TrimPrefix firstLine (phrase @ sep)))
                      then StatusUnknown else st)))"

fun first_match :: "string \<Rightarrow> (string \<times> status) list \<Rightarrow> status" where
  "first_match firstLine [] = StatusUnknown"
| "first_match firstLine (ps # rest) =
     (case match_phrase firstLine ps of Some st \<Rightarrow> st | None \<Rightarrow> first_match firstLine rest)"

definition classifyClaudeStopFailure :: "(string \<Rightarrow> string) \<Rightarrow> string \<Rightarrow> status" where
  "classifyClaudeStopFailure uni message =
     (if 300 < length (runes (TrimSpace message)) then StatusUnknown
      else first_match
             (ToLower uni (TrimSpace (takeWhile (\<lambda>c. c \<noteq> char_of (10::nat)) message)))
             claudeFailurePhrases)"

subsection \<open>The current turn\<close>

definition current_turn :: "(string \<Rightarrow> int option) \<Rightarrow> message list \<Rightarrow> message list" where
  "current_turn parseTime messages =
     FilterMessagesAfterTimestamp parseTime messages (GetLastUserTimestamp messages)"

definition claudeStopIsReview :: "(string \<Rightarrow> int option) \<Rightarrow> message list \<Rightarrow> string \<Rightarrow> bool" where
  "claudeStopIsReview parseTime messages final =
     (let turn = last_n 15 (current_turn parseTime messages);
          tools = ExtractTools turn
      in if CountToolsByNames tools [''Read'', ''Grep'', ''Glob''] = 0
            \<or> HasAnyActiveTool tools ActiveTools then False
         else
           (let recentText = ExtractRecentText turn 5;
                lastTexts = (if turn \<noteq> [] then ExtractTextFromMessages [last turn] else [])
            in if lastTexts \<noteq> [] \<and> one_line (Join lastTexts '' '') = one_line final
               then 200 < length recentText
               else 200 < length recentText + length final))"

definition claudeStopHasUnflushedReply ::
    "(string \<Rightarrow> int option) \<Rightarrow> message list \<Rightarrow> string \<Rightarrow> bool" where
  "claudeStopHasUnflushedReply parseTime messages final =
     (let f = one_line final in
      if f = [] then False
      else one_line (Join (ExtractTextFromMessages
             (GetLastAssistantMessages (current_turn parseTime messages) 1)) '' '') \<noteq> f)"

definition claudeStopStatusSettled :: "status \<Rightarrow> bool" where
  "claudeStopStatusSettled st \<longleftrightarrow>
     st \<in> {StatusPlanReady, StatusQuestion, StatusSessionLimitReached, StatusAPIError,
           StatusAPIErrorOverloaded}"

definition claudeTranscriptHasClosingText :: "(string \<Rightarrow> int option) \<Rightarrow> message list \<Rightarrow> bool" where
  "claudeTranscriptHasClosingText parseTime messages =
     (let turn = current_turn parseTime messages in
      if turn = [] then False
      else (let blocks = msg_Content (last turn) in
            \<not> list_ex (\<lambda>b. ct_Type b = ''tool_use'') blocks \<and>
            list_ex (\<lambda>b. ct_Type b = ''text'' \<and> TrimSpace (ct_Text b) \<noteq> []) blocks))"

subsection \<open>Waiting for the transcript\<close>

type_synonym poll = "int option \<times> message list option"

definition turn_settled :: "(string \<Rightarrow> int option) \<Rightarrow> status \<Rightarrow> message list \<Rightarrow> bool" where
  "turn_settled parseTime st messages \<longleftrightarrow>
     claudeStopStatusSettled st \<or> claudeTranscriptHasClosingText parseTime messages"

fun settle_loop ::
    "(message list \<Rightarrow> status) \<Rightarrow> (string \<Rightarrow> int option) \<Rightarrow> int \<Rightarrow> poll list \<Rightarrow> status \<times> message list
     \<Rightarrow> status \<times> message list" where
  "settle_loop analyze parseTime lastSize [] r = r"
| "settle_loop analyze parseTime lastSize ((sz, parsed) # polls) r =
     (if sz = Some lastSize then settle_loop analyze parseTime lastSize polls r
      else (let lastSize = (case sz of Some n \<Rightarrow> n | None \<Rightarrow> lastSize) in
            case parsed of
              None \<Rightarrow> settle_loop analyze parseTime lastSize polls r
            | Some messages \<Rightarrow>
                if turn_settled parseTime (analyze messages) messages then (analyze messages, messages)
                else settle_loop analyze parseTime lastSize polls (analyze messages, messages)))"

definition settleClaudeTranscript ::
    "(message list \<Rightarrow> status) \<Rightarrow> (string \<Rightarrow> int option) \<Rightarrow> bool \<Rightarrow> int \<Rightarrow> poll list
     \<Rightarrow> status \<times> message list \<Rightarrow> status \<times> message list" where
  "settleClaudeTranscript analyze parseTime fileThere preParseSize polls r =
     (if \<not> fileThere \<or> turn_settled parseTime (fst r) (snd r) then r
      else settle_loop analyze parseTime preParseSize polls r)"

definition transcriptSizeBeforeParse :: "int option \<Rightarrow> int" where
  "transcriptSizeBeforeParse size_there = (case size_there of None \<Rightarrow> -1 | Some n \<Rightarrow> n)"

text \<open>The first look at a transcript: its path may be empty, the file missing or unreadable.\<close>

definition handleStopEvent ::
    "(message list \<Rightarrow> status) \<Rightarrow> bool \<Rightarrow> message list option \<Rightarrow> status \<times> message list" where
  "handleStopEvent analyze fileThere parsed =
     (if \<not> fileThere then (StatusUnknown, [])
      else (case parsed of
              None \<Rightarrow> (StatusUnknown, [])
            | Some messages \<Rightarrow> (analyze messages, messages)))"

subsection \<open>The final message of a Stop\<close>

text \<open>
  A turn's insight carries the status an enricher found (none for Claude, whose status travels
  separately). \<^verbatim>\<open>structured\<close> is
  \<^verbatim>\<open>summary.GenerateFromMessagesStructured\<close> with its configuration: the body and
  the action summary of some messages.
\<close>

record TurnInsight =
  in_Status :: "status option"
  in_Body :: string
  in_Question :: string

type_synonym structured = "message list \<Rightarrow> status \<Rightarrow> string \<times> string"

definition synthetic_message :: "string \<Rightarrow> message" where
  "synthetic_message text =
     \<lparr>msg_ParentUUID = [], msg_Type = ''assistant'', msg_Role = ''assistant'',
      msg_Content = [\<lparr>ct_Type = ''text'', ct_Name = [], ct_Text = text, ct_Input = []\<rparr>],
      msg_ContentString = [], msg_Timestamp = [], msg_IsApiErrorMessage = False, msg_Error = []\<rparr>"

definition failure_or_default :: "(string \<Rightarrow> string) \<Rightarrow> Config \<Rightarrow> status \<Rightarrow> string \<Rightarrow> status" where
  "failure_or_default uni cfg status message =
     (if status = StatusUnknown \<or> status = StatusTaskComplete \<or> status = StatusReviewComplete then
        (if classifyClaudeStopFailure uni message \<noteq> StatusUnknown
         then classifyClaudeStopFailure uni message
         else if status = StatusUnknown then
           (if ShouldNotifyOnTextResponse cfg then StatusTaskComplete else StatusUnknown)
         else status)
      else status)"

definition enrichClaudeStop ::
    "(string \<Rightarrow> string) \<Rightarrow> (string \<Rightarrow> int option) \<Rightarrow> structured \<Rightarrow> Config \<Rightarrow> status \<Rightarrow> string
     \<Rightarrow> message list \<Rightarrow> status \<times> TurnInsight option" where
  "enrichClaudeStop uni parseTime structured cfg status message messages =
     (let message = TrimSpace message in
      if message = [] then (status, None)
      else
        (let st = failure_or_default uni cfg status message;
             st = (if st = StatusTaskComplete \<and> claudeStopIsReview parseTime messages message
                   then StatusReviewComplete else st)
         in if st \<noteq> StatusTaskComplete \<and> st \<noteq> StatusReviewComplete then (st, None)
            else (st, Some \<lparr>in_Status = None,
                            in_Body = fst (structured [synthetic_message message] StatusTaskComplete),
                            in_Question = []\<rparr>)))"

text \<open>Identities of a turn: the user timestamp separates turns with identical replies.\<close>

definition claudeStopPayloadHash :: "(string \<Rightarrow> string) \<Rightarrow> string \<Rightarrow> string \<Rightarrow> string" where
  "claudeStopPayloadHash sha final userTimestamp =
     sha (userTimestamp @ [char_of (0::nat)] @ TrimSpace final)"

definition claudeStopTurnLockKey :: "(string \<Rightarrow> string) \<Rightarrow> string \<Rightarrow> string \<Rightarrow> string" where
  "claudeStopTurnLockKey sha sessionID userTimestamp =
     ''claude-turn-'' @ sha (sessionID @ [char_of (0::nat)] @ userTimestamp)"

definition isSubagentTranscript :: "string \<Rightarrow> bool" where
  "isSubagentTranscript transcriptPath = Contains transcriptPath ''/subagents/''"

subsection \<open>What waiting finds\<close>

text \<open>The versions of the transcript the polls parse: one per change of the file that reads well.\<close>

fun versions :: "int \<Rightarrow> poll list \<Rightarrow> message list list" where
  "versions lastSize [] = []"
| "versions lastSize ((sz, parsed) # polls) =
     (if sz = Some lastSize then versions lastSize polls
      else (case parsed of
              None \<Rightarrow> versions (case sz of Some n \<Rightarrow> n | None \<Rightarrow> lastSize) polls
            | Some messages \<Rightarrow>
                messages # versions (case sz of Some n \<Rightarrow> n | None \<Rightarrow> lastSize) polls))"

lemma settle_loop_versions:
  "settle_loop analyze parseTime lastSize polls r =
     (case find (\<lambda>ms. turn_settled parseTime (analyze ms) ms) (versions lastSize polls) of
        Some ms \<Rightarrow> (analyze ms, ms)
      | None \<Rightarrow> last (r # map (\<lambda>ms. (analyze ms, ms)) (versions lastSize polls)))"
proof (induction lastSize polls arbitrary: r rule: versions.induct)
  case (2 lastSize sz parsed polls)
  then show ?case
    by (cases parsed) (auto simp: Let_def split: option.splits)
qed simp

text \<open>
  Theorem. A Stop without a final message waits for the transcript in exactly this sense: if
  the file is missing or the turn is already settled nothing changes; otherwise the outcome is the
  analysis of the first settled version the polls parse, or of the last version parsed, or the
  original outcome when none was.
\<close>

theorem settle_takes_first_settled_version:
  "settleClaudeTranscript analyze parseTime fileThere preParseSize polls (st, messages) =
     (if fileThere \<and> \<not> turn_settled parseTime st messages then
        (case find (\<lambda>ms. turn_settled parseTime (analyze ms) ms) (versions preParseSize polls) of
           Some ms \<Rightarrow> (analyze ms, ms)
         | None \<Rightarrow> last ((st, messages) # map (\<lambda>ms. (analyze ms, ms)) (versions preParseSize polls)))
      else (st, messages))"
  by (simp add: settleClaudeTranscript_def settle_loop_versions)

subsection \<open>What counts as a failure notice\<close>

lemma match_phrase_Some:
  assumes "match_phrase line (phrase, st) = Some r" and "r \<noteq> StatusUnknown"
  shows "r = st \<and> (line = phrase \<or> line = phrase @ ''.'' \<or>
           (\<exists>sep \<in> {'':'', ''. '', '' - ''}. HasPrefix line (phrase @ sep)
              \<and> \<not> reports_success (TrimSpace (TrimPrefix line (phrase @ sep)))))"
proof (cases "line = phrase \<or> line = phrase @ ''.''")
  case False
  with assms(1) obtain sep where
    f: "find (\<lambda>sep. HasPrefix line (phrase @ sep)) ['':'', ''. '', '' - ''] = Some sep"
    and r: "r = (if reports_success (TrimSpace (TrimPrefix line (phrase @ sep)))
                 then StatusUnknown else st)"
    by (auto simp: match_phrase_def simp del: find.simps split: option.splits)
  from f have "sep \<in> {'':'', ''. '', '' - ''}" "HasPrefix line (phrase @ sep)"
    by (auto split: if_splits)
  with r assms(2) show ?thesis by (auto split: if_splits)
qed (use assms in \<open>auto simp: match_phrase_def\<close>)

lemma first_match_Some:
  "first_match line pats = r \<Longrightarrow> r \<noteq> StatusUnknown \<Longrightarrow>
     \<exists>ps \<in> set pats. match_phrase line ps = Some r"
  by (induction pats) (auto split: option.splits)

text \<open>
  Theorem. A final reply is taken for a failure of the host only if it has at most 300
  characters and its first line is a phrase of the table, or that phrase followed by a separator
  and a detail that does not report success; the status is the phrase's. A long report, or one that
  says an error was fixed, is never a failure.
\<close>

theorem stop_failure_notice_shape:
  assumes "classifyClaudeStopFailure uni reply = st" and "st \<noteq> StatusUnknown"
  shows "length (runes (TrimSpace reply)) \<le> 300 \<and>
    (\<exists>phrase. (phrase, st) \<in> set claudeFailurePhrases \<and>
      (let line = ToLower uni (TrimSpace (takeWhile (\<lambda>c. c \<noteq> char_of (10::nat)) reply)) in
       line = phrase \<or> line = phrase @ ''.'' \<or>
       (\<exists>sep \<in> {'':'', ''. '', '' - ''}. HasPrefix line (phrase @ sep)
          \<and> \<not> reports_success (TrimSpace (TrimPrefix line (phrase @ sep))))))"
proof -
  let ?line = "ToLower uni (TrimSpace (takeWhile (\<lambda>c. c \<noteq> char_of (10::nat)) reply))"
  have len: "length (runes (TrimSpace reply)) \<le> 300"
    and fm: "first_match ?line claudeFailurePhrases = st"
    using assms by (auto simp: classifyClaudeStopFailure_def split: if_splits)
  from first_match_Some [OF fm assms(2)] obtain phrase st' where
    ps: "(phrase, st') \<in> set claudeFailurePhrases" "match_phrase ?line (phrase, st') = Some st"
    by (metis prod.collapse)
  from match_phrase_Some [OF ps(2) assms(2)] ps(1) len show ?thesis
    by (auto simp: Let_def)
qed

lemma stop_failure_notice_shape_witness:
  "length (runes (TrimSpace ''api error'')) \<le> 300
   \<and> (\<exists>phrase. (phrase, StatusAPIError) \<in> set claudeFailurePhrases)"
proof -
  have t: "TrimSpace ''api error'' = ''api error''" by (simp add: visible_def)
  have line: "takeWhile (\<lambda>c. c \<noteq> char_of (10::nat)) ''api error'' = ''api error''"
    by code_simp
  have "length (runes ''api error'') = 9" by code_simp
  moreover have "ToLower (\<lambda>s. s) ''api error'' = ''api error''" by code_simp
  moreover have "first_match ''api error'' claudeFailurePhrases = StatusAPIError"
    by (simp add: claudeFailurePhrases_def match_phrase_def HasPrefix_def)
  ultimately have "classifyClaudeStopFailure (\<lambda>s. s) ''api error'' = StatusAPIError"
    by (simp only: classifyClaudeStopFailure_def t line) simp
  from stop_failure_notice_shape [OF this] show ?thesis by auto
qed

end
