(* ===== verification/Markdown.thy ===== *)
theory Markdown
  imports Runes
begin

text \<open>
  \<^verbatim>\<open>internal/summary/markdown.go\<close>, \<^verbatim>\<open>text.go\<close> and the patterns of
  \<^verbatim>\<open>summary.go\<close>: from the text of a reply to one line of bounded length. A regular
  expression of the source is a matcher: the replacement of its leftmost match at the start of the
  remaining text and the bytes it consumes. Every delimiter is ASCII, so matching on bytes is
  matching on runes.
\<close>

subsection \<open>Searching and splitting\<close>

fun Index :: "string \<Rightarrow> string \<Rightarrow> nat option" where
  "Index [] sub = (if sub = [] then Some 0 else None)"
| "Index (c # cs) sub =
     (if HasPrefix (c # cs) sub then Some 0 else map_option Suc (Index cs sub))"

fun LastIndex :: "string \<Rightarrow> string \<Rightarrow> nat option" where
  "LastIndex [] sub = (if sub = [] then Some 0 else None)"
| "LastIndex (c # cs) sub =
     (case LastIndex cs sub of
        Some n \<Rightarrow> Some (Suc n)
      | None \<Rightarrow> if HasPrefix (c # cs) sub then Some 0 else None)"

abbreviation NL :: char where
  "NL \<equiv> char_of (10::nat)"

fun lines_from :: "string \<Rightarrow> string \<Rightarrow> string list" where
  "lines_from acc [] = [rev acc]"
| "lines_from acc (c # cs) = (if c = NL then rev acc # lines_from [] cs else lines_from (c # acc) cs)"

definition split_lines :: "string \<Rightarrow> string list" where
  "split_lines s = lines_from [] s"

subsection \<open>Replacing every match\<close>

type_synonym matcher = "string \<Rightarrow> (string \<times> nat) option"

function ReplaceAll :: "matcher \<Rightarrow> string \<Rightarrow> string" where
  "ReplaceAll m [] = []"
| "ReplaceAll m (c # cs) =
     (case m (c # cs) of
        Some (repl, n) \<Rightarrow> repl @ ReplaceAll m (drop (n - 1) cs)
      | None \<Rightarrow> c # ReplaceAll m cs)"
  by pat_completeness auto
termination
  by (relation "measure (\<lambda>(m, s). length s)") auto

text \<open>The class \<^verbatim>\<open>\s\<close>.\<close>

definition re_space :: "char \<Rightarrow> bool" where
  "re_space c \<longleftrightarrow> (of_char c :: nat) \<in> {9, 10, 12, 13, 32}"

definition codeBlockPattern :: matcher where
  "codeBlockPattern s =
     (if HasPrefix s ''```'' then
        (case Index (drop 3 s) ''```'' of None \<Rightarrow> None | Some k \<Rightarrow> Some ([], 3 + k + 3))
      else None)"

text \<open>The target in parentheses after a link or an image; how many bytes it takes.\<close>

definition link_target :: "string \<Rightarrow> nat option" where
  "link_target s =
     (if HasPrefix s ''(''
      then (let url = takeWhile (\<lambda>c. c \<noteq> CHR '')'') (drop 1 s) in
            if url \<noteq> [] \<and> 1 + length url < length s then Some (length url + 2) else None)
      else None)"

definition imagePattern :: matcher where
  "imagePattern s =
     (if HasPrefix s ''!['' then
        (let alt = takeWhile (\<lambda>c. c \<noteq> CHR '']'') (drop 2 s) in
         case link_target (drop (3 + length alt) s) of
           None \<Rightarrow> None | Some n \<Rightarrow> Some (alt, 3 + length alt + n))
      else None)"

definition linkPattern :: matcher where
  "linkPattern s =
     (if HasPrefix s ''['' then
        (let label = takeWhile (\<lambda>c. c \<noteq> CHR '']'') (drop 1 s) in
         if label = [] then None
         else (case link_target (drop (2 + length label) s) of
                 None \<Rightarrow> None | Some n \<Rightarrow> Some (label, 2 + length label + n)))
      else None)"

text \<open>A shortest non-empty run without a line break before one of the closing marks.\<close>

fun lazy_run :: "string list \<Rightarrow> string \<Rightarrow> (string \<times> nat) option" where
  "lazy_run marks [] = None"
| "lazy_run marks (c # cs) =
     (if c = NL then None
      else (case find (HasPrefix cs) marks of
              Some d \<Rightarrow> Some ([c], 1 + length d)
            | None \<Rightarrow> (case lazy_run marks cs of
                         None \<Rightarrow> None | Some (g, n) \<Rightarrow> Some (c # g, Suc n))))"

definition delimited :: "string list \<Rightarrow> matcher" where
  "delimited marks s =
     (case find (HasPrefix s) marks of
        None \<Rightarrow> None
      | Some d \<Rightarrow> (case lazy_run marks (drop (length d) s) of
                    None \<Rightarrow> None | Some (g, n) \<Rightarrow> Some (g, length d + n)))"

definition strikethroughPattern :: matcher where
  "strikethroughPattern = delimited [''~~'']"

definition boldPattern :: matcher where
  "boldPattern = delimited [''**'', ''__'']"

definition italicPattern :: matcher where
  "italicPattern s =
     (case s of
        [] \<Rightarrow> None
      | c # cs \<Rightarrow>
          if c \<in> {CHR ''*'', CHR ''_''} then
            (let g = takeWhile (\<lambda>c. c \<notin> {CHR ''*'', CHR ''_''}) cs in
             if g \<noteq> [] \<and> length g < length cs then Some (g, length g + 2) else None)
          else None)"

definition backtickPattern :: matcher where
  "backtickPattern s = (if HasPrefix s ''`'' then Some ([], 1) else None)"

definition multiSpacePattern :: matcher where
  "multiSpacePattern s =
     (let n = length (takeWhile re_space s) in if 0 < n then Some ('' '', n) else None)"

text \<open>Patterns anchored at the start of a line.\<close>

definition strip_header :: "string \<Rightarrow> string" where
  "strip_header s =
     (if HasPrefix s ''#'' then dropWhile re_space (dropWhile (\<lambda>c. c = CHR ''#'') s) else s)"

definition strip_blockquote :: "string \<Rightarrow> string" where
  "strip_blockquote s = (if HasPrefix s ''>'' then dropWhile re_space (drop 1 s) else s)"

definition strip_bullet :: "string \<Rightarrow> string" where
  "strip_bullet s =
     (case find (HasPrefix s) [''-'', ''*'', bytes [226, 128, 162]] of
        Some d \<Rightarrow> dropWhile re_space (drop (length d) s) | None \<Rightarrow> s)"

definition clean_line :: "string \<Rightarrow> string" where
  "clean_line line =
     (let line = TrimSpace line in
      if line = [] then []
      else TrimSpace (strip_bullet (strip_blockquote (strip_header line))))"

definition CleanMarkdown :: "string \<Rightarrow> string" where
  "CleanMarkdown text =
     (let text = ReplaceAll codeBlockPattern text;
          text = ReplaceAll imagePattern text;
          text = ReplaceAll linkPattern text;
          text = ReplaceAll strikethroughPattern text;
          text = ReplaceAll boldPattern text;
          text = ReplaceAll italicPattern text;
          text = ReplaceAll backtickPattern text;
          cleaned = filter (\<lambda>l. l \<noteq> []) (map clean_line (split_lines text))
      in TrimSpace (ReplaceAll multiSpacePattern (Join cleaned '' '')))"

subsection \<open>What is left of the text\<close>

lemma set_TrimLeftSpace: "set (TrimLeftSpace s) \<subseteq> set s"
proof (induction s rule: TrimLeftSpace.induct)
  case (1 s)
  show ?case
  proof (cases "0 < leading_space s \<and> s \<noteq> []")
    case True
    then have "TrimLeftSpace s = TrimLeftSpace (drop (leading_space s) s)"
      by (subst TrimLeftSpace.simps) simp
    with 1 [OF True] set_drop_subset show ?thesis by fastforce
  qed (subst TrimLeftSpace.simps, auto)
qed

lemma set_TrimSpace: "set (TrimSpace s) \<subseteq> set s"
proof -
  obtain n where "TrimSpace s = take n (TrimLeftSpace s)"
    using TrimRightSpace_prefix [of "TrimLeftSpace s"] by (auto simp: TrimSpace_def)
  with set_take_subset [of n "TrimLeftSpace s"] set_TrimLeftSpace [of s] show ?thesis by auto
qed

lemma ReplaceAll_backtick: "CHR ''`'' \<notin> set (ReplaceAll backtickPattern s)"
proof (induction s)
  case (Cons c cs)
  then show ?case by (cases "c = CHR ''`''") (simp_all add: backtickPattern_def HasPrefix_def)
qed simp

lemma ReplaceAll_spaces:
  "set (ReplaceAll multiSpacePattern s) \<subseteq> {c \<in> set s. \<not> re_space c} \<union> {CHR '' ''}"
proof (induction "multiSpacePattern :: matcher" s rule: ReplaceAll.induct)
  case (2 c cs)
  show ?case
  proof (cases "re_space c")
    case True
    let ?n = "length (takeWhile re_space (c # cs))"
    from True have m: "multiSpacePattern (c # cs) = Some ('' '', ?n)"
      by (simp add: multiSpacePattern_def Let_def)
    from 2(2) [OF m refl] set_drop_subset [of "?n - 1" cs] m show ?thesis by auto
  next
    case False
    then have m: "multiSpacePattern (c # cs) = None"
      by (simp add: multiSpacePattern_def Let_def)
    from 2(1) [OF m] m False show ?thesis by auto
  qed
qed simp

lemma set_dropWhile_subset: "set (dropWhile P xs) \<subseteq> set xs"
  by (auto dest: set_dropWhileD)

lemma set_dropWhile_drop: "set (dropWhile P (drop n xs)) \<subseteq> set xs"
  using set_dropWhile_subset [of P "drop n xs"] set_drop_subset [of n xs] by blast

lemma set_strips:
  "set (strip_header s) \<subseteq> set s" "set (strip_blockquote s) \<subseteq> set s" "set (strip_bullet s) \<subseteq> set s"
proof -
  show "set (strip_header s) \<subseteq> set s"
    using set_dropWhile_subset [of re_space "dropWhile (\<lambda>c. c = CHR ''#'') s"]
      set_dropWhile_subset [of "\<lambda>c. c = CHR ''#''" s]
    unfolding strip_header_def by auto
  show "set (strip_blockquote s) \<subseteq> set s"
    using set_dropWhile_drop [of re_space 1 s] unfolding strip_blockquote_def by simp
  show "set (strip_bullet s) \<subseteq> set s"
    using set_dropWhile_drop [of re_space _ s] unfolding strip_bullet_def
    by (simp only: subset_refl split: option.split) simp
qed

lemma set_clean_line: "set (clean_line l) \<subseteq> set l"
proof -
  have "set (TrimSpace (strip_bullet (strip_blockquote (strip_header (TrimSpace l))))) \<subseteq> set l"
    by (intro set_TrimSpace [THEN subset_trans] set_strips [THEN subset_trans] subset_refl)
  then show ?thesis unfolding clean_line_def Let_def by simp
qed

lemma set_lines_from: "l \<in> set (lines_from acc s) \<Longrightarrow> set l \<subseteq> set acc \<union> set s"
  by (induction acc s rule: lines_from.induct) (auto split: if_splits)

lemma set_Join: "set (Join xs sep) \<subseteq> \<Union> (set ` set xs) \<union> set sep"
  by (induction xs sep rule: Join.induct) auto

lemma set_clean_lines:
  "set (Join (filter (\<lambda>l. l \<noteq> []) (map clean_line (split_lines t))) '' '') \<subseteq> set t \<union> {CHR '' ''}"
proof
  fix c
  assume "c \<in> set (Join (filter (\<lambda>l. l \<noteq> []) (map clean_line (split_lines t))) '' '')"
  then have "c \<in> \<Union> (set ` set (filter (\<lambda>l. l \<noteq> []) (map clean_line (split_lines t)))) \<union> set '' ''"
    using set_Join by (rule rev_subsetD)
  then consider "c = CHR '' ''" | l where "l \<in> set (split_lines t)" "c \<in> set (clean_line l)"
    by auto
  then show "c \<in> set t \<union> {CHR '' ''}"
  proof cases
    case 2
    then have "c \<in> set l" using set_clean_line by blast
    with set_lines_from [of l "[]" t] 2 show ?thesis by (auto simp: split_lines_def)
  qed simp
qed

text \<open>
  Theorem. Whatever Markdown a reply is written in, its cleaned text is one line without
  backticks: every white space byte left is a plain space and there is none at the ends.
\<close>

theorem clean_markdown_one_line:
  "CHR ''`'' \<notin> set (CleanMarkdown s)
   \<and> filter re_space (CleanMarkdown s) = filter (\<lambda>c. c = CHR '' '') (CleanMarkdown s)
   \<and> TrimSpace (CleanMarkdown s) = CleanMarkdown s"
proof -
  define t where "t = ReplaceAll backtickPattern (ReplaceAll italicPattern (ReplaceAll boldPattern
    (ReplaceAll strikethroughPattern (ReplaceAll linkPattern (ReplaceAll imagePattern
      (ReplaceAll codeBlockPattern s))))))"
  define j where "j = Join (filter (\<lambda>l. l \<noteq> []) (map clean_line (split_lines t))) '' ''"
  have clean: "CleanMarkdown s = TrimSpace (ReplaceAll multiSpacePattern j)"
    by (simp add: CleanMarkdown_def t_def j_def Let_def)
  have "CHR ''`'' \<notin> set t" unfolding t_def by (rule ReplaceAll_backtick)
  then have "CHR ''`'' \<notin> set j" using set_clean_lines [of t] by (auto simp: j_def)
  with ReplaceAll_spaces [of j] have
    "set (ReplaceAll multiSpacePattern j) \<subseteq> {c. c \<noteq> CHR ''`'' \<and> (re_space c \<longrightarrow> c = CHR '' '')}"
    by auto
  then have "set (CleanMarkdown s) \<subseteq> {c. c \<noteq> CHR ''`'' \<and> (re_space c \<longrightarrow> c = CHR '' '')}"
    unfolding clean by (rule subset_trans [OF set_TrimSpace])
  moreover from this have
    "filter re_space (CleanMarkdown s) = filter (\<lambda>c. c = CHR '' '') (CleanMarkdown s)"
    by (intro filter_cong) (auto simp: re_space_def)
  ultimately show ?thesis by (auto simp: clean)
qed

end
