(* ===== verification/Summary.thy ===== *)
theory Summary
  imports Markdown Analyzer
begin

text \<open>
  \<^verbatim>\<open>internal/summary\<close>: the body and the action line of a notification, from the messages
  of a transcript. Lengths are counted in runes; the symbol classes of the emoji pattern and
  \<^verbatim>\<open>time.Parse\<close> are arguments.
\<close>

subsection \<open>Sentences and truncation\<close>

definition digit_rune :: "string \<Rightarrow> bool" where
  "digit_rune r = (case r of [c] \<Rightarrow> byte_in 48 57 c | _ \<Rightarrow> False)"

text \<open>A final mark at a position: a dot between digits or before a letter does not end a sentence.\<close>

definition ends_sentence :: "string list \<Rightarrow> nat \<Rightarrow> bool" where
  "ends_sentence rs i =
     (if rs ! i = ''!'' \<or> rs ! i = ''?'' then True
      else if rs ! i = ''.'' then
        \<not> (0 < i \<and> digit_rune (rs ! (i - 1)))
        \<and> \<not> (i + 1 < length rs \<and> digit_rune (rs ! (i + 1)))
        \<and> \<not> (i + 1 < length rs \<and> rs ! (i + 1) \<noteq> '' '' \<and> rs ! (i + 1) \<noteq> [NL])
      else False)"

fun sentence_loop :: "string list \<Rightarrow> nat \<Rightarrow> string list \<Rightarrow> nat list \<Rightarrow> string option" where
  "sentence_loop rs currentStart sentences [] =
     (if sentences = [] then None else Some (Join sentences '' ''))"
| "sentence_loop rs currentStart sentences (i # is) =
     (if \<not> ends_sentence rs i then sentence_loop rs currentStart sentences is
      else
        (let sentence = TrimSpace (concat (drop currentStart (take (i + 1) rs))) in
         if sentence = [] then sentence_loop rs currentStart sentences is
         else
           (let found = sentences @ [sentence];
                totalLength = length (Join found '' '')
            in if length found = 1 \<and> totalLength < 20 then sentence_loop rs (i + 1) found is
               else if 200 \<le> totalLength \<and> 1 < length found
                 then Some (Join (butlast found) '' '')
               else Some (Join found '' ''))))"

definition extractFirstSentence :: "string \<Rightarrow> string" where
  "extractFirstSentence text =
     (let rs = runes text in
      case sentence_loop rs 0 [] [0..<length rs] of
        Some s \<Rightarrow> s
      | None \<Rightarrow> if 100 < length rs then concat (take 100 rs) else text)"

text \<open>The first occurrence of a sentence end after the given position.\<close>

function scan_ender :: "string \<Rightarrow> nat \<Rightarrow> nat \<Rightarrow> string \<Rightarrow> nat option" where
  "scan_ender searchText third idx ender =
     (if length searchText < idx then None
      else (case Index (drop idx searchText) ender of
              None \<Rightarrow> None
            | Some pos \<Rightarrow>
                if third < idx + pos then Some (idx + pos)
                else scan_ender searchText third (idx + pos + 1) ender))"
  by pat_completeness auto
termination
  by (relation "measure (\<lambda>(s, third, idx, ender). Suc (length s) - idx)") auto

declare scan_ender.simps [simp del]

definition sentenceEnders :: "string list" where
  "sentenceEnders = [''. '', ''! '', ''? '', [CHR ''.'', NL], [CHR ''!'', NL], [CHR ''?'', NL]]"

definition sentence_end :: "nat \<Rightarrow> string \<Rightarrow> nat option" where
  "sentence_end maxLen searchText =
     (case first_some (scan_ender searchText (maxLen div 3) 0) sentenceEnders of
        Some k \<Rightarrow> Some k
      | None \<Rightarrow>
          if searchText \<noteq> [] \<and> last searchText \<in> {CHR ''.'', CHR ''!'', CHR ''?''}
          then Some (length searchText - 1) else None)"

text \<open>Callers pass at least three as the bound.\<close>

definition truncateText :: "string \<Rightarrow> nat \<Rightarrow> string" where
  "truncateText text maxLen =
     (let rs = runes text in
      if length rs \<le> maxLen then text
      else
        (let searchText = concat (take maxLen rs) in
         case sentence_end maxLen searchText of
           Some k \<Rightarrow> TrimSpace (take (k + 1) searchText)
         | None \<Rightarrow>
             (let truncated = concat (take (maxLen - 3) rs) in
              (case LastIndex truncated '' '' of
                 Some lastSpace \<Rightarrow>
                   if maxLen div 2 < lastSpace then take lastSpace truncated else truncated
               | None \<Rightarrow> truncated) @ ''...'')))"

subsection \<open>Duration and actions\<close>

definition stopwatch :: string where
  "stopwatch = bytes [226, 143, 177]"

definition formatDuration :: "duration \<Rightarrow> string" where
  "formatDuration d =
     (let seconds = go_div d second in
      if seconds < 60 then stopwatch @ '' '' @ Itoa seconds @ ''s''
      else
        (let minutes = go_div seconds 60; secs = go_mod seconds 60 in
         if minutes < 60 then
           (if 0 < secs then stopwatch @ '' '' @ Itoa minutes @ ''m '' @ Itoa secs @ ''s''
            else stopwatch @ '' '' @ Itoa minutes @ ''m'')
         else
           (let hours = go_div minutes 60; mins = go_mod minutes 60 in
            if 0 < mins then stopwatch @ '' '' @ Itoa hours @ ''h '' @ Itoa mins @ ''m''
            else stopwatch @ '' '' @ Itoa hours @ ''h'')))"

definition calculateDuration :: "(string \<Rightarrow> int option) \<Rightarrow> message list \<Rightarrow> string" where
  "calculateDuration parseTime messages =
     (let userTS = GetLastUserTimestamp messages;
          assistantTS = GetLastAssistantTimestamp messages
      in if userTS = [] \<or> assistantTS = [] then []
         else (case (parseTime userTS, parseTime assistantTS) of
                 (Some userTime, Some assistantTime) \<Rightarrow>
                   (let d = time_sub assistantTime userTime in
                    if d < 0 then [] else formatDuration d)
               | _ \<Rightarrow> []))"

text \<open>How often a tool was called since the last user message.\<close>

definition since_user :: "(string \<Rightarrow> int option) \<Rightarrow> message list \<Rightarrow> message \<Rightarrow> bool" where
  "since_user parseTime messages m =
     (let userTS = GetLastUserTimestamp messages in
      case (if userTS = [] then None else parseTime userTS) of
        None \<Rightarrow> True
      | Some sinceTime \<Rightarrow>
          msg_Timestamp m = [] \<or>
          (case parseTime (msg_Timestamp m) of None \<Rightarrow> True | Some t \<Rightarrow> sinceTime \<le> t))"

definition countToolsByType :: "(string \<Rightarrow> int option) \<Rightarrow> message list \<Rightarrow> string \<Rightarrow> nat" where
  "countToolsByType parseTime messages name =
     length (filter (\<lambda>c. ct_Type c = ''tool_use'' \<and> ct_Name c = name)
       (concat (map msg_Content
          (filter (\<lambda>m. is_assistant m \<and> since_user parseTime messages m) messages))))"

definition buildActionsString :: "(string \<Rightarrow> nat) \<Rightarrow> string \<Rightarrow> string" where
  "buildActionsString toolCounts dur =
     (let part = (\<lambda>icon name noun.
            if 0 < toolCounts name then [icon @ '' '' @ Itoa (int (toolCounts name)) @ '' '' @ noun]
            else []);
          parts = part (bytes [240, 159, 147, 157]) ''Write'' ''new''
            @ part (bytes [226, 156, 143, 239, 184, 143]) ''Edit'' ''edited''
            @ part (bytes [226, 150, 182]) ''Bash'' ''cmds''
            @ (if dur \<noteq> [] then [dur] else [])
      in if parts = [] then [] else Join parts ''  '')"

definition getActionsString :: "(string \<Rightarrow> int option) \<Rightarrow> message list \<Rightarrow> string" where
  "getActionsString parseTime messages =
     buildActionsString (countToolsByType parseTime messages) (calculateDuration parseTime messages)"

definition appendActions :: "string \<Rightarrow> string \<Rightarrow> string" where
  "appendActions message actions = (if actions = [] then message else message @ '' '' @ actions)"

subsection \<open>What the transcript says\<close>

definition getRecentAssistantMessages ::
    "(string \<Rightarrow> int option) \<Rightarrow> message list \<Rightarrow> nat \<Rightarrow> message list" where
  "getRecentAssistantMessages parseTime messages limit =
     (let filtered = FilterMessagesAfterTimestamp parseTime messages (GetLastUserTimestamp messages)
      in if filtered \<noteq> [] then last_n limit filtered
         else GetLastAssistantMessages messages limit)"

definition question_text :: "content \<Rightarrow> string option" where
  "question_text c =
     (if ct_Type c = ''tool_use'' \<and> ct_Name c = ''AskUserQuestion'' then
        (case obj_get ''questions'' (ct_Input c) of
           Some (JArr (JObj q # _)) \<Rightarrow>
             (case obj_get ''question'' q of Some (JStr t) \<Rightarrow> Some t | _ \<Rightarrow> None)
         | _ \<Rightarrow> None)
      else None)"

text \<open>Newest message first; the question and the timestamp of its message.\<close>

fun last_question :: "message list \<Rightarrow> (string \<times> string) option" where
  "last_question [] = None"
| "last_question (m # ms) =
     (if \<not> is_assistant m then last_question ms
      else (case first_some question_text (msg_Content m) of
              None \<Rightarrow> last_question ms
            | Some t \<Rightarrow> if t \<noteq> [] then Some (t, msg_Timestamp m) else last_question ms))"

definition extractAskUserQuestion ::
    "(string \<Rightarrow> int option) \<Rightarrow> message list \<Rightarrow> string \<times> bool" where
  "extractAskUserQuestion parseTime messages =
     (case last_question (rev messages) of
        None \<Rightarrow> ([], False)
      | Some (text, questionTS) \<Rightarrow>
          (let lastTS = GetLastAssistantTimestamp messages in
           if lastTS = [] \<or> questionTS = [] then (text, False)
           else (case (parseTime questionTS, parseTime lastTS) of
                   (Some questionTime, Some lastTime) \<Rightarrow>
                     (let age = time_sub lastTime questionTime in
                      (text, 0 \<le> age \<and> age \<le> 60 * second))
                 | _ \<Rightarrow> (text, False))))"

definition extractExitPlanModePlan :: "message list \<Rightarrow> string" where
  "extractExitPlanModePlan messages =
     (case obj_get ''plan'' (ExtractToolInput messages ''ExitPlanMode'') of
        Some (JStr plan) \<Rightarrow> plan | _ \<Rightarrow> [])"

subsection \<open>Bodies\<close>

definition shortest_question :: "string list \<Rightarrow> string" where
  "shortest_question qs =
     foldl (\<lambda>best q. if length q < length best \<and> 10 < length q then q else best) (hd qs) qs"

definition generateQuestionBody :: "(string \<Rightarrow> int option) \<Rightarrow> message list \<Rightarrow> string" where
  "generateQuestionBody parseTime messages =
     (let (question, isRecent) = extractAskUserQuestion parseTime messages in
      if question \<noteq> [] \<and> isRecent then truncateText (CleanMarkdown question) 150
      else
        (let texts = ExtractTextFromMessages (getRecentAssistantMessages parseTime messages 8);
             questionTexts = filter (\<lambda>t. Contains t ''?'') (rev texts)
         in if questionTexts \<noteq> []
            then truncateText (CleanMarkdown (shortest_question questionTexts)) 150
            else if texts \<noteq> [] \<and> 10 < length (extractFirstSentence (CleanMarkdown (last texts)))
              then truncateText (extractFirstSentence (CleanMarkdown (last texts))) 150
            else ''Claude needs your input to continue''))"

definition generatePlanBody :: "message list \<Rightarrow> string" where
  "generatePlanBody messages =
     (let plan = extractExitPlanModePlan messages;
          candidates = filter (\<lambda>l. TrimSpace l \<noteq> []) (map CleanMarkdown (split_lines plan))
      in if plan \<noteq> [] \<and> candidates \<noteq> [] then truncateText (hd candidates) 150
         else ''Plan is ready for review'')"

definition reviewKeywords :: "string list" where
  "reviewKeywords =
     [''review'', bytes [208, 176, 208, 189, 208, 176, 208, 187, 208, 184, 208, 183],
      bytes [208, 191, 209, 128, 208, 190, 208, 178, 208, 181, 209, 128, 208, 186, 208, 176],
      ''analyzed'', ''analysis'']"

definition reviewed :: "nat \<Rightarrow> string" where
  "reviewed n = ''Reviewed '' @ Itoa (int n) @ '' '' @ (if n \<noteq> 1 then ''files'' else ''file'')"

definition generateReviewBody ::
    "(string \<Rightarrow> string) \<Rightarrow> (string \<Rightarrow> int option) \<Rightarrow> message list \<Rightarrow> string" where
  "generateReviewBody uni parseTime messages =
     (let recentMessages = getRecentAssistantMessages parseTime messages 5;
          texts = ExtractTextFromMessages recentMessages;
          combined = Join texts '' '';
          found = first_some
            (\<lambda>keyword. if Contains (ToLower uni combined) keyword
               then find (\<lambda>text. Contains (ToLower uni text) keyword) texts else None) reviewKeywords;
          readCount = length (filter (\<lambda>t. tu_Name t = ''Read'') (ExtractTools recentMessages))
      in case found of
           Some text \<Rightarrow> truncateText (CleanMarkdown text) 150
         | None \<Rightarrow>
             if 0 < readCount then reviewed readCount else ''Code review completed'')"

text \<open>The title of a status without the symbols it starts with.\<close>

function strip_symbols :: "(string \<Rightarrow> bool) \<Rightarrow> string \<Rightarrow> string" where
  "strip_symbols symbol [] = []"
| "strip_symbols symbol (c # cs) =
     (let n = rune_len (c # cs) in
      if n = 0 then (if symbol replacement then strip_symbols symbol cs else c # cs)
      else if symbol (take n (c # cs)) then strip_symbols symbol (drop n (c # cs))
      else c # cs)"
  by pat_completeness auto
termination
  by (relation "measure (\<lambda>(symbol, s). length s)") auto

definition strip_emoji :: "(string \<Rightarrow> bool) \<Rightarrow> string \<Rightarrow> string" where
  "strip_emoji symbol s =
     (let t = strip_symbols symbol s in if length t = length s then s else dropWhile re_space t)"

definition GetDefaultMessage :: "(string \<Rightarrow> bool) \<Rightarrow> Config \<Rightarrow> status \<Rightarrow> string" where
  "GetDefaultMessage symbol cfg status =
     (let (info, exists) = GetStatusInfo cfg (status_string status) in
      if \<not> exists then ''Claude notification'' else TrimSpace (strip_emoji symbol (si_Title info)))"

definition generateTaskBody ::
    "(string \<Rightarrow> bool) \<Rightarrow> (string \<Rightarrow> int option) \<Rightarrow> Config \<Rightarrow> message list \<Rightarrow> string" where
  "generateTaskBody symbol parseTime cfg messages =
     (let recentMessages = getRecentAssistantMessages parseTime messages 5 in
      if recentMessages = [] then GetDefaultMessage symbol cfg StatusTaskComplete
      else
        (let texts = ExtractTextFromMessages recentMessages;
             lastMessage = (if texts \<noteq> [] then last texts else [])
         in if lastMessage \<noteq> [] then
              (let cleaned = CleanMarkdown lastMessage;
                   messageText = (if 150 \<le> length (runes cleaned) then extractFirstSentence cleaned
                                  else cleaned)
               in truncateText messageText 150)
            else ''Task completed successfully''))"

definition generateAPIErrorBody :: string where
  "generateAPIErrorBody = ''Please run /login''"

definition generateAPIErrorOverloadedBody :: "message list \<Rightarrow> string" where
  "generateAPIErrorOverloadedBody messages =
     (let candidates = filter (\<lambda>t. t \<noteq> [])
            (map (\<lambda>t. TrimSpace (CleanMarkdown t))
               (ExtractTextFromMessages (GetLastApiErrorMessages messages 1)))
      in if candidates \<noteq> [] then truncateText (hd candidates) 150 else ''API error occurred'')"

definition status_body ::
    "(string \<Rightarrow> string) \<Rightarrow> (string \<Rightarrow> bool) \<Rightarrow> (string \<Rightarrow> int option) \<Rightarrow> Config \<Rightarrow> message list
     \<Rightarrow> status \<Rightarrow> string" where
  "status_body uni symbol parseTime cfg messages status =
     (case status of
        StatusQuestion \<Rightarrow> generateQuestionBody parseTime messages
      | StatusPlanReady \<Rightarrow> generatePlanBody messages
      | StatusReviewComplete \<Rightarrow> generateReviewBody uni parseTime messages
      | StatusSessionLimitReached \<Rightarrow> ''Session limit reached. Please start a new conversation.''
      | _ \<Rightarrow> generateTaskBody symbol parseTime cfg messages)"

definition GenerateFromMessagesStructured ::
    "(string \<Rightarrow> string) \<Rightarrow> (string \<Rightarrow> bool) \<Rightarrow> (string \<Rightarrow> int option) \<Rightarrow> Config \<Rightarrow> message list
     \<Rightarrow> status \<Rightarrow> string \<times> string" where
  "GenerateFromMessagesStructured uni symbol parseTime cfg messages status =
     (if messages = [] then (GetDefaultMessage symbol cfg status, [])
      else if status = StatusAPIError then (generateAPIErrorBody, [])
      else if status = StatusAPIErrorOverloaded then (generateAPIErrorOverloadedBody messages, [])
      else (status_body uni symbol parseTime cfg messages status, getActionsString parseTime messages))"

definition GenerateFromMessages ::
    "(string \<Rightarrow> string) \<Rightarrow> (string \<Rightarrow> bool) \<Rightarrow> (string \<Rightarrow> int option) \<Rightarrow> Config \<Rightarrow> message list
     \<Rightarrow> status \<Rightarrow> string" where
  "GenerateFromMessages uni symbol parseTime cfg messages status =
     (let (body, actions) =
            GenerateFromMessagesStructured uni symbol parseTime cfg messages status
      in appendActions body actions)"

definition GenerateFromTranscript ::
    "(string \<Rightarrow> string) \<Rightarrow> (string \<Rightarrow> bool) \<Rightarrow> (string \<Rightarrow> int option) \<Rightarrow> Config
     \<Rightarrow> message list option \<Rightarrow> status \<Rightarrow> string" where
  "GenerateFromTranscript uni symbol parseTime cfg parsed status =
     (case parsed of
        None \<Rightarrow> GetDefaultMessage symbol cfg status
      | Some messages \<Rightarrow> GenerateFromMessages uni symbol parseTime cfg messages status)"

definition GenerateSimple :: "(string \<Rightarrow> bool) \<Rightarrow> Config \<Rightarrow> status \<Rightarrow> string" where
  "GenerateSimple symbol cfg status = GetDefaultMessage symbol cfg status"

subsection \<open>Bodies have a bounded length\<close>

lemma Index_Some: "Index s sub = Some k \<Longrightarrow> HasPrefix (drop k s) sub"
  by (induction s arbitrary: k) (auto split: if_splits simp: HasPrefix_def)

lemma LastIndex_Some: "LastIndex s sub = Some k \<Longrightarrow> HasPrefix (drop k s) sub"
  by (induction s arbitrary: k) (auto split: if_splits option.splits simp: HasPrefix_def)

lemma scan_ender_Some: "scan_ender s third idx e = Some k \<Longrightarrow> HasPrefix (drop k s) e"
proof (induction s third idx e rule: scan_ender.induct)
  case (1 s third idx e)
  show ?case
  proof (cases "Index (drop idx s) e")
    case None
    with 1(2) show ?thesis by (simp add: scan_ender.simps [of s third idx] split: if_splits)
  next
    case (Some pos)
    show ?thesis
    proof (cases "third < idx + pos")
      case True
      with Some 1(2) have "k = idx + pos" by (simp add: scan_ender.simps split: if_splits)
      with Index_Some [OF Some] show ?thesis by (simp add: add.commute)
    next
      case False
      with Some 1(2) have "\<not> length s < idx" "scan_ender s third (idx + pos + 1) e = Some k"
        by (simp_all add: scan_ender.simps [of s third idx] split: if_splits)
      with 1(1) [OF _ Some False] show ?thesis by simp
    qed
  qed
qed

lemma prefix_ascii:
  assumes "HasPrefix (drop k s) (c # e)"
  shows "k < length s" and "s ! k = c"
proof -
  from assms obtain r where "drop k s = c # e @ r" by (auto simp: HasPrefix_iff)
  then show "k < length s" "s ! k = c"
    by (metis drop_all linorder_not_less list.distinct(1), metis drop_all linorder_not_less
        list.distinct(1) hd_drop_conv_nth list.sel(1))
qed

lemma sentence_end_Some:
  assumes "sentence_end n s = Some k"
  shows "k < length s \<and> is_ascii (s ! k)"
proof (cases "first_some (scan_ender s (n div 3) 0) sentenceEnders")
  case None
  with assms have "s \<noteq> []" "last s \<in> {CHR ''.'', CHR ''!'', CHR ''?''}" "k = length s - 1"
    by (auto simp: sentence_end_def split: if_splits)
  then show ?thesis by (auto simp: last_conv_nth is_ascii_def)
next
  case (Some j)
  with assms have "j = k" by (simp add: sentence_end_def)
  with first_some_SomeD [OF Some] obtain e where
    "e \<in> set sentenceEnders" "HasPrefix (drop k s) e" by (auto dest: scan_ender_Some)
  then obtain c e' where "HasPrefix (drop k s) (c # e')" "is_ascii c"
    by (auto simp: sentenceEnders_def is_ascii_def)
  with prefix_ascii [of k s c e'] show ?thesis by simp
qed

lemma runes_dots: "runes ''...'' = [''.'', ''.'', ''.'']"
  by (simp add: runes_ascii is_ascii_def)

lemma truncated_words:
  assumes "list_all is_rune rs"
  shows "\<exists>j. (case LastIndex (concat rs) '' '' of
            Some k \<Rightarrow> if h < k then take k (concat rs) else concat rs
          | None \<Rightarrow> concat rs) = concat (take j rs)"
proof (cases "LastIndex (concat rs) '' ''")
  case (Some k)
  from prefix_ascii [OF LastIndex_Some [OF Some]] cut_at_ascii [OF assms, of k]
  obtain j where "take k (concat rs) = concat (take j rs)" by (auto simp: is_ascii_def)
  with Some show ?thesis
    by (cases "h < k") (auto intro: exI [of _ j] exI [of _ "length rs"])
qed (auto intro: exI [of _ "length rs"])

lemma truncateText_bound:
  assumes "3 \<le> n"
  shows "length (runes (truncateText s n)) \<le> n"
proof (cases "length (runes s) \<le> n")
  case False
  let ?rs = "take n (runes s)"
  have ok: "list_all is_rune ?rs" "list_all is_rune (take (n - 3) (runes s))"
    by (rule runes_take)+
  show ?thesis
  proof (cases "sentence_end n (concat ?rs)")
    case (Some k)
    with sentence_end_Some [OF Some] cut_at_ascii [OF ok(1), of k] obtain j where
      j: "j < length ?rs" "take (k + 1) (concat ?rs) = concat (take (j + 1) ?rs)" by blast
    have "list_all is_rune (take (j + 1) ?rs)"
      by (simp add: runes_take)
    then have "length (runes (take (k + 1) (concat ?rs))) \<le> n"
      using j by (simp add: runes_of_concat)
    with runes_TrimSpace [of "take (k + 1) (concat ?rs)"] have
      "length (runes (TrimSpace (take (k + 1) (concat ?rs)))) \<le> n" by linarith
    with Some False show ?thesis by (simp add: truncateText_def Let_def)
  next
    case None
    from truncated_words [OF ok(2), of "n div 2"] obtain j where
      j: "(case LastIndex (concat (take (n - 3) (runes s))) '' '' of
            Some k \<Rightarrow> if n div 2 < k then take k (concat (take (n - 3) (runes s)))
                        else concat (take (n - 3) (runes s))
          | None \<Rightarrow> concat (take (n - 3) (runes s)))
         = concat (take j (take (n - 3) (runes s)))" by blast
    have "list_all is_rune (take j (take (n - 3) (runes s)))"
      by (simp add: runes_take)
    then have "length (runes (concat (take j (take (n - 3) (runes s))) @ ''...'')) \<le> n"
      using assms runes_dots by (simp add: runes_concat)
    with None False j show ?thesis by (simp add: truncateText_def Let_def)
  qed
qed (simp add: truncateText_def Let_def)



definition fits :: "string \<Rightarrow> bool" where
  "fits s \<longleftrightarrow> length (runes s) \<le> 150"

lemma fits_truncated [simp, intro]: "fits (truncateText s 150)"
  by (simp add: fits_def truncateText_bound)










end
