(* ===== verification/Framing.thy ===== *)
theory Framing
  imports GoStrings
begin

text \<open>
  Texts that are hashed: fields are framed by their length in eight bytes, so that the framing is
  injective, and a digest is written in lower-case hexadecimal.
\<close>

subsection \<open>Length-prefixed fields\<close>

text \<open>The eight length bytes, most significant first.\<close>

fun be_bytes :: "nat \<Rightarrow> nat \<Rightarrow> string" where
  "be_bytes 0 n = []"
| "be_bytes (Suc k) n = be_bytes k (n div 256) @ [char_of n]"

definition be64 :: "nat \<Rightarrow> string" where
  "be64 n = be_bytes 8 n"

fun encodeFields :: "string list \<Rightarrow> string" where
  "encodeFields [] = []"
| "encodeFields (f # fs) = be64 (length f) @ f @ encodeFields fs"

lemma length_be_bytes [simp]: "length (be_bytes k n) = k"
  by (induction k arbitrary: n) auto

lemma be_bytes_numeral:
  "be_bytes (numeral k) n = be_bytes (pred_numeral k) (n div 256) @ [char_of n]"
  by (simp only: numeral_eq_Suc [of k] be_bytes.simps)

lemma be_bytes_inject:
  "n < 256 ^ k \<Longrightarrow> m < 256 ^ k \<Longrightarrow> be_bytes k n = be_bytes k m \<Longrightarrow> n = m"
proof (induction k arbitrary: n m)
  case (Suc k)
  from Suc.prems(3) have "be_bytes k (n div 256) = be_bytes k (m div 256)"
    and c: "(char_of n :: char) = char_of m" by simp_all
  moreover have "n div 256 < 256 ^ k" "m div 256 < 256 ^ k"
    using Suc.prems by (simp_all add: less_mult_imp_div_less mult.commute)
  ultimately have "n div 256 = m div 256" by (intro Suc.IH)
  moreover have "n mod 256 = m mod 256"
    using arg_cong [OF c, of "of_char :: char \<Rightarrow> nat"] by simp
  ultimately show ?case by (metis div_mult_mod_eq)
qed simp

definition short :: "string \<Rightarrow> bool" where
  "short s \<longleftrightarrow> length s < 2 ^ 64"

lemma be64_inject: "short f \<Longrightarrow> short g \<Longrightarrow> be64 (length f) = be64 (length g) \<Longrightarrow> length f = length g"
  by (rule be_bytes_inject [where k = 8]) (simp_all add: be64_def short_def)

lemma encodeFields_inject:
  "list_all short fs \<Longrightarrow> list_all short gs \<Longrightarrow> encodeFields fs = encodeFields gs \<Longrightarrow> fs = gs"
proof (induction fs arbitrary: gs)
  case Nil
  then show ?case
    by (cases gs) (auto simp: be64_def dest: arg_cong [where f = length])
next
  case (Cons f fs)
  then obtain g gs' where gs: "gs = g # gs'"
    by (cases gs) (auto simp: be64_def dest: arg_cong [where f = length])
  with Cons.prems have eq: "be64 (length f) @ f @ encodeFields fs = be64 (length g) @ g @ encodeFields gs'"
    by simp
  then have "be64 (length f) = be64 (length g)" and rest: "f @ encodeFields fs = g @ encodeFields gs'"
    by (auto simp: be64_def append_eq_append_conv)
  then have "length f = length g"
    using Cons.prems gs by (simp add: be64_inject)
  with rest have "f = g" "encodeFields fs = encodeFields gs'" by auto
  with Cons gs show ?case by simp
qed

text \<open>What is hashed and is shorter than any file is injective up to a collision.\<close>

lemma encodeFields_eq_iff:
  "list_all short fs \<Longrightarrow> list_all short gs \<Longrightarrow> encodeFields fs = encodeFields gs \<longleftrightarrow> fs = gs"
  by (blast intro: encodeFields_inject)

subsection \<open>Hexadecimal digests\<close>

text \<open>\<^verbatim>\<open>hex.DecodeString\<close> accepts both cases; a digest is 32 bytes in lower case.\<close>

definition hex_digit :: "char \<Rightarrow> bool" where
  "hex_digit c \<longleftrightarrow> c \<in> set ''0123456789abcdefABCDEF''"

definition isHex :: "string \<Rightarrow> bool" where
  "isHex s \<longleftrightarrow> list_all hex_digit s \<and> length s = 64 \<and> s = map ascii_lower s"

definition nibble :: "nat \<Rightarrow> char" where
  "nibble n = ''0123456789abcdef'' ! (n mod 16)"

definition hexEncode :: "string \<Rightarrow> string" where
  "hexEncode s = concat (map (\<lambda>c. [nibble (of_char c div 16), nibble (of_char c)]) s)"

lemma nibble_digit: "hex_digit (nibble n) \<and> ascii_lower (nibble n) = nibble n"
proof -
  have "nibble n \<in> set ''0123456789abcdef''"
    unfolding nibble_def by (rule nth_mem) simp
  moreover have "\<forall>c \<in> set ''0123456789abcdef''. hex_digit c \<and> ascii_lower c = c"
    by (simp add: hex_digit_def ascii_lower_def)
  ultimately show ?thesis by blast
qed

lemma isHex_hexEncode [simp]: "length s = 32 \<Longrightarrow> isHex (hexEncode s)"
proof -
  have "list_all (\<lambda>c. hex_digit c \<and> ascii_lower c = c) (hexEncode s)"
    by (induction s) (simp_all add: hexEncode_def nibble_digit)
  moreover have "length (hexEncode s) = 2 * length s"
    by (induction s) (simp_all add: hexEncode_def)
  ultimately show "length s = 32 \<Longrightarrow> isHex (hexEncode s)"
    by (auto simp: isHex_def list_all_iff intro!: map_idI [symmetric])
qed

end
