(* ===== verification/HookEvent.thy ===== *)
theory HookEvent
  imports Json Framing
begin

text \<open>
  The event contract of \<^verbatim>\<open>internal/hooks\<close> (\<^verbatim>\<open>event.go\<close>, the mapping of
  \<^verbatim>\<open>claude_source.go\<close>, \<^verbatim>\<open>codex_source.go\<close> and \<^verbatim>\<open>qoder_source.go\<close>) and the
  identities events are locked and remembered under (\<^verbatim>\<open>identity.go\<close>). SHA-256 and the
  decoding of the wire format are arguments.
\<close>

datatype Product = ProductClaude | ProductCodex | ProductQoder | OtherProduct string

datatype EventKind =
    EventUnknown | EventPreToolUse | EventNotification | EventStop | EventStopFailure
  | EventSubagentStop | EventPermissionRequest | EventTeammateIdle

record SessionContext =
  ses_SessionID :: string
  ses_Title :: string
  ses_TurnID :: string
  ses_CWD :: string
  ses_TranscriptPath :: string
  ses_Model :: string
  ses_PermissionMode :: string

record AgentContext =
  ag_ID :: string
  ag_Type :: string
  ag_TranscriptPath :: string

record StopPayload =
  sp_AssistantMessage :: string
  sp_Continuation :: bool

datatype EventPayload =
    PStopPayload StopPayload
  | PStopFailure (pf_RateLimited: bool)
  | PSubagentStop StopPayload "AgentContext option"
  | PPermissionRequest string string "AgentContext option"
  | PPreToolUse (pt_ToolName: string) (pt_ToolUseID: string) (pt_ToolInput: string)
  | PNotification (pn_Type: string) (pn_Message: string)
  | PTeammateIdle (pi_TeamName: string) (pi_TeammateName: string)

record Event =
  ev_Product :: Product
  ev_PayloadEventName :: string
  ev_Session :: SessionContext
  ev_Payload :: "EventPayload option"

fun eventKind :: "EventPayload \<Rightarrow> EventKind" where
  "eventKind (PStopPayload p) = EventStop"
| "eventKind (PStopFailure r) = EventStopFailure"
| "eventKind (PSubagentStop p a) = EventSubagentStop"
| "eventKind (PPermissionRequest t i a) = EventPermissionRequest"
| "eventKind (PPreToolUse t u i) = EventPreToolUse"
| "eventKind (PNotification t m) = EventNotification"
| "eventKind (PTeammateIdle t m) = EventTeammateIdle"

definition Kind :: "Event \<Rightarrow> EventKind" where
  "Kind e = (case ev_Payload e of None \<Rightarrow> EventUnknown | Some p \<Rightarrow> eventKind p)"

datatype event_error =
    UnknownProduct | NoPayload | MissingSessionID | StopFailureNotQoder | MissingAgent
  | DecodeFailed | UnsupportedEvent | EventMismatch

definition ValidateEvent :: "Event \<Rightarrow> event_error option" where
  "ValidateEvent e =
     (if (case ev_Product e of OtherProduct p \<Rightarrow> True | _ \<Rightarrow> False) then Some UnknownProduct
      else (case ev_Payload e of
              None \<Rightarrow> Some NoPayload
            | Some payload \<Rightarrow>
                if ses_SessionID (ev_Session e) = [] then Some MissingSessionID
                else if eventKind payload = EventStopFailure \<and> ev_Product e \<noteq> ProductQoder
                  then Some StopFailureNotQoder
                else (case payload of
                        PSubagentStop p agent \<Rightarrow>
                          if ev_Product e = ProductCodex
                             \<and> (case agent of None \<Rightarrow> True | Some a \<Rightarrow> ag_ID a = [])
                          then Some MissingAgent else None
                      | _ \<Rightarrow> None)))"

subsection \<open>Decoded wire data to events\<close>

record HookData =
  hd_SessionTitle :: string
  hd_ToolInput :: string
  hd_NotificationType :: string
  hd_Message :: string
  hd_TranscriptPath :: string
  hd_LastAssistantMessage :: string
  hd_SessionID :: string
  hd_CWD :: string
  hd_ToolName :: string
  hd_HookEventName :: string
  hd_ErrorType :: string
  hd_TeamName :: string
  hd_TeammateName :: string
  hd_StopHookActive :: bool

definition plain_session :: "string \<Rightarrow> string \<Rightarrow> string \<Rightarrow> string \<Rightarrow> SessionContext" where
  "plain_session sid title cwd path =
     \<lparr>ses_SessionID = sid, ses_Title = title, ses_TurnID = [], ses_CWD = cwd,
      ses_TranscriptPath = path, ses_Model = [], ses_PermissionMode = []\<rparr>"

definition validated :: "Event \<Rightarrow> event_error + Event" where
  "validated ev = (case ValidateEvent ev of Some e \<Rightarrow> Inl e | None \<Rightarrow> Inr ev)"

definition claude_payload :: "string \<Rightarrow> HookData \<Rightarrow> EventPayload option" where
  "claude_payload hookEvent wire =
     (let stop = \<lparr>sp_AssistantMessage = hd_LastAssistantMessage wire, sp_Continuation = False\<rparr> in
      if hookEvent = ''PreToolUse'' then Some (PPreToolUse (hd_ToolName wire) [] (hd_ToolInput wire))
      else if hookEvent = ''Notification''
        then Some (PNotification (hd_NotificationType wire) (hd_Message wire))
      else if hookEvent = ''Stop'' then Some (PStopPayload stop)
      else if hookEvent = ''SubagentStop'' then Some (PSubagentStop stop None)
      else if hookEvent = ''TeammateIdle''
        then Some (PTeammateIdle (hd_TeamName wire) (hd_TeammateName wire))
      else None)"

definition ClaudeSource_Decode :: "string \<Rightarrow> HookData option \<Rightarrow> event_error + Event" where
  "ClaudeSource_Decode hookEvent decoded =
     (case decoded of
        None \<Rightarrow> Inl DecodeFailed
      | Some wire \<Rightarrow>
          (let sid = (if hd_SessionID wire = [] then ''unknown'' else hd_SessionID wire);
               ev = \<lparr>ev_Product = ProductClaude, ev_PayloadEventName = hd_HookEventName wire,
                     ev_Session = plain_session sid (hd_SessionTitle wire) (hd_CWD wire)
                                    (hd_TranscriptPath wire),
                     ev_Payload = claude_payload hookEvent wire\<rparr>
           in if ev_Payload ev = None then Inr ev else validated ev))"

definition QoderHookEvents :: "string list" where
  "QoderHookEvents =
     [''Stop'', ''StopFailure'', ''Notification'', ''PermissionRequest'', ''SubagentStop'',
      ''TeammateIdle'', ''PreToolUse'']"

definition IsQoderHookEvent :: "string \<Rightarrow> bool" where
  "IsQoderHookEvent event \<longleftrightarrow> event \<in> set QoderHookEvents"

definition qoder_event :: "string \<Rightarrow> HookData \<Rightarrow> EventPayload \<Rightarrow> Event" where
  "qoder_event event wire p =
     \<lparr>ev_Product = ProductQoder, ev_PayloadEventName = event,
      ev_Session = plain_session (hd_SessionID wire) [] (hd_CWD wire) [], ev_Payload = Some p\<rparr>"

definition qoder_payload :: "string \<Rightarrow> HookData \<Rightarrow> EventPayload" where
  "qoder_payload event wire =
     (if event = ''Notification'' then PNotification [] []
      else if event = ''StopFailure'' then PStopFailure (hd_ErrorType wire = ''rate_limit'')
      else if event = ''PermissionRequest''
        then PPermissionRequest (hd_ToolName wire) (hd_ToolInput wire) None
      else if event = ''SubagentStop''
        then PSubagentStop \<lparr>sp_AssistantMessage = hd_LastAssistantMessage wire,
                            sp_Continuation = hd_StopHookActive wire\<rparr> None
      else if event = ''TeammateIdle''
        then PTeammateIdle (hd_TeamName wire) (hd_TeammateName wire)
      else PPreToolUse (hd_ToolName wire) [] (hd_ToolInput wire))"

text \<open>
  \<^verbatim>\<open>decodeStop\<close> is the SDK's transport for Stop; the other events use the plain wire.
\<close>

definition QoderSource_Decode ::
    "nat \<Rightarrow> string \<Rightarrow> string \<Rightarrow> (string \<Rightarrow> HookData option) \<Rightarrow> (string \<Rightarrow> HookData option) \<Rightarrow> event_error + Event"
  where
  "QoderSource_Decode maxPayload event raw decodeStop decode =
     (if maxPayload < length raw then Inl DecodeFailed
      else if event = ''Stop'' then
        (case decodeStop raw of
           None \<Rightarrow> Inl DecodeFailed
         | Some wire \<Rightarrow> validated (qoder_event ''Stop'' wire
             (PStopPayload \<lparr>sp_AssistantMessage = hd_LastAssistantMessage wire,
                            sp_Continuation = hd_StopHookActive wire\<rparr>)))
      else if \<not> IsQoderHookEvent event then Inl UnsupportedEvent
      else (case decode raw of
              None \<Rightarrow> Inl DecodeFailed
            | Some wire \<Rightarrow>
                if hd_HookEventName wire \<noteq> event then Inl EventMismatch
                else validated (qoder_event event wire (qoder_payload event wire))))"

text \<open>What the Codex SDK decodes, by event.\<close>

record codex_common =
  cx_SessionID :: string
  cx_TurnID :: string
  cx_CWD :: string
  cx_TranscriptPath :: string
  cx_Model :: string
  cx_PermissionMode :: string
  cx_HookEventName :: string

datatype codex_decoded =
    CodexStop codex_common StopPayload
  | CodexSubagentStop codex_common StopPayload AgentContext
  | CodexPreToolUse codex_common string string string
  | CodexPermissionRequest codex_common string string string string
  | CodexNothing

definition codexSession :: "codex_common \<Rightarrow> SessionContext" where
  "codexSession d =
     \<lparr>ses_SessionID = cx_SessionID d, ses_Title = [], ses_TurnID = cx_TurnID d, ses_CWD = cx_CWD d,
      ses_TranscriptPath = cx_TranscriptPath d, ses_Model = cx_Model d,
      ses_PermissionMode = cx_PermissionMode d\<rparr>"

definition codex_event :: "codex_common \<Rightarrow> EventPayload \<Rightarrow> Event" where
  "codex_event d p =
     \<lparr>ev_Product = ProductCodex, ev_PayloadEventName = cx_HookEventName d,
      ev_Session = codexSession d, ev_Payload = Some p\<rparr>"

definition CodexSource_Decode ::
    "nat \<Rightarrow> string \<Rightarrow> string \<Rightarrow> (string \<Rightarrow> string \<Rightarrow> codex_decoded option) \<Rightarrow> event_error + Event" where
  "CodexSource_Decode maxPayload publicEvent raw decode =
     (if maxPayload < length raw then Inl DecodeFailed
      else (case decode publicEvent raw of
              None \<Rightarrow> Inl DecodeFailed
            | Some (CodexStop d p) \<Rightarrow> validated (codex_event d (PStopPayload p))
            | Some (CodexSubagentStop d p a) \<Rightarrow> validated (codex_event d (PSubagentStop p (Some a)))
            | Some (CodexPreToolUse d tool use input) \<Rightarrow>
                validated (codex_event d (PPreToolUse tool use input))
            | Some (CodexPermissionRequest d tool input aid atype) \<Rightarrow>
                validated (codex_event d (PPermissionRequest tool input
                  (if aid \<noteq> [] \<or> atype \<noteq> []
                   then Some \<lparr>ag_ID = aid, ag_Type = atype, ag_TranscriptPath = []\<rparr> else None)))
            | Some CodexNothing \<Rightarrow> Inl UnsupportedEvent))"

subsection \<open>Identities\<close>

record event_keys =
  ek_stateKey :: string
  ek_lockKey :: string

text \<open>\<^verbatim>\<open>sha\<close> gives the digest in hexadecimal.\<close>

definition hashedIdentity :: "(string \<Rightarrow> string) \<Rightarrow> string list \<Rightarrow> string" where
  "hashedIdentity sha flds = ''codex-'' @ take 32 (sha (encodeFields flds))"

definition claudeKeys :: "string \<Rightarrow> event_keys" where
  "claudeKeys sessionID = \<lparr>ek_stateKey = sessionID, ek_lockKey = sessionID\<rparr>"

definition codex_lock_fields :: "Event \<Rightarrow> string list" where
  "codex_lock_fields ev =
     [''codex'', ses_SessionID (ev_Session ev), ses_TurnID (ev_Session ev)] @
     (case ev_Payload ev of
        Some (PPermissionRequest tool input agent) \<Rightarrow>
          [''tool'', tool] @ (case agent of Some a \<Rightarrow> [''agent'', ag_ID a] | None \<Rightarrow> [])
      | Some (PPreToolUse tool use input) \<Rightarrow> [''tool'', tool, ''call'', use]
      | Some (PSubagentStop p agent) \<Rightarrow> (case agent of Some a \<Rightarrow> [''agent'', ag_ID a] | None \<Rightarrow> [])
      | _ \<Rightarrow> [])"

definition codexKeys :: "(string \<Rightarrow> string) \<Rightarrow> Event \<Rightarrow> event_keys" where
  "codexKeys sha ev =
     \<lparr>ek_stateKey = hashedIdentity sha [''codex'', ses_SessionID (ev_Session ev)],
      ek_lockKey = hashedIdentity sha (codex_lock_fields ev)\<rparr>"

definition qoder_lock_fields :: "Event \<Rightarrow> string list" where
  "qoder_lock_fields ev =
     [''qoder'', ses_SessionID (ev_Session ev)] @
     (case ev_Payload ev of
        Some (PStopPayload p) \<Rightarrow> [sp_AssistantMessage p]
      | Some (PStopFailure limited) \<Rightarrow>
          [''stop_failure'', if limited then ''rate_limit'' else ''other'']
      | Some (PSubagentStop p agent) \<Rightarrow> [''subagent'', sp_AssistantMessage p]
      | Some (PPermissionRequest tool input agent) \<Rightarrow> [''tool'', tool]
      | Some (PPreToolUse tool use input) \<Rightarrow> [''tool'', tool]
      | Some (PTeammateIdle team mate) \<Rightarrow> [team, mate]
      | _ \<Rightarrow> [])"

text \<open>The first \<^verbatim>\<open>codex-\<close> is the prefix, so replacing it replaces the prefix.\<close>

definition qoder_prefix :: "string \<Rightarrow> string" where
  "qoder_prefix s = ''qoder-'' @ TrimPrefix s ''codex-''"

definition qoderKeys :: "(string \<Rightarrow> string) \<Rightarrow> Event \<Rightarrow> event_keys" where
  "qoderKeys sha ev =
     \<lparr>ek_stateKey = qoder_prefix (hashedIdentity sha [''qoder'', ses_SessionID (ev_Session ev)]),
      ek_lockKey = qoder_prefix (hashedIdentity sha (qoder_lock_fields ev))\<rparr>"

definition eventKeys :: "(string \<Rightarrow> string) \<Rightarrow> Event \<Rightarrow> event_keys" where
  "eventKeys sha ev =
     (if ev_Product ev = ProductQoder then qoderKeys sha ev
      else if ev_Product ev = ProductCodex then codexKeys sha ev
      else claudeKeys (ses_SessionID (ev_Session ev)))"

subsection \<open>Identities are injective\<close>

lemma codex_lock_fields_session:
  "codex_lock_fields e = codex_lock_fields e' \<Longrightarrow>
     ses_SessionID (ev_Session e) = ses_SessionID (ev_Session e') \<and>
     ses_TurnID (ev_Session e) = ses_TurnID (ev_Session e')"
  by (simp add: codex_lock_fields_def)

text \<open>What of a Codex payload a lock distinguishes.\<close>

definition codex_lock_identity :: "Event \<Rightarrow> (string \<times> string option \<times> string option)" where
  "codex_lock_identity e =
     (case ev_Payload e of
        Some (PPermissionRequest tool input agent) \<Rightarrow> (''tool '' @ tool, map_option ag_ID agent, None)
      | Some (PPreToolUse tool use input) \<Rightarrow> (''tool '' @ tool, None, Some use)
      | Some (PSubagentStop p agent) \<Rightarrow> ([], map_option ag_ID agent, None)
      | _ \<Rightarrow> ([], None, None))"

lemma codex_lock_fields_identity:
  "codex_lock_fields e = codex_lock_fields e' \<Longrightarrow> codex_lock_identity e = codex_lock_identity e'"
  by (auto simp: codex_lock_fields_def codex_lock_identity_def
      split: option.splits EventPayload.splits)

text \<open>
  Theorem. Raw Codex identifiers cannot be combined to collide: unless SHA-256 collides on
  the two events' fields, two events share a lock key only if they agree on session, turn, tool,
  agent and call, whatever bytes the identifiers contain.
\<close>

theorem codex_lock_keys_distinct:
  assumes "ek_lockKey (codexKeys sha e) = ek_lockKey (codexKeys sha e')"
    and "list_all short (codex_lock_fields e)" and "list_all short (codex_lock_fields e')"
    and "take 32 (sha (encodeFields (codex_lock_fields e)))
           = take 32 (sha (encodeFields (codex_lock_fields e'))) \<Longrightarrow>
         encodeFields (codex_lock_fields e) = encodeFields (codex_lock_fields e')"
  shows "ses_SessionID (ev_Session e) = ses_SessionID (ev_Session e') \<and>
     ses_TurnID (ev_Session e) = ses_TurnID (ev_Session e') \<and>
     codex_lock_identity e = codex_lock_identity e'"
proof -
  have "take 32 (sha (encodeFields (codex_lock_fields e)))
      = take 32 (sha (encodeFields (codex_lock_fields e')))"
    using assms(1) by (simp add: codexKeys_def hashedIdentity_def)
  then have "codex_lock_fields e = codex_lock_fields e'"
    using assms(2-4) encodeFields_inject by blast
  from codex_lock_fields_session [OF this] codex_lock_fields_identity [OF this]
  show ?thesis by blast
qed

definition codex_stop :: "string \<Rightarrow> string \<Rightarrow> Event" where
  "codex_stop session turn =
     codex_event
       \<lparr>cx_SessionID = session, cx_TurnID = turn, cx_CWD = [], cx_TranscriptPath = [], cx_Model = [],
        cx_PermissionMode = [], cx_HookEventName = ''Stop''\<rparr>
       (PStopPayload \<lparr>sp_AssistantMessage = ''done'', sp_Continuation = False\<rparr>)"

text \<open>A digest that keeps the first 32 bytes separates these two events.\<close>

lemma codex_lock_keys_distinct_witness:
  "ek_lockKey (codexKeys id (codex_stop ''ab'' ''c'')) \<noteq> ek_lockKey (codexKeys id (codex_stop ''a'' ''bc''))"
proof
  assume eq: "ek_lockKey (codexKeys id (codex_stop ''ab'' ''c''))
      = ek_lockKey (codexKeys id (codex_stop ''a'' ''bc''))"
  have be: "be64 (Suc 0) = bytes [0, 0, 0, 0, 0, 0, 0, 1]"
    "be64 (Suc (Suc 0)) = bytes [0, 0, 0, 0, 0, 0, 0, 2]"
    by (simp_all add: be64_def bytes_def be_bytes_numeral)
  have f: "codex_lock_fields (codex_stop s t) = [''codex'', s, t]" for s t
    by (simp add: codex_lock_fields_def codex_stop_def codex_event_def codexSession_def)
  have "take 32 (encodeFields [''codex'', ''ab'', ''c'']) \<noteq> take 32 (encodeFields [''codex'', ''a'', ''bc''])"
    by (simp add: be bytes_def be64_def [of "Suc (Suc (Suc n))" for n])
  then have "ses_SessionID (ev_Session (codex_stop ''ab'' ''c''))
      = ses_SessionID (ev_Session (codex_stop ''a'' ''bc''))"
    using codex_lock_keys_distinct [OF eq] by (simp add: f short_def)
  then show False by (simp add: codex_stop_def codex_event_def codexSession_def)
qed

text \<open>
  Theorem. Whatever the wire contains, an event a decoder hands to the pipeline is valid:
  its product is the decoder's, its session is identified, a stop failure is Qoder's and a Codex
  subagent is named; only Claude's decoder passes on an event without a payload, and a Qoder
  event never carries a transcript path.
\<close>

theorem decoded_events_valid:
  "(ClaudeSource_Decode name wire = Inr e \<longrightarrow>
      ev_Product e = ProductClaude \<and> (ev_Payload e = None \<or> ValidateEvent e = None) \<and>
      ses_SessionID (ev_Session e) \<noteq> [])
   \<and> (CodexSource_Decode n name raw decode = Inr e \<longrightarrow>
      ev_Product e = ProductCodex \<and> ValidateEvent e = None \<and>
      (Kind e = EventSubagentStop \<longrightarrow>
         (\<exists>p a. ev_Payload e = Some (PSubagentStop p (Some a)) \<and> ag_ID a \<noteq> [])))
   \<and> (QoderSource_Decode n name raw decodeStop decodeHook = Inr e \<longrightarrow>
      ev_Product e = ProductQoder \<and> ValidateEvent e = None \<and>
      ses_TranscriptPath (ev_Session e) = [])"
proof -
  have v: "validated ev = Inr e \<Longrightarrow> ev = e \<and> ValidateEvent e = None" for ev
    by (auto simp: validated_def split: option.splits)
  have claude: "ClaudeSource_Decode name wire = Inr e \<longrightarrow>
      ev_Product e = ProductClaude \<and> (ev_Payload e = None \<or> ValidateEvent e = None) \<and>
      ses_SessionID (ev_Session e) \<noteq> []"
    by (cases wire) (auto simp: ClaudeSource_Decode_def Let_def plain_session_def
        split: if_splits dest!: v)
  have codex: "CodexSource_Decode n name raw decode = Inr e \<longrightarrow>
      ev_Product e = ProductCodex \<and> ValidateEvent e = None"
    by (auto simp: CodexSource_Decode_def codex_event_def
        split: option.splits codex_decoded.splits if_splits dest!: v)
  have agent: "ev_Product e = ProductCodex \<Longrightarrow> ValidateEvent e = None \<Longrightarrow>
      Kind e = EventSubagentStop \<Longrightarrow>
      \<exists>p a. ev_Payload e = Some (PSubagentStop p (Some a)) \<and> ag_ID a \<noteq> []"
    by (auto simp: ValidateEvent_def Kind_def split: option.splits EventPayload.splits if_splits)
  have qoder: "QoderSource_Decode n name raw decodeStop decodeHook = Inr e \<longrightarrow>
      ev_Product e = ProductQoder \<and> ValidateEvent e = None \<and>
      ses_TranscriptPath (ev_Session e) = []"
    by (auto simp: QoderSource_Decode_def qoder_event_def plain_session_def
        split: option.splits if_splits dest!: v)
  from claude codex agent qoder show ?thesis by blast
qed

lemma decoded_events_valid_witness:
  "QoderSource_Decode 100 ''StopFailure'' ''x'' (\<lambda>_. None) (\<lambda>_. Some
     \<lparr>hd_SessionTitle = [], hd_ToolInput = [], hd_NotificationType = [], hd_Message = [],
      hd_TranscriptPath = ''/t'', hd_LastAssistantMessage = [], hd_SessionID = ''s'', hd_CWD = [],
      hd_ToolName = [], hd_HookEventName = ''StopFailure'', hd_ErrorType = ''rate_limit'',
      hd_TeamName = [], hd_TeammateName = [], hd_StopHookActive = False\<rparr>)
   = Inr \<lparr>ev_Product = ProductQoder, ev_PayloadEventName = ''StopFailure'',
          ev_Session = plain_session ''s'' [] [] [], ev_Payload = Some (PStopFailure True)\<rparr>
   \<and> ValidateEvent \<lparr>ev_Product = ProductQoder, ev_PayloadEventName = ''StopFailure'',
          ev_Session = plain_session ''s'' [] [] [], ev_Payload = Some (PStopFailure True)\<rparr> = None"
proof (rule context_conjI)
  show "QoderSource_Decode 100 ''StopFailure'' ''x'' (\<lambda>_. None) (\<lambda>_. Some
     \<lparr>hd_SessionTitle = [], hd_ToolInput = [], hd_NotificationType = [], hd_Message = [],
      hd_TranscriptPath = ''/t'', hd_LastAssistantMessage = [], hd_SessionID = ''s'', hd_CWD = [],
      hd_ToolName = [], hd_HookEventName = ''StopFailure'', hd_ErrorType = ''rate_limit'',
      hd_TeamName = [], hd_TeammateName = [], hd_StopHookActive = False\<rparr>)
   = Inr \<lparr>ev_Product = ProductQoder, ev_PayloadEventName = ''StopFailure'',
          ev_Session = plain_session ''s'' [] [] [], ev_Payload = Some (PStopFailure True)\<rparr>"
    by (simp add: QoderSource_Decode_def IsQoderHookEvent_def QoderHookEvents_def validated_def
        qoder_event_def qoder_payload_def ValidateEvent_def plain_session_def)
qed (use decoded_events_valid in blast)

end
