(* ===== verification/NativeTitle.thy ===== *)
theory NativeTitle
  imports Markdown SessionName HookEvent
begin

text \<open>
  \<^verbatim>\<open>internal/sessionname/native.go\<close>: the title a host application gave a session, read
  from the end of its index or transcript. A file is its reader: the bytes read at an offset, or an
  input error. Decoding one JSON line, \<^verbatim>\<open>filepath.Join\<close> and \<^verbatim>\<open>filepath.Rel\<close>
  are arguments.
\<close>

subsection \<open>Titles and session identifiers\<close>

definition CleanNativeTitle :: "string \<Rightarrow> string" where
  "CleanNativeTitle title =
     (if 4096 < length title \<or> \<not> valid_utf8 title then []
      else if list_ex (\<lambda>r. control_rune r \<and> r \<notin> set space_runes) (runes title) then []
      else one_line title)"

definition session_char :: "char \<Rightarrow> bool" where
  "session_char c \<longleftrightarrow>
     byte_in 97 122 c \<or> byte_in 65 90 c \<or> byte_in 48 57 c \<or> c = CHR ''-'' \<or> c = CHR ''_''"

definition safeSessionID :: "string \<Rightarrow> bool" where
  "safeSessionID sid =
     (if sid = [] \<or> sid = ''unknown'' \<or> 128 < length sid then False else list_all session_char sid)"

subsection \<open>Bounded reading\<close>

type_synonym reader = "nat \<Rightarrow> nat \<Rightarrow> string option"

text \<open>The first line break, and the text up to and including the last one.\<close>

definition after_first_line :: "string \<Rightarrow> string option" where
  "after_first_line s =
     (let rest = dropWhile (\<lambda>c. c \<noteq> NL) s in if rest = [] then None else Some (tl rest))"

definition upto_last_line :: "string \<Rightarrow> string option" where
  "upto_last_line s =
     (let keep = rev (dropWhile (\<lambda>c. c \<noteq> NL) (rev s)) in if keep = [] then None else Some keep)"

definition window_head :: "reader \<Rightarrow> nat \<Rightarrow> string \<Rightarrow> string option" where
  "window_head f start data =
     (if 0 < start then
        (case f (start - 1) 1 of
           Some [c] \<Rightarrow> if c \<noteq> NL then after_first_line data else Some data
         | _ \<Rightarrow> None)
      else Some data)"

definition readWindow :: "reader \<Rightarrow> nat \<Rightarrow> nat \<Rightarrow> bool \<Rightarrow> string" where
  "readWindow f size_there limit tail =
     (let start = (if tail \<and> limit < size_there then size_there - limit else 0);
          count = min (size_there - start) limit
      in if count = 0 then []
         else (case f start count of
                 None \<Rightarrow> []
               | Some data \<Rightarrow>
                   (case window_head f start data of
                      None \<Rightarrow> []
                    | Some kept \<Rightarrow>
                        if start + length data < size_there
                        then (case upto_last_line kept of None \<Rightarrow> [] | Some t \<Rightarrow> t)
                        else kept)))"

subsection \<open>Codex\<close>

text \<open>A line of the index: the identifier and the name, empty when absent or not a string.\<close>

definition codex_title_in :: "(string \<Rightarrow> (string \<times> string) option) \<Rightarrow> string \<Rightarrow> string \<Rightarrow> string" where
  "codex_title_in decode sid window =
     (case first_some (\<lambda>line. case decode line of
                          Some (recID, name) \<Rightarrow> if recID = sid then Some name else None
                        | None \<Rightarrow> None) (rev (split_lines window)) of
        Some name \<Rightarrow> CleanNativeTitle name
      | None \<Rightarrow> [])"

definition codex_rollout_ok ::
    "(string \<Rightarrow> string \<Rightarrow> string option) \<Rightarrow> string \<Rightarrow> string \<Rightarrow> string \<Rightarrow> bool" where
  "codex_rollout_ok rel home sid transcript =
     (transcript = [] \<or>
      (case rel home transcript of
         None \<Rightarrow> False
       | Some r \<Rightarrow>
           (let first = takeWhile (\<lambda>c. c \<noteq> CHR ''/'') r in
            HasPrefix transcript ''/'' \<and> length first < length r
            \<and> (first = ''sessions'' \<or> first = ''archived_sessions'')
            \<and> HasSuffix (path_Base transcript) (''-'' @ sid @ ''.jsonl''))))"

record title_env =
  te_CodexHome :: string
  te_UserHome :: "string option"
  te_open :: "string \<Rightarrow> (reader \<times> nat) option"

definition codexNativeTitle ::
    "(string list \<Rightarrow> string) \<Rightarrow> (string \<Rightarrow> string \<Rightarrow> string option)
     \<Rightarrow> (string \<Rightarrow> (string \<times> string) option) \<Rightarrow> title_env \<Rightarrow> string \<Rightarrow> string \<Rightarrow> string" where
  "codexNativeTitle join rel decode env sid transcript =
     (let home_there = (if te_CodexHome env \<noteq> [] then Some (te_CodexHome env)
                        else map_option (\<lambda>h. join [h, ''.codex'']) (te_UserHome env)) in
      case home_there of
        None \<Rightarrow> []
      | Some home \<Rightarrow>
          if \<not> HasPrefix home ''/'' then []
          else if \<not> codex_rollout_ok rel home sid transcript then []
          else (case te_open env (join [home, ''session_index.jsonl'']) of
                  None \<Rightarrow> []
                | Some (f, size_there) \<Rightarrow>
                    codex_title_in decode sid (readWindow f size_there (1024 * 1024) True)))"

subsection \<open>Claude\<close>

record title_record =
  tr_Type :: string
  tr_SessionID :: string
  tr_Custom :: string
  tr_Generated :: string

text \<open>The pair of the latest custom and the latest generated title.\<close>

definition note_title ::
    "(string \<Rightarrow> title_record option) \<Rightarrow> string \<Rightarrow> string \<Rightarrow> string \<times> string \<Rightarrow> string \<times> string" where
  "note_title decode sid line found =
     (case decode line of
        None \<Rightarrow> found
      | Some r \<Rightarrow>
          if tr_SessionID r \<noteq> sid then found
          else if tr_Type r = ''custom-title'' then (CleanNativeTitle (tr_Custom r), snd found)
          else if tr_Type r = ''ai-title'' then (fst found, CleanNativeTitle (tr_Generated r))
          else found)"

definition claude_title_in :: "(string \<Rightarrow> title_record option) \<Rightarrow> string \<Rightarrow> string list \<Rightarrow> string" where
  "claude_title_in decode sid windows =
     (let (custom, generated) = fold (note_title decode sid) (concat (map split_lines windows)) ([], [])
      in if custom \<noteq> [] then custom else generated)"

definition claudeNativeTitle ::
    "(string \<Rightarrow> title_record option) \<Rightarrow> title_env \<Rightarrow> string \<Rightarrow> string \<Rightarrow> string" where
  "claudeNativeTitle decode env sid transcript =
     (if \<not> HasPrefix transcript ''/'' \<or> path_Base transcript \<noteq> sid @ ''.jsonl''
         \<or> Contains transcript ''/subagents/'' then []
      else (case te_open env transcript of
              None \<Rightarrow> []
            | Some (f, size_there) \<Rightarrow>
                claude_title_in decode sid
                  (readWindow f size_there (64 * 1024) False #
                   (if 64 * 1024 < size_there then [readWindow f size_there (64 * 1024) True] else []))))"

fun product_string :: "Product \<Rightarrow> string" where
  "product_string ProductClaude = ''claude''"
| "product_string ProductCodex = ''codex''"
| "product_string ProductQoder = ''qoder''"
| "product_string (OtherProduct p) = p"

record title_decoders =
  td_join :: "string list \<Rightarrow> string"
  td_rel :: "string \<Rightarrow> string \<Rightarrow> string option"
  td_codex :: "string \<Rightarrow> (string \<times> string) option"
  td_claude :: "string \<Rightarrow> title_record option"

definition NativeTitle :: "title_decoders \<Rightarrow> title_env \<Rightarrow> string \<Rightarrow> string \<Rightarrow> string \<Rightarrow> string" where
  "NativeTitle td env product sid transcript =
     (if \<not> safeSessionID sid then []
      else if product = ''codex''
        then codexNativeTitle (td_join td) (td_rel td) (td_codex td) env sid transcript
      else if product = ''claude'' then claudeNativeTitle (td_claude td) env sid transcript
      else [])"

subsection \<open>Windows hold whole lines\<close>

definition file_reader :: "string \<Rightarrow> reader" where
  "file_reader content start count = Some (take count (drop start content))"

lemma after_first_line_Some:
  "after_first_line s = Some t \<Longrightarrow> \<exists>p. s = p @ t \<and> p \<noteq> [] \<and> last p = NL"
proof -
  assume t: "after_first_line s = Some t"
  let ?r = "dropWhile (\<lambda>c. c \<noteq> NL) s"
  from t have r: "?r \<noteq> []" "t = tl ?r" by (auto simp: after_first_line_def Let_def split: if_splits)
  then have "hd ?r = NL" using hd_dropWhile by blast
  with r have "s = (takeWhile (\<lambda>c. c \<noteq> NL) s @ [NL]) @ t"
    by (metis append.assoc append_Cons append_Nil list.collapse takeWhile_dropWhile_id)
  then show ?thesis by (metis last_snoc snoc_eq_iff_butlast)
qed

lemma upto_last_line_Some:
  "upto_last_line s = Some t \<Longrightarrow> \<exists>q. s = t @ q \<and> t \<noteq> [] \<and> last t = NL"
proof -
  assume t: "upto_last_line s = Some t"
  let ?r = "dropWhile (\<lambda>c. c \<noteq> NL) (rev s)"
  from t have r: "?r \<noteq> []" "t = rev ?r" by (auto simp: upto_last_line_def Let_def split: if_splits)
  then have "hd ?r = NL" using hd_dropWhile by blast
  moreover have "s = t @ rev (takeWhile (\<lambda>c. c \<noteq> NL) (rev s))"
    unfolding r(2) by (metis rev_append rev_rev_ident takeWhile_dropWhile_id)
  ultimately show ?thesis using r by (metis Nil_is_rev_conv last_rev)
qed

definition line_end :: "string \<Rightarrow> bool" where
  "line_end p \<longleftrightarrow> p = [] \<or> last p = NL"

lemma window_head_whole:
  assumes "window_head (file_reader content) start d = Some kept" and "start \<le> length content"
  shows "\<exists>p. take start content @ d = p @ kept \<and> line_end p \<and> length kept \<le> length d"
proof (cases start)
  case 0
  with assms show ?thesis by (intro exI [of _ "[]"]) (simp add: window_head_def line_end_def)
next
  case (Suc k)
  with assms(2) obtain c where c: "take start content = take k content @ [c]" "take 1 (drop k content) = [c]"
    by (metis One_nat_def Suc_le_lessD hd_drop_conv_nth take_Suc_conv_app_nth take_hd_drop
        append_eq_conv_conj append_take_drop_id length_take take_add Suc_eq_plus1 min.absorb2 less_imp_le_nat)
  have head: "window_head (file_reader content) start d
      = (if c \<noteq> NL then after_first_line d else Some d)"
    using c(2) Suc by (simp add: window_head_def file_reader_def)
  show ?thesis
  proof (cases "c = NL")
    case True
    with assms(1) head c(1) show ?thesis
      by (intro exI [of _ "take start content"]) (simp add: line_end_def)
  next
    case False
    with assms(1) head obtain p where "d = p @ kept" "p \<noteq> []" "last p = NL"
      using after_first_line_Some by auto
    then show ?thesis
      by (intro exI [of _ "take start content @ p"]) (simp add: line_end_def)
  qed
qed

text \<open>
  Theorem. A window of a metadata file is bounded and holds whole lines only: it has at most
  the limit's bytes, it starts at the start of a line of the file, and it ends at the end of one
  or of the file.
\<close>

theorem window_holds_whole_lines:
  assumes "readWindow (file_reader content) (length content) limit tail = w" and "w \<noteq> []"
  shows "length w \<le> limit \<and>
         (\<exists>p q. content = p @ w @ q \<and> line_end p \<and> (q = [] \<or> last w = NL))"
proof -
  define start where "start = (if tail \<and> limit < length content then length content - limit else 0)"
  define d where "d = take (min (length content - start) limit) (drop start content)"
  have le: "start \<le> length content" by (simp add: start_def)
  from assms obtain kept where kept: "window_head (file_reader content) start d = Some kept"
    and w: "w = (if start + length d < length content
                 then (case upto_last_line kept of None \<Rightarrow> [] | Some t \<Rightarrow> t) else kept)"
    by (auto simp: readWindow_def Let_def file_reader_def start_def [symmetric] d_def [symmetric]
        split: if_splits option.splits)
  from window_head_whole [OF kept le] obtain p where
    p: "take start content @ d = p @ kept" "line_end p" "length kept \<le> length d" by blast
  have "d @ drop (start + length d) content = drop start content"
    by (simp add: d_def) (metis add.commute append_take_drop_id drop_drop min_def take_all_iff nat_le_linear length_drop)
  then have content: "content = p @ kept @ drop (start + length d) content"
    using p(1) by (metis append.assoc append_take_drop_id)
  have len: "length d \<le> limit" by (simp add: d_def)
  show ?thesis
  proof (cases "start + length d < length content")
    case True
    with w assms(2) obtain t where t: "upto_last_line kept = Some t" "w = t"
      by (auto split: option.splits)
    from upto_last_line_Some [OF t(1)] obtain q where "kept = t @ q" "last t = NL" by blast
    with content p len t(2) show ?thesis
      by (intro conjI exI [of _ p] exI [of _ "q @ drop (start + length d) content"]) auto
  next
    case False
    with content p len w show ?thesis by (intro conjI exI [of _ p] exI [of _ "[]"]) auto
  qed
qed

lemma window_holds_whole_lines_witness:
  "\<exists>p q. [CHR ''a'', NL, CHR ''b'', CHR ''c'', NL] = p @ [CHR ''b'', CHR ''c'', NL] @ q \<and> line_end p"
proof -
  let ?c = "[CHR ''a'', NL, CHR ''b'', CHR ''c'', NL]"
  have "readWindow (file_reader ?c) (length ?c) 3 True = [CHR ''b'', CHR ''c'', NL]"
    by (simp add: readWindow_def file_reader_def window_head_def numeral_eq_Suc)
  from window_holds_whole_lines [OF this] show ?thesis by blast
qed

end
