(* ===== verification/HookMessage.thy ===== *)
theory HookMessage
  imports ClaudeTranscript Summary NativeTitle
begin

text \<open>
  What a hook shows: \<^verbatim>\<open>internal/hooks/message.go\<close>, \<^verbatim>\<open>enricher.go\<close> and
  \<^verbatim>\<open>notification_details.go\<close>. The tables and decoders of the standard library the
  components below take as arguments are collected in one record.
\<close>

record question =
  qu_Header :: string
  qu_Question :: string
  qu_Title :: string

record tables =
  tb_uni :: "string \<Rightarrow> string"
  tb_symbol :: "string \<Rightarrow> bool"
  tb_parseTime :: "string \<Rightarrow> int option"
  tb_sha :: "string \<Rightarrow> string"
  tb_quote :: "string \<Rightarrow> string"
  tb_questions :: "string \<Rightarrow> question list option"
  tb_titles :: title_decoders

definition structured_summary :: "tables \<Rightarrow> Config \<Rightarrow> message list \<Rightarrow> status \<Rightarrow> string \<times> string" where
  "structured_summary tb cfg =
     GenerateFromMessagesStructured (tb_uni tb) (tb_symbol tb) (tb_parseTime tb) cfg"

definition simple_summary :: "tables \<Rightarrow> Config \<Rightarrow> status \<Rightarrow> string" where
  "simple_summary tb cfg st = GenerateSimple (tb_symbol tb) cfg st"

subsection \<open>Insights from a payload\<close>

definition truncateRunes :: "string \<Rightarrow> nat \<Rightarrow> string" where
  "truncateRunes s maxLen =
     (if length (runes s) \<le> maxLen then s else concat (take maxLen (runes s)) @ ''...'')"

definition questionInsight :: "tables \<Rightarrow> string \<Rightarrow> bool \<Rightarrow> TurnInsight" where
  "questionInsight tb toolInput async =
     (case tb_questions tb toolInput of
        None \<Rightarrow> \<lparr>in_Status = Some StatusQuestion, in_Body = [], in_Question = []\<rparr>
      | Some [] \<Rightarrow> \<lparr>in_Status = Some StatusQuestion, in_Body = [], in_Question = []\<rparr>
      | Some (q # qs) \<Rightarrow>
          (let asked = TrimSpace (if async then qu_Title q else qu_Question q);
               shown = (if asked = [] then TrimSpace (qu_Header q) else asked);
               body = truncateRunes (CleanMarkdown shown) 150
           in \<lparr>in_Status = Some StatusQuestion,
               in_Body = (if shown = [] then []
                          else if qs \<noteq> [] then body @ '' (+'' @ Itoa (int (length qs)) @ '' more)''
                          else body),
               in_Question = truncateRunes (CleanMarkdown asked) 150\<rparr>))"

definition EnrichStop :: "tables \<Rightarrow> StopPayload \<Rightarrow> TurnInsight" where
  "EnrichStop tb p =
     \<lparr>in_Status = Some (ClassifyLastMessage (tb_uni tb) (sp_AssistantMessage p)),
      in_Body = [], in_Question = []\<rparr>"

definition EnrichPreToolUse :: "tables \<Rightarrow> string \<Rightarrow> string \<Rightarrow> TurnInsight" where
  "EnrichPreToolUse tb toolName toolInput =
     (if toolName \<noteq> ''request_user_input'' \<and> toolName \<noteq> ''request_user_input_async''
      then \<lparr>in_Status = Some StatusUnknown, in_Body = [], in_Question = []\<rparr>
      else questionInsight tb toolInput (toolName = ''request_user_input_async''))"

subsection \<open>Bodies\<close>

definition stop_text :: "tables \<Rightarrow> Config \<Rightarrow> status \<Rightarrow> string \<Rightarrow> string" where
  "stop_text tb cfg st final =
     (if TrimSpace final \<noteq> [] then truncateRunes (CleanMarkdown (TrimSpace final)) 150
      else simple_summary tb cfg st)"

definition generateCodexMessage :: "tables \<Rightarrow> Config \<Rightarrow> Event \<Rightarrow> status \<Rightarrow> string" where
  "generateCodexMessage tb cfg ev st =
     (case ev_Payload ev of
        Some (PStopPayload p) \<Rightarrow> stop_text tb cfg st (sp_AssistantMessage p)
      | Some (PSubagentStop p agent) \<Rightarrow> stop_text tb cfg st (sp_AssistantMessage p)
      | Some (PPermissionRequest tool input agent) \<Rightarrow>
          if tool \<noteq> [] then
            (if ev_Product ev = ProductQoder then ''Qoder'' else ''Codex'')
              @ '' requests permission: '' @ tool
          else simple_summary tb cfg st
      | _ \<Rightarrow> simple_summary tb cfg st)"

text \<open>A duration measured up to a message that did not close the turn is cut off.\<close>

definition without_duration :: "string \<Rightarrow> string" where
  "without_duration actions =
     (case Index actions stopwatch of None \<Rightarrow> actions | Some k \<Rightarrow> TrimSpace (take k actions))"

definition insight_actions :: "tables \<Rightarrow> Config \<Rightarrow> status \<Rightarrow> message list \<Rightarrow> string" where
  "insight_actions tb cfg st messages =
     (if messages \<noteq> [] then
        (let actions = snd (structured_summary tb cfg messages st) in
         if claudeTranscriptHasClosingText (tb_parseTime tb) messages then actions
         else without_duration actions)
      else [])"

text \<open>\<^verbatim>\<open>reread\<close> is the transcript as read again, if the file is there and parses.\<close>

definition transcript_message ::
    "tables \<Rightarrow> Config \<Rightarrow> status \<Rightarrow> message list \<Rightarrow> message list option \<Rightarrow> string \<times> string" where
  "transcript_message tb cfg st messages reread =
     (let (body, actions) =
            (if messages \<noteq> [] then structured_summary tb cfg messages st
             else (case reread of None \<Rightarrow> ([], []) | Some parsed \<Rightarrow> structured_summary tb cfg parsed st))
      in (if body = [] then simple_summary tb cfg st else body, actions))"

definition generateMessage ::
    "tables \<Rightarrow> Config \<Rightarrow> Event \<Rightarrow> status \<Rightarrow> message list \<Rightarrow> message list option \<Rightarrow> TurnInsight option
     \<Rightarrow> string \<times> string" where
  "generateMessage tb cfg ev st messages reread insight =
     (if ev_Product ev = ProductClaude \<and> st = StatusPermissionRequest then
        (case ev_Payload ev of
           Some (PNotification ty message) \<Rightarrow>
             if one_line message \<noteq> [] then (truncateRunes (one_line message) 180, [])
             else (simple_summary tb cfg st, [])
         | _ \<Rightarrow> (simple_summary tb cfg st, []))
      else
        (let shown = (case insight of None \<Rightarrow> [] | Some i \<Rightarrow> in_Body i) in
         if ev_Product ev = ProductCodex \<or> ev_Product ev = ProductQoder then
           (if shown \<noteq> [] then (shown, []) else (generateCodexMessage tb cfg ev st, []))
         else if shown \<noteq> [] then (shown, insight_actions tb cfg st messages)
         else transcript_message tb cfg st messages reread))"

subsection \<open>Details\<close>

record details =
  de_title :: string
  de_question :: string
  de_branch :: "string option"

definition notificationDetails ::
    "tables \<Rightarrow> title_env \<Rightarrow> Config \<Rightarrow> Event \<Rightarrow> TurnInsight option \<Rightarrow> details" where
  "notificationDetails tb tenv cfg ev insight =
     (let s = ev_Session ev in
      \<lparr>de_title =
         (if IsSessionLabelEnabled cfg then
            (if CleanNativeTitle (ses_Title s) = []
             then NativeTitle (tb_titles tb) tenv (product_string (ev_Product ev)) (ses_SessionID s)
                    (ses_TranscriptPath s)
             else CleanNativeTitle (ses_Title s))
          else []),
       de_question = (case insight of None \<Rightarrow> [] | Some i \<Rightarrow> in_Question i),
       de_branch = None\<rparr>)"

end
