(* ===== verification/HookDelivery.thy ===== *)
theory HookDelivery
  imports HookMessage Template ConfigDefaults
begin

text \<open>
  \<^verbatim>\<open>internal/hooks/delivery.go\<close>: the two channels of a notification. What a process does
  to the outside is a log of effects, in order; what it observes there (focus, Do Not Disturb,
  clocks, the outcome of a native submission) is a record. The callback of a first delivery is a
  function on any extension of the channels' state.
\<close>

datatype send_option =
    HookPresentation string string string string string
  | TerminalTarget | NoFocus | NoSound

datatype effect =
    WebhookQueued SendContext
  | Slept duration
  | DesktopSend status string string string "send_option list" bool
  | SystemMessage
  | WebhookShutdown duration
  | NotifierClosed

datatype desktop_error = PermissionDenied | SubmissionFailed

record channels =
  ch_log :: "effect list"
  ch_stamp :: "gotime option"

definition emit :: "effect \<Rightarrow> 'a channels_scheme \<Rightarrow> 'a channels_scheme" where
  "emit e ch = ch\<lparr>ch_log := ch_log ch @ [e]\<rparr>"

text \<open>
  The submission of the notifier, the two clock readings around the delay, and whether the cache
  directory is known, standard output writes and the stamp file can be written.
\<close>

record delivery_env =
  dv_product :: Product
  dv_terminalFocus :: bool
  dv_deadline :: "gotime option"
  dv_before :: gotime
  dv_after :: gotime
  dv_focused :: bool
  dv_dnd :: bool
  dv_asleep :: bool
  dv_send :: "desktop_error option"
  dv_macos :: bool
  dv_cacheDir :: bool
  dv_prints :: bool
  dv_stamps :: bool
  dv_branch :: string

record delivery =
  dl_webhookQueued :: bool
  dl_desktopDelivered :: bool

definition delivered :: "delivery \<Rightarrow> bool" where
  "delivered d \<longleftrightarrow> dl_webhookQueued d \<or> dl_desktopDelivered d"

definition maxNotifyDelaySeconds :: int where
  "maxNotifyDelaySeconds = 25"

definition joinMessageParts :: "string \<Rightarrow> string \<Rightarrow> string" where
  "joinMessageParts body actions = (if actions = [] then body else body @ '' '' @ actions)"

definition availableDesktopBudget :: "gotime option \<Rightarrow> gotime \<Rightarrow> duration option" where
  "availableDesktopBudget deadline now =
     map_option (\<lambda>d. wrap64 (time_sub d now - 5 * second)) deadline"

subsection \<open>Guidance after a refused permission\<close>

text \<open>The stamp's path, if known, and whether a reminder is due.\<close>

definition permissionGuidanceStamp :: "delivery_env \<Rightarrow> 'a channels_scheme \<Rightarrow> bool \<times> bool" where
  "permissionGuidanceStamp env ch =
     (if \<not> dv_cacheDir env then (False, True)
      else (case ch_stamp ch of
              Some t \<Rightarrow> if time_sub (dv_after env) t < 24 * 3600 * second then (True, False) else (True, True)
            | None \<Rightarrow> (True, True)))"

definition maybeEmitDesktopPermissionGuidance ::
    "delivery_env \<Rightarrow> desktop_error \<Rightarrow> 'a channels_scheme \<Rightarrow> 'a channels_scheme" where
  "maybeEmitDesktopPermissionGuidance env err ch =
     (if dv_product env = ProductCodex \<or> dv_product env = ProductQoder then ch
      else if \<not> dv_macos env then ch
      else if err \<noteq> PermissionDenied then ch
      else
        (let (stampPath, due) = permissionGuidanceStamp env ch in
         if \<not> due then ch
         else if \<not> dv_prints env then ch
         else if \<not> stampPath then emit SystemMessage ch
         else if \<not> dv_stamps env then emit SystemMessage ch
         else (emit SystemMessage ch)\<lparr>ch_stamp := Some (dv_after env)\<rparr>))"

subsection \<open>Desktop\<close>

definition clamped_delay :: "Config \<Rightarrow> int" where
  "clamped_delay cfg = min (GetNotifyDelaySeconds cfg) maxNotifyDelaySeconds"

definition budget_refuses :: "delivery_env \<Rightarrow> int \<Rightarrow> bool" where
  "budget_refuses env delay =
     (case availableDesktopBudget (dv_deadline env) (dv_before env) of
        None \<Rightarrow> False | Some budget \<Rightarrow> budget \<le> 0 \<or> budget < delay * second)"

definition deadline_passed :: "delivery_env \<Rightarrow> bool" where
  "deadline_passed env =
     (case availableDesktopBudget (dv_deadline env) (dv_after env) of
        None \<Rightarrow> False | Some budget \<Rightarrow> budget \<le> 0)"

definition dnd_active :: "(string \<Rightarrow> string) \<Rightarrow> Config \<Rightarrow> delivery_env \<Rightarrow> bool" where
  "dnd_active uni cfg env \<longleftrightarrow> GetDoNotDisturbMode uni cfg \<noteq> ''off'' \<and> dv_dnd env"

definition mute_options :: "(string \<Rightarrow> string) \<Rightarrow> Config \<Rightarrow> delivery_env \<Rightarrow> send_option list" where
  "mute_options uni cfg env =
     (if dnd_active uni cfg env then [NoSound]
      else if ShouldRespectDisplaySleep cfg \<and> dv_asleep env then [NoSound] else [])"

definition submit ::
    "delivery_env \<Rightarrow> status \<Rightarrow> string \<Rightarrow> string \<Rightarrow> string \<Rightarrow> send_option list \<Rightarrow> 'a channels_scheme
     \<Rightarrow> bool \<times> 'a channels_scheme" where
  "submit env st message sid cwd opts ch =
     (case dv_send env of
        Some err \<Rightarrow>
          (False, maybeEmitDesktopPermissionGuidance env err
                    (emit (DesktopSend st message sid cwd opts False) ch))
      | None \<Rightarrow> (True, emit (DesktopSend st message sid cwd opts True) ch))"

definition sendDesktopNotification ::
    "(string \<Rightarrow> string) \<Rightarrow> Config \<Rightarrow> delivery_env \<Rightarrow> status \<Rightarrow> string \<Rightarrow> string \<Rightarrow> string
     \<Rightarrow> send_option list \<Rightarrow> 'a channels_scheme \<Rightarrow> bool \<times> 'a channels_scheme" where
  "sendDesktopNotification uni cfg env st message sid cwd opts ch =
     (let delay = clamped_delay cfg in
      if budget_refuses env delay then (False, ch)
      else
        (let ch = (if 0 < delay then emit (Slept (delay * second)) ch else ch) in
         if deadline_passed env then (False, ch)
         else if ShouldNotifyOnlyWhenUnfocused cfg \<and> dv_focused env then (False, ch)
         else if dnd_active uni cfg env \<and> GetDoNotDisturbMode uni cfg = ''suppress'' then (False, ch)
         else submit env st message sid cwd (opts @ mute_options uni cfg env) ch))"

subsection \<open>Both channels\<close>

definition enhanced_message :: "string \<Rightarrow> string \<Rightarrow> string \<Rightarrow> string \<Rightarrow> string" where
  "enhanced_message sessionName gitBranch folderName joined =
     (if sessionName = ''unknown'' \<and> gitBranch = [] \<and> folderName = ''.'' then joined
      else if gitBranch \<noteq> [] then
        ''['' @ sessionName @ ''|'' @ gitBranch @ '' '' @ folderName @ ''] '' @ joined
      else ''['' @ sessionName @ '' '' @ folderName @ ''] '' @ joined)"

definition delivery_branch :: "delivery_env \<Rightarrow> details option \<Rightarrow> string" where
  "delivery_branch env det =
     (case det of
        None \<Rightarrow> dv_branch env
      | Some d \<Rightarrow> (case de_branch d of Some b \<Rightarrow> b | None \<Rightarrow> dv_branch env))"

definition presentation_options ::
    "delivery_env \<Rightarrow> details option \<Rightarrow> string \<Rightarrow> string \<Rightarrow> string \<Rightarrow> string \<Rightarrow> send_option list" where
  "presentation_options env det sessionName gitBranch folderName joined =
     (case det of
        None \<Rightarrow> []
      | Some d \<Rightarrow>
          if de_title d \<noteq> [] \<or> de_question d \<noteq> [] then
            [HookPresentation (if de_title d = [] then sessionName else de_title d)
               gitBranch folderName joined (de_question d)]
          else [])
     @ (if dv_product env = ProductQoder
        then (if dv_terminalFocus env then [TerminalTarget] else [NoFocus]) else [])"

definition webhook_context ::
    "(string \<Rightarrow> string) \<Rightarrow> delivery_env \<Rightarrow> status \<Rightarrow> string \<Rightarrow> string \<Rightarrow> string \<Rightarrow> string
     \<Rightarrow> details option \<Rightarrow> SendContext" where
  "webhook_context uni env st body actions sid cwd det =
     (let sessionName = GenerateSessionLabel uni sid;
          gitBranch = delivery_branch env det;
          folderName = path_Base cwd
      in \<lparr>sc_Status = st,
          sc_Message = enhanced_message sessionName gitBranch folderName (joinMessageParts body actions),
          sc_SessionID = sid, sc_CWD = cwd, sc_SessionName = sessionName, sc_GitBranch = gitBranch,
          sc_Folder = folderName, sc_RawBody = body, sc_ActionSummary = actions,
          sc_AgentSource = product_string (dv_product env)\<rparr>)"

definition queue_webhook ::
    "Config \<Rightarrow> SendContext \<Rightarrow> ('a channels_scheme \<Rightarrow> 'a channels_scheme) \<Rightarrow> 'a channels_scheme
     \<Rightarrow> bool \<times> 'a channels_scheme" where
  "queue_webhook cfg ctx onFirst ch =
     (if IsStatusWebhookEnabled cfg (status_string (sc_Status ctx))
      then (True, onFirst (emit (WebhookQueued ctx) ch)) else (False, ch))"

definition sendNotifications ::
    "(string \<Rightarrow> string) \<Rightarrow> Config \<Rightarrow> delivery_env \<Rightarrow> status \<Rightarrow> string \<Rightarrow> string \<Rightarrow> string \<Rightarrow> string
     \<Rightarrow> ('a channels_scheme \<Rightarrow> 'a channels_scheme) \<Rightarrow> details option \<Rightarrow> 'a channels_scheme
     \<Rightarrow> delivery \<times> 'a channels_scheme" where
  "sendNotifications uni cfg env st body actions sid cwd onFirst det ch =
     (let ctx = webhook_context uni env st body actions sid cwd det;
          (queued, ch) = queue_webhook cfg ctx onFirst ch
      in if IsStatusDesktopEnabled cfg (status_string st) then
           (let opts = presentation_options env det (sc_SessionName ctx) (sc_GitBranch ctx)
                         (sc_Folder ctx) (joinMessageParts body actions);
                (sent, ch) = sendDesktopNotification uni cfg env st (sc_Message ctx) sid cwd opts ch;
                ch = (if sent \<and> \<not> queued then onFirst ch else ch)
            in (\<lparr>dl_webhookQueued = queued, dl_desktopDelivered = sent\<rparr>, ch))
         else (\<lparr>dl_webhookQueued = queued, dl_desktopDelivered = False\<rparr>, ch))"

subsection \<open>What each channel does\<close>

lemma ch_log_emit [simp]: "ch_log (emit e ch) = ch_log ch @ [e]"
  by (simp add: emit_def)

lemma delay_bounds: "0 \<le> clamped_delay cfg \<and> clamped_delay cfg \<le> 25"
  by (auto simp: clamped_delay_def GetNotifyDelaySeconds_def maxNotifyDelaySeconds_def
      split: option.split)

text \<open>
  The effects a desktop attempt may have, with what must hold at the time. A submission is muted
  whenever Do Not Disturb or a sleeping display asks for it.
\<close>

definition muting_due :: "(string \<Rightarrow> string) \<Rightarrow> Config \<Rightarrow> delivery_env \<Rightarrow> bool" where
  "muting_due uni cfg env \<longleftrightarrow>
     dnd_active uni cfg env \<or> ShouldRespectDisplaySleep cfg \<and> dv_asleep env"

definition desktop_effect_ok :: "(string \<Rightarrow> string) \<Rightarrow> Config \<Rightarrow> delivery_env \<Rightarrow> effect \<Rightarrow> bool" where
  "desktop_effect_ok uni cfg env e =
     (case e of
        Slept d \<Rightarrow> 0 < d \<and> d = clamped_delay cfg * second \<and> \<not> budget_refuses env (clamped_delay cfg)
      | DesktopSend st message sid cwd opts sent \<Rightarrow>
          \<not> budget_refuses env (clamped_delay cfg) \<and> \<not> deadline_passed env
          \<and> \<not> (ShouldNotifyOnlyWhenUnfocused cfg \<and> dv_focused env)
          \<and> \<not> (dnd_active uni cfg env \<and> GetDoNotDisturbMode uni cfg = ''suppress'')
          \<and> (muting_due uni cfg env \<longrightarrow> NoSound \<in> set opts)
      | SystemMessage \<Rightarrow> True
      | _ \<Rightarrow> False)"

lemma guidance_log:
  "\<exists>rest. ch_log (maybeEmitDesktopPermissionGuidance env err ch) = ch_log ch @ rest
           \<and> list_all (desktop_effect_ok uni cfg env') rest"
  by (auto simp: maybeEmitDesktopPermissionGuidance_def desktop_effect_ok_def split: prod.split)

lemma submit_log:
  assumes "\<And>sent. desktop_effect_ok uni cfg env (DesktopSend st message sid cwd opts sent)"
  shows "\<exists>rest. ch_log (snd (submit env st message sid cwd opts ch)) = ch_log ch @ rest \<and>
     list_all (desktop_effect_ok uni cfg env) rest"
proof (cases "dv_send env")
  case (Some err)
  obtain rest where "ch_log (maybeEmitDesktopPermissionGuidance env err
        (emit (DesktopSend st message sid cwd opts False) ch))
      = ch_log (emit (DesktopSend st message sid cwd opts False) ch) @ rest"
    "list_all (desktop_effect_ok uni cfg env) rest"
    using guidance_log by blast
  with Some assms show ?thesis
    by (intro exI [of _ "DesktopSend st message sid cwd opts False # rest"]) (simp add: submit_def)
qed (use assms in \<open>simp add: submit_def\<close>)

lemma desktop_log:
  "\<exists>rest. ch_log (snd (sendDesktopNotification uni cfg env st message sid cwd opts ch)) = ch_log ch @ rest
     \<and> list_all (desktop_effect_ok uni cfg env) rest"
proof (cases "budget_refuses env (clamped_delay cfg)")
  case nb: False
  let ?ch = "if 0 < clamped_delay cfg then emit (Slept (clamped_delay cfg * second)) ch else ch"
  have sl: "\<exists>rest. ch_log ?ch = ch_log ch @ rest \<and> list_all (desktop_effect_ok uni cfg env) rest"
    using nb by (simp add: desktop_effect_ok_def second_def)
  show ?thesis
  proof (cases "deadline_passed env \<or> ShouldNotifyOnlyWhenUnfocused cfg \<and> dv_focused env
      \<or> dnd_active uni cfg env \<and> GetDoNotDisturbMode uni cfg = ''suppress''")
    case True
    then have "snd (sendDesktopNotification uni cfg env st message sid cwd opts ch) = ?ch"
      using nb by (auto simp: sendDesktopNotification_def Let_def)
    with sl show ?thesis by simp
  next
    case False
    then have "snd (sendDesktopNotification uni cfg env st message sid cwd opts ch)
        = snd (submit env st message sid cwd (opts @ mute_options uni cfg env) ?ch)"
      using nb by (auto simp: sendDesktopNotification_def Let_def)
    moreover have ok: "desktop_effect_ok uni cfg env
        (DesktopSend st message sid cwd (opts @ mute_options uni cfg env) sent)" for sent
      using nb False by (simp add: desktop_effect_ok_def muting_due_def mute_options_def)
    obtain r1 where "ch_log ?ch = ch_log ch @ r1" "list_all (desktop_effect_ok uni cfg env) r1"
      using sl by blast
    moreover obtain r2 where
      "ch_log (snd (submit env st message sid cwd (opts @ mute_options uni cfg env) ?ch)) = ch_log ?ch @ r2"
      "list_all (desktop_effect_ok uni cfg env) r2"
      using submit_log [OF ok] by blast
    ultimately show ?thesis by (intro exI [of _ "r1 @ r2"]) simp
  qed
qed (simp add: sendDesktopNotification_def Let_def)

text \<open>A callback that only records does not touch the log.\<close>

definition silent_callback :: "('a channels_scheme \<Rightarrow> 'a channels_scheme) \<Rightarrow> bool" where
  "silent_callback onFirst \<longleftrightarrow> (\<forall>ch. ch_log (onFirst ch) = ch_log ch)"

definition queued_effects :: "Config \<Rightarrow> SendContext \<Rightarrow> effect list" where
  "queued_effects cfg ctx =
     (if IsStatusWebhookEnabled cfg (status_string (sc_Status ctx)) then [WebhookQueued ctx] else [])"

lemma delivery_log:
  assumes "silent_callback onFirst"
  shows "\<exists>rest. ch_log (snd (sendNotifications uni cfg env st body actions sid cwd onFirst det ch))
      = ch_log ch @ queued_effects cfg (webhook_context uni env st body actions sid cwd det) @ rest
     \<and> list_all (desktop_effect_ok uni cfg env) rest
     \<and> (\<not> IsStatusDesktopEnabled cfg (status_string st) \<longrightarrow> rest = [])"
proof -
  let ?ctx = "webhook_context uni env st body actions sid cwd det"
  let ?q = "queue_webhook cfg ?ctx onFirst ch"
  have q: "ch_log (snd ?q) = ch_log ch @ queued_effects cfg ?ctx"
    using assms by (simp add: queue_webhook_def queued_effects_def silent_callback_def)
  obtain rest where "ch_log (snd (sendDesktopNotification uni cfg env st (sc_Message ?ctx) sid cwd
      (presentation_options env det (sc_SessionName ?ctx) (sc_GitBranch ?ctx) (sc_Folder ?ctx)
        (joinMessageParts body actions)) (snd ?q))) = ch_log (snd ?q) @ rest"
    "list_all (desktop_effect_ok uni cfg env) rest"
    using desktop_log by blast
  with q assms show ?thesis
    by (auto simp: sendNotifications_def Let_def silent_callback_def split: prod.split)
qed

subsection \<open>Properties\<close>

fun is_webhook :: "effect \<Rightarrow> bool" where
  "is_webhook (WebhookQueued ctx) = True"
| "is_webhook e = False"

text \<open>The effects an operation added.\<close>

definition added :: "'a channels_scheme \<Rightarrow> 'a channels_scheme \<Rightarrow> effect list" where
  "added ch ch' = drop (length (ch_log ch)) (ch_log ch')"

lemma added_simp: "ch_log ch' = ch_log ch @ rest \<Longrightarrow> added ch ch' = rest"
  by (simp add: added_def)

lemma desktop_not_webhook: "list_all (desktop_effect_ok uni cfg env) es \<Longrightarrow> filter is_webhook es = []"
proof (induction es)
  case (Cons e es)
  then show ?case by (cases e) (simp_all add: desktop_effect_ok_def)
qed simp

text \<open>
  Property C36. The webhook channel does not depend on the desktop one: a notification queues its
  webhook exactly once if the status has webhooks enabled and never otherwise, before any desktop
  effect, whatever the delay, the focus, Do Not Disturb, the display, the deadline or a desktop
  failure.
\<close>

theorem webhook_independent_of_desktop:
  assumes "silent_callback onFirst"
    and "sendNotifications uni cfg env st body actions sid cwd onFirst det ch = (d, ch')"
  shows "filter is_webhook (added ch ch')
      = queued_effects cfg (webhook_context uni env st body actions sid cwd det)
    \<and> takeWhile is_webhook (added ch ch') = filter is_webhook (added ch ch')
    \<and> dl_webhookQueued d = IsStatusWebhookEnabled cfg (status_string st)"
proof -
  obtain rest where r: "added ch ch'
      = queued_effects cfg (webhook_context uni env st body actions sid cwd det) @ rest"
    "list_all (desktop_effect_ok uni cfg env) rest"
    using delivery_log [OF assms(1), of uni cfg env st body actions sid cwd det ch] assms(2)
    by (auto dest: added_simp)
  have "dl_webhookQueued d = IsStatusWebhookEnabled cfg (status_string st)"
    using assms(2)
    by (auto simp: sendNotifications_def queue_webhook_def webhook_context_def Let_def
        split: prod.splits if_splits)
  moreover have "takeWhile is_webhook rest = []"
    using r(2) by (cases rest) (auto simp: desktop_effect_ok_def split: effect.splits)
  ultimately show ?thesis using r desktop_not_webhook [OF r(2)]
    by (auto simp: queued_effects_def)
qed

text \<open>
  Property C3. A banner is submitted only when it should be: never before the status is enabled,
  never once the host's deadline leaves no time, never over a focused terminal or Do Not Disturb
  when those suppress, and without sound whenever Do Not Disturb or a sleeping display mutes it.
\<close>

theorem desktop_submission_allowed:
  assumes "silent_callback onFirst"
    and "sendNotifications uni cfg env st body actions sid cwd onFirst det ch = (d, ch')"
    and "DesktopSend st' message sid' cwd' opts sent \<in> set (added ch ch')"
  shows "IsStatusDesktopEnabled cfg (status_string st)
    \<and> \<not> deadline_passed env
    \<and> \<not> (ShouldNotifyOnlyWhenUnfocused cfg \<and> dv_focused env)
    \<and> \<not> (GetDoNotDisturbMode uni cfg = ''suppress'' \<and> dv_dnd env)
    \<and> (GetDoNotDisturbMode uni cfg = ''silent'' \<and> dv_dnd env
        \<or> ShouldRespectDisplaySleep cfg \<and> dv_asleep env \<longrightarrow> NoSound \<in> set opts)"
proof -
  obtain rest where r: "added ch ch'
      = queued_effects cfg (webhook_context uni env st body actions sid cwd det) @ rest"
    "list_all (desktop_effect_ok uni cfg env) rest"
    "\<not> IsStatusDesktopEnabled cfg (status_string st) \<longrightarrow> rest = []"
    using delivery_log [OF assms(1), of uni cfg env st body actions sid cwd det ch] assms(2)
    by (auto dest: added_simp)
  with assms(3) have "DesktopSend st' message sid' cwd' opts sent \<in> set rest"
    by (auto simp: queued_effects_def split: if_splits)
  with r show ?thesis
    by (auto simp: list_all_iff desktop_effect_ok_def dnd_active_def muting_due_def dest!: bspec)
qed

text \<open>
  Property C27. The grace period never costs the hook its life: it lasts more than zero and at most
  25 seconds, with or without a host deadline, and under a host deadline (less than 2^62
  nanoseconds away, so that Go's subtraction does not saturate) it ends at least five seconds
  before it.
\<close>

theorem desktop_delay_within_budget:
  assumes "silent_callback onFirst"
    and "sendNotifications uni cfg env st body actions sid cwd onFirst det ch = (d, ch')"
    and "Slept w \<in> set (added ch ch')"
  shows "0 < w \<and> w \<le> 25 * second \<and>
    (\<forall>t. dv_deadline env = Some t \<and> \<bar>t - dv_before env\<bar> < 2 ^ 62 \<longrightarrow>
         dv_before env + w + 5 * second \<le> t)"
proof -
  obtain rest where r: "added ch ch'
      = queued_effects cfg (webhook_context uni env st body actions sid cwd det) @ rest"
    "list_all (desktop_effect_ok uni cfg env) rest"
    using delivery_log [OF assms(1), of uni cfg env st body actions sid cwd det ch] assms(2)
    by (auto dest: added_simp)
  with assms(3) have "Slept w \<in> set rest"
    by (auto simp: queued_effects_def split: if_splits)
  with r(2) have w: "0 < w" "w = clamped_delay cfg * second" "\<not> budget_refuses env (clamped_delay cfg)"
    by (auto simp: list_all_iff desktop_effect_ok_def dest!: bspec)
  have "dv_before env + w + 5 * second \<le> t"
    if t: "dv_deadline env = Some t" "\<bar>t - dv_before env\<bar> < 2 ^ 62" for t
  proof -
    have "time_sub t (dv_before env) = t - dv_before env" using t(2) by (auto simp: time_sub_def)
    moreover have "in_int64 (t - dv_before env - 5 * second)"
      using t(2) by (auto simp: in_int64_def second_def)
    ultimately have "availableDesktopBudget (dv_deadline env) (dv_before env)
        = Some (t - dv_before env - 5 * second)"
      by (simp add: availableDesktopBudget_def t(1))
    with w show ?thesis by (auto simp: budget_refuses_def second_def)
  qed
  with w delay_bounds [of cfg] show ?thesis by (auto simp: second_def)
qed

text \<open>What the delivery keeps of an extension of the channels: all its own effects leave it alone.\<close>

lemma submit_keeps:
  assumes "\<And>e ch. P ch \<Longrightarrow> P (emit e ch)" and "\<And>s ch. P ch \<Longrightarrow> P (ch\<lparr>ch_stamp := s\<rparr>)"
    and "P ch"
  shows "P (snd (submit env st message sid cwd opts ch))"
proof -
  have "P (maybeEmitDesktopPermissionGuidance env err c)" if "P c" for err c
    using assms(1,2) that
    by (simp add: maybeEmitDesktopPermissionGuidance_def split_beta)
  with assms(1,3) show ?thesis by (simp add: submit_def split: option.split)
qed

lemma sendDesktop_keeps:
  assumes "\<And>e ch. P ch \<Longrightarrow> P (emit e ch)" and "\<And>s ch. P ch \<Longrightarrow> P (ch\<lparr>ch_stamp := s\<rparr>)"
    and "P ch"
  shows "P (snd (sendDesktopNotification uni cfg env st message sid cwd opts ch))"
proof -
  have s: "P (snd (submit env st message sid cwd opts c))" if "P c" for opts c
    using assms(1,2) that by (rule submit_keeps)
  show ?thesis by (simp add: sendDesktopNotification_def Let_def assms(1,3) s)
qed

lemma sendNotifications_keeps:
  assumes "\<And>e ch. P ch \<Longrightarrow> P (emit e ch)" and "\<And>s ch. P ch \<Longrightarrow> P (ch\<lparr>ch_stamp := s\<rparr>)"
    and "\<And>ch. P ch \<Longrightarrow> P (onFirst ch)" and "P ch"
  shows "P (snd (sendNotifications uni cfg env st body actions sid cwd onFirst det ch))"
proof -
  have q: "P (snd (queue_webhook cfg ctx onFirst ch))" for ctx
    using assms by (simp add: queue_webhook_def)
  have d: "P (snd (sendDesktopNotification uni cfg env st message sid cwd opts c))" if "P c"
    for message opts c
    using assms(1,2) that by (rule sendDesktop_keeps)
  show ?thesis
    by (simp add: sendNotifications_def Let_def split_beta q d assms(3))
qed

record counted = channels +
  cn_count :: nat

definition count_call :: "counted \<Rightarrow> counted" where
  "count_call c = c\<lparr>cn_count := Suc (cn_count c)\<rparr>"

lemma count_emit [simp]: "cn_count (emit e ch) = cn_count ch"
  by (simp add: emit_def)

lemma count_desktop [simp]:
  "cn_count (snd (sendDesktopNotification uni cfg env st message sid cwd opts ch)) = cn_count ch"
  by (auto simp: sendDesktopNotification_def submit_def maybeEmitDesktopPermissionGuidance_def Let_def
      split: option.split prod.split)

text \<open>
  Theorem. The record of a notification is written exactly when something was shown or queued:
  the callback runs once if either channel delivered and not at all otherwise, even when both did.
\<close>

theorem first_delivery_recorded_once:
  "let (d, ch') = sendNotifications uni cfg env st body actions sid cwd count_call det ch
   in cn_count ch' = cn_count ch + (if delivered d then 1 else 0)"
proof -
  let ?ctx = "webhook_context uni env st body actions sid cwd det"
  have q: "cn_count (snd (queue_webhook cfg ?ctx count_call ch))
      = cn_count ch + (if fst (queue_webhook cfg ?ctx count_call ch) then 1 else 0)"
    by (simp add: queue_webhook_def count_call_def)
  have dt: "cn_count (snd (sendDesktopNotification uni cfg env st message sid cwd opts c)) = cn_count c"
    for message opts c by simp
  from q dt show ?thesis
    by (auto simp: sendNotifications_def Let_def delivered_def count_call_def split_beta
        split: if_splits)
qed

definition sample_delivery :: delivery_env where
  "sample_delivery =
     \<lparr>dv_product = ProductClaude, dv_terminalFocus = False, dv_deadline = Some (30 * second),
      dv_before = 0, dv_after = 3 * second, dv_focused = False, dv_dnd = True, dv_asleep = False,
      dv_send = None, dv_macos = True, dv_cacheDir = True, dv_prints = True, dv_stamps = True,
      dv_branch = ''main''\<rparr>"

text \<open>Desktop on, three seconds of grace, quiet under Do Not Disturb.\<close>

definition quiet_cfg :: Config where
  "quiet_cfg =
     (let c = buildDefaultConfig concat ''/p'' in
      c\<lparr>c_Notifications := (c_Notifications c)\<lparr>nc_NotifyDelaySeconds := Some 3,
          nc_RespectDoNotDisturb := Some ''silent''\<rparr>\<rparr>)"

definition no_effects :: channels where
  "no_effects = \<lparr>ch_log = [], ch_stamp = None\<rparr>"

abbreviation sample_send :: "delivery \<times> channels" where
  "sample_send \<equiv> sendNotifications (\<lambda>s. s) quiet_cfg sample_delivery StatusTaskComplete ''ok'' []
     ''unknown'' ''/w'' (\<lambda>ch. ch) None no_effects"

lemma quiet_settings:
  "clamped_delay quiet_cfg = 3" "GetDoNotDisturbMode uni quiet_cfg = ''silent''"
  "ShouldNotifyOnlyWhenUnfocused quiet_cfg = False"
  "IsStatusDesktopEnabled quiet_cfg (status_string StatusTaskComplete)"
  "\<not> IsStatusWebhookEnabled quiet_cfg (status_string StatusTaskComplete)"
proof -
  show "clamped_delay quiet_cfg = 3" "ShouldNotifyOnlyWhenUnfocused quiet_cfg = False"
    by (simp_all add: clamped_delay_def GetNotifyDelaySeconds_def maxNotifyDelaySeconds_def
        ShouldNotifyOnlyWhenUnfocused_def quiet_cfg_def buildDefaultConfig_def Let_def)
  have "TrimSpace ''silent'' = ''silent''" by (simp add: visible_def)
  moreover have "ToLower uni ''silent'' = ''silent''"
    by (simp add: ToLower_def is_ascii_def ascii_lower_def)
  ultimately show "GetDoNotDisturbMode uni quiet_cfg = ''silent''"
    by (simp add: GetDoNotDisturbMode_def quiet_cfg_def Let_def)
  show "IsStatusDesktopEnabled quiet_cfg (status_string StatusTaskComplete)"
    "\<not> IsStatusWebhookEnabled quiet_cfg (status_string StatusTaskComplete)"
    by (simp_all add: IsStatusDesktopEnabled_def IsStatusWebhookEnabled_def IsDesktopEnabled_def
        IsWebhookEnabled_def IsStatusEnabled_def status_lookup_def isStatusChannelEnabled_def
        quiet_cfg_def buildDefaultConfig_def defaultStatuses_def default_status_list_def titled_def Let_def)
qed

lemma sample_sent:
  "added no_effects (snd sample_send)
     = [Slept (3 * second), DesktopSend StatusTaskComplete ''[unknown|main w] ok'' ''unknown'' ''/w'' [NoSound] True]"
proof -
  have "GenerateSessionLabel (\<lambda>s. s) ''unknown'' = ''unknown''"
    by (simp add: GenerateSessionLabel_def GenerateSessionName_def)
  moreover have "path_Base ''/w'' = ''w''" by code_simp
  ultimately show ?thesis
    using quiet_settings
    by (simp add: sendNotifications_def queue_webhook_def webhook_context_def sendDesktopNotification_def
        budget_refuses_def deadline_passed_def availableDesktopBudget_def time_sub_def second_def
        in_int64_def dnd_active_def mute_options_def submit_def emit_def added_def no_effects_def
        presentation_options_def enhanced_message_def delivery_branch_def joinMessageParts_def
        sample_delivery_def Let_def)
qed

text \<open>A webhook beside the desktop, which here stays silent because the deadline has passed.\<close>

definition webhook_cfg :: Config where
  "webhook_cfg =
     quiet_cfg\<lparr>c_Notifications := (c_Notifications quiet_cfg)
       \<lparr>nc_Webhook := (nc_Webhook (c_Notifications quiet_cfg))\<lparr>wc_Enabled := True\<rparr>\<rparr>\<rparr>"

lemma webhook_independent_of_desktop_witness:
  "let env = sample_delivery\<lparr>dv_deadline := Some 0\<rparr>;
       (d, ch') = sendNotifications (\<lambda>s. s) webhook_cfg env StatusTaskComplete ''ok'' [] ''unknown'' ''/w''
                    (\<lambda>ch. ch) None no_effects
   in length (filter is_webhook (added no_effects ch')) = 1 \<and> dl_webhookQueued d"
proof -
  let ?env = "sample_delivery\<lparr>dv_deadline := Some 0\<rparr>"
  have s: "silent_callback (\<lambda>ch :: channels. ch)" by (simp add: silent_callback_def)
  have "IsStatusWebhookEnabled webhook_cfg (status_string StatusTaskComplete)"
    by (simp add: webhook_cfg_def IsStatusWebhookEnabled_def IsWebhookEnabled_def IsStatusEnabled_def
        status_lookup_def isStatusChannelEnabled_def quiet_cfg_def buildDefaultConfig_def
        defaultStatuses_def default_status_list_def titled_def Let_def)
  with webhook_independent_of_desktop [OF s surjective_pairing, where uni = "\<lambda>s. s" and cfg = webhook_cfg
      and env = ?env and st = StatusTaskComplete and body = "''ok''" and actions = "[]" and sid = "''unknown''"
      and cwd = "''/w''" and det = None and ch = no_effects]
  show ?thesis by (simp add: queued_effects_def webhook_context_def Let_def split_beta)
qed

lemma desktop_submission_allowed_witness:
  "\<not> deadline_passed sample_delivery \<and> NoSound \<in> set [NoSound]"
proof -
  have s: "silent_callback (\<lambda>ch :: channels. ch)" by (simp add: silent_callback_def)
  have "DesktopSend StatusTaskComplete ''[unknown|main w] ok'' ''unknown'' ''/w'' [NoSound] True
      \<in> set (added no_effects (snd sample_send))" by (simp add: sample_sent)
  from desktop_submission_allowed [OF s surjective_pairing this] show ?thesis by simp
qed

lemma desktop_delay_within_budget_witness:
  "0 < 3 * second \<and> 3 * second \<le> 25 * second \<and> 0 + 3 * second + 5 * second \<le> 30 * second"
proof -
  have s: "silent_callback (\<lambda>ch :: channels. ch)" by (simp add: silent_callback_def)
  have "Slept (3 * second) \<in> set (added no_effects (snd sample_send))" by (simp add: sample_sent)
  from desktop_delay_within_budget [OF s surjective_pairing this] show ?thesis
    by (simp add: sample_delivery_def second_def)
qed

end
