(* ===== verification/HookWorld.thy ===== *)
theory HookWorld
  imports HookDelivery HookEvent Dedup SessionState TeamState
begin

text \<open>
  What a hook process of \<^verbatim>\<open>internal/hooks\<close> shares with the others (lock files, session
  states, team states), next to the effects of its own delivery, and what it observes while it
  runs: its clock in Unix seconds by phase, the transcript, the team directory and the host.
\<close>

datatype phase = AtEarly | AtClassify | AtTeam | AtClaim | AtLock | AtQuestion | AtContent | AtRecord | AtCleanup

record hook_world = channels +
  hw_locks :: fsys
  hw_states :: state_store
  hw_stateTimes :: "string \<rightharpoonup> int"
  hw_teams :: team_store

text \<open>
  The transcript at the event's path: whether it is there, its size before the first parse, what
  each parse gives (at Stop, for the content, for the message), the polls of the settle loop and
  its age at the staleness check.
\<close>

record transcript_env =
  tx_exists :: bool
  tx_size :: "int option"
  tx_parsed :: "message list option"
  tx_polls :: "poll list"
  tx_age :: int
  tx_reparsed :: "message list option"
  tx_reread :: "message list option"

record hook_env =
  he_clock :: "phase \<Rightarrow> int"
  he_decode :: "string \<Rightarrow> event_error + Event"
  he_judge :: bool
  he_ghostty :: "string option"
  he_transcript :: transcript_env
  he_teamEntries :: "team_entry list"
  he_teamConfig :: "string \<Rightarrow> team_config option"
  he_branch :: string
  he_titles :: title_env
  he_delivery :: delivery_env

datatype hook_error =
    DecodeError event_error | UnknownHookEvent | UnsupportedProduct
  | RecordLeadFailed team_error | RecordIdleFailed team_error | ClaimFailed team_error
  | LockFailed lock_error

subsection \<open>Writing session states\<close>

text \<open>A successful save also sets the modification time of the session's file.\<close>

definition write_state ::
    "int \<Rightarrow> string \<Rightarrow> (state_store \<Rightarrow> state_error option \<times> state_store) \<Rightarrow> hook_world \<Rightarrow> hook_world" where
  "write_state now sid upd w =
     (case upd (hw_states w) of
        (None, m) \<Rightarrow> w\<lparr>hw_states := m, hw_stateTimes := (hw_stateTimes w)(sid \<mapsto> now)\<rparr>
      | (Some e, m) \<Rightarrow> w\<lparr>hw_states := m\<rparr>)"

definition stale_state :: "int \<Rightarrow> int \<Rightarrow> hook_world \<Rightarrow> string \<Rightarrow> bool" where
  "stale_state now maxAge w sid =
     (case hw_stateTimes w sid of
        None \<Rightarrow> False
      | Some t \<Rightarrow> t \<noteq> 0 \<and> 0 \<le> wrap64 (now - t) \<and> maxAge < wrap64 (now - t)
                  \<and> \<not> st_readonly (hw_states w) sid)"

definition state_Cleanup :: "int \<Rightarrow> int \<Rightarrow> hook_world \<Rightarrow> hook_world" where
  "state_Cleanup now maxAge w =
     w\<lparr>hw_states := (hw_states w)\<lparr>st_files :=
          (\<lambda>sid. if stale_state now maxAge w sid then None else st_files (hw_states w) sid)\<rparr>,
       hw_stateTimes := (\<lambda>sid. if stale_state now maxAge w sid then None else hw_stateTimes w sid)\<rparr>"

definition cleanupOldLocks :: "hook_env \<Rightarrow> hook_world \<Rightarrow> hook_world" where
  "cleanupOldLocks env w =
     (let now = he_clock env AtCleanup in
      state_Cleanup now 60 (w\<lparr>hw_locks := dedup_Cleanup now 60 (hw_locks w)\<rparr>))"

text \<open>The record of a delivered notification, written by the callback of the first delivery.\<close>

definition record_delivery ::
    "hook_env \<Rightarrow> string \<Rightarrow> status \<Rightarrow> string \<Rightarrow> string \<Rightarrow> string \<Rightarrow> string \<Rightarrow> string \<Rightarrow> hook_world
     \<Rightarrow> hook_world" where
  "record_delivery env stateKey st message stopHash body turn event w =
     (let now = he_clock env AtRecord in
      write_state now stateKey
        (UpdateLastNotificationWithIdentity now stateKey st message stopHash body turn event) w)"

lemma record_delivery_silent [simp]: "silent_callback (record_delivery env k st m h b t e)"
  by (auto simp: silent_callback_def record_delivery_def write_state_def Let_def
      split: prod.split option.split)

end
