(* ===== verification/HookPolicy.thy ===== *)
theory HookPolicy
  imports HookWorld
begin

text \<open>
  Classification of an event by product: \<^verbatim>\<open>internal/hooks/classification.go\<close>,
  \<^verbatim>\<open>claude_policy.go\<close>, \<^verbatim>\<open>codex_policy.go\<close> and \<^verbatim>\<open>qoder_policy.go\<close>.
  A classifier gives an error, nothing to notify, or a status with what is known of the turn.
\<close>

record classification =
  cl_status :: status
  cl_messages :: "message list"
  cl_insight :: "TurnInsight option"
  cl_cleanup :: bool

type_synonym classified = "(hook_error + classification option) \<times> hook_world"

definition plain :: "status \<Rightarrow> bool \<Rightarrow> classification" where
  "plain st cleanup = \<lparr>cl_status = st, cl_messages = [], cl_insight = None, cl_cleanup = cleanup\<rparr>"

subsection \<open>Interactive tools\<close>

definition handlePreToolUse ::
    "hook_env \<Rightarrow> string \<Rightarrow> string \<Rightarrow> string \<Rightarrow> hook_world \<Rightarrow> status \<times> hook_world" where
  "handlePreToolUse env cwd toolName stateKey w =
     (let st = GetStatusForPreToolUse toolName; now = he_clock env AtClassify in
      if st = StatusPlanReady \<or> st = StatusQuestion
      then (st, write_state now stateKey (UpdateInteractiveTool now stateKey toolName cwd) w)
      else (st, w))"

definition tool_insight :: "tables \<Rightarrow> Config \<Rightarrow> status \<Rightarrow> string \<Rightarrow> string \<Rightarrow> TurnInsight option" where
  "tool_insight tb cfg st toolName toolInput =
     (if toolName = ''AskUserQuestion'' then
        (let i = questionInsight tb toolInput False in
         Some (if in_Body i = [] then i\<lparr>in_Body := simple_summary tb cfg st\<rparr> else i))
      else None)"

definition classifyInteractiveTool ::
    "tables \<Rightarrow> Config \<Rightarrow> hook_env \<Rightarrow> Event \<Rightarrow> string \<Rightarrow> string \<Rightarrow> string \<Rightarrow> hook_world \<Rightarrow> classified" where
  "classifyInteractiveTool tb cfg env ev toolName toolInput stateKey w =
     (let (st, w) = handlePreToolUse env (ses_CWD (ev_Session ev)) toolName stateKey w in
      (Inr (Some \<lparr>cl_status = st, cl_messages = [],
                  cl_insight = tool_insight tb cfg st toolName toolInput, cl_cleanup = False\<rparr>), w))"

subsection \<open>Claude\<close>

definition analyze :: "tables \<Rightarrow> Config \<Rightarrow> message list \<Rightarrow> status" where
  "analyze tb cfg = analyze_messages (tb_uni tb) (tb_parseTime tb) cfg"

text \<open>The transcript as a Stop or SubagentStop leaves it, after waiting if no final text came.\<close>

definition stop_transcript ::
    "tables \<Rightarrow> Config \<Rightarrow> hook_env \<Rightarrow> Event \<Rightarrow> string \<Rightarrow> status \<times> message list" where
  "stop_transcript tb cfg env ev final =
     (let tx = he_transcript env;
          fileThere = (ses_TranscriptPath (ev_Session ev) \<noteq> [] \<and> tx_exists tx);
          r = handleStopEvent (analyze tb cfg) fileThere (tx_parsed tx)
      in if TrimSpace final = [] then
           settleClaudeTranscript (analyze tb cfg) (tb_parseTime tb) fileThere
             (transcriptSizeBeforeParse
                (if ses_TranscriptPath (ev_Session ev) = [] then None else tx_size tx))
             (tx_polls tx) r
         else r)"

definition staleTranscriptSeconds :: int where
  "staleTranscriptSeconds = 10 * 60"

definition enriched_stop ::
    "tables \<Rightarrow> Config \<Rightarrow> status \<Rightarrow> string \<Rightarrow> message list \<Rightarrow> classification" where
  "enriched_stop tb cfg st final messages =
     (let (st, insight) = enrichClaudeStop (tb_uni tb) (tb_parseTime tb) (structured_summary tb cfg)
                            cfg st final messages
      in \<lparr>cl_status = st, cl_messages = messages, cl_insight = insight, cl_cleanup = True\<rparr>)"

text \<open>Whether a lead's Stop may notify: an error, or the answer with the team's new state.\<close>

definition claim_lead ::
    "hook_env \<Rightarrow> team_info \<Rightarrow> hook_world \<Rightarrow> (hook_error + bool) \<times> hook_world" where
  "claim_lead env info w =
     (case RecordLeadStopped (he_clock env AtTeam) (ti_TeamName info) (hw_teams w) of
        (Some e, m) \<Rightarrow> (Inl (RecordLeadFailed e), w\<lparr>hw_teams := m\<rparr>)
      | (None, m) \<Rightarrow>
          (case ClaimAllIdle (he_clock env AtClaim) (ti_TeamName info) (ti_Members info) m of
             (Inl e, m') \<Rightarrow> (Inl (ClaimFailed e), w\<lparr>hw_teams := m'\<rparr>)
           | (Inr claimed, m') \<Rightarrow> (Inr claimed, w\<lparr>hw_teams := m'\<rparr>)))"

definition team_gate ::
    "Config \<Rightarrow> hook_env \<Rightarrow> string \<Rightarrow> hook_world \<Rightarrow> (hook_error + bool) \<times> hook_world" where
  "team_gate cfg env sid w =
     (if GetTeamMode cfg = ''wait-all'' then
        (case DetectTeamLead sid (he_teamEntries env) of
           None \<Rightarrow> (Inr True, w) | Some info \<Rightarrow> claim_lead env info w)
      else if GetTeamMode cfg = ''never'' then
        (Inr (DetectTeamLead sid (he_teamEntries env) = None), w)
      else (Inr True, w))"

definition classifyClaudeStop ::
    "tables \<Rightarrow> Config \<Rightarrow> hook_env \<Rightarrow> Event \<Rightarrow> string \<Rightarrow> hook_world \<Rightarrow> classified" where
  "classifyClaudeStop tb cfg env ev final w =
     (if ShouldSuppressForSubagents cfg \<and> isSubagentTranscript (ses_TranscriptPath (ev_Session ev))
      then (Inr None, w)
      else
        (let (st, messages) = stop_transcript tb cfg env ev final in
         if staleTranscriptSeconds < tx_age (he_transcript env)
            \<and> \<not> claudeStopHasUnflushedReply (tb_parseTime tb) messages final
         then (Inr None, cleanupOldLocks env w)
         else (case team_gate cfg env (ses_SessionID (ev_Session ev)) w of
                 (Inl e, w) \<Rightarrow> (Inl e, w)
               | (Inr False, w) \<Rightarrow> (Inr None, w)
               | (Inr True, w) \<Rightarrow> (Inr (Some (enriched_stop tb cfg st final messages)), w))))"

definition classifyClaudeSubagentStop ::
    "tables \<Rightarrow> Config \<Rightarrow> hook_env \<Rightarrow> Event \<Rightarrow> string \<Rightarrow> hook_world \<Rightarrow> classified" where
  "classifyClaudeSubagentStop tb cfg env ev final w =
     (if ShouldSuppressForSubagents cfg then (Inr None, w)
      else if \<not> nc_NotifyOnSubagentStop (c_Notifications cfg) then (Inr None, w)
      else (let (st, messages) = stop_transcript tb cfg env ev final in
            (Inr (Some (enriched_stop tb cfg st final messages)), w)))"

subsection \<open>Teammates\<close>

definition idle_dedup_key :: "Event \<Rightarrow> string \<Rightarrow> string" where
  "idle_dedup_key ev teammate = ses_SessionID (ev_Session ev) @ ''-'' @ teammate"

text \<open>The notification of a completed team, recorded under the lead's session.\<close>

definition notify_team ::
    "tables \<Rightarrow> Config \<Rightarrow> hook_env \<Rightarrow> Event \<Rightarrow> string \<Rightarrow> team_info \<Rightarrow> hook_world \<Rightarrow> hook_world" where
  "notify_team tb cfg env ev teamName info w =
     (let body = ''Team '' @ tb_quote tb teamName @ '': all teammates finished work'';
          sid = ses_SessionID (ev_Session ev);
          stateKey = (if ti_LeadSessionID info = [] then sid else ti_LeadSessionID info);
          det = (notificationDetails tb (he_titles env) cfg ev None)\<lparr>de_branch := Some (he_branch env)\<rparr>
      in snd (sendNotifications (tb_uni tb) cfg (he_delivery env) StatusTaskComplete body [] sid
                (ses_CWD (ev_Session ev))
                (record_delivery env stateKey StatusTaskComplete body [] body [] ''TeammateIdle'')
                (Some det) w))"

definition claim_idle ::
    "tables \<Rightarrow> Config \<Rightarrow> hook_env \<Rightarrow> Event \<Rightarrow> string \<Rightarrow> team_info \<Rightarrow> hook_world
     \<Rightarrow> hook_error option \<times> hook_world" where
  "claim_idle tb cfg env ev teamName info w =
     (if ShouldFilter cfg (status_string StatusTaskComplete) (he_branch env)
           (path_Base (ses_CWD (ev_Session ev))) then (None, w)
      else (case ClaimAllIdle (he_clock env AtClaim) teamName (ti_Members info) (hw_teams w) of
              (Inl e, m) \<Rightarrow> (Some (ClaimFailed e), w\<lparr>hw_teams := m\<rparr>)
            | (Inr False, m) \<Rightarrow> (None, w\<lparr>hw_teams := m\<rparr>)
            | (Inr True, m) \<Rightarrow>
                (None, notify_team tb cfg env ev teamName info (w\<lparr>hw_teams := m\<rparr>))))"

definition handleTeammateIdle ::
    "tables \<Rightarrow> Config \<Rightarrow> hook_env \<Rightarrow> Event \<Rightarrow> string \<Rightarrow> string \<Rightarrow> hook_world
     \<Rightarrow> hook_error option \<times> hook_world" where
  "handleTeammateIdle tb cfg env ev teamName teammate w =
     (if ev_Product ev \<noteq> ProductClaude then (None, w)
      else if teamName = [] \<or> teammate = [] then (None, w)
      else if GetTeamMode cfg \<noteq> ''wait-all'' then (None, w)
      else if CheckEarlyDuplicate (FileAge (he_clock env AtTeam)) (idle_dedup_key ev teammate)
                (Some ''TeammateIdle'') (hw_locks w) then (None, w)
      else (case DetectTeamByName teamName (he_teamConfig env) of
              None \<Rightarrow> (None, w)
            | Some info \<Rightarrow>
                (case RecordTeammateIdle (he_clock env AtTeam) teamName teammate (hw_teams w) of
                   (Some e, m) \<Rightarrow> (Some (RecordIdleFailed e), w\<lparr>hw_teams := m\<rparr>)
                 | (None, m) \<Rightarrow> claim_idle tb cfg env ev teamName info (w\<lparr>hw_teams := m\<rparr>))))"

definition classifyClaudeHook ::
    "tables \<Rightarrow> Config \<Rightarrow> hook_env \<Rightarrow> Event \<Rightarrow> event_keys \<Rightarrow> EventPayload \<Rightarrow> hook_world \<Rightarrow> classified" where
  "classifyClaudeHook tb cfg env ev keys p w =
     (case p of
        PPreToolUse tool use input \<Rightarrow>
          classifyInteractiveTool tb cfg env ev tool input (ek_stateKey keys) w
      | PNotification ty message \<Rightarrow>
          (Inr (Some (plain (if ty = ''permission_prompt'' then StatusPermissionRequest
                             else StatusQuestion) False)), w)
      | PStopPayload sp \<Rightarrow> classifyClaudeStop tb cfg env ev (sp_AssistantMessage sp) w
      | PSubagentStop sp agent \<Rightarrow>
          classifyClaudeSubagentStop tb cfg env ev (sp_AssistantMessage sp) w
      | PPermissionRequest tool input agent \<Rightarrow> (Inr (Some (plain StatusPermissionRequest False)), w)
      | PTeammateIdle team mate \<Rightarrow>
          (case handleTeammateIdle tb cfg env ev team mate w of
             (Some e, w) \<Rightarrow> (Inl e, w) | (None, w) \<Rightarrow> (Inr None, w))
      | PStopFailure limited \<Rightarrow> (Inl UnknownHookEvent, w))"

subsection \<open>Codex and Qoder\<close>

definition codex_insight :: "status \<Rightarrow> TurnInsight \<Rightarrow> bool \<Rightarrow> classification" where
  "codex_insight st i cleanup =
     \<lparr>cl_status = st, cl_messages = [], cl_insight = Some i, cl_cleanup = cleanup\<rparr>"

definition insight_status :: "TurnInsight \<Rightarrow> status" where
  "insight_status i = (case in_Status i of None \<Rightarrow> StatusUnknown | Some st \<Rightarrow> st)"

definition classifyCodexHook ::
    "tables \<Rightarrow> Config \<Rightarrow> EventPayload \<Rightarrow> hook_error + classification option" where
  "classifyCodexHook tb cfg p =
     (case p of
        PPreToolUse tool use input \<Rightarrow>
          (let i = EnrichPreToolUse tb tool input in
           if insight_status i = StatusUnknown then Inr None
           else Inr (Some (codex_insight (insight_status i) i False)))
      | PStopPayload sp \<Rightarrow>
          if sp_Continuation sp then Inr None
          else (let i = EnrichStop tb sp in Inr (Some (codex_insight (insight_status i) i True)))
      | PSubagentStop sp agent \<Rightarrow>
          if ShouldSuppressForSubagents cfg \<or> \<not> nc_NotifyOnSubagentStop (c_Notifications cfg)
             \<or> sp_Continuation sp then Inr None
          else (let i = EnrichStop tb sp in Inr (Some (codex_insight (insight_status i) i True)))
      | PPermissionRequest tool input agent \<Rightarrow> Inr (Some (plain StatusPermissionRequest False))
      | PNotification ty message \<Rightarrow> Inr (Some (plain StatusQuestion False))
      | PTeammateIdle team mate \<Rightarrow> Inr None
      | PStopFailure limited \<Rightarrow> Inl UnknownHookEvent)"

definition classifyQoderHook ::
    "tables \<Rightarrow> Config \<Rightarrow> hook_env \<Rightarrow> Event \<Rightarrow> event_keys \<Rightarrow> EventPayload \<Rightarrow> hook_world \<Rightarrow> classified" where
  "classifyQoderHook tb cfg env ev keys p w =
     (case p of
        PPreToolUse tool use input \<Rightarrow>
          classifyInteractiveTool tb cfg env ev tool input (ek_stateKey keys) w
      | PNotification ty message \<Rightarrow> (Inr (Some (plain StatusQuestion False)), w)
      | PStopPayload sp \<Rightarrow>
          (Inr (if sp_Continuation sp then None else Some (plain StatusTaskComplete True)), w)
      | PStopFailure limited \<Rightarrow>
          (Inr (Some (plain (if limited then StatusAPIErrorOverloaded else StatusAgentError) True)), w)
      | PSubagentStop sp agent \<Rightarrow>
          (Inr (if ShouldSuppressForSubagents cfg \<or> \<not> nc_NotifyOnSubagentStop (c_Notifications cfg)
                   \<or> sp_Continuation sp then None else Some (plain StatusTaskComplete True)), w)
      | PPermissionRequest tool input agent \<Rightarrow> (Inr (Some (plain StatusPermissionRequest False)), w)
      | PTeammateIdle team mate \<Rightarrow> (Inr None, w))"

definition classifyHook ::
    "tables \<Rightarrow> Config \<Rightarrow> hook_env \<Rightarrow> Event \<Rightarrow> event_keys \<Rightarrow> hook_world \<Rightarrow> classified" where
  "classifyHook tb cfg env ev keys w =
     (case ev_Payload ev of
        None \<Rightarrow> (Inl UnknownHookEvent, w)
      | Some p \<Rightarrow>
          (case ev_Product ev of
             ProductClaude \<Rightarrow> classifyClaudeHook tb cfg env ev keys p w
           | ProductCodex \<Rightarrow> (classifyCodexHook tb cfg p, w)
           | ProductQoder \<Rightarrow> classifyQoderHook tb cfg env ev keys p w
           | OtherProduct q \<Rightarrow> (Inl UnsupportedProduct, w)))"

end
