(* ===== verification/HookHandler.thy ===== *)
theory HookHandler
  imports HookPolicy
begin

text \<open>
  The handling of one hook event: content and its duplicate checks
  (\<^verbatim>\<open>internal/hooks/content.go\<close>) and \<^verbatim>\<open>HandleHook\<close>
  (\<^verbatim>\<open>hooks.go\<close>), with every early return and deferred action. A call is sequential; the
  races of concurrent hooks on the locks are the step relation of \<^verbatim>\<open>Dedup\<close>.
\<close>

subsection \<open>Content\<close>

record hook_content =
  hc_body :: string
  hc_actions :: string
  hc_message :: string
  hc_stopHash :: string
  hc_turnTS :: string

definition transcript_there :: "hook_env \<Rightarrow> Event \<Rightarrow> bool" where
  "transcript_there env ev \<longleftrightarrow>
     ses_TranscriptPath (ev_Session ev) \<noteq> [] \<and> tx_exists (he_transcript env)"

definition content_messages :: "hook_env \<Rightarrow> Event \<Rightarrow> classification \<Rightarrow> message list" where
  "content_messages env ev cl =
     (if ev_Product ev = ProductClaude \<and> cl_messages cl = [] \<and> transcript_there env ev
      then (case tx_reparsed (he_transcript env) of Some ms \<Rightarrow> ms | None \<Rightarrow> cl_messages cl)
      else cl_messages cl)"

definition stop_hash :: "tables \<Rightarrow> Event \<Rightarrow> string \<Rightarrow> string" where
  "stop_hash tb ev turnTS =
     (if ev_Product ev = ProductClaude then
        (case ev_Payload ev of
           Some (PStopPayload p) \<Rightarrow>
             if TrimSpace (sp_AssistantMessage p) \<noteq> [] \<and> turnTS \<noteq> []
             then claudeStopPayloadHash (tb_sha tb) (sp_AssistantMessage p) turnTS else []
         | _ \<Rightarrow> [])
      else [])"

definition render_content :: "tables \<Rightarrow> Config \<Rightarrow> hook_env \<Rightarrow> Event \<Rightarrow> classification \<Rightarrow> hook_content" where
  "render_content tb cfg env ev cl =
     (let messages = content_messages env ev cl;
          turnTS = (if ev_Product ev = ProductClaude then GetLastUserTimestamp messages else []);
          reread = (if transcript_there env ev then tx_reread (he_transcript env) else None);
          (body, actions) = generateMessage tb cfg ev (cl_status cl) messages reread (cl_insight cl)
      in \<lparr>hc_body = body, hc_actions = actions, hc_message = joinMessageParts body actions,
          hc_stopHash = stop_hash tb ev turnTS, hc_turnTS = turnTS\<rparr>)"

definition skipContentLock :: "Event \<Rightarrow> status \<Rightarrow> bool" where
  "skipContentLock ev st \<longleftrightarrow>
     (ev_Product ev = ProductCodex \<or> ev_Product ev = ProductQoder) \<and>
     (st = StatusPermissionRequest \<or> Kind ev \<in> {EventPreToolUse, EventSubagentStop, EventStopFailure})"

definition skipContentDedup :: "Event \<Rightarrow> status \<Rightarrow> bool" where
  "skipContentDedup ev st \<longleftrightarrow>
     st = StatusPermissionRequest
     \<or> ev_Product ev = ProductCodex \<and> Kind ev \<in> {EventPreToolUse, EventSubagentStop}
     \<or> ev_Product ev = ProductQoder \<and> Kind ev = EventStopFailure"

text \<open>A Stop after another hook of its turn also compares the rendered message.\<close>

definition checkLegacy :: "Event \<Rightarrow> string \<Rightarrow> string \<Rightarrow> state_store \<Rightarrow> bool" where
  "checkLegacy ev stateKey turnTS m =
     (if Kind ev = EventStop then
        (case Load stateKey m of
           Inr (Some prev) \<Rightarrow>
             ss_LastNotificationTurn prev = turnTS
             \<and> ss_LastNotificationEvent prev \<noteq> ''Stop'' \<and> ss_LastNotificationEvent prev \<noteq> ''Notification''
         | _ \<Rightarrow> False)
      else Kind ev = EventNotification)"

definition yes :: "'e + bool \<Rightarrow> bool" where
  "yes r = (case r of Inr b \<Rightarrow> b | Inl e \<Rightarrow> False)"

definition duplicate_content ::
    "tables \<Rightarrow> int \<Rightarrow> Event \<Rightarrow> string \<Rightarrow> string \<Rightarrow> status \<Rightarrow> hook_content \<Rightarrow> state_store \<Rightarrow> bool" where
  "duplicate_content tb now ev stateKey hookEvent st c m =
     (if skipContentDedup ev st then False
      else if yes (IsDuplicateStopPayload now stateKey (hc_stopHash c) 180 m) then True
      else if ev_Product ev = ProductClaude \<and> hc_turnTS c \<noteq> [] \<and> Kind ev \<in> {EventStop, EventNotification}
        then yes (IsDuplicateTurnBody (tb_uni tb) now stateKey (hc_body c) (hc_turnTS c) hookEvent 180 m)
             \<or> checkLegacy ev stateKey (hc_turnTS c) m
                \<and> yes (IsDuplicateMessage (tb_uni tb) now stateKey (hc_message c) 180 m)
      else yes (IsDuplicateMessage (tb_uni tb) now stateKey (hc_message c) 180 m))"

definition prepareHookContent ::
    "tables \<Rightarrow> Config \<Rightarrow> hook_env \<Rightarrow> Event \<Rightarrow> event_keys \<Rightarrow> string \<Rightarrow> classification \<Rightarrow> hook_world
     \<Rightarrow> hook_content option \<times> hook_world" where
  "prepareHookContent tb cfg env ev keys hookEvent cl w =
     (let c = render_content tb cfg env ev cl;
          now = he_clock env AtContent;
          stateKey = ek_stateKey keys;
          verdict = (\<lambda>w. if duplicate_content tb now ev stateKey hookEvent (cl_status cl) c (hw_states w)
                          then None else Some c)
      in if skipContentLock ev (cl_status cl) then (verdict w, w)
         else (case AcquireContentLock (FileAge now) now stateKey (hw_locks w) of
                 (Inl e, fs) \<Rightarrow> (verdict w, w\<lparr>hw_locks := fs\<rparr>)
               | (Inr False, fs) \<Rightarrow> (None, w\<lparr>hw_locks := fs\<rparr>)
               | (Inr True, fs) \<Rightarrow>
                   (verdict w, w\<lparr>hw_locks := snd (ReleaseContentLock stateKey fs)\<rparr>)))"

subsection \<open>Question cooldown\<close>

definition questionSuppressed ::
    "Config \<Rightarrow> int \<Rightarrow> Event \<Rightarrow> string \<Rightarrow> status \<Rightarrow> state_store \<Rightarrow> bool" where
  "questionSuppressed cfg now ev stateKey st m \<longleftrightarrow>
     st = StatusQuestion \<and> \<not> (ev_Product ev = ProductCodex \<and> Kind ev = EventPreToolUse) \<and>
     (yes (ShouldSuppressQuestionAfterAnyNotification now stateKey
             (GetSuppressQuestionAfterAnyNotificationSeconds cfg) m)
      \<or> yes (ShouldSuppressQuestion now stateKey (GetSuppressQuestionAfterTaskCompleteSeconds cfg) m))"

subsection \<open>After admission\<close>

text \<open>Whether something was delivered, so that a pending reservation is kept.\<close>

definition deliver ::
    "tables \<Rightarrow> Config \<Rightarrow> hook_env \<Rightarrow> Event \<Rightarrow> event_keys \<Rightarrow> string \<Rightarrow> classification \<Rightarrow> hook_content
     \<Rightarrow> hook_world \<Rightarrow> bool \<times> hook_world" where
  "deliver tb cfg env ev keys hookEvent cl c w =
     (let det = (notificationDetails tb (he_titles env) cfg ev (cl_insight cl))
                  \<lparr>de_branch := Some (he_branch env)\<rparr>;
          onFirst = record_delivery env (ek_stateKey keys) (cl_status cl) (hc_message c) (hc_stopHash c)
                      (hc_body c) (hc_turnTS c) hookEvent;
          (d, w) = sendNotifications (tb_uni tb) cfg (he_delivery env) (cl_status cl) (hc_body c)
                     (hc_actions c) (ses_SessionID (ev_Session ev)) (ses_CWD (ev_Session ev)) onFirst
                     (Some det) w
      in (delivered d, w))"

definition notify_admitted ::
    "tables \<Rightarrow> Config \<Rightarrow> hook_env \<Rightarrow> Event \<Rightarrow> event_keys \<Rightarrow> string \<Rightarrow> classification \<Rightarrow> hook_world
     \<Rightarrow> bool \<times> hook_world" where
  "notify_admitted tb cfg env ev keys hookEvent cl w =
     (if questionSuppressed cfg (he_clock env AtQuestion) ev (ek_stateKey keys) (cl_status cl) (hw_states w)
      then (False, w)
      else (case prepareHookContent tb cfg env ev keys hookEvent cl w of
              (None, w) \<Rightarrow> (False, w)
            | (Some c, w) \<Rightarrow> deliver tb cfg env ev keys hookEvent cl c w))"

subsection \<open>Admission\<close>

definition deferClaudeStopLock :: "Event \<Rightarrow> bool" where
  "deferClaudeStopLock ev \<longleftrightarrow> ev_Product ev = ProductClaude \<and> Kind ev = EventStop"

definition verified_turn :: "Event \<Rightarrow> classification \<Rightarrow> bool" where
  "verified_turn ev cl \<longleftrightarrow> deferClaudeStopLock ev \<and> GetLastUserTimestamp (cl_messages cl) \<noteq> []"

definition turn_keys :: "tables \<Rightarrow> Event \<Rightarrow> classification \<Rightarrow> event_keys \<Rightarrow> event_keys" where
  "turn_keys tb ev cl keys =
     (if verified_turn ev cl
      then keys\<lparr>ek_lockKey := claudeStopTurnLockKey (tb_sha tb) (ses_SessionID (ev_Session ev))
                               (GetLastUserTimestamp (cl_messages cl))\<rparr>
      else keys)"

definition pendingDelayedStop :: "Config \<Rightarrow> Event \<Rightarrow> classification \<Rightarrow> bool" where
  "pendingDelayedStop cfg ev cl \<longleftrightarrow>
     verified_turn ev cl \<and> 0 < GetNotifyDelaySeconds cfg
     \<and> IsStatusDesktopEnabled cfg (status_string (cl_status cl))
     \<and> \<not> IsStatusWebhookEnabled cfg (status_string (cl_status cl))"

definition admit ::
    "tables \<Rightarrow> Config \<Rightarrow> hook_env \<Rightarrow> Event \<Rightarrow> event_keys \<Rightarrow> string \<Rightarrow> classification \<Rightarrow> hook_world
     \<Rightarrow> hook_error option \<times> hook_world" where
  "admit tb cfg env ev keys hookEvent cl w =
     (let keys = turn_keys tb ev cl keys;
          pending = pendingDelayedStop cfg ev cl;
          now = he_clock env AtLock
      in if cl_status cl = StatusUnknown then (None, w)
         else if ShouldFilter cfg (status_string (cl_status cl)) (he_branch env)
                   (path_Base (ses_CWD (ev_Session ev))) then (None, w)
         else (case AcquireLockWithTTL (FileAge now) now (ek_lockKey keys) (if pending then 60 else 2)
                      (Some hookEvent) (hw_locks w) of
                 (Inl e, fs) \<Rightarrow> (Some (LockFailed e), w\<lparr>hw_locks := fs\<rparr>)
               | (Inr False, fs) \<Rightarrow> (None, w\<lparr>hw_locks := fs\<rparr>)
               | (Inr True, fs) \<Rightarrow>
                   (let (keep, w) = notify_admitted tb cfg env ev keys hookEvent cl (w\<lparr>hw_locks := fs\<rparr>)
                    in (None, if pending \<and> \<not> keep
                              then w\<lparr>hw_locks := snd (ReleaseLock (ek_lockKey keys) (Some hookEvent)
                                                        (hw_locks w))\<rparr>
                              else w))))"

subsection \<open>The handler\<close>

text \<open>
  On macOS the frontmost Ghostty terminal may be remembered under the raw session;
  \<^verbatim>\<open>he_ghostty\<close> is the terminal found, if any.
\<close>

definition capture_ghostty :: "Config \<Rightarrow> hook_env \<Rightarrow> Event \<Rightarrow> hook_world \<Rightarrow> hook_world" where
  "capture_ghostty cfg env ev w =
     (if dc_ClickToFocus (c_Desktop cfg) \<and> ev_Product ev = ProductClaude
         \<and> Kind ev \<in> {EventPreToolUse, EventNotification} then
        (case he_ghostty env of
           Some terminal \<Rightarrow>
             write_state (he_clock env AtEarly) (ses_SessionID (ev_Session ev))
               (UpdateGhosttyTerminalID (ses_SessionID (ev_Session ev)) terminal) w
         | None \<Rightarrow> w)
      else w)"

definition handle_event ::
    "tables \<Rightarrow> Config \<Rightarrow> hook_env \<Rightarrow> string \<Rightarrow> Event \<Rightarrow> hook_world \<Rightarrow> hook_error option \<times> hook_world" where
  "handle_event tb cfg env hookEvent ev w =
     (let keys = eventKeys (tb_sha tb) ev;
          w = capture_ghostty cfg env ev w
      in if \<not> deferClaudeStopLock ev
            \<and> CheckEarlyDuplicate (FileAge (he_clock env AtEarly)) (ek_lockKey keys) (Some hookEvent)
                (hw_locks w) then (None, w)
         else if \<not> IsAnyNotificationEnabled cfg then (None, w)
         else (case classifyHook tb cfg env ev keys w of
                 (Inl e, w) \<Rightarrow> (Some e, w)
               | (Inr None, w) \<Rightarrow> (None, w)
               | (Inr (Some cl), w) \<Rightarrow>
                   (let (r, w) = admit tb cfg env ev keys hookEvent cl w
                    in (r, if cl_cleanup cl then cleanupOldLocks env w else w))))"

definition shutdownBudget :: "gotime option \<Rightarrow> gotime \<Rightarrow> duration" where
  "shutdownBudget deadline now =
     (case deadline of
        None \<Rightarrow> 5 * second
      | Some d \<Rightarrow>
          (let left = time_sub d now in
           if left < 5 * second then (if left < 0 then 0 else left) else 5 * second))"

definition finish :: "hook_env \<Rightarrow> hook_world \<Rightarrow> hook_world" where
  "finish env w =
     emit NotifierClosed
       (emit (WebhookShutdown (shutdownBudget (dv_deadline (he_delivery env)) (dv_after (he_delivery env)))) w)"

definition HandleHook ::
    "tables \<Rightarrow> Config \<Rightarrow> hook_env \<Rightarrow> string \<Rightarrow> hook_world \<Rightarrow> hook_error option \<times> hook_world" where
  "HandleHook tb cfg env hookEvent w =
     (if ShouldRespectJudgeMode cfg \<and> he_judge env then (None, w)
      else (case he_decode env hookEvent of
              Inl e \<Rightarrow> (Some (DecodeError e), finish env w)
            | Inr ev \<Rightarrow>
                (let (r, w) = handle_event tb cfg env hookEvent ev w in (r, finish env w))))"

end
