(* ===== verification/HookProperties.thy ===== *)
theory HookProperties
  imports HookHandler
begin

text \<open>What holds of every handled hook event, and of events handled one after the other.\<close>

subsection \<open>Frames\<close>

lemma emit_frames [simp]:
  "hw_locks (emit e w) = hw_locks w" "hw_states (emit e w) = hw_states w"
  "hw_stateTimes (emit e w) = hw_stateTimes w" "hw_teams (emit e w) = hw_teams w"
  by (simp_all add: emit_def)

lemma write_state_frames [simp]:
  "hw_locks (write_state now sid upd w) = hw_locks w" "hw_teams (write_state now sid upd w) = hw_teams w"
  "ch_log (write_state now sid upd w) = ch_log w"
  by (simp_all add: write_state_def split: prod.split option.split)

lemma write_state_states [simp]:
  "hw_states (write_state now sid upd w) = snd (upd (hw_states w))"
  by (simp add: write_state_def split: prod.split option.split)

lemma record_delivery_frames [simp]:
  "hw_locks (record_delivery env k st m h b t e w) = hw_locks w"
  "hw_teams (record_delivery env k st m h b t e w) = hw_teams w"
  by (simp_all add: record_delivery_def Let_def)

lemma deliver_locks [simp]:
  "hw_locks (snd (deliver tb cfg env ev keys hookEvent cl c w)) = hw_locks w"
  "hw_teams (snd (deliver tb cfg env ev keys hookEvent cl c w)) = hw_teams w"
proof -
  have "hw_locks (snd (sendNotifications uni cfg denv st b a sid cwd
          (record_delivery env k st m h b' t e) det w)) = hw_locks w"
    "hw_teams (snd (sendNotifications uni cfg denv st b a sid cwd
          (record_delivery env k st m h b' t e) det w)) = hw_teams w"
    for uni denv st b a sid cwd k m h b' t e det
    by (rule sendNotifications_keeps [where P = "\<lambda>w'. hw_locks w' = hw_locks w"]; simp)
      (rule sendNotifications_keeps [where P = "\<lambda>w'. hw_teams w' = hw_teams w"]; simp)
  then show "hw_locks (snd (deliver tb cfg env ev keys hookEvent cl c w)) = hw_locks w"
    "hw_teams (snd (deliver tb cfg env ev keys hookEvent cl c w)) = hw_teams w"
    by (simp_all add: deliver_def Let_def split_beta)
qed

lemma cleanup_frames [simp]:
  "hw_teams (cleanupOldLocks env w) = hw_teams w" "ch_log (cleanupOldLocks env w) = ch_log w"
  by (simp_all add: cleanupOldLocks_def state_Cleanup_def Let_def)

subsection \<open>Locks\<close>

lemma acquired_lock:
  "AcquireLockWithTTL age now key ttl hookEvent fs = (Inr True, fs') \<Longrightarrow>
     fs_mtime fs' (getLockPath key hookEvent) = Some now"
  by (auto simp: AcquireLockWithTTL_def replace_lock_def Let_def op_defs split: if_splits prod.splits)

lemma content_lock_frame:
  assumes "AcquireContentLock age now key fs = (r, fs')" and "p \<noteq> contentLockPath key"
  shows "fs_mtime fs' p = fs_mtime fs p"
    and "fs_mtime (snd (ReleaseContentLock key fs')) p = fs_mtime fs p"
proof -
  show a: "fs_mtime fs' p = fs_mtime fs p"
    using assms by (auto simp: AcquireContentLock_def replace_lock_def Let_def op_defs split: if_splits)
  show "fs_mtime (snd (ReleaseContentLock key fs')) p = fs_mtime fs p"
    using assms(2) a by (simp add: ReleaseContentLock_def remove_existing_def Remove_def split: prod.split)
qed

lemma prepare_locks:
  assumes "p \<noteq> contentLockPath (ek_stateKey keys)"
  shows "fs_mtime (hw_locks (snd (prepareHookContent tb cfg env ev keys hookEvent cl w))) p
    = fs_mtime (hw_locks w) p"
  using content_lock_frame [OF _ assms]
  by (auto simp: prepareHookContent_def Let_def split: prod.splits sum.splits bool.splits)

text \<open>An event's lock and a content lock have different names unless the event is \<^verbatim>\<open>content\<close>.\<close>

lemma lock_paths_differ:
  assumes "\<not> HasSuffix (CHR ''-'' # hookEvent) ''-content''" and "hookEvent \<noteq> []"
  shows "getLockPath key (Some hookEvent) \<noteq> contentLockPath key'"
proof
  assume "getLockPath key (Some hookEvent) = contentLockPath key'"
  then have eq: "key @ CHR ''-'' # hookEvent = key' @ ''-content''"
    using assms(2) by (simp add: getLockPath_def contentLockPath_def)
  then obtain us where
    "CHR ''-'' # hookEvent = us @ ''-content'' \<or> us @ CHR ''-'' # hookEvent = ''-content''"
    by (auto simp: append_eq_append_conv2)
  then show False
  proof
    assume "CHR ''-'' # hookEvent = us @ ''-content''"
    with assms(1) show False by (simp add: HasSuffix_def)
  next
    assume u: "us @ CHR ''-'' # hookEvent = ''-content''"
    show False
    proof (cases us)
      case Nil
      with u assms(1) show False by (simp add: HasSuffix_def)
    next
      case (Cons x v)
      with u have "v @ CHR ''-'' # hookEvent = ''content''" by simp
      then have "CHR ''-'' \<in> set ''content''" by (metis in_set_conv_decomp)
      then show False by simp
    qed
  qed
qed

subsection \<open>One notification per lock\<close>

fun announces :: "effect \<Rightarrow> bool" where
  "announces (WebhookQueued ctx) = True"
| "announces (DesktopSend st m s c opts sent) = True"
| "announces e = False"

definition announced :: "hook_world \<Rightarrow> hook_world \<Rightarrow> bool" where
  "announced w w' \<longleftrightarrow> list_ex announces (added w w')"

text \<open>What reached a channel: a queued webhook or a banner the system accepted.\<close>

fun shown :: "effect \<Rightarrow> bool" where
  "shown (WebhookQueued ctx) = True"
| "shown (DesktopSend st m s c opts sent) = sent"
| "shown e = False"

definition notified :: "hook_world \<Rightarrow> hook_world \<Rightarrow> bool" where
  "notified w w' \<longleftrightarrow> list_ex shown (added w w')"

lemma announced_same_log: "ch_log w' = ch_log w \<Longrightarrow> \<not> announced w w'"
  by (simp add: announced_def added_def)

lemma announced_finish: "announced w (finish env w') \<longleftrightarrow> announced w w'"
  by (cases "length (ch_log w) \<le> length (ch_log w')")
    (auto simp: announced_def added_def finish_def drop_append drop_Cons' list_ex_iff in_set_conv_nth)

lemma prepare_log [simp]:
  "ch_log (snd (prepareHookContent tb cfg env ev keys hookEvent cl w)) = ch_log w"
  by (auto simp: prepareHookContent_def Let_def split: prod.split sum.split bool.split)

lemma prepare_states [simp]:
  "hw_states (snd (prepareHookContent tb cfg env ev keys hookEvent cl w)) = hw_states w"
  "hw_stateTimes (snd (prepareHookContent tb cfg env ev keys hookEvent cl w)) = hw_stateTimes w"
  "hw_teams (snd (prepareHookContent tb cfg env ev keys hookEvent cl w)) = hw_teams w"
  by (auto simp: prepareHookContent_def Let_def split: prod.split sum.split bool.split)

lemma notify_admitted_lock:
  assumes "p \<noteq> contentLockPath (ek_stateKey keys)"
  shows "fs_mtime (hw_locks (snd (notify_admitted tb cfg env ev keys hookEvent cl w))) p
    = fs_mtime (hw_locks w) p"
proof (cases "prepareHookContent tb cfg env ev keys hookEvent cl w")
  case (Pair c w')
  from prepare_locks [OF assms, of tb cfg env ev hookEvent cl w] Pair
  have "fs_mtime (hw_locks w') p = fs_mtime (hw_locks w) p" by simp
  with Pair show ?thesis by (cases c) (simp_all add: notify_admitted_def)
qed

lemma admit_refused:
  assumes "\<nexists>fs'. AcquireLockWithTTL (FileAge (he_clock env AtLock)) (he_clock env AtLock)
      (ek_lockKey (turn_keys tb ev cl keys)) (if pendingDelayedStop cfg ev cl then 60 else 2)
      (Some hookEvent) (hw_locks w) = (Inr True, fs')"
  shows "ch_log (snd (admit tb cfg env ev keys hookEvent cl w)) = ch_log w"
  using assms by (auto simp: admit_def Let_def split: prod.split sum.split bool.split)

lemma admit_filtered:
  "cl_status cl = StatusUnknown
   \<or> ShouldFilter cfg (status_string (cl_status cl)) (he_branch env) (path_Base (ses_CWD (ev_Session ev)))
   \<Longrightarrow> admit tb cfg env ev keys hookEvent cl w = (None, w)"
  by (cases "cl_status cl = StatusUnknown") (simp_all add: admit_def Let_def)

lemma admit_acquired:
  assumes "AcquireLockWithTTL (FileAge (he_clock env AtLock)) (he_clock env AtLock)
      (ek_lockKey (turn_keys tb ev cl keys)) (if pendingDelayedStop cfg ev cl then 60 else 2)
      (Some hookEvent) (hw_locks w) = (Inr True, fs')"
    and "cl_status cl \<noteq> StatusUnknown"
    and "\<not> ShouldFilter cfg (status_string (cl_status cl)) (he_branch env) (path_Base (ses_CWD (ev_Session ev)))"
  shows "admit tb cfg env ev keys hookEvent cl w =
     (let (keep, w') = notify_admitted tb cfg env ev (turn_keys tb ev cl keys) hookEvent cl (w\<lparr>hw_locks := fs'\<rparr>)
      in (None, if pendingDelayedStop cfg ev cl \<and> \<not> keep
                then w'\<lparr>hw_locks := snd (ReleaseLock (ek_lockKey (turn_keys tb ev cl keys)) (Some hookEvent)
                                          (hw_locks w'))\<rparr>
                else w'))"
  using assms by (simp add: admit_def Let_def)

text \<open>What was shown counts as delivered, so it keeps a reservation.\<close>

lemma desktop_unsent:
  assumes "\<not> fst (sendDesktopNotification uni cfg env st message sid cwd opts ch)"
  shows "\<exists>rest. ch_log (snd (sendDesktopNotification uni cfg env st message sid cwd opts ch)) = ch_log ch @ rest
     \<and> \<not> list_ex shown rest"
proof -
  have g: "\<exists>rest. ch_log (maybeEmitDesktopPermissionGuidance env err c) = ch_log c @ rest \<and> \<not> list_ex shown rest"
    for err and c :: "'a channels_scheme"
    by (auto simp: maybeEmitDesktopPermissionGuidance_def split: prod.split)
  have sub: "\<exists>rest. ch_log (snd (submit env st message sid cwd o1 c)) = ch_log c @ rest \<and> \<not> list_ex shown rest"
    if unsent: "\<not> fst (submit env st message sid cwd o1 c)" for o1 and c :: "'a channels_scheme"
  proof (cases "dv_send env")
    case (Some err)
    obtain rest where "ch_log (maybeEmitDesktopPermissionGuidance env err
        (emit (DesktopSend st message sid cwd o1 False) c))
      = ch_log (emit (DesktopSend st message sid cwd o1 False) c) @ rest" "\<not> list_ex shown rest"
      using g by blast
    with Some show ?thesis
      by (intro exI [of _ "DesktopSend st message sid cwd o1 False # rest"]) (simp add: submit_def)
  qed (use unsent in \<open>simp add: submit_def\<close>)
  let ?ch = "if 0 < clamped_delay cfg then emit (Slept (clamped_delay cfg * second)) ch else ch"
  have sl: "\<exists>rest. ch_log ?ch = ch_log ch @ rest \<and> \<not> list_ex shown rest" by simp
  then obtain r1 where r1: "ch_log ?ch = ch_log ch @ r1" "\<not> list_ex shown r1" by blast
  have "snd (sendDesktopNotification uni cfg env st message sid cwd opts ch) \<in> {ch, ?ch}
    \<or> sendDesktopNotification uni cfg env st message sid cwd opts ch
        = submit env st message sid cwd (opts @ mute_options uni cfg env) ?ch"
    by (auto simp: sendDesktopNotification_def Let_def)
  then show ?thesis
  proof
    assume "sendDesktopNotification uni cfg env st message sid cwd opts ch
        = submit env st message sid cwd (opts @ mute_options uni cfg env) ?ch"
    with assms sub [of "opts @ mute_options uni cfg env" ?ch] r1 show ?thesis by auto
  qed (use sl in auto)
qed

lemma shown_delivered:
  assumes "silent_callback onFirst"
    and "list_ex shown (added ch (snd (sendNotifications uni cfg env st body actions sid cwd onFirst det ch)))"
  shows "delivered (fst (sendNotifications uni cfg env st body actions sid cwd onFirst det ch))"
proof (rule ccontr)
  let ?ctx = "webhook_context uni env st body actions sid cwd det"
  let ?opts = "presentation_options env det (sc_SessionName ?ctx) (sc_GitBranch ?ctx) (sc_Folder ?ctx)
    (joinMessageParts body actions)"
  let ?d = "sendDesktopNotification uni cfg env st (sc_Message ?ctx) sid cwd ?opts ch"
  let ?r = "sendNotifications uni cfg env st body actions sid cwd onFirst det ch"
  assume n: "\<not> delivered (fst ?r)"
  then have q: "queue_webhook cfg ?ctx onFirst ch = (False, ch)"
    by (auto simp: sendNotifications_def queue_webhook_def delivered_def Let_def split_beta split: if_splits)
  with n have "snd ?r = ch \<or> \<not> fst ?d \<and> snd ?r = snd ?d"
    by (auto simp: sendNotifications_def delivered_def Let_def split_beta split: if_splits)
  with desktop_unsent [of uni cfg env st "sc_Message ?ctx" sid cwd ?opts ch] assms(2) show False
    by (auto simp: added_def)
qed

lemma notify_shown:
  assumes "list_ex shown (added w (snd (notify_admitted tb cfg env ev keys hookEvent cl w)))"
  shows "fst (notify_admitted tb cfg env ev keys hookEvent cl w)"
proof (cases "prepareHookContent tb cfg env ev keys hookEvent cl w")
  case (Pair c w')
  have same: "ch_log w' = ch_log w" using prepare_log [of tb cfg env ev keys hookEvent cl w] Pair by simp
  show ?thesis
  proof (cases c)
    case (Some c')
    with assms Pair same have
      "list_ex shown (added w' (snd (deliver tb cfg env ev keys hookEvent cl c' w')))"
      by (auto simp: notify_admitted_def added_def split: if_splits)
    then have "fst (deliver tb cfg env ev keys hookEvent cl c' w')"
      unfolding deliver_def Let_def split_beta fst_conv snd_conv
      by (rule shown_delivered [OF record_delivery_silent])
    with Some Pair assms show ?thesis by (auto simp: notify_admitted_def added_def split: if_splits)
  qed (use assms same Pair in \<open>auto simp: notify_admitted_def added_def split: if_splits\<close>)
qed

lemma turn_keys_state [simp]: "ek_stateKey (turn_keys tb ev cl keys) = ek_stateKey keys"
  by (simp add: turn_keys_def)

text \<open>A notification that went through admission left its lock behind.\<close>

lemma announced_lock:
  assumes "ch_log (snd (admit tb cfg env ev keys hookEvent cl w)) \<noteq> ch_log w"
    and "pendingDelayedStop cfg ev cl \<Longrightarrow>
      list_ex shown (added w (snd (admit tb cfg env ev keys hookEvent cl w)))"
    and "getLockPath (ek_lockKey (turn_keys tb ev cl keys)) (Some hookEvent)
           \<noteq> contentLockPath (ek_stateKey keys)"
  shows "fs_mtime (hw_locks (snd (admit tb cfg env ev keys hookEvent cl w)))
      (getLockPath (ek_lockKey (turn_keys tb ev cl keys)) (Some hookEvent))
    = Some (he_clock env AtLock)"
proof -
  let ?p = "getLockPath (ek_lockKey (turn_keys tb ev cl keys)) (Some hookEvent)"
  from assms(1) admit_refused obtain fs' where
    acq: "AcquireLockWithTTL (FileAge (he_clock env AtLock)) (he_clock env AtLock)
      (ek_lockKey (turn_keys tb ev cl keys)) (if pendingDelayedStop cfg ev cl then 60 else 2)
      (Some hookEvent) (hw_locks w) = (Inr True, fs')" by blast
  let ?n = "notify_admitted tb cfg env ev (turn_keys tb ev cl keys) hookEvent cl (w\<lparr>hw_locks := fs'\<rparr>)"
  have st: "cl_status cl \<noteq> StatusUnknown"
    "\<not> ShouldFilter cfg (status_string (cl_status cl)) (he_branch env) (path_Base (ses_CWD (ev_Session ev)))"
    using assms(1) admit_filtered [of cl cfg env ev tb keys hookEvent w] by auto
  have lock: "fs_mtime (hw_locks (snd ?n)) ?p = Some (he_clock env AtLock)"
    using notify_admitted_lock [of ?p "turn_keys tb ev cl keys"] assms(3) acquired_lock [OF acq] by simp
  have "added w (snd (admit tb cfg env ev keys hookEvent cl w)) = added (w\<lparr>hw_locks := fs'\<rparr>) (snd ?n)"
    using admit_acquired [OF acq st] by (simp add: split_beta Let_def added_def)
  then have "fst ?n" if "pendingDelayedStop cfg ev cl"
    using notify_shown [of "w\<lparr>hw_locks := fs'\<rparr>"] assms(2) [OF that] by simp
  with lock show ?thesis
    using admit_acquired [OF acq st] by (auto simp add: split_beta Let_def)
qed

subsection \<open>Classification\<close>

lemma classify_log:
  assumes "Kind ev \<noteq> EventTeammateIdle"
  shows "ch_log (snd (classifyHook tb cfg env ev keys w)) = ch_log w"
proof (cases "ev_Payload ev")
  case (Some p)
  have team: "ch_log (snd (team_gate cfg env sid w)) = ch_log w" for sid
    by (auto simp: team_gate_def claim_lead_def Let_def split: option.split prod.split sum.split)
  have tool: "ch_log (snd (classifyInteractiveTool tb cfg env ev tool input k w)) = ch_log w"
    for tool input k
    by (simp add: classifyInteractiveTool_def handlePreToolUse_def Let_def split_beta)
  have stop: "ch_log (snd (classifyClaudeStop tb cfg env ev final w)) = ch_log w" for final
    using team [of "ses_SessionID (ev_Session ev)"]
    by (auto simp: classifyClaudeStop_def Let_def split: prod.split sum.split bool.split)
  have sub: "ch_log (snd (classifyClaudeSubagentStop tb cfg env ev final w)) = ch_log w" for final
    by (simp add: classifyClaudeSubagentStop_def split_beta)
  from Some assms have "eventKind p \<noteq> EventTeammateIdle" by (simp add: Kind_def)
  with Some tool stop sub show ?thesis
    by (cases p)
      (simp_all add: classifyHook_def classifyClaudeHook_def classifyQoderHook_def split: Product.split)
qed (simp add: classifyHook_def)

subsection \<open>Repeated events\<close>

lemma cleanup_keeps_lock:
  assumes "fs_mtime (hw_locks w) p = Some t" and "0 < t" and "t \<le> he_clock env AtCleanup"
    and "he_clock env AtCleanup \<le> t + 60" and "in_int64 (he_clock env AtCleanup)"
  shows "fs_mtime (hw_locks (cleanupOldLocks env w)) p = Some t"
  using assms FileAge_fresh [OF assms(1), of "he_clock env AtCleanup"]
  by (simp add: cleanupOldLocks_def state_Cleanup_def dedup_Cleanup_def CleanupOldFiles_def Let_def)

lemma capture_frames [simp]:
  "ch_log (capture_ghostty cfg env ev w) = ch_log w" "hw_locks (capture_ghostty cfg env ev w) = hw_locks w"
  "hw_teams (capture_ghostty cfg env ev w) = hw_teams w"
  by (simp_all add: capture_ghostty_def split: option.split)

text \<open>
  What a run that announced something leaves: the lock under the key of its classification, as old
  as the acquisition.
\<close>

lemma announced_event_lock:
  assumes "handle_event tb cfg env hookEvent ev w = (r, w')" and "announced w w'"
    and "Kind ev \<noteq> EventTeammateIdle" and "deferClaudeStopLock ev \<Longrightarrow> notified w w'"
    and "hookEvent \<noteq> []" and "\<not> HasSuffix (CHR ''-'' # hookEvent) ''-content''"
    and "0 < he_clock env AtLock" and "he_clock env AtLock \<le> he_clock env AtCleanup"
    and "he_clock env AtCleanup \<le> he_clock env AtLock + 60" and "in_int64 (he_clock env AtCleanup)"
  obtains cl w1 where
    "classifyHook tb cfg env ev (eventKeys (tb_sha tb) ev) (capture_ghostty cfg env ev w) = (Inr (Some cl), w1)"
    "fs_mtime (hw_locks w')
       (getLockPath (ek_lockKey (turn_keys tb ev cl (eventKeys (tb_sha tb) ev))) (Some hookEvent))
     = Some (he_clock env AtLock)"
proof -
  let ?keys = "eventKeys (tb_sha tb) ev"
  let ?w0 = "capture_ghostty cfg env ev w"
  have log0: "ch_log (snd (classifyHook tb cfg env ev ?keys ?w0)) = ch_log w"
    using classify_log [OF assms(3)] by simp
  from assms(2) have changed: "ch_log w' \<noteq> ch_log w" using announced_same_log by blast
  with assms(1) log0 obtain cl w1 where cl: "classifyHook tb cfg env ev ?keys ?w0 = (Inr (Some cl), w1)"
    "ch_log w1 = ch_log w"
    and w': "w' = (if cl_cleanup cl then cleanupOldLocks env (snd (admit tb cfg env ev ?keys hookEvent cl w1))
                   else snd (admit tb cfg env ev ?keys hookEvent cl w1))"
    by (auto simp: handle_event_def Let_def split_beta split: prod.splits sum.splits option.splits if_splits)
  let ?a = "snd (admit tb cfg env ev ?keys hookEvent cl w1)"
  have same: "ch_log w' = ch_log ?a" using w' by simp
  have sh: "list_ex shown (added w1 ?a)" if p: "pendingDelayedStop cfg ev cl"
  proof -
    from p have "deferClaudeStopLock ev" by (simp add: pendingDelayedStop_def verified_turn_def)
    from assms(4) [OF this] same cl(2) show ?thesis by (simp add: notified_def added_def)
  qed
  have "fs_mtime (hw_locks ?a) (getLockPath (ek_lockKey (turn_keys tb ev cl ?keys)) (Some hookEvent))
      = Some (he_clock env AtLock)"
    using changed same cl(2) lock_paths_differ [OF assms(6,5)] sh by (intro announced_lock) auto
  with w' cleanup_keeps_lock [OF this assms(7-10)]
  have "fs_mtime (hw_locks w') (getLockPath (ek_lockKey (turn_keys tb ev cl ?keys)) (Some hookEvent))
      = Some (he_clock env AtLock)" by auto
  with cl(1) show ?thesis by (rule that)
qed

text \<open>Claude's Stop: its classification is a function of the transcript, so is the key of its lock.\<close>

lemma stop_classified:
  assumes "deferClaudeStopLock ev" and "classifyHook tb cfg env ev keys w = (Inr (Some cl), w1)"
  shows "hw_locks w1 = hw_locks w"
    and "\<exists>p. ev_Payload ev = Some (PStopPayload p) \<and>
      cl = (let (st, messages) = stop_transcript tb cfg env ev (sp_AssistantMessage p)
            in enriched_stop tb cfg st (sp_AssistantMessage p) messages)"
proof -
  obtain p where p: "ev_Product ev = ProductClaude" "ev_Payload ev = Some (PStopPayload p)"
    using assms(1) by (auto simp: deferClaudeStopLock_def Kind_def split: option.splits elim!: eventKind.elims)
  have gate: "hw_locks (snd (team_gate cfg env sid w)) = hw_locks w" for sid
    by (auto simp: team_gate_def claim_lead_def split: option.split prod.split sum.split)
  from assms(2) p have c: "classifyClaudeStop tb cfg env ev (sp_AssistantMessage p) w = (Inr (Some cl), w1)"
    by (simp add: classifyHook_def classifyClaudeHook_def)
  then show "hw_locks w1 = hw_locks w"
    using gate [of "ses_SessionID (ev_Session ev)"]
    by (auto simp: classifyClaudeStop_def Let_def split: prod.splits sum.splits bool.splits if_splits)
  show "\<exists>p. ev_Payload ev = Some (PStopPayload p) \<and>
      cl = (let (st, messages) = stop_transcript tb cfg env ev (sp_AssistantMessage p)
            in enriched_stop tb cfg st (sp_AssistantMessage p) messages)"
    using c p(2)
    by (auto simp: classifyClaudeStop_def Let_def split: prod.splits sum.splits bool.splits if_splits)
qed

lemma stop_classified_same:
  assumes "deferClaudeStopLock ev" and "he_transcript env2 = he_transcript env1"
    and "classifyHook tb cfg env1 ev keys w = (Inr (Some cl), w1)"
    and "classifyHook tb cfg env2 ev keys v = (Inr (Some cl'), v1)"
  shows "cl' = cl"
proof -
  have "stop_transcript tb cfg env2 ev f = stop_transcript tb cfg env1 ev f" for f
    by (simp add: stop_transcript_def assms(2))
  with stop_classified(2) [OF assms(1,3)] stop_classified(2) [OF assms(1,4)] show ?thesis by auto
qed

lemma fresh_lock_refuses:
  assumes "fs_mtime fs (getLockPath key ev) = Some t" and "0 < t" and "t \<le> now" and "now < t + 2"
    and "in_int64 now" and "ttl \<in> {2, 60}"
  shows "AcquireLockWithTTL (FileAge now) now key ttl ev fs = (Inr False, fs)"
  using assms FileAge_fresh [OF assms(1-3,5)]
  by (auto simp: AcquireLockWithTTL_def AtomicCreateFile_def Let_def)

lemma repeated_stop_log:
  assumes "deferClaudeStopLock ev" and "he_transcript env2 = he_transcript env1"
    and "classifyHook tb cfg env1 ev (eventKeys (tb_sha tb) ev) w = (Inr (Some cl), w1)"
    and "fs_mtime (hw_locks v)
      (getLockPath (ek_lockKey (turn_keys tb ev cl (eventKeys (tb_sha tb) ev))) (Some hookEvent)) = Some t"
    and "0 < t" and "t \<le> he_clock env2 AtLock" and "he_clock env2 AtLock < t + 2"
    and "in_int64 (he_clock env2 AtLock)"
  shows "ch_log (snd (handle_event tb cfg env2 hookEvent ev v)) = ch_log v"
proof -
  let ?keys = "eventKeys (tb_sha tb) ev"
  let ?v0 = "capture_ghostty cfg env2 ev v"
  let ?v1 = "snd (classifyHook tb cfg env2 ev ?keys ?v0)"
  have idle: "Kind ev \<noteq> EventTeammateIdle" using assms(1) by (simp add: deferClaudeStopLock_def)
  have log0: "ch_log ?v1 = ch_log v" using classify_log [OF idle] by simp
  have adm: "ch_log (snd (admit tb cfg env2 ev ?keys hookEvent cl2 ?v1)) = ch_log v"
    if c: "fst (classifyHook tb cfg env2 ev ?keys ?v0) = Inr (Some cl2)" for cl2
  proof -
    from c have c2: "classifyHook tb cfg env2 ev ?keys ?v0 = (Inr (Some cl2), ?v1)"
      by (simp add: prod_eq_iff)
    have "cl2 = cl" by (rule stop_classified_same [OF assms(1-3) c2])
    moreover have "hw_locks ?v1 = hw_locks v" using stop_classified(1) [OF assms(1) c2] by simp
    ultimately have "AcquireLockWithTTL (FileAge (he_clock env2 AtLock)) (he_clock env2 AtLock)
        (ek_lockKey (turn_keys tb ev cl2 ?keys)) (if pendingDelayedStop cfg ev cl2 then 60 else 2)
        (Some hookEvent) (hw_locks ?v1) = (Inr False, hw_locks ?v1)"
      using assms(4-8) by (intro fresh_lock_refuses) auto
    then have "ch_log (snd (admit tb cfg env2 ev ?keys hookEvent cl2 ?v1)) = ch_log ?v1"
      by (intro admit_refused) simp
    with log0 show ?thesis by simp
  qed
  show ?thesis
    using log0 adm
    by (auto simp: handle_event_def Let_def split_beta split: sum.split option.split)
qed

text \<open>TeammateIdle: the claim that announced a team's completion has reset its cycle.\<close>

lemma notify_team_teams [simp]: "hw_teams (notify_team tb cfg env ev team info w) = hw_teams w"
  unfolding notify_team_def Let_def
  by (rule sendNotifications_keeps [where P = "\<lambda>w'. hw_teams w' = hw_teams w"]) simp_all

lemma idle_claims:
  assumes "ch_log (snd (handleTeammateIdle tb cfg env ev team mate w)) \<noteq> ch_log w"
  shows "\<exists>members. fst (ClaimAllIdle (he_clock env AtClaim) team members
           (snd (RecordTeammateIdle (he_clock env AtTeam) team mate (hw_teams w)))) = Inr True
       \<and> hw_teams (snd (handleTeammateIdle tb cfg env ev team mate w))
           = snd (ClaimAllIdle (he_clock env AtClaim) team members
               (snd (RecordTeammateIdle (he_clock env AtTeam) team mate (hw_teams w))))"
proof (cases "DetectTeamByName team (he_teamConfig env)")
  case (Some info)
  with assms show ?thesis
    by (intro exI [of _ "ti_Members info"])
      (auto simp: handleTeammateIdle_def claim_idle_def
        split: if_splits option.splits prod.splits sum.splits bool.splits)
qed (use assms in \<open>auto simp: handleTeammateIdle_def split: if_splits\<close>)

lemma claimed_resets:
  assumes "fst (ClaimAllIdle now name members m) = Inr True" and "team_ok m"
  shows "\<exists>s. loadStateUnlocked name m = Inr s \<and> ts_LeadStopped s"
    and "\<exists>s. loadStateUnlocked name (snd (ClaimAllIdle now name members m)) = Inr s \<and> \<not> ts_LeadStopped s"
    and "team_ok (snd (ClaimAllIdle now name members m))"
proof -
  from assms(1) obtain s where s: "loadStateUnlocked name m = Inr s" "allIdle s members" "\<not> tf_readonly m"
    by (auto simp: ClaimAllIdle_def saveStateUnlocked_def split: sum.splits if_splits)
  with assms(2) have n: "ts_TeamName (markNotified now s) = name" by (simp add: loaded_name markNotified_def)
  with s have m': "snd (ClaimAllIdle now name members m) = team_put name (markNotified now s) m"
    by (simp add: ClaimAllIdle_def saveState_put)
  from s show "\<exists>s. loadStateUnlocked name m = Inr s \<and> ts_LeadStopped s"
    by (auto simp: allIdle_def split: if_splits)
  show "\<exists>s. loadStateUnlocked name (snd (ClaimAllIdle now name members m)) = Inr s \<and> \<not> ts_LeadStopped s"
    by (simp add: m' team_put_def loadStateUnlocked_def markNotified_def)
  show "team_ok (snd (ClaimAllIdle now name members m))"
    unfolding m' using assms(2) n by (rule team_ok_put)
qed

lemma idle_record_keeps_lead:
  assumes "team_ok m"
  shows "team_ok (snd (RecordTeammateIdle now name mate m))"
    and "loadStateUnlocked name m = Inr s \<Longrightarrow> \<not> ts_LeadStopped s \<Longrightarrow>
      \<exists>s'. loadStateUnlocked name (snd (RecordTeammateIdle now name mate m)) = Inr s' \<and> \<not> ts_LeadStopped s'"
proof -
  have n: "ts_TeamName s = name" if "loadStateUnlocked name m = Inr s" for s
    using assms that by (rule loaded_name)
  show "team_ok (snd (RecordTeammateIdle now name mate m))"
    using assms n
    by (cases "loadStateUnlocked name m")
      (simp_all add: RecordTeammateIdle_def team_update_def saveState_put team_ok_put)
  show "loadStateUnlocked name m = Inr s \<Longrightarrow> \<not> ts_LeadStopped s \<Longrightarrow>
      \<exists>s'. loadStateUnlocked name (snd (RecordTeammateIdle now name mate m)) = Inr s' \<and> \<not> ts_LeadStopped s'"
    using n
    by (auto simp: RecordTeammateIdle_def team_update_def saveState_put)
      (simp add: team_put_def loadStateUnlocked_def)
qed

lemma idle_event:
  assumes "Kind ev = EventTeammateIdle"
  obtains team mate where "ev_Payload ev = Some (PTeammateIdle team mate)"
    and "\<And>keys w. \<forall>cl. fst (classifyHook tb cfg env ev keys w) \<noteq> Inr (Some cl)"
    and "\<And>w. snd (handle_event tb cfg env hookEvent ev w) \<in> {w, snd (handleTeammateIdle tb cfg env ev team mate w)}"
proof -
  obtain team mate where p: "ev_Payload ev = Some (PTeammateIdle team mate)"
    using assms by (auto simp: Kind_def split: option.splits elim!: eventKind.elims)
  have n: "\<forall>cl. fst (classifyHook tb cfg env ev keys w) \<noteq> Inr (Some cl)" for keys w
    using p by (simp add: classifyHook_def classifyClaudeHook_def classifyCodexHook_def classifyQoderHook_def
        split: Product.split prod.split option.split)
  have s: "snd (classifyHook tb cfg env ev keys w) \<in> {w, snd (handleTeammateIdle tb cfg env ev team mate w)}"
    for keys w
    using p by (auto simp: classifyHook_def classifyClaudeHook_def classifyCodexHook_def classifyQoderHook_def
        split: Product.split prod.split option.split)
  have g: "capture_ghostty cfg env ev w = w" for w
    using assms by (simp add: capture_ghostty_def)
  have "snd (handle_event tb cfg env hookEvent ev w) \<in> {w, snd (handleTeammateIdle tb cfg env ev team mate w)}" for w
    using n [where keys = "eventKeys (tb_sha tb) ev" and w = w] s [of "eventKeys (tb_sha tb) ev" w]
    by (auto simp: handle_event_def Let_def g split: prod.split sum.split option.split)
  with p n show ?thesis by (rule that)
qed

lemma repeated_idle_log:
  assumes "Kind ev = EventTeammateIdle" and "team_ok (hw_teams w0)"
    and "ch_log (snd (handle_event tb cfg env1 hookEvent ev w0)) \<noteq> ch_log w0"
  shows "ch_log (snd (handle_event tb cfg env2 hookEvent ev (snd (handle_event tb cfg env1 hookEvent ev w0))))
    = ch_log (snd (handle_event tb cfg env1 hookEvent ev w0))"
proof (rule ccontr)
  let ?w1 = "snd (handle_event tb cfg env1 hookEvent ev w0)"
  assume again: "ch_log (snd (handle_event tb cfg env2 hookEvent ev ?w1)) \<noteq> ch_log ?w1"
  obtain team mate where p: "ev_Payload ev = Some (PTeammateIdle team mate)"
    and one: "?w1 \<in> {w0, snd (handleTeammateIdle tb cfg env1 ev team mate w0)}"
    using idle_event [OF assms(1), of tb cfg env1 hookEvent] by metis
  obtain team' mate' where p': "ev_Payload ev = Some (PTeammateIdle team' mate')"
    and "snd (handle_event tb cfg env2 hookEvent ev ?w1)
      \<in> {?w1, snd (handleTeammateIdle tb cfg env2 ev team' mate' ?w1)}"
    using idle_event [OF assms(1), of tb cfg env2 hookEvent] by metis
  with p again have two: "ch_log (snd (handleTeammateIdle tb cfg env2 ev team mate ?w1)) \<noteq> ch_log ?w1" by auto
  from one assms(3) have w1: "?w1 = snd (handleTeammateIdle tb cfg env1 ev team mate w0)" by auto
  let ?m = "snd (RecordTeammateIdle (he_clock env1 AtTeam) team mate (hw_teams w0))"
  from idle_claims [of tb cfg env1 ev team mate w0] assms(3) w1 obtain members where
    claim: "fst (ClaimAllIdle (he_clock env1 AtClaim) team members ?m) = Inr True"
    and t1: "hw_teams ?w1 = snd (ClaimAllIdle (he_clock env1 AtClaim) team members ?m)" by auto
  have ok: "team_ok ?m" using assms(2) by (rule idle_record_keeps_lead(1))
  from claimed_resets(2,3) [OF claim ok] t1 obtain s where
    s: "loadStateUnlocked team (hw_teams ?w1) = Inr s" "\<not> ts_LeadStopped s" and ok1: "team_ok (hw_teams ?w1)" by auto
  let ?m2 = "snd (RecordTeammateIdle (he_clock env2 AtTeam) team mate (hw_teams ?w1))"
  from idle_record_keeps_lead(2) [OF ok1 s] obtain s2 where
    s2: "loadStateUnlocked team ?m2 = Inr s2" "\<not> ts_LeadStopped s2" by blast
  from idle_claims [OF two] obtain members2 where
    "fst (ClaimAllIdle (he_clock env2 AtClaim) team members2 ?m2) = Inr True" by blast
  from claimed_resets(1) [OF this idle_record_keeps_lead(1) [OF ok1]] s2 show False by auto
qed

text \<open>
  Property C1. A hook fired twice notifies once: if handling an event announced something (queued a
  webhook or submitted a banner), handling the same event once more within two seconds has no
  effect at all on the channels. Claude's Stop keeps its lock only if the notification reached a
  channel and is recognised by its turn, so for it the notification must have been shown and the
  transcript be the same; the completion of a team announced at TeammateIdle is not announced
  again at any time. All other events stop at the early check: nothing changes but the Ghostty
  terminal that Claude's PreToolUse and Notification hooks remember before it. (The name of a hook
  is never empty nor \<^verbatim>\<open>content\<close>, the clock does not run backwards, and team files carry their
  team's name, which every hook keeps so.)
\<close>

theorem duplicate_hook_is_silent:
  assumes "handle_event tb cfg env1 hookEvent ev w0 = (r1, w1)" and "announced w0 w1"
    and "deferClaudeStopLock ev \<Longrightarrow> notified w0 w1 \<and> he_transcript env2 = he_transcript env1"
    and "team_ok (hw_teams w0)"
    and "hookEvent \<noteq> []" and "\<not> HasSuffix (CHR ''-'' # hookEvent) ''-content''"
    and "0 < he_clock env1 AtLock" and "he_clock env1 AtLock \<le> he_clock env1 AtCleanup"
    and "he_clock env1 AtCleanup \<le> he_clock env2 AtEarly" and "he_clock env2 AtEarly \<le> he_clock env2 AtLock"
    and "he_clock env2 AtLock < he_clock env1 AtLock + 2" and "in_int64 (he_clock env2 AtLock)"
    and "handle_event tb cfg env2 hookEvent ev w1 = (r2, w2)"
  shows "ch_log w2 = ch_log w1 \<and>
    (\<not> deferClaudeStopLock ev \<and> Kind ev \<noteq> EventTeammateIdle \<longrightarrow>
       r2 = None \<and> w2 = capture_ghostty cfg env2 ev w1)"
proof (cases "Kind ev = EventTeammateIdle")
  case True
  have "ch_log w1 \<noteq> ch_log w0" using assms(2) announced_same_log by blast
  with repeated_idle_log [OF True assms(4), of tb cfg env1 hookEvent env2] assms(1,13) True
  show ?thesis by simp
next
  case False
  let ?keys = "eventKeys (tb_sha tb) ev"
  have i: "in_int64 (he_clock env1 AtCleanup)" "in_int64 (he_clock env2 AtEarly)"
    using assms(7-12) by (auto simp: in_int64_def)
  obtain cl v where cl: "classifyHook tb cfg env1 ev ?keys (capture_ghostty cfg env1 ev w0) = (Inr (Some cl), v)"
    and lock: "fs_mtime (hw_locks w1) (getLockPath (ek_lockKey (turn_keys tb ev cl ?keys)) (Some hookEvent))
      = Some (he_clock env1 AtLock)"
    using assms(3,5-11) i by (auto intro: announced_event_lock [OF assms(1,2) False])
  show ?thesis
  proof (cases "deferClaudeStopLock ev")
    case True
    have "ch_log (snd (handle_event tb cfg env2 hookEvent ev w1)) = ch_log w1"
      using assms(3,7-12) True by (intro repeated_stop_log [OF True _ cl lock]) auto
    with assms(13) True show ?thesis by simp
  next
    case early: False
    then have "turn_keys tb ev cl ?keys = ?keys" by (simp add: turn_keys_def verified_turn_def)
    with lock have l: "fs_mtime (hw_locks w1) (getLockPath (ek_lockKey ?keys) (Some hookEvent))
      = Some (he_clock env1 AtLock)" by simp
    then have "FileAge (he_clock env2 AtEarly) (getLockPath (ek_lockKey ?keys) (Some hookEvent)) (hw_locks w1)
        = he_clock env2 AtEarly - he_clock env1 AtLock"
      using assms(7-9) i by (intro FileAge_fresh) simp_all
    with l have "CheckEarlyDuplicate (FileAge (he_clock env2 AtEarly)) (ek_lockKey ?keys) (Some hookEvent) (hw_locks w1)"
      using assms(8-11) by (simp add: CheckEarlyDuplicate_def FileExists_def Let_def)
    with early assms(13) show ?thesis by (auto simp: handle_event_def Let_def)
  qed
qed

lemma release_removes:
  "\<not> fs_denied fs (getLockPath key ev) \<Longrightarrow> fs_mtime (snd (ReleaseLock key ev fs)) (getLockPath key ev) = None"
  by (auto simp: ReleaseLock_def remove_existing_def op_defs split: prod.split)

lemma acquire_denied [simp]:
  "fs_denied (snd (AcquireLockWithTTL age now key ttl ev fs)) = fs_denied fs"
  by (auto simp: AcquireLockWithTTL_def replace_lock_def Let_def op_defs split: prod.split)

lemma content_denied [simp]:
  "fs_denied (snd (AcquireContentLock age now key fs)) = fs_denied fs"
  "fs_denied (snd (ReleaseContentLock key fs)) = fs_denied fs"
  by (auto simp: AcquireContentLock_def ReleaseContentLock_def remove_existing_def replace_lock_def
      Let_def op_defs split: prod.split)

lemma content_denied_eq:
  "AcquireContentLock age now key fs = (r, fs') \<Longrightarrow> fs_denied fs' = fs_denied fs"
  using content_denied(1) [of age now key fs] by simp

lemma notify_admitted_denied:
  "fs_denied (hw_locks (snd (notify_admitted tb cfg env ev keys hookEvent cl w))) = fs_denied (hw_locks w)"
proof -
  have "fs_denied (hw_locks (snd (prepareHookContent tb cfg env ev keys hookEvent cl w))) = fs_denied (hw_locks w)"
    by (auto simp: prepareHookContent_def Let_def content_denied_eq split: prod.split sum.split bool.split)
  then show ?thesis
    by (cases "prepareHookContent tb cfg env ev keys hookEvent cl w"; cases "fst (prepareHookContent tb cfg env ev keys hookEvent cl w)")
      (simp_all add: notify_admitted_def)
qed

text \<open>
  Property C20. A delayed desktop-only Stop reserves its turn for the whole delay and not longer than
  it is worth: once the turn's lock is acquired, the lock stays as old as the acquisition if
  something was delivered, and is gone again if nothing was, so that a later hook of the turn can
  still notify.
\<close>

theorem delayed_stop_reservation:
  assumes "pendingDelayedStop cfg ev cl" and "cl_status cl \<noteq> StatusUnknown"
    and "\<not> ShouldFilter cfg (status_string (cl_status cl)) (he_branch env) (path_Base (ses_CWD (ev_Session ev)))"
    and "AcquireLockWithTTL (FileAge (he_clock env AtLock)) (he_clock env AtLock)
      (ek_lockKey (turn_keys tb ev cl keys)) 60 (Some ''Stop'') (hw_locks w) = (Inr True, fs')"
    and "\<not> fs_denied (hw_locks w) (getLockPath (ek_lockKey (turn_keys tb ev cl keys)) (Some ''Stop''))"
  shows "fs_mtime (hw_locks (snd (admit tb cfg env ev keys ''Stop'' cl w)))
      (getLockPath (ek_lockKey (turn_keys tb ev cl keys)) (Some ''Stop''))
    = (if fst (notify_admitted tb cfg env ev (turn_keys tb ev cl keys) ''Stop'' cl (w\<lparr>hw_locks := fs'\<rparr>))
       then Some (he_clock env AtLock) else None)"
proof -
  let ?k = "turn_keys tb ev cl keys"
  let ?p = "getLockPath (ek_lockKey ?k) (Some ''Stop'')"
  let ?n = "notify_admitted tb cfg env ev ?k ''Stop'' cl (w\<lparr>hw_locks := fs'\<rparr>)"
  have "?p \<noteq> contentLockPath (ek_stateKey ?k)"
    by (rule lock_paths_differ) (simp_all add: HasSuffix_def)
  then have kept: "fs_mtime (hw_locks (snd ?n)) ?p = Some (he_clock env AtLock)"
    using notify_admitted_lock acquired_lock [OF assms(4)] by simp
  have "fs_denied fs' = fs_denied (hw_locks w)"
    using acquire_denied [of "FileAge (he_clock env AtLock)" "he_clock env AtLock" "ek_lockKey ?k" 60
        "Some ''Stop''" "hw_locks w"] assms(4) by simp
  then have "\<not> fs_denied (hw_locks (snd ?n)) ?p"
    using assms(5) by (simp add: notify_admitted_denied)
  note gone = release_removes [OF this]
  have "admit tb cfg env ev keys ''Stop'' cl w =
     (let (keep, w') = ?n in (None, if pendingDelayedStop cfg ev cl \<and> \<not> keep
        then w'\<lparr>hw_locks := snd (ReleaseLock (ek_lockKey ?k) (Some ''Stop'') (hw_locks w'))\<rparr> else w'))"
    using assms(1,4) by (intro admit_acquired [OF _ assms(2,3)]) simp
  with assms(1) kept gone show ?thesis by (simp add: split_beta Let_def)
qed

subsection \<open>Questions\<close>

lemma AcquireLock_frames: "hw_states (w\<lparr>hw_locks := fs\<rparr>) = hw_states w"
  by simp

lemma admit_question_suppressed:
  assumes "questionSuppressed cfg (he_clock env AtQuestion) ev (ek_stateKey keys) (cl_status cl) (hw_states w)"
  shows "ch_log (snd (admit tb cfg env ev keys hookEvent cl w)) = ch_log w
    \<and> hw_states (snd (admit tb cfg env ev keys hookEvent cl w)) = hw_states w"
  using assms
  by (auto simp: admit_def notify_admitted_def Let_def split: prod.split sum.split bool.split)

text \<open>Remembering the terminal leaves the times of a session's notifications alone.\<close>

lemma capture_keeps_time:
  assumes "Load (ses_SessionID (ev_Session ev)) (hw_states w) = Inr (Some st)"
  shows "\<exists>st'. Load (ses_SessionID (ev_Session ev)) (hw_states (capture_ghostty cfg env ev w)) = Inr (Some st')
    \<and> ss_LastNotificationTime st' = ss_LastNotificationTime st"
  using assms
  by (auto simp: capture_ghostty_def UpdateGhosttyTerminalID_def update_session_def Save_def Load_def
      json_state_def split: option.split state_file.splits option.splits)

text \<open>
  Property C21. Claude's question hook does not repeat a banner the user has just seen: while the
  configured number of seconds since the last notification of the session has not passed, a
  question from its Notification hook announces nothing and writes no session or team state, except
  that the Ghostty terminal in front, if there is one and clicks are to focus it, is remembered in
  the session's state as by every Notification hook.
\<close>

theorem question_respects_cooldown:
  assumes "ev_Product ev = ProductClaude" and "ev_Payload ev = Some (PNotification ty message)"
    and "ty \<noteq> ''permission_prompt''"
    and "Load (ses_SessionID (ev_Session ev)) (hw_states w) = Inr (Some st)"
    and "0 < ss_LastNotificationTime st" and "ss_LastNotificationTime st \<le> he_clock env AtQuestion"
    and "he_clock env AtQuestion - ss_LastNotificationTime st
           < GetSuppressQuestionAfterAnyNotificationSeconds cfg"
    and "in_int64 (he_clock env AtQuestion)"
    and "handle_event tb cfg env hookEvent ev w = (r, w')"
  shows "\<not> announced w w' \<and> hw_teams w' = hw_teams w
    \<and> hw_states w' = hw_states (capture_ghostty cfg env ev w)
    \<and> (he_ghostty env = None \<longrightarrow> hw_states w' = hw_states w)"
proof -
  let ?keys = "eventKeys (tb_sha tb) ev"
  have keys: "ek_stateKey ?keys = ses_SessionID (ev_Session ev)"
    using assms(1) by (simp add: eventKeys_def claudeKeys_def)
  have kind: "Kind ev = EventNotification" using assms(2) by (simp add: Kind_def)
  let ?g = "capture_ghostty cfg env ev w"
  have cl: "classifyHook tb cfg env ev ?keys ?g = (Inr (Some (plain StatusQuestion False)), ?g)"
    using assms(1-3) by (simp add: classifyHook_def classifyClaudeHook_def)
  obtain st' where "Load (ses_SessionID (ev_Session ev)) (hw_states ?g) = Inr (Some st')"
    "ss_LastNotificationTime st' = ss_LastNotificationTime st"
    using capture_keeps_time [OF assms(4)] by blast
  then have "questionSuppressed cfg (he_clock env AtQuestion) ev (ek_stateKey ?keys) StatusQuestion (hw_states ?g)"
    using assms(1,5-8) keys kind
    by (simp add: questionSuppressed_def ShouldSuppressQuestionAfterAnyNotification_def yes_def
        elapsed_simps)
  then have a: "ch_log (snd (admit tb cfg env ev ?keys hookEvent (plain StatusQuestion False) ?g)) = ch_log w"
    "hw_states (snd (admit tb cfg env ev ?keys hookEvent (plain StatusQuestion False) ?g)) = hw_states ?g"
    using admit_question_suppressed [of cfg env ev ?keys "plain StatusQuestion False" ?g tb hookEvent]
    by (simp_all add: plain_def)
  have t: "hw_teams (snd (admit tb cfg env ev ?keys hookEvent cl ?g)) = hw_teams w" for cl
    by (auto simp: admit_def notify_admitted_def Let_def split_beta split: prod.split sum.split bool.split option.split)
  have "?g = w" if "he_ghostty env = None" using that by (simp add: capture_ghostty_def)
  moreover have "w' = ?g \<or> w' = snd (admit tb cfg env ev ?keys hookEvent (plain StatusQuestion False) ?g)"
    using assms(9) cl by (auto simp: handle_event_def Let_def plain_def split_beta split: if_splits)
  with a t have "ch_log w' = ch_log w" "hw_states w' = hw_states ?g" "hw_teams w' = hw_teams w" by auto
  ultimately show ?thesis by (auto simp: announced_same_log)
qed

subsection \<open>State files that are forgotten\<close>

text \<open>
  Theorem. The cleanup after any Stop forgets what the duplicate checks are still to compare
  with: a session state last written more than 60 seconds ago is removed, so a message that equals
  the one recorded within the 180 second window is no longer a duplicate afterwards.
\<close>

theorem cleanup_forgets_recent_content:
  assumes "hw_stateTimes w sid = Some t" and "0 < t" and "t + 60 < he_clock env AtCleanup"
    and "in_int64 (he_clock env AtCleanup)" and "\<not> st_readonly (hw_states w) sid"
    and "st_files (hw_states w) sid = Some (Parsed st)"
    and "ss_LastNotificationTime st = t" and "ss_LastNotificationMessage st = message" and "message \<noteq> []"
    and "he_clock env AtCleanup \<le> t + 180"
  shows "IsDuplicateMessage uni (he_clock env AtCleanup) sid message 180 (hw_states w) = Inr True
    \<and> IsDuplicateMessage uni (he_clock env AtCleanup) sid message 180
         (hw_states (cleanupOldLocks env w)) = Inr False"
proof -
  let ?now = "he_clock env AtCleanup"
  have el: "elapsed_since ?now t = ?now - t" using assms by (intro elapsed_simps) simp_all
  have "Load sid (hw_states w) = Inr (Some st)" using assms(6) by (simp add: Load_def)
  then have "IsDuplicateMessage uni ?now sid message 180 (hw_states w) = Inr True"
    using assms(2,7-10) el by (simp add: IsDuplicateMessage_def)
  moreover have "wrap64 (?now - t) = ?now - t" using el by (simp add: elapsed_since_def)
  then have "stale_state ?now 60 (w\<lparr>hw_locks := fs\<rparr>) sid" for fs
    using assms(1-5) by (simp add: stale_state_def)
  then have "st_files (hw_states (cleanupOldLocks env w)) sid = None"
    by (simp add: cleanupOldLocks_def state_Cleanup_def Let_def)
  then have "IsDuplicateMessage uni ?now sid message 180 (hw_states (cleanupOldLocks env w)) = Inr False"
    by (simp add: IsDuplicateMessage_def Load_def)
  ultimately show ?thesis ..
qed

subsection \<open>Teammates take no lock\<close>

lemma notify_team_locks [simp]: "hw_locks (notify_team tb cfg env ev team info w) = hw_locks w"
  unfolding notify_team_def Let_def
  by (rule sendNotifications_keeps [where P = "\<lambda>w'. hw_locks w' = hw_locks w"]) simp_all

lemma handleTeammateIdle_locks:
  "hw_locks (snd (handleTeammateIdle tb cfg env ev team mate w)) = hw_locks w"
  by (auto simp: handleTeammateIdle_def claim_idle_def split: option.split prod.split sum.split bool.split)

text \<open>
  Theorem. Handling TeammateIdle never creates, refreshes or removes a lock file, so the check
  for a rapid duplicate of the same teammate has nothing to find.
\<close>

theorem teammate_idle_takes_no_lock:
  assumes "Kind ev = EventTeammateIdle" and "handle_event tb cfg env hookEvent ev w = (r, w')"
  shows "hw_locks w' = hw_locks w"
proof -
  obtain team mate where
    "snd (handle_event tb cfg env hookEvent ev w) \<in> {w, snd (handleTeammateIdle tb cfg env ev team mate w)}"
    using idle_event [OF assms(1), of tb cfg env hookEvent] by metis
  with assms(2) show ?thesis by (auto simp: handleTeammateIdle_locks)
qed

subsection \<open>The end of every call\<close>

fun shuts_down :: "effect \<Rightarrow> bool" where
  "shuts_down (WebhookShutdown b) = True"
| "shuts_down NotifierClosed = True"
| "shuts_down e = False"

text \<open>An operation only appends effects, none of which closes a service.\<close>

definition only_works :: "hook_world \<Rightarrow> hook_world \<Rightarrow> bool" where
  "only_works w w' \<longleftrightarrow> (\<exists>rest. ch_log w' = ch_log w @ rest \<and> \<not> list_ex shuts_down rest)"

lemma only_works_same: "ch_log w' = ch_log w \<Longrightarrow> only_works w w'"
  by (simp add: only_works_def)

lemma only_works_trans: "only_works w w' \<Longrightarrow> only_works w' w'' \<Longrightarrow> only_works w w''"
  by (auto simp: only_works_def)

lemma sendNotifications_works:
  "only_works w (snd (sendNotifications uni cfg denv st body actions sid cwd
     (record_delivery env k st' m h b t e) det w))"
proof -
  let ?ctx = "webhook_context uni denv st body actions sid cwd det"
  obtain rest where r: "ch_log (snd (sendNotifications uni cfg denv st body actions sid cwd
     (record_delivery env k st' m h b t e) det w)) = ch_log w @ queued_effects cfg ?ctx @ rest"
    "list_all (desktop_effect_ok uni cfg denv) rest"
    using delivery_log [OF record_delivery_silent] by blast
  have "\<not> list_ex shuts_down rest"
  proof
    assume "list_ex shuts_down rest"
    then obtain e where "e \<in> set rest" "shuts_down e" by (auto simp: list_ex_iff)
    with r(2) show False by (cases e) (auto simp: list_all_iff desktop_effect_ok_def)
  qed
  with r(1) show ?thesis by (auto simp: only_works_def queued_effects_def)
qed

lemma only_works_locks [simp]:
  "only_works (w\<lparr>hw_locks := fs\<rparr>) w' \<longleftrightarrow> only_works w w'"
  "only_works w (w'\<lparr>hw_locks := fs\<rparr>) \<longleftrightarrow> only_works w w'"
  "only_works (w\<lparr>hw_teams := m\<rparr>) w' \<longleftrightarrow> only_works w w'"
  by (simp_all add: only_works_def)

lemma notify_admitted_works: "only_works w (snd (notify_admitted tb cfg env ev keys hookEvent cl w))"
proof (cases "prepareHookContent tb cfg env ev keys hookEvent cl w")
  case (Pair c w')
  with prepare_log [of tb cfg env ev keys hookEvent cl w] have "only_works w w'"
    by (intro only_works_same) simp
  moreover have "only_works w' (snd (deliver tb cfg env ev keys hookEvent c1 c2 w'))" for c1 c2
    unfolding deliver_def Let_def split_beta snd_conv by (rule sendNotifications_works)
  ultimately show ?thesis using Pair
    by (cases c) (auto simp: notify_admitted_def only_works_same intro: only_works_trans)
qed

lemma admit_works: "only_works w (snd (admit tb cfg env ev keys hookEvent cl w))"
proof (cases "cl_status cl = StatusUnknown
   \<or> ShouldFilter cfg (status_string (cl_status cl)) (he_branch env) (path_Base (ses_CWD (ev_Session ev)))")
  case True
  then show ?thesis by (simp add: admit_filtered only_works_same)
next
  case False
  show ?thesis
  proof (cases "\<exists>fs'. AcquireLockWithTTL (FileAge (he_clock env AtLock)) (he_clock env AtLock)
      (ek_lockKey (turn_keys tb ev cl keys)) (if pendingDelayedStop cfg ev cl then 60 else 2)
      (Some hookEvent) (hw_locks w) = (Inr True, fs')")
    case True
    then obtain fs' where acq: "AcquireLockWithTTL (FileAge (he_clock env AtLock)) (he_clock env AtLock)
      (ek_lockKey (turn_keys tb ev cl keys)) (if pendingDelayedStop cfg ev cl then 60 else 2)
      (Some hookEvent) (hw_locks w) = (Inr True, fs')" by blast
    have "only_works w (snd (notify_admitted tb cfg env ev (turn_keys tb ev cl keys) hookEvent cl (w\<lparr>hw_locks := fs'\<rparr>)))"
      using notify_admitted_works [of "w\<lparr>hw_locks := fs'\<rparr>"] by simp
    with False show ?thesis by (simp add: admit_acquired [OF acq] split_beta Let_def)
  next
    case False
    then have "ch_log (snd (admit tb cfg env ev keys hookEvent cl w)) = ch_log w"
      by (intro admit_refused) blast
    then show ?thesis by (rule only_works_same)
  qed
qed

lemma idle_works: "only_works w (snd (handleTeammateIdle tb cfg env ev team mate w))"
proof -
  have "only_works w' (notify_team tb cfg env ev team info w')" for info w'
    unfolding notify_team_def Let_def by (rule sendNotifications_works)
  from this [of "w\<lparr>hw_teams := m\<rparr>" for m] show ?thesis
    by (auto simp: handleTeammateIdle_def claim_idle_def only_works_same
        split: option.split prod.split sum.split bool.split)
qed

lemma classify_works: "only_works w (snd (classifyHook tb cfg env ev keys w))"
proof (cases "Kind ev = EventTeammateIdle")
  case True
  then obtain team mate where p: "ev_Payload ev = Some (PTeammateIdle team mate)"
    by (auto simp: Kind_def split: option.splits elim!: eventKind.elims)
  with idle_works [of w tb cfg env ev team mate] show ?thesis
    by (auto simp: classifyHook_def classifyClaudeHook_def classifyQoderHook_def only_works_same
        split: Product.split prod.split option.split)
qed (simp add: classify_log only_works_same)

lemma handle_event_works: "only_works w (snd (handle_event tb cfg env hookEvent ev w))"
proof -
  let ?keys = "eventKeys (tb_sha tb) ev"
  let ?w0 = "capture_ghostty cfg env ev w"
  have w0: "only_works w ?w0" by (simp add: only_works_same)
  then have c: "only_works w (snd (classifyHook tb cfg env ev ?keys ?w0))"
    by (rule only_works_trans [OF _ classify_works])
  have a: "only_works w (snd (admit tb cfg env ev ?keys hookEvent cl (snd (classifyHook tb cfg env ev ?keys ?w0))))"
    for cl
    by (rule only_works_trans [OF c admit_works])
  have cl: "only_works w (cleanupOldLocks env w1)" if "only_works w w1" for w1
    using that by (simp add: only_works_def)
  show ?thesis
    using w0 c a cl
    by (auto simp: handle_event_def Let_def split_beta split: prod.split sum.split option.split)
qed

text \<open>
  Property C31. Every call that is not in judge mode, whether it fails, returns early or delivers,
  ends by waiting for the webhook sender and then closing the notifier, each exactly once and as
  its last two effects, with a shutdown budget between zero and five seconds.
\<close>

theorem hook_always_shuts_down:
  assumes "\<not> (ShouldRespectJudgeMode cfg \<and> he_judge env)"
  shows "\<exists>rest b. ch_log (snd (HandleHook tb cfg env hookEvent w))
      = ch_log w @ rest @ [WebhookShutdown b, NotifierClosed]
    \<and> \<not> list_ex shuts_down rest \<and> 0 \<le> b \<and> b \<le> 5 * second"
proof -
  define b where "b = shutdownBudget (dv_deadline (he_delivery env)) (dv_after (he_delivery env))"
  have b: "0 \<le> b" "b \<le> 5 * second"
    by (auto simp: b_def shutdownBudget_def second_def Let_def split: option.split)
  have fin: "\<exists>rest. ch_log (finish env w') = ch_log w @ rest @ [WebhookShutdown b, NotifierClosed]
      \<and> \<not> list_ex shuts_down rest" if "only_works w w'" for w'
    using that by (auto simp: only_works_def finish_def b_def)
  have "\<exists>w'. snd (HandleHook tb cfg env hookEvent w) = finish env w' \<and> only_works w w'"
  proof (cases "he_decode env hookEvent")
    case (Inl e)
    with assms show ?thesis by (auto simp: HandleHook_def intro: only_works_same)
  next
    case (Inr ev)
    with assms have "snd (HandleHook tb cfg env hookEvent w)
        = finish env (snd (handle_event tb cfg env hookEvent ev w))"
      by (auto simp: HandleHook_def split_beta)
    with handle_event_works show ?thesis by blast
  qed
  with b fin show ?thesis by metis
qed

subsection \<open>The stores stay well formed and sessions stay apart\<close>

text \<open>
  The one session whose state an event may write: the event's own, or at Claude's TeammateIdle the
  lead of the team it names (the event's own if the team's file has no lead).
\<close>

definition written_session :: "tables \<Rightarrow> hook_env \<Rightarrow> Event \<Rightarrow> string option" where
  "written_session tb env ev =
     (case ev_Payload ev of
        None \<Rightarrow> None
      | Some (PTeammateIdle team mate) \<Rightarrow>
          if ev_Product ev = ProductClaude then
            map_option (\<lambda>info. if ti_LeadSessionID info = [] then ses_SessionID (ev_Session ev)
                               else ti_LeadSessionID info)
              (DetectTeamByName team (he_teamConfig env))
          else None
      | Some p \<Rightarrow> Some (ek_stateKey (eventKeys (tb_sha tb) ev)))"

text \<open>
  The one team whose state an event may write, both only for Claude: the team a TeammateIdle names,
  or the team the session of a Stop leads.
\<close>

definition written_team :: "hook_env \<Rightarrow> Event \<Rightarrow> string option" where
  "written_team env ev =
     (if ev_Product ev \<noteq> ProductClaude then None
      else (case ev_Payload ev of
              Some (PTeammateIdle team mate) \<Rightarrow> Some team
            | Some (PStopPayload p) \<Rightarrow>
                map_option ti_TeamName (DetectTeamLead (ses_SessionID (ev_Session ev)) (he_teamEntries env))
            | _ \<Rightarrow> None))"

text \<open>The events after which old files are cleaned up.\<close>

definition cleans_up :: "Event \<Rightarrow> bool" where
  "cleans_up ev \<longleftrightarrow> Kind ev \<in> {EventStop, EventSubagentStop, EventStopFailure}"

text \<open>
  What stands between the world before an event and a later one while it is handled: the files are
  well formed; a session file other than those in \<^verbatim>\<open>S\<close> is as it was, or it was due for the
  cleanup, which has removed it; a team file other than those in \<^verbatim>\<open>T\<close> is as it was.
\<close>

definition kept :: "string set \<Rightarrow> string set \<Rightarrow> bool \<Rightarrow> hook_env \<Rightarrow> hook_world \<Rightarrow> hook_world \<Rightarrow> bool" where
  "kept S T c env w0 w \<longleftrightarrow>
     store_ok (hw_states w) \<and> team_ok (hw_teams w) \<and>
     st_readonly (hw_states w) = st_readonly (hw_states w0) \<and>
     (\<forall>sid. sid \<notin> S \<longrightarrow>
        st_files (hw_states w) sid = st_files (hw_states w0) sid \<and> hw_stateTimes w sid = hw_stateTimes w0 sid
        \<or> c \<and> stale_state (he_clock env AtCleanup) 60 w0 sid
          \<and> st_files (hw_states w) sid = None \<and> hw_stateTimes w sid = None) \<and>
     (\<forall>name. name \<notin> T \<longrightarrow> tf_files (hw_teams w) name = tf_files (hw_teams w0) name)"

definition valid_sessions :: "string set \<Rightarrow> bool" where
  "valid_sessions S \<longleftrightarrow> (\<forall>sid \<in> S. json_string sid = sid)"

lemma team_update_kept:
  assumes "team_ok m" and "\<And>s. ts_TeamName (f s) = ts_TeamName s"
  shows "team_ok (snd (team_update name f m))"
    and "name' \<noteq> name \<Longrightarrow> tf_files (snd (team_update name f m)) name' = tf_files m name'"
proof -
  have n: "ts_TeamName (f s) = name" if "loadStateUnlocked name m = Inr s" for s
    using assms that by (simp add: loaded_name)
  show "team_ok (snd (team_update name f m))"
    using assms n by (auto simp: team_update_def saveState_put team_ok_put split: sum.split)
  show "name' \<noteq> name \<Longrightarrow> tf_files (snd (team_update name f m)) name' = tf_files m name'"
    using n by (auto simp: team_update_def saveStateUnlocked_def split: sum.split)
qed

lemma claim_kept:
  assumes "team_ok m"
  shows "team_ok (snd (ClaimAllIdle now name members m))"
    and "name' \<noteq> name \<Longrightarrow> tf_files (snd (ClaimAllIdle now name members m)) name' = tf_files m name'"
proof -
  have n: "ts_TeamName (markNotified now s) = name" if "loadStateUnlocked name m = Inr s" for s
    using assms that by (simp add: loaded_name markNotified_def)
  show "team_ok (snd (ClaimAllIdle now name members m))"
    using assms n by (auto simp: ClaimAllIdle_def saveState_put team_ok_put split: sum.split)
  show "name' \<noteq> name \<Longrightarrow> tf_files (snd (ClaimAllIdle now name members m)) name' = tf_files m name'"
    using n by (auto simp: ClaimAllIdle_def saveStateUnlocked_def split: sum.split)
qed

lemma update_session_elsewhere:
  assumes "store_ok m" and "\<And>st. ss_SessionID (f st) = ss_SessionID st" and "sid' \<noteq> sid"
  shows "st_files (snd (update_session sid f m)) sid' = st_files m sid'"
proof -
  have "ss_SessionID st = sid" if "st_files m sid = Some (Parsed st)" for st
    using assms(1) that by (auto simp: store_ok_def)
  with assms(2,3) show ?thesis
    by (auto simp: update_session_def Load_def Save_def new_state_def
        split: option.split state_file.split)
qed

lemma update_session_readonly [simp]:
  "st_readonly (snd (update_session sid f m)) = st_readonly m"
  by (auto simp: update_session_def Load_def Save_def split: option.split state_file.split)

lemma write_state_times:
  "sid' \<noteq> sid \<Longrightarrow> hw_stateTimes (write_state now sid upd w) sid' = hw_stateTimes w sid'"
  by (simp add: write_state_def split: prod.split option.split)

lemma write_state_kept:
  assumes "kept S T c env w0 w" and "sid \<in> S" and "valid_sessions S"
    and "\<And>st. ss_SessionID (f st) = ss_SessionID st"
  shows "kept S T c env w0 (write_state now sid (update_session sid f) w)"
proof -
  have w: "store_ok (hw_states w)" using assms(1) by (simp add: kept_def)
  have "json_string sid = sid" using assms(2,3) by (simp add: valid_sessions_def)
  then have "store_ok (snd (update_session sid f (hw_states w)))"
    using w assms(4) by (intro update_session_ok)
  moreover have "st_files (snd (update_session sid f (hw_states w))) sid' = st_files (hw_states w) sid'
      \<and> hw_stateTimes (write_state now sid (update_session sid f) w) sid' = hw_stateTimes w sid'"
    if "sid' \<notin> S" for sid'
    using w assms(2,4) that by (auto intro!: update_session_elsewhere write_state_times)
  ultimately show ?thesis using assms(1) by (simp add: kept_def)
qed

lemma kept_simps [simp]:
  "kept S T c env w0 (w\<lparr>hw_locks := fs\<rparr>) = kept S T c env w0 w"
  "kept S T c env w0 (emit e w) = kept S T c env w0 w"
  "kept S T c env w0 (w\<lparr>ch_stamp := s\<rparr>) = kept S T c env w0 w"
  by (simp_all add: kept_def emit_def)

lemma kept_teams:
  assumes "kept S T c env w0 w" and "team_ok m"
    and "\<And>name. name \<notin> T \<Longrightarrow> tf_files m name = tf_files (hw_teams w) name"
  shows "kept S T c env w0 (w\<lparr>hw_teams := m\<rparr>)"
  using assms by (simp add: kept_def)

lemma cleanup_kept:
  assumes "c" and "kept S T c env w0 w"
  shows "kept S T c env w0 (cleanupOldLocks env w)"
proof -
  let ?now = "he_clock env AtCleanup"
  let ?w = "w\<lparr>hw_locks := dedup_Cleanup ?now 60 (hw_locks w)\<rparr>"
  have "stale_state ?now 60 ?w sid = stale_state ?now 60 w0 sid"
    if "hw_stateTimes w sid = hw_stateTimes w0 sid" for sid
    using assms(2) that by (simp add: stale_state_def kept_def split: option.split)
  moreover have "\<not> stale_state ?now 60 ?w sid" if "hw_stateTimes w sid = None" for sid
    using that by (simp add: stale_state_def)
  ultimately show ?thesis
    using assms
    by (auto simp: kept_def store_ok_def cleanupOldLocks_def state_Cleanup_def Let_def)
qed

lemma record_kept:
  assumes "sid \<in> S" and "valid_sessions S" and "kept S T c env0 w0 w"
  shows "kept S T c env0 w0 (record_delivery env sid st message h body turn event w)"
  unfolding record_delivery_def UpdateLastNotificationWithIdentity_def Let_def
  using assms by (intro write_state_kept) simp_all

lemma delivery_kept:
  assumes "sid \<in> S" and "valid_sessions S" and "kept S T c env0 w0 w"
  shows "kept S T c env0 w0 (snd (sendNotifications uni cfg denv st body actions sid' cwd
           (record_delivery env sid st' message h b turn event) det w))"
  by (rule sendNotifications_keeps [where P = "kept S T c env0 w0"])
    (simp_all add: record_kept assms)

lemma tool_kept:
  assumes "sid \<in> S" and "valid_sessions S" and "kept S T c env0 w0 w"
  shows "kept S T c env0 w0 (snd (classifyInteractiveTool tb cfg env ev tool input sid w))"
  using assms
  by (auto simp: classifyInteractiveTool_def handlePreToolUse_def UpdateInteractiveTool_def Let_def
      split_beta intro!: write_state_kept)

lemma gate_kept:
  assumes "\<And>info. DetectTeamLead sid (he_teamEntries env) = Some info \<Longrightarrow> ti_TeamName info \<in> T"
    and "kept S T c env0 w0 w"
  shows "kept S T c env0 w0 (snd (team_gate cfg env sid w))"
proof -
  have "kept S T c env0 w0 (snd (claim_lead env info w))" if T: "ti_TeamName info \<in> T" for info
  proof -
    let ?m = "snd (RecordLeadStopped (he_clock env AtTeam) (ti_TeamName info) (hw_teams w))"
    let ?m' = "snd (ClaimAllIdle (he_clock env AtClaim) (ti_TeamName info) (ti_Members info) ?m)"
    have ok: "team_ok (hw_teams w)" using assms(2) by (simp add: kept_def)
    have m: "team_ok ?m" "\<And>name. name \<notin> T \<Longrightarrow> tf_files ?m name = tf_files (hw_teams w) name"
      using T unfolding RecordLeadStopped_def by (auto intro!: team_update_kept ok)
    have m': "team_ok ?m'" "\<And>name. name \<notin> T \<Longrightarrow> tf_files ?m' name = tf_files (hw_teams w) name"
      using T m claim_kept [OF m(1)] by metis+
    show ?thesis
      using kept_teams [OF assms(2) m] kept_teams [OF assms(2) m']
      by (auto simp: claim_lead_def split_beta split: option.split sum.split)
  qed
  with assms show ?thesis by (simp add: team_gate_def split: option.split)
qed

lemma stop_kept:
  assumes "\<And>info. DetectTeamLead (ses_SessionID (ev_Session ev)) (he_teamEntries env) = Some info \<Longrightarrow>
      ti_TeamName info \<in> T"
    and "c" and "kept S T c env w0 w"
  shows "kept S T c env w0 (snd (classifyClaudeStop tb cfg env ev final w))"
proof -
  have "kept S T c env w0 (snd (team_gate cfg env (ses_SessionID (ev_Session ev)) w))"
    using assms(1,3) by (rule gate_kept)
  with cleanup_kept [OF assms(2,3)] assms(3) show ?thesis
    by (simp add: classifyClaudeStop_def Let_def split_beta split: sum.split bool.split)
qed

lemma idle_kept:
  assumes "\<And>info. DetectTeamByName team (he_teamConfig env) = Some info \<Longrightarrow>
      (if ti_LeadSessionID info = [] then ses_SessionID (ev_Session ev) else ti_LeadSessionID info) \<in> S"
    and "team \<in> T" and "valid_sessions S" and "kept S T c env0 w0 w"
  shows "kept S T c env0 w0 (snd (handleTeammateIdle tb cfg env ev team mate w))"
proof (cases "DetectTeamByName team (he_teamConfig env)")
  case (Some info)
  let ?m = "snd (RecordTeammateIdle (he_clock env AtTeam) team mate (hw_teams w))"
  let ?m' = "snd (ClaimAllIdle (he_clock env AtClaim) team (ti_Members info) ?m)"
  have ok: "team_ok (hw_teams w)" using assms(4) by (simp add: kept_def)
  have m: "team_ok ?m" "\<And>name. name \<notin> T \<Longrightarrow> tf_files ?m name = tf_files (hw_teams w) name"
    using assms(2) unfolding RecordTeammateIdle_def by (auto intro!: team_update_kept ok)
  have m': "team_ok ?m'" "\<And>name. name \<notin> T \<Longrightarrow> tf_files ?m' name = tf_files (hw_teams w) name"
    using assms(2) m claim_kept [OF m(1)] by metis+
  note k = kept_teams [OF assms(4) m] and k' = kept_teams [OF assms(4) m']
  have n: "kept S T c env0 w0 (notify_team tb cfg env ev team info (w\<lparr>hw_teams := ?m'\<rparr>))"
    unfolding notify_team_def Let_def
    using assms(1) [OF Some] assms(3) k' by (rule delivery_kept)
  have claim: "kept S T c env0 w0 (snd (claim_idle tb cfg env ev team info (w\<lparr>hw_teams := ?m\<rparr>)))"
    using k k' n by (simp add: claim_idle_def split_beta split: sum.split bool.split)
  show ?thesis
    using assms(4) claim k
    by (simp add: handleTeammateIdle_def Some split_beta split: option.split)
qed (use assms(4) in \<open>simp add: handleTeammateIdle_def\<close>)

lemma classify_kept:
  assumes "set_option (written_session tb env ev) \<subseteq> S" and "set_option (written_team env ev) \<subseteq> T"
    and "c = cleans_up ev" and "valid_sessions S" and "kept S T c env w0 w"
  shows "kept S T c env w0 (snd (classifyHook tb cfg env ev (eventKeys (tb_sha tb) ev) w))"
proof (cases "ev_Payload ev")
  case (Some p)
  let ?keys = "eventKeys (tb_sha tb) ev"
  have k: "ek_stateKey ?keys \<in> S" if "\<And>team mate. p \<noteq> PTeammateIdle team mate"
    using assms(1) Some that by (cases p) (auto simp: written_session_def)
  have tool: "kept S T c env w0 (snd (classifyInteractiveTool tb cfg env ev t i (ek_stateKey ?keys) w))"
    if "p = PPreToolUse t u i" for t u i
    using that by (intro tool_kept [OF k assms(4,5)]) simp
  have idle: "kept S T c env w0 (snd (handleTeammateIdle tb cfg env ev team mate w))"
    if "p = PTeammateIdle team mate" "ev_Product ev = ProductClaude" for team mate
    using assms(1,2) Some that
    by (intro idle_kept [OF _ _ assms(4,5)]) (auto simp: written_session_def written_team_def)
  have stop: "kept S T c env w0 (snd (classifyClaudeStop tb cfg env ev final w))"
    if "p = PStopPayload sp" "ev_Product ev = ProductClaude" for sp final
    using assms(2,3) Some that
    by (intro stop_kept [OF _ _ assms(5)]) (auto simp: written_team_def cleans_up_def Kind_def)
  have claude: "kept S T c env w0 (snd (classifyClaudeHook tb cfg env ev ?keys p w))"
    if "ev_Product ev = ProductClaude"
    using tool idle [OF _ that] stop [OF _ that] assms(5)
    by (cases p) (simp_all add: classifyClaudeHook_def classifyClaudeSubagentStop_def split_beta
        split: option.split)
  have qoder: "kept S T c env w0 (snd (classifyQoderHook tb cfg env ev ?keys p w))"
    using tool assms(5) by (cases p) (simp_all add: classifyQoderHook_def)
  show ?thesis
    using claude qoder assms(5) Some by (simp add: classifyHook_def split: Product.split)
qed (use assms in \<open>simp add: classifyHook_def\<close>)

text \<open>An event that is classified has its own session to write, and only a Stop asks for cleanup.\<close>

lemma classified_event:
  assumes "fst (classifyHook tb cfg env ev keys w) = Inr (Some cl)"
  shows "written_session tb env' ev = Some (ek_stateKey (eventKeys (tb_sha tb) ev))"
    and "cl_cleanup cl \<Longrightarrow> cleans_up ev"
proof -
  obtain p where p: "ev_Payload ev = Some p"
    using assms by (cases "ev_Payload ev") (auto simp: classifyHook_def)
  have "Kind ev \<noteq> EventTeammateIdle"
    using idle_event assms by metis
  with p show "written_session tb env' ev = Some (ek_stateKey (eventKeys (tb_sha tb) ev))"
    by (cases p) (simp_all add: written_session_def Kind_def)
  have tool: "fst (classifyInteractiveTool tb cfg env ev t i k w) = Inr (Some cl) \<Longrightarrow> \<not> cl_cleanup cl" for t i k
    by (auto simp: classifyInteractiveTool_def split_beta)
  show "cleans_up ev" if "cl_cleanup cl"
    using assms p that tool
    by (cases "ev_Product ev"; cases p)
      (auto simp: classifyHook_def classifyClaudeHook_def classifyCodexHook_def classifyQoderHook_def
        codex_insight_def plain_def cleans_up_def Kind_def Let_def split: if_splits prod.splits option.splits)
qed

lemma admit_kept:
  assumes "ek_stateKey keys \<in> S" and "valid_sessions S" and "kept S T c env0 w0 w"
  shows "kept S T c env0 w0 (snd (admit tb cfg env ev keys hookEvent cl w))"
proof -
  have d: "kept S T c env0 w0 (snd (deliver tb cfg env ev (turn_keys tb ev cl keys) hookEvent cl h w'))"
    if "kept S T c env0 w0 w'" for h w'
    unfolding deliver_def Let_def split_beta snd_conv turn_keys_state
    using assms(1,2) that by (rule delivery_kept)
  have p: "kept S T c env0 w0 (snd (prepareHookContent tb cfg env ev (turn_keys tb ev cl keys) hookEvent cl w'))"
    if "kept S T c env0 w0 w'" for w'
    using that by (simp add: kept_def)
  have n: "kept S T c env0 w0 (snd (notify_admitted tb cfg env ev (turn_keys tb ev cl keys) hookEvent cl w'))"
    if "kept S T c env0 w0 w'" for w'
    using that p [OF that] d
    by (auto simp: notify_admitted_def split: prod.split option.split)
  show ?thesis
    using assms(3) n
    by (simp add: admit_def Let_def split_beta split: sum.split bool.split)
qed

lemma capture_kept:
  assumes "set_option (written_session tb env ev) \<subseteq> S" and "valid_sessions S" and "kept S T c env w0 w"
  shows "kept S T c env w0 (capture_ghostty cfg env ev w)"
proof -
  have "kept S T c env w0 (write_state now (ses_SessionID (ev_Session ev))
      (UpdateGhosttyTerminalID (ses_SessionID (ev_Session ev)) terminal) w)"
    if e: "ev_Product ev = ProductClaude" "Kind ev \<in> {EventPreToolUse, EventNotification}" for now terminal
  proof -
    have "ses_SessionID (ev_Session ev) \<in> S"
      using assms(1) e
      by (auto simp: written_session_def Kind_def eventKeys_def claudeKeys_def
          split: option.splits EventPayload.splits)
    then show ?thesis
      unfolding UpdateGhosttyTerminalID_def
      using assms(2,3) by (intro write_state_kept) simp_all
  qed
  with assms(3) show ?thesis by (simp add: capture_ghostty_def split: option.split)
qed

lemma handle_event_kept:
  assumes "set_option (written_session tb env ev) \<subseteq> S" and "set_option (written_team env ev) \<subseteq> T"
    and "c = cleans_up ev" and "valid_sessions S" and "kept S T c env w0 w"
  shows "kept S T c env w0 (snd (handle_event tb cfg env hookEvent ev w))"
proof -
  let ?keys = "eventKeys (tb_sha tb) ev"
  let ?w0 = "capture_ghostty cfg env ev w"
  let ?w1 = "snd (classifyHook tb cfg env ev ?keys ?w0)"
  have g: "kept S T c env w0 ?w0" using assms(1,4,5) by (rule capture_kept)
  then have k: "kept S T c env w0 ?w1" by (rule classify_kept [OF assms(1-4)])
  have a: "kept S T c env w0 (snd (admit tb cfg env ev ?keys hookEvent cl ?w1))"
    and cl: "cl_cleanup cl \<Longrightarrow> c"
    if "fst (classifyHook tb cfg env ev ?keys ?w0) = Inr (Some cl)" for cl
    using assms(1,3) classified_event [OF that] k
    by (auto intro!: admit_kept assms(4))
  show ?thesis
    using g k a cl cleanup_kept
    by (auto simp: handle_event_def Let_def split_beta split: sum.split option.split)
qed

text \<open>
  Property C2. A hook keeps to itself what all hooks share. The session files and team files stay
  well formed. At most one session's file is written: that of the event, or at Claude's TeammateIdle
  that of the named team's lead; the file of every other session is as it was, unless the event is
  a Stop, whose cleanup removes files not written for more than 60 seconds. At most one team's file
  is written: the named team's, or that of the team a stopping session leads. (The hypothesis on
  the written session says that its id is valid UTF-8, as an id decoded from JSON is.)
\<close>

theorem hook_keeps_sessions_apart:
  assumes "store_ok (hw_states w)" and "team_ok (hw_teams w)" and "he_decode env hookEvent = Inr ev"
    and "\<forall>sid. written_session tb env ev = Some sid \<longrightarrow> json_string sid = sid"
    and "HandleHook tb cfg env hookEvent w = (r, w')"
  shows "store_ok (hw_states w') \<and> team_ok (hw_teams w') \<and>
    (\<forall>sid. written_session tb env ev \<noteq> Some sid \<longrightarrow>
       st_files (hw_states w') sid = st_files (hw_states w) sid
       \<or> cleans_up ev \<and> stale_state (he_clock env AtCleanup) 60 w sid \<and> st_files (hw_states w') sid = None) \<and>
    (\<forall>name. written_team env ev \<noteq> Some name \<longrightarrow>
       tf_files (hw_teams w') name = tf_files (hw_teams w) name)"
proof -
  let ?S = "set_option (written_session tb env ev)" and ?T = "set_option (written_team env ev)"
  let ?kept = "kept ?S ?T (cleans_up ev) env w"
  have ok: "?kept w" using assms(1,2) by (simp add: kept_def)
  have "valid_sessions ?S" using assms(4) by (auto simp: valid_sessions_def)
  with ok have "?kept (snd (handle_event tb cfg env hookEvent ev w))"
    by (intro handle_event_kept) simp_all
  with ok assms(3,5) have "?kept w'"
    by (auto simp: HandleHook_def finish_def split_beta split: if_splits)
  then show ?thesis by (auto simp: kept_def)
qed

subsection \<open>Examples\<close>

definition sample_tables :: tables where
  "sample_tables =
     \<lparr>tb_uni = \<lambda>s. s, tb_symbol = \<lambda>_. False, tb_parseTime = \<lambda>_. None, tb_sha = \<lambda>_. ''k'',
      tb_quote = \<lambda>s. s, tb_questions = \<lambda>_. None,
      tb_titles = \<lparr>td_join = concat, td_rel = \<lambda>_ _. None, td_codex = \<lambda>_. None, td_claude = \<lambda>_. None\<rparr>\<rparr>"

definition prompt_event :: Event where
  "prompt_event =
     codex_event \<lparr>cx_SessionID = ''s'', cx_TurnID = ''t'', cx_CWD = ''/w'', cx_TranscriptPath = [],
                  cx_Model = [], cx_PermissionMode = [], cx_HookEventName = ''PermissionRequest''\<rparr>
       (PPermissionRequest ''Bash'' [] None)"

definition sample_env :: "int \<Rightarrow> Event \<Rightarrow> hook_env" where
  "sample_env now ev =
     \<lparr>he_clock = \<lambda>_. now, he_decode = \<lambda>_. Inr ev, he_judge = False, he_ghostty = None,
      he_transcript = \<lparr>tx_exists = False, tx_size = None, tx_parsed = None, tx_polls = [], tx_age = 0,
                       tx_reparsed = None, tx_reread = None\<rparr>,
      he_teamEntries = [], he_teamConfig = \<lambda>_. None, he_branch = [],
      he_titles = \<lparr>te_CodexHome = [], te_UserHome = None, te_open = \<lambda>_. None\<rparr>,
      he_delivery = sample_delivery\<rparr>"

definition sample_world :: hook_world where
  "sample_world =
     \<lparr>ch_log = [], ch_stamp = None, hw_locks = empty_dir, hw_states = empty_store,
      hw_stateTimes = Map.empty, hw_teams = no_teams\<rparr>"

lemma sample_env_simps [simp]:
  "he_clock (sample_env now ev) p = now" "he_decode (sample_env now ev) h = Inr ev"
  "he_judge (sample_env now ev) = False" "he_ghostty (sample_env now ev) = None"
  "he_teamConfig (sample_env now ev) t = None" "he_branch (sample_env now ev) = []"
  "he_delivery (sample_env now ev) = sample_delivery"
  by (simp_all add: sample_env_def)

lemma quiet_filters: "ShouldFilter quiet_cfg st branch folder = False"
  by (simp add: ShouldFilter_def quiet_cfg_def buildDefaultConfig_def Let_def)

lemma quiet_prompts:
  "IsStatusDesktopEnabled quiet_cfg (status_string StatusPermissionRequest)"
  "IsAnyNotificationEnabled quiet_cfg"
  by (simp_all add: IsStatusDesktopEnabled_def IsAnyNotificationEnabled_def IsDesktopEnabled_def
      IsStatusEnabled_def status_lookup_def isStatusChannelEnabled_def quiet_cfg_def
      buildDefaultConfig_def defaultStatuses_def default_status_list_def titled_def Let_def)

lemma quiet_desktop_announces:
  "\<exists>opts. ch_log (snd (sendDesktopNotification uni quiet_cfg sample_delivery st message sid cwd o1 w))
     = ch_log w @ [Slept (3 * second), DesktopSend st message sid cwd opts True]"
  using quiet_settings
  by (simp add: sendDesktopNotification_def budget_refuses_def deadline_passed_def
      availableDesktopBudget_def time_sub_def second_def in_int64_def submit_def sample_delivery_def Let_def)

lemma quiet_announces:
  assumes "IsStatusDesktopEnabled quiet_cfg (status_string st)" and "silent_callback onFirst"
  shows "list_ex announces (added w (snd (sendNotifications uni quiet_cfg sample_delivery st body actions
           sid cwd onFirst det w)))"
proof -
  let ?ctx = "webhook_context uni sample_delivery st body actions sid cwd det"
  let ?q = "queue_webhook quiet_cfg ?ctx onFirst w"
  have q: "ch_log (snd ?q) = ch_log w @ queued_effects quiet_cfg ?ctx"
    using assms(2) by (simp add: queue_webhook_def queued_effects_def silent_callback_def)
  obtain opts where "ch_log (snd (sendDesktopNotification uni quiet_cfg sample_delivery st (sc_Message ?ctx)
      sid cwd (presentation_options sample_delivery det (sc_SessionName ?ctx) (sc_GitBranch ?ctx)
        (sc_Folder ?ctx) (joinMessageParts body actions)) (snd ?q)))
     = ch_log (snd ?q) @ [Slept (3 * second), DesktopSend st (sc_Message ?ctx) sid cwd opts True]"
    using quiet_desktop_announces by blast
  with q assms have "ch_log (snd (sendNotifications uni quiet_cfg sample_delivery st body actions
      sid cwd onFirst det w)) = ch_log w @ queued_effects quiet_cfg ?ctx
        @ [Slept (3 * second), DesktopSend st (sc_Message ?ctx) sid cwd opts True]"
    by (simp add: sendNotifications_def Let_def split_beta silent_callback_def)
  then show ?thesis by (simp add: added_def)
qed

lemma prompt_announced:
  "announced sample_world
     (snd (handle_event sample_tables quiet_cfg (sample_env 100 prompt_event) ''PermissionRequest''
        prompt_event sample_world))"
proof -
  let ?env = "sample_env 100 prompt_event"
  let ?keys = "eventKeys (tb_sha sample_tables) prompt_event"
  let ?cl = "plain StatusPermissionRequest False"
  have ev: "ev_Product prompt_event = ProductCodex" "Kind prompt_event = EventPermissionRequest"
    "ev_Payload prompt_event = Some (PPermissionRequest ''Bash'' [] None)"
    by (simp_all add: prompt_event_def codex_event_def Kind_def)
  have w: "FileExists p (hw_locks sample_world) = False" "fs_mtime (hw_locks sample_world) p = None"
    "fs_denied (hw_locks sample_world) p = False" for p
    by (simp_all add: sample_world_def empty_dir_def FileExists_def)
  have t: "turn_keys sample_tables prompt_event ?cl ?keys = ?keys"
    "\<not> pendingDelayedStop quiet_cfg prompt_event ?cl"
    using ev by (simp_all add: turn_keys_def pendingDelayedStop_def verified_turn_def deferClaudeStopLock_def)
  let ?w1 = "sample_world\<lparr>hw_locks := (hw_locks sample_world)
    \<lparr>fs_mtime := (fs_mtime (hw_locks sample_world))(getLockPath (ek_lockKey ?keys) (Some ''PermissionRequest'') \<mapsto> 100)\<rparr>\<rparr>"
  have acq: "AcquireLockWithTTL (FileAge (he_clock ?env AtLock)) (he_clock ?env AtLock)
      (ek_lockKey (turn_keys sample_tables prompt_event ?cl ?keys))
      (if pendingDelayedStop quiet_cfg prompt_event ?cl then 60 else 2)
      (Some ''PermissionRequest'') (hw_locks sample_world) = (Inr True, hw_locks ?w1)"
    using w t by (simp add: AcquireLock_absent)
  have prep: "prepareHookContent sample_tables quiet_cfg ?env prompt_event ?keys ''PermissionRequest'' ?cl ?w1
      = (Some (render_content sample_tables quiet_cfg ?env prompt_event ?cl), ?w1)"
    using ev by (simp add: prepareHookContent_def skipContentLock_def duplicate_content_def
        skipContentDedup_def plain_def Let_def)
  have "list_ex announces (added ?w1 (snd (deliver sample_tables quiet_cfg ?env prompt_event ?keys
      ''PermissionRequest'' ?cl c ?w1)))" for c
    unfolding deliver_def Let_def split_beta snd_conv sample_env_simps
    using quiet_prompts by (intro quiet_announces) (simp_all add: plain_def)
  then have "list_ex announces (added sample_world (snd (notify_admitted sample_tables quiet_cfg ?env
      prompt_event ?keys ''PermissionRequest'' ?cl ?w1)))"
    using prep by (simp add: notify_admitted_def questionSuppressed_def plain_def added_def)
  then have "list_ex announces (added sample_world (snd (admit sample_tables quiet_cfg ?env prompt_event
      ?keys ''PermissionRequest'' ?cl sample_world)))"
    using t by (subst admit_acquired [OF acq]) (simp_all add: plain_def quiet_filters split_beta Let_def)
  moreover have "capture_ghostty quiet_cfg ?env prompt_event sample_world = sample_world"
    by (simp add: capture_ghostty_def)
  moreover have "classifyHook sample_tables quiet_cfg ?env prompt_event ?keys sample_world
      = (Inr (Some ?cl), sample_world)"
    using ev by (simp add: classifyHook_def classifyCodexHook_def)
  ultimately show ?thesis
    using w quiet_prompts
    by (simp add: announced_def handle_event_def Let_def split_beta CheckEarlyDuplicate_def plain_def)
qed

lemma duplicate_hook_is_silent_witness:
  "let w1 = snd (handle_event sample_tables quiet_cfg (sample_env 100 prompt_event) ''PermissionRequest''
              prompt_event sample_world)
   in ch_log w1 \<noteq> [] \<and>
      handle_event sample_tables quiet_cfg (sample_env 101 prompt_event) ''PermissionRequest'' prompt_event w1
        = (None, w1)"
proof -
  have ev: "Kind prompt_event \<noteq> EventTeammateIdle" "\<not> deferClaudeStopLock prompt_event"
    by (simp_all add: prompt_event_def codex_event_def Kind_def deferClaudeStopLock_def)
  have name: "\<not> HasSuffix (CHR ''-'' # ''PermissionRequest'') ''-content''" by code_simp
  have t: "team_ok (hw_teams sample_world)" by (simp add: sample_world_def no_teams_def team_ok_def)
  let ?w1 = "snd (handle_event sample_tables quiet_cfg (sample_env 100 prompt_event) ''PermissionRequest''
      prompt_event sample_world)"
  let ?r = "handle_event sample_tables quiet_cfg (sample_env 101 prompt_event) ''PermissionRequest'' prompt_event ?w1"
  have "fst ?r = None \<and> snd ?r = capture_ghostty quiet_cfg (sample_env 101 prompt_event) prompt_event ?w1"
    using duplicate_hook_is_silent [OF surjective_pairing prompt_announced _ t _ name _ _ _ _ _ _
        surjective_pairing, of "sample_env 101 prompt_event"] ev
    by (simp add: in_int64_def)
  moreover have "capture_ghostty quiet_cfg (sample_env 101 prompt_event) prompt_event ?w1 = ?w1"
    by (simp add: capture_ghostty_def)
  moreover have "ch_log ?w1 \<noteq> []"
    using prompt_announced announced_same_log [of ?w1 sample_world] by (auto simp: sample_world_def)
  ultimately show ?thesis by (simp add: Let_def prod_eq_iff)
qed

definition claude_event :: "EventPayload \<Rightarrow> Event" where
  "claude_event p =
     \<lparr>ev_Product = ProductClaude, ev_PayloadEventName = [], ev_Session = plain_session ''s'' [] ''/w'' [],
      ev_Payload = Some p\<rparr>"

lemma claude_event_simps [simp]:
  "ev_Product (claude_event p) = ProductClaude" "ev_Payload (claude_event p) = Some p"
  "ses_SessionID (ev_Session (claude_event p)) = ''s''" "Kind (claude_event p) = eventKind p"
  by (simp_all add: claude_event_def plain_session_def Kind_def)

definition finished_turn :: classification where
  "finished_turn =
     (plain StatusTaskComplete True)\<lparr>cl_messages := [sample_message ''2'' ''user'' [] ''go'']\<rparr>"

lemma delayed_stop_reservation_witness:
  "let ev = claude_event (PStopPayload \<lparr>sp_AssistantMessage = ''ok'', sp_Continuation = False\<rparr>);
       w' = snd (admit sample_tables quiet_cfg (sample_env 100 ev) ev (claudeKeys ''s'') ''Stop''
              finished_turn sample_world)
   in fs_mtime (hw_locks w') (getLockPath (''claude-turn-k'') (Some ''Stop'')) \<in> {Some 100, None}"
proof -
  let ?ev = "claude_event (PStopPayload \<lparr>sp_AssistantMessage = ''ok'', sp_Continuation = False\<rparr>)"
  have v: "verified_turn ?ev finished_turn"
    by (simp add: verified_turn_def deferClaudeStopLock_def finished_turn_def plain_def
        GetLastUserTimestamp_def is_user_text_def sample_message_def)
  then have k: "ek_lockKey (turn_keys sample_tables ?ev finished_turn (claudeKeys ''s'')) = ''claude-turn-k''"
    by (simp add: turn_keys_def claudeStopTurnLockKey_def sample_tables_def)
  have st: "cl_status finished_turn = StatusTaskComplete" by (simp add: finished_turn_def plain_def)
  have "GetNotifyDelaySeconds quiet_cfg = 3"
    by (simp add: GetNotifyDelaySeconds_def quiet_cfg_def Let_def)
  with v st have p: "pendingDelayedStop quiet_cfg ?ev finished_turn"
    using quiet_settings by (simp add: pendingDelayedStop_def)
  have w: "fs_mtime (hw_locks sample_world) q = None" "\<not> fs_denied (hw_locks sample_world) q" for q
    by (simp_all add: sample_world_def empty_dir_def)
  have u: "cl_status finished_turn \<noteq> StatusUnknown" using st by simp
  have f: "\<not> ShouldFilter quiet_cfg (status_string (cl_status finished_turn)) (he_branch (sample_env 100 ?ev))
      (path_Base (ses_CWD (ev_Session ?ev)))" by (simp add: quiet_filters)
  have acq: "AcquireLockWithTTL (FileAge (he_clock (sample_env 100 ?ev) AtLock)) (he_clock (sample_env 100 ?ev) AtLock)
      (ek_lockKey (turn_keys sample_tables ?ev finished_turn (claudeKeys ''s''))) 60 (Some ''Stop'')
      (hw_locks sample_world)
    = (Inr True, (hw_locks sample_world)\<lparr>fs_mtime := (fs_mtime (hw_locks sample_world))
        (getLockPath (ek_lockKey (turn_keys sample_tables ?ev finished_turn (claudeKeys ''s''))) (Some ''Stop'') \<mapsto> 100)\<rparr>)"
    using w by (subst AcquireLock_absent) simp_all
  show ?thesis
    unfolding Let_def k [symmetric] delayed_stop_reservation [OF p u f acq w(2)] by simp
qed

lemma question_respects_cooldown_witness:
  "let ev = claude_event (PNotification [] ''hi'');
       w = sample_world\<lparr>hw_states := state_put ''s'' ((new_state ''s'')\<lparr>ss_LastNotificationTime := 98\<rparr>) empty_store\<rparr>
   in \<not> announced w (snd (handle_event sample_tables quiet_cfg (sample_env 100 ev) ''Notification'' ev w))"
proof -
  let ?ev = "claude_event (PNotification [] ''hi'')"
  let ?st = "(new_state ''s'')\<lparr>ss_LastNotificationTime := 98\<rparr>"
  let ?w = "sample_world\<lparr>hw_states := state_put ''s'' ?st empty_store\<rparr>"
  have l: "Load (ses_SessionID (ev_Session ?ev)) (hw_states ?w) = Inr (Some ?st)"
    by (simp add: Load_get sessions.get_put)
  have c: "GetSuppressQuestionAfterAnyNotificationSeconds quiet_cfg = 7"
    by (simp add: GetSuppressQuestionAfterAnyNotificationSeconds_def quiet_cfg_def buildDefaultConfig_def
        defaultSuppressQuestionAfterAnyNotificationSeconds_def Let_def)
  have "\<not> announced ?w (snd (handle_event sample_tables quiet_cfg (sample_env 100 ?ev) ''Notification'' ?ev ?w))"
    using question_respects_cooldown [OF _ _ _ l _ _ _ _ surjective_pairing,
        of "[]" "''hi''" "sample_env 100 ?ev" quiet_cfg sample_tables "''Notification''"] c
    by (simp add: in_int64_def)
  then show ?thesis by (simp add: Let_def)
qed

lemma cleanup_forgets_recent_content_witness:
  "let st = (new_state ''s'')\<lparr>ss_LastNotificationTime := 10, ss_LastNotificationMessage := ''m''\<rparr>;
       w = sample_world\<lparr>hw_states := state_put ''s'' st empty_store, hw_stateTimes := [''s'' \<mapsto> 10]\<rparr>
   in IsDuplicateMessage id 100 ''s'' ''m'' 180 (hw_states w) = Inr True
      \<and> IsDuplicateMessage id 100 ''s'' ''m'' 180 (hw_states (cleanupOldLocks (sample_env 100 prompt_event) w))
          = Inr False"
proof -
  let ?st = "(new_state ''s'')\<lparr>ss_LastNotificationTime := 10, ss_LastNotificationMessage := ''m''\<rparr>"
  let ?w = "sample_world\<lparr>hw_states := state_put ''s'' ?st empty_store, hw_stateTimes := [''s'' \<mapsto> 10]\<rparr>"
  have "st_files (hw_states ?w) ''s'' = Some (Parsed ?st)" "\<not> st_readonly (hw_states ?w) ''s''"
    "hw_stateTimes ?w ''s'' = Some 10"
    by (simp_all add: state_put_def empty_store_def)
  then show ?thesis
    using cleanup_forgets_recent_content [of ?w "''s''" 10 "sample_env 100 prompt_event" ?st "''m''" id]
    by (simp add: in_int64_def)
qed

lemma teammate_idle_takes_no_lock_witness:
  "let ev = claude_event (PTeammateIdle ''t'' ''m'')
   in hw_locks (snd (handle_event sample_tables quiet_cfg (sample_env 100 ev) ''TeammateIdle'' ev sample_world))
      = empty_dir"
proof -
  let ?ev = "claude_event (PTeammateIdle ''t'' ''m'')"
  have "Kind ?ev = EventTeammateIdle" by simp
  from teammate_idle_takes_no_lock [OF this surjective_pairing] show ?thesis
    unfolding Let_def by (simp add: sample_world_def)
qed

lemma hook_always_shuts_down_witness:
  "\<exists>rest b. ch_log (snd (HandleHook sample_tables quiet_cfg (sample_env 100 prompt_event) ''PermissionRequest''
     sample_world)) = rest @ [WebhookShutdown b, NotifierClosed] \<and> \<not> list_ex shuts_down rest"
proof -
  have "\<not> (ShouldRespectJudgeMode quiet_cfg \<and> he_judge (sample_env 100 prompt_event))" by simp
  from hook_always_shuts_down [OF this, of sample_tables "''PermissionRequest''" sample_world]
  show ?thesis by (auto simp: sample_world_def)
qed

lemma hook_keeps_sessions_apart_witness:
  "let ev = claude_event (PNotification [] ''hi'');
       w = sample_world\<lparr>hw_states := state_put ''r'' (new_state ''r'') empty_store, hw_stateTimes := [''r'' \<mapsto> 1]\<rparr>
   in st_files (hw_states (snd (HandleHook sample_tables quiet_cfg (sample_env 100 ev) ''Notification'' w))) ''r''
      = Some (Parsed (new_state ''r''))"
proof -
  let ?ev = "claude_event (PNotification [] ''hi'')"
  let ?w = "sample_world\<lparr>hw_states := state_put ''r'' (new_state ''r'') empty_store, hw_stateTimes := [''r'' \<mapsto> 1]\<rparr>"
  have s: "store_ok (hw_states ?w)"
    by (simp add: state_put_def empty_store_def store_ok_def new_state_def json_state_def json_string_ascii
        is_ascii_def)
  have t: "team_ok (hw_teams ?w)" by (simp add: sample_world_def no_teams_def team_ok_def)
  have v: "written_session sample_tables (sample_env 100 ?ev) ?ev = Some ''s''"
    by (simp add: written_session_def eventKeys_def claudeKeys_def)
  then have j: "\<forall>sid. written_session sample_tables (sample_env 100 ?ev) ?ev = Some sid \<longrightarrow> json_string sid = sid"
    by (simp add: json_string_ascii is_ascii_def)
  have "\<not> cleans_up ?ev" by (simp add: cleans_up_def)
  with hook_keeps_sessions_apart [OF s t _ j surjective_pairing, of "''Notification''" quiet_cfg] v
  show ?thesis by (simp add: Let_def state_put_def)
qed

end
