(* ===== verification/JsonText.thy ===== *)
theory JsonText
  imports Framing Runes
begin

text \<open>
  Strings as \<^verbatim>\<open>encoding/json\<close> writes them (the default encoder, which also escapes
  \<^verbatim>\<open><\<close>, \<^verbatim>\<open>>\<close> and \<^verbatim>\<open>&\<close>), and a reader that shows no two texts are
  written alike.
\<close>

subsection \<open>Writing\<close>

definition html_safe :: "char \<Rightarrow> bool" where
  "html_safe c \<longleftrightarrow> 32 \<le> (of_char c :: nat) \<and> c \<notin> {CHR 0x22, CHR 0x5C, CHR ''<'', CHR ''>'', CHR ''&''}"

definition hex_escape :: "char \<Rightarrow> string" where
  "hex_escape c = [CHR 0x5C, CHR ''u'', CHR ''0'', CHR ''0'', nibble (of_char c div 16), nibble (of_char c)]"

definition escape_ascii :: "char \<Rightarrow> string" where
  "escape_ascii c =
     (if html_safe c then [c]
      else if c = CHR 0x22 \<or> c = CHR 0x5C then [CHR 0x5C, c]
      else if c = CHR 0x08 then [CHR 0x5C, CHR ''b'']
      else if c = CHR 0x0C then [CHR 0x5C, CHR ''f'']
      else if c = CHR 0x0A then [CHR 0x5C, CHR ''n'']
      else if c = CHR 0x0D then [CHR 0x5C, CHR ''r'']
      else if c = CHR 0x09 then [CHR 0x5C, CHR ''t'']
      else hex_escape c)"

text \<open>The line separators U+2028 and U+2029 are escaped too.\<close>

definition escape_rune :: "string \<Rightarrow> string" where
  "escape_rune r =
     (if length r = 1 then escape_ascii (hd r)
      else if r = bytes [226, 128, 168] then CHR 0x5C # ''u2028''
      else if r = bytes [226, 128, 169] then CHR 0x5C # ''u2029''
      else r)"

function escape_json :: "string \<Rightarrow> string" where
  "escape_json [] = []"
| "escape_json (c # cs) =
     (let n = rune_len (c # cs)
      in if n = 0 then CHR 0x5C # ''ufffd'' @ escape_json cs
         else escape_rune (take n (c # cs)) @ escape_json (drop n (c # cs)))"
  by pat_completeness auto
termination
  by (relation "measure length") auto

declare escape_json.simps(2) [simp del]

definition quote_json :: "string \<Rightarrow> string" where
  "quote_json s = CHR 0x22 # escape_json s @ [CHR 0x22]"

subsection \<open>Reading back\<close>

definition hex_value :: "char \<Rightarrow> nat" where
  "hex_value c = (if of_char c < (58::nat) then of_char c - 48 else of_char c - 87)"

fun unescape :: "string \<Rightarrow> (string \<times> string) option" where
  "unescape (c # t) =
     (if c = CHR ''u'' then
        (case t of
           a # b # x # y # t' \<Rightarrow>
             if a = CHR ''2'' then Some (bytes [226, 128, 160 + hex_value y], t')
             else Some ([char_of (16 * hex_value x + hex_value y)], t')
         | _ \<Rightarrow> None)
      else if c = CHR ''b'' then Some ([CHR 0x08], t)
      else if c = CHR ''f'' then Some ([CHR 0x0C], t)
      else if c = CHR ''n'' then Some ([CHR 0x0A], t)
      else if c = CHR ''r'' then Some ([CHR 0x0D], t)
      else if c = CHR ''t'' then Some ([CHR 0x09], t)
      else Some ([c], t))"
| "unescape [] = None"

definition read_rune :: "string \<Rightarrow> (string \<times> string) option" where
  "read_rune s =
     (case s of
        [] \<Rightarrow> None
      | c # t \<Rightarrow> if c = CHR 0x5C then unescape t
                 else if rune_len s = 0 then None
                 else Some (take (rune_len s) s, drop (rune_len s) s))"

lemma hex_value_nibble: "hex_value (nibble n) = n mod 16"
proof -
  have "\<forall>k\<in>{..<16}. hex_value (''0123456789abcdef'' ! k) = k"
    by code_simp
  then show ?thesis by (simp add: nibble_def)
qed

lemma read_hex_escape: "read_rune (hex_escape c @ t) = Some ([c], t)"
proof -
  have "(of_char c :: nat) div 16 < 16" using nat_of_char_less_256 [of c] by linarith
  then have "16 * (of_char c div 16 mod 16) + of_char c mod 16 = (of_char c :: nat)" by simp
  then show ?thesis
    by (simp add: read_rune_def hex_escape_def hex_value_nibble mult.commute)
qed

lemma read_escape_ascii: "is_ascii c \<Longrightarrow> read_rune (escape_ascii c @ t) = Some ([c], t)"
proof (cases "html_safe c")
  case True
  moreover assume "is_ascii c"
  ultimately show ?thesis
    by (simp add: escape_ascii_def read_rune_def rune_len_def is_ascii_def html_safe_def)
next
  case unsafe: False
  let ?short = "{CHR 0x22, CHR 0x5C, CHR 0x08, CHR 0x0C, CHR 0x0A, CHR 0x0D, CHR 0x09}"
  show ?thesis
  proof (cases "c \<in> ?short")
    case True
    then show ?thesis
      by (elim insertE emptyE) (simp_all add: escape_ascii_def html_safe_def read_rune_def)
  next
    case False
    with unsafe have "escape_ascii c = hex_escape c" by (simp add: escape_ascii_def)
    then show ?thesis by (simp only: read_hex_escape)
  qed
qed

lemma rune_single: "is_rune r \<Longrightarrow> length r = 1 \<Longrightarrow> \<exists>c. r = [c] \<and> is_ascii c"
  by (cases r) (auto simp: is_rune_def rune_len_def is_ascii_def Let_def split: if_splits)

lemma read_escape_rune:
  assumes "is_rune r"
  shows "read_rune (escape_rune r @ t) = Some (r, t)"
proof (cases "length r = 1")
  case True
  with rune_single [OF assms] show ?thesis by (auto simp: escape_rune_def read_escape_ascii)
next
  case False
  show ?thesis
  proof (cases "r = bytes [226, 128, 168] \<or> r = bytes [226, 128, 169]")
    case True
    then show ?thesis
      using False by (auto simp: escape_rune_def read_rune_def hex_value_def bytes_def)
  next
    case plain: False
    from assms obtain c r' where r: "r = c # r'" by (cases r) (auto simp: is_rune_def)
    have "\<not> is_ascii c" using rune_bytes [OF assms] False by (auto simp: r)
    then have "c \<noteq> CHR 0x5C" by (auto simp: is_ascii_def)
    then show ?thesis
      using is_rune_append [OF assms, of t] plain False r
      by (auto simp: escape_rune_def read_rune_def)
  qed
qed

lemma escape_rune_ends: "is_rune r \<Longrightarrow> \<exists>c t. escape_rune r = c # t \<and> c \<noteq> CHR 0x22"
proof (cases "length r = 1")
  case True
  moreover assume "is_rune r"
  ultimately show ?thesis
    by (auto simp: escape_rune_def escape_ascii_def html_safe_def hex_escape_def dest!: rune_single)
next
  case False
  moreover assume "is_rune r"
  ultimately show ?thesis
    using rune_bytes [of r] by (cases r) (auto simp: escape_rune_def is_rune_def is_ascii_def)
qed

lemma escape_json_append: "is_rune r \<Longrightarrow> escape_json (r @ t) = escape_rune r @ escape_json t"
proof -
  assume r: "is_rune r"
  then obtain c cs where rc: "r = c # cs" by (cases r) (auto simp: is_rune_def)
  have "rune_len (c # (cs @ t)) = Suc (length cs)"
    using is_rune_append [OF r, of t] rc by simp
  then show ?thesis by (simp add: rc escape_json.simps(2) Let_def)
qed

lemma escape_json_concat: "list_all is_rune rs \<Longrightarrow> escape_json (concat rs) = concat (map escape_rune rs)"
  by (induction rs) (auto simp: escape_json_append)

lemma escape_json_valid: "valid_utf8 s \<Longrightarrow> escape_json s = concat (map escape_rune (runes s))"
  using escape_json_concat [OF runes_text [of s]] by (simp add: valid_utf8_def)

text \<open>Reads runes up to the closing quote; the length of the input bounds the number of runes.\<close>

fun read_runes :: "nat \<Rightarrow> string \<Rightarrow> (string list \<times> string) option" where
  "read_runes 0 s = None"
| "read_runes (Suc n) s =
     (if s \<noteq> [] \<and> hd s = CHR 0x22 then Some ([], tl s)
      else case read_rune s of
             None \<Rightarrow> None
           | Some (r, t) \<Rightarrow> map_option (\<lambda>(rs, u). (r # rs, u)) (read_runes n t))"

definition read_json_string :: "string \<Rightarrow> (string \<times> string) option" where
  "read_json_string s =
     (case s of
        [] \<Rightarrow> None
      | c # t \<Rightarrow> if c = CHR 0x22 then map_option (\<lambda>(rs, u). (concat rs, u)) (read_runes (length s) t)
                 else None)"

lemma read_runes_escaped:
  "list_all is_rune rs \<Longrightarrow> length rs < n \<Longrightarrow>
     read_runes n (concat (map escape_rune rs) @ CHR 0x22 # t) = Some (rs, t)"
proof (induction rs arbitrary: n)
  case Nil
  then show ?case by (cases n) auto
next
  case (Cons r rs)
  then obtain m where n: "n = Suc m" "length rs < m" by (cases n) auto
  from Cons.prems obtain c u where "escape_rune r = c # u" "c \<noteq> CHR 0x22"
    using escape_rune_ends [of r] by auto
  with Cons n read_escape_rune [of r "concat (map escape_rune rs) @ CHR 0x22 # t"] show ?case by simp
qed

lemma length_escape_rune: "is_rune r \<Longrightarrow> 1 \<le> length (escape_rune r)"
  using escape_rune_ends [of r] by auto

lemma length_escaped: "list_all is_rune rs \<Longrightarrow> length rs \<le> length (concat (map escape_rune rs))"
  by (induction rs) (use length_escape_rune in fastforce)+

lemma read_quoted:
  assumes "valid_utf8 s"
  shows "read_json_string (quote_json s @ t) = Some (s, t)"
proof -
  let ?e = "concat (map escape_rune (runes s))"
  have "length (runes s) < Suc (Suc (length ?e + length t))"
    using length_escaped [OF runes_text [of s]] by simp
  then have read: "read_runes (Suc (Suc (length ?e + length t))) (?e @ CHR 0x22 # t) = Some (runes s, t)"
    by (rule read_runes_escaped [OF runes_text])
  have "quote_json s @ t = CHR 0x22 # ?e @ CHR 0x22 # t"
    using assms by (simp add: quote_json_def escape_json_valid)
  moreover have "length (CHR 0x22 # ?e @ CHR 0x22 # t) = Suc (Suc (length ?e + length t))" by simp
  moreover have "concat (runes s) = s" using assms by (simp only: valid_utf8_def)
  ultimately show ?thesis
    by (simp only: read_json_string_def list.case read option.map prod.case simp_thms if_True)
qed

lemma quote_json_inject:
  "valid_utf8 s \<Longrightarrow> valid_utf8 s' \<Longrightarrow> quote_json s @ t = quote_json s' @ t' \<Longrightarrow> s = s' \<and> t = t'"
  by (metis option.inject prod.inject read_quoted)

end
