(* ===== verification/Journal.thy ===== *)
theory Journal
  imports Framing Runes "HOL-Library.AList" "HOL-Library.Multiset" "HOL-Library.Word"
begin

text \<open>
  The admission journal of \<^verbatim>\<open>internal/agentnotify/journal/journal.go\<close>: the disk
  image, its validation, its logical clock and the functions that run inside a transaction. The
  clock's \<^verbatim>\<open>uint64\<close> seconds are words; a map from keys to records is an association
  list with distinct keys. SHA-256 (on 32 raw bytes), the sample of the platform clock and the
  random token are arguments.
\<close>

type_synonym u64 = "64 word"

datatype jerr =
    ErrRepair | ErrFull | ErrConflict | ErrRate | ErrCAS | ErrInvalid
  | CtxCanceled | CtxDeadline | StorageErr string

datatype KeyKind = Explicit | ClientCall | Generated | OtherKind string

fun kind_string :: "KeyKind \<Rightarrow> string" where
  "kind_string Explicit = ''explicit''"
| "kind_string ClientCall = ''client_call''"
| "kind_string Generated = ''generated''"
| "kind_string (OtherKind s) = s"

record Key =
  ky_Source :: string
  ky_Session :: string
  ky_Kind :: KeyKind
  ky_Request :: string

definition journal_protocol :: string where
  "journal_protocol = ''agent-notify/journal/v1''"

definition journal_hash :: "(string \<Rightarrow> string) \<Rightarrow> string list \<Rightarrow> string" where
  "journal_hash sha parts = hexEncode (sha (encodeFields parts))"

definition scoped :: "(string \<Rightarrow> string) \<Rightarrow> string \<Rightarrow> Key \<Rightarrow> string" where
  "scoped sha ns k =
     journal_hash sha [journal_protocol, ns, ky_Source k, ky_Session k, kind_string (ky_Kind k), ky_Request k]"

definition session_hash :: "(string \<Rightarrow> string) \<Rightarrow> string \<Rightarrow> Key \<Rightarrow> string" where
  "session_hash sha ns k = journal_hash sha [journal_protocol, ns, ky_Source k, ky_Session k]"

definition validText :: "string \<Rightarrow> nat \<Rightarrow> bool \<Rightarrow> bool" where
  "validText s n required \<longleftrightarrow>
     (required \<longrightarrow> s \<noteq> []) \<and> length s \<le> n \<and> valid_utf8 s \<and> CHR 0x00 \<notin> set s"

definition validKind :: "KeyKind \<Rightarrow> bool" where
  "validKind k \<longleftrightarrow> k = Explicit \<or> k = ClientCall \<or> k = Generated"

definition valid_key :: "Key \<Rightarrow> bool" where
  "valid_key k \<longleftrightarrow>
     validText (ky_Source k) 256 True \<and> validText (ky_Session k) 256 True
     \<and> validText (ky_Request k) 256 True \<and> validKind (ky_Kind k)"

subsection \<open>Records\<close>

record jtarget =
  jt_Kind :: string
  jt_ID :: string
  jt_Application :: string
  jt_Identity :: string

record navigation =
  nv_Capability :: string
  nv_Precision :: string
  nv_Scope :: string
  nv_Reason :: string

record snapshot =
  sn_Target :: jtarget
  sn_Policy :: string
  sn_Navigation :: navigation

record jreceipt =
  jr_Status :: string
  jr_Reason :: string
  jr_Backend :: string
  jr_RequestID :: "string option"
  jr_TrackingID :: string
  jr_KeyKind :: KeyKind
  jr_Decision :: snapshot
  jr_OutcomeNavigation :: "navigation option"

record rate_policy =
  rp_SessionPerMinute :: int
  rp_RuntimePerMinute :: int
  rp_Burst :: int

definition MaxRate :: int where
  "MaxRate = 10000"

definition Normalize :: "rate_policy \<Rightarrow> jerr + rate_policy" where
  "Normalize p =
     (if p = \<lparr>rp_SessionPerMinute = 0, rp_RuntimePerMinute = 0, rp_Burst = 0\<rparr>
      then Inr \<lparr>rp_SessionPerMinute = 6, rp_RuntimePerMinute = 30, rp_Burst = 3\<rparr>
      else if rp_SessionPerMinute p < 1 \<or> rp_RuntimePerMinute p < 1 \<or> rp_Burst p < 1
              \<or> MaxRate < rp_SessionPerMinute p \<or> MaxRate < rp_RuntimePerMinute p \<or> MaxRate < rp_Burst p
              \<or> rp_RuntimePerMinute p < rp_SessionPerMinute p \<or> rp_RuntimePerMinute p < rp_Burst p
      then Inl ErrInvalid else Inr p)"

record admission =
  ad_Rates :: rate_policy
  ad_Key :: Key
  ad_Digest :: string
  ad_TrackingID :: string
  ad_Decision :: snapshot

record jrecord =
  jc_Session :: string
  jc_Digest :: string
  jc_Attempt :: string
  jc_Created :: u64
  jc_State :: string
  jc_Receipt :: jreceipt

text \<open>A zero \<^verbatim>\<open>Result\<close> (\<^verbatim>\<open>Found\<close> false) is None.\<close>

record result =
  rs_ScopedKey :: string
  rs_Fresh :: bool
  rs_Record :: jrecord

record sample =
  sm_Boot :: string
  sm_Seconds :: u64
  sm_Available :: bool

record Limits =
  lm_Records :: int
  lm_Bytes :: int
  lm_Retention :: u64

definition MinRetention :: u64 where
  "MinRetention = 604800"

definition normalize_limits :: "Limits \<Rightarrow> jerr + Limits" where
  "normalize_limits l =
     (let l = (if lm_Records l = 0 then l\<lparr>lm_Records := 10000\<rparr> else l);
          l = (if lm_Bytes l = 0 then l\<lparr>lm_Bytes := 8388608\<rparr> else l);
          l = (if lm_Retention l = 0 then l\<lparr>lm_Retention := MinRetention\<rparr> else l)
      in if lm_Records l < 1 \<or> 10000 < lm_Records l \<or> lm_Bytes l < 1024 \<or> 8388608 < lm_Bytes l
            \<or> lm_Retention l < MinRetention \<or> 31536000 < lm_Retention l
         then Inl ErrInvalid else Inr l)"

record elapsed =
  el_Logical :: u64
  el_Boot :: string
  el_Seconds :: u64

record rate_event =
  rv_At :: u64
  rv_Session :: string

text \<open>\<^verbatim>\<open>dk_Null\<close>: the decoded document had no array of events or no object of records.\<close>

record disk =
  dk_Version :: int
  dk_Namespace :: string
  dk_Limits :: Limits
  dk_Clock :: elapsed
  dk_Events :: "rate_event list"
  dk_Records :: "(string \<times> jrecord) list"
  dk_Null :: bool

abbreviation logical :: "disk \<Rightarrow> u64" where
  "logical d \<equiv> el_Logical (dk_Clock d)"

subsection \<open>The logical clock\<close>

text \<open>
  The logical clock only credits seconds of one boot, one second less per interval; the flag says
  whether the sample proves that time has passed continuously.
\<close>

definition advance :: "sample \<Rightarrow> disk \<Rightarrow> jerr + bool \<times> disk" where
  "advance x d =
     (if \<not> sm_Available x \<or> \<not> validText (sm_Boot x) 256 True
      then Inr (False, d\<lparr>dk_Clock := (dk_Clock d)\<lparr>el_Boot := [], el_Seconds := 0\<rparr>\<rparr>)
      else if el_Boot (dk_Clock d) \<noteq> sm_Boot x
      then Inr (False, d\<lparr>dk_Clock := (dk_Clock d)\<lparr>el_Boot := sm_Boot x, el_Seconds := sm_Seconds x\<rparr>\<rparr>)
      else if sm_Seconds x < el_Seconds (dk_Clock d) then Inr (False, d)
      else
        (let delta = sm_Seconds x - el_Seconds (dk_Clock d);
             delta = (if 0 < delta then delta - 1 else delta)
         in if - 1 - logical d < delta then Inl ErrFull
            else Inr (True, d\<lparr>dk_Clock := (dk_Clock d)\<lparr>el_Logical := logical d + delta,
                                                        el_Seconds := sm_Seconds x\<rparr>\<rparr>)))"

text \<open>A refusal keeps the new boot's baseline on disk, but not a mere advance.\<close>

definition persistClockOnRefusal :: "disk \<Rightarrow> elapsed \<Rightarrow> bool \<times> disk" where
  "persistClockOnRefusal d before =
     (if el_Boot (dk_Clock d) = [] \<or> el_Boot (dk_Clock d) = el_Boot before
      then (False, d\<lparr>dk_Clock := before\<rparr>) else (True, d))"

subsection \<open>Lookup and admission\<close>

definition lookup :: "(string \<Rightarrow> string) \<Rightarrow> disk \<Rightarrow> Key \<Rightarrow> string \<Rightarrow> jerr + result option" where
  "lookup sha d k digest =
     (let key = scoped sha (dk_Namespace d) k in
      case map_of (dk_Records d) key of
        None \<Rightarrow> Inr None
      | Some r \<Rightarrow>
          if jc_Digest r \<noteq> hexEncode digest then Inl ErrConflict
          else Inr (Some \<lparr>rs_ScopedKey = key, rs_Fresh = False, rs_Record = r\<rparr>))"

definition validSnapshot :: "snapshot \<Rightarrow> bool" where
  "validSnapshot s \<longleftrightarrow>
     list_all (\<lambda>v. validText v 1024 False)
       [jt_Kind (sn_Target s), jt_ID (sn_Target s), jt_Application (sn_Target s),
        jt_Identity (sn_Target s), sn_Policy s, nv_Capability (sn_Navigation s),
        nv_Precision (sn_Navigation s), nv_Scope (sn_Navigation s), nv_Reason (sn_Navigation s)]"

definition drop_expired :: "disk \<Rightarrow> disk" where
  "drop_expired d =
     d\<lparr>dk_Records := filter (\<lambda>(k, r). \<not> lm_Retention (dk_Limits d) \<le> logical d - jc_Created r) (dk_Records d)\<rparr>"

definition recent :: "u64 \<Rightarrow> u64 \<Rightarrow> rate_event \<Rightarrow> bool" where
  "recent now window v \<longleftrightarrow> now - rv_At v < window"

definition rate_exceeded :: "rate_policy \<Rightarrow> u64 \<Rightarrow> string \<Rightarrow> rate_event list \<Rightarrow> bool" where
  "rate_exceeded rates now session kept \<longleftrightarrow>
     rp_RuntimePerMinute rates \<le> int (length kept)
     \<or> rp_SessionPerMinute rates \<le> int (length (filter (\<lambda>v. rv_Session v = session) kept))
     \<or> rp_Burst rates \<le> int (length (filter (recent now 2) kept))"

text \<open>
  \<^verbatim>\<open>events := d.Events[:0]\<close> shares the array of the old slice, so appending the kept
  events overwrites its front while its length stays.
\<close>

definition overwrite_front :: "'a list \<Rightarrow> 'a list \<Rightarrow> 'a list" where
  "overwrite_front kept old = kept @ drop (length kept) old"

definition new_receipt :: "admission \<Rightarrow> jreceipt" where
  "new_receipt a =
     \<lparr>jr_Status = ''unknown'', jr_Reason = ''pending_submission'', jr_Backend = [],
      jr_RequestID = (if ky_Kind (ad_Key a) = Explicit then Some (ky_Request (ad_Key a)) else None),
      jr_TrackingID = ad_TrackingID a, jr_KeyKind = ky_Kind (ad_Key a), jr_Decision = ad_Decision a,
      jr_OutcomeNavigation = None\<rparr>"

definition new_record :: "(string \<Rightarrow> string) \<Rightarrow> string \<Rightarrow> admission \<Rightarrow> disk \<Rightarrow> jrecord" where
  "new_record sha attempt a d =
     \<lparr>jc_Session = session_hash sha (dk_Namespace d) (ad_Key a), jc_Digest = hexEncode (ad_Digest a),
      jc_Attempt = attempt, jc_Created = logical d, jc_State = ''dispatching'',
      jc_Receipt = new_receipt a\<rparr>"

text \<open>The token is 32 random bytes, or none when the source of entropy fails.\<close>

definition enter_record ::
    "(string \<Rightarrow> string) \<Rightarrow> string option \<Rightarrow> admission \<Rightarrow> rate_event list \<Rightarrow> disk
     \<Rightarrow> (jerr + result option) \<times> bool \<times> disk" where
  "enter_record sha tok a kept d =
     (case tok of
        None \<Rightarrow> (Inl (StorageErr ''entropy''), False, d)
      | Some t \<Rightarrow>
          (let key = scoped sha (dk_Namespace d) (ad_Key a);
               r = new_record sha (hexEncode t) a d
           in (Inr (Some \<lparr>rs_ScopedKey = key, rs_Fresh = True, rs_Record = r\<rparr>), True,
               d\<lparr>dk_Events := kept @ [\<lparr>rv_At = logical d, rv_Session = jc_Session r\<rparr>],
                 dk_Records := AList.update key r (dk_Records d)\<rparr>)))"

definition admit_at ::
    "(string \<Rightarrow> string) \<Rightarrow> string option \<Rightarrow> rate_policy \<Rightarrow> admission \<Rightarrow> elapsed \<Rightarrow> disk
     \<Rightarrow> (jerr + result option) \<times> bool \<times> disk" where
  "admit_at sha tok rates a before d =
     (if lm_Records (dk_Limits d) \<le> int (length (dk_Records d))
      then (Inl ErrFull, persistClockOnRefusal d before)
      else
        (let kept = filter (recent (logical d) 60) (dk_Events d);
             session = session_hash sha (dk_Namespace d) (ad_Key a)
         in if rate_exceeded rates (logical d) session kept
            then (Inl ErrRate, persistClockOnRefusal
                    (d\<lparr>dk_Events := overwrite_front kept (dk_Events d)\<rparr>) before)
            else enter_record sha tok a kept d))"

definition admit_new ::
    "(string \<Rightarrow> string) \<Rightarrow> sample \<Rightarrow> string option \<Rightarrow> rate_policy \<Rightarrow> admission \<Rightarrow> disk
     \<Rightarrow> (jerr + result option) \<times> bool \<times> disk" where
  "admit_new sha x tok rates a d =
     (case advance x d of
        Inl e \<Rightarrow> (Inl e, False, d)
      | Inr (proven, d') \<Rightarrow>
          admit_at sha tok rates a (dk_Clock d) (if proven then drop_expired d' else d'))"

definition admit_fn ::
    "(string \<Rightarrow> string) \<Rightarrow> sample \<Rightarrow> string option \<Rightarrow> admission \<Rightarrow> disk
     \<Rightarrow> (jerr + result option) \<times> bool \<times> disk" where
  "admit_fn sha x tok a d =
     (case lookup sha d (ad_Key a) (ad_Digest a) of
        Inl e \<Rightarrow> (Inl e, False, d)
      | Inr (Some r) \<Rightarrow> (Inr (Some r), False, d)
      | Inr None \<Rightarrow>
          (case Normalize (ad_Rates a) of
             Inl e \<Rightarrow> (Inl ErrInvalid, False, d)
           | Inr rates \<Rightarrow>
               if validText (ad_TrackingID a) 256 True \<and> validSnapshot (ad_Decision a)
               then admit_new sha x tok rates a d else (Inl ErrInvalid, False, d)))"

subsection \<open>Outcomes and collection\<close>

definition validTerminal :: "string \<Rightarrow> bool" where
  "validTerminal s \<longleftrightarrow> s \<in> {''submitted'', ''rejected'', ''unknown'', ''suppressed''}"

definition validOutcomeNavigation :: "navigation \<Rightarrow> bool" where
  "validOutcomeNavigation n \<longleftrightarrow>
     validText (nv_Scope n) 1024 False \<and> validText (nv_Reason n) 1024 False \<and>
     (nv_Capability n = ''available'' \<and> nv_Precision n = ''chat_id'' \<and> nv_Scope n \<noteq> []
      \<or> (nv_Capability n = ''unavailable'' \<or> nv_Capability n = ''disabled'') \<and> nv_Precision n = ''none'')"

definition validNavigationTransition :: "navigation \<Rightarrow> navigation \<Rightarrow> bool" where
  "validNavigationTransition before after \<longleftrightarrow>
     nv_Capability after \<noteq> ''available''
     \<or> nv_Capability before = ''available'' \<and> nv_Precision before = nv_Precision after
        \<and> nv_Scope before = nv_Scope after"

definition outcome_args_ok :: "Key \<Rightarrow> string \<Rightarrow> string \<Rightarrow> string \<Rightarrow> string \<Rightarrow> navigation option \<Rightarrow> bool" where
  "outcome_args_ok k attempt status reason backend nav \<longleftrightarrow>
     (case nav of Some n \<Rightarrow> validOutcomeNavigation n | None \<Rightarrow> True)
     \<and> valid_key k \<and> isHex attempt \<and> validTerminal status \<and> validText reason 128 True
     \<and> validText backend 128 False"

definition settled_record :: "string \<Rightarrow> string \<Rightarrow> string \<Rightarrow> navigation option \<Rightarrow> jrecord \<Rightarrow> jrecord" where
  "settled_record status reason backend nav r =
     r\<lparr>jc_State := status,
       jc_Receipt := (jc_Receipt r)\<lparr>jr_OutcomeNavigation := nav, jr_Status := status,
                                    jr_Reason := reason, jr_Backend := backend\<rparr>\<rparr>"

definition finalize_fn ::
    "(string \<Rightarrow> string) \<Rightarrow> Key \<Rightarrow> string \<Rightarrow> string \<Rightarrow> string \<Rightarrow> string \<Rightarrow> navigation option \<Rightarrow> disk
     \<Rightarrow> (jerr + result option) \<times> bool \<times> disk" where
  "finalize_fn sha k attempt status reason backend nav d =
     (let key = scoped sha (dk_Namespace d) k in
      case map_of (dk_Records d) key of
        None \<Rightarrow> (Inl ErrCAS, False, d)
      | Some r \<Rightarrow>
          if jc_Attempt r \<noteq> attempt \<or> jc_State r \<noteq> ''dispatching'' then (Inl ErrCAS, False, d)
          else if (case nav of
                     None \<Rightarrow> False
                   | Some n \<Rightarrow> \<not> validNavigationTransition (sn_Navigation (jr_Decision (jc_Receipt r))) n)
          then (Inl ErrInvalid, False, d)
          else (Inr None, True,
                d\<lparr>dk_Records := AList.update key (settled_record status reason backend nav r) (dk_Records d)\<rparr>))"

definition collect_fn :: "sample \<Rightarrow> disk \<Rightarrow> (jerr + result option) \<times> bool \<times> disk" where
  "collect_fn x d =
     (case advance x d of
        Inl e \<Rightarrow> (Inl e, False, d)
      | Inr (proven, d') \<Rightarrow> (Inr None, True, if proven then drop_expired d' else d'))"

subsection \<open>Validation\<close>

definition disk_header_ok :: "Limits \<Rightarrow> disk \<Rightarrow> bool" where
  "disk_header_ok limits d \<longleftrightarrow>
     dk_Version d = 1 \<and> isHex (dk_Namespace d) \<and> dk_Limits d = limits \<and> \<not> dk_Null d
     \<and> int (length (dk_Records d)) \<le> lm_Records (dk_Limits d)
     \<and> int (length (dk_Events d)) \<le> lm_Records (dk_Limits d)
     \<and> validText (el_Boot (dk_Clock d)) 256 False
     \<and> \<not> (el_Boot (dk_Clock d) = [] \<and> el_Seconds (dk_Clock d) \<noteq> 0)"

definition events_ok :: "disk \<Rightarrow> bool" where
  "events_ok d \<longleftrightarrow>
     list_all (\<lambda>v. rv_At v \<le> logical d \<and> isHex (rv_Session v)) (dk_Events d)
     \<and> sorted (map rv_At (dk_Events d))"

definition live_events :: "disk \<Rightarrow> (u64 \<times> string) list" where
  "live_events d =
     map (\<lambda>v. (rv_At v, rv_Session v)) (filter (\<lambda>v. logical d - rv_At v < 60) (dk_Events d))"

definition live_records :: "disk \<Rightarrow> (u64 \<times> string) list" where
  "live_records d =
     map (\<lambda>(k, r). (jc_Created r, jc_Session r))
       (filter (\<lambda>(k, r). jc_Created r \<le> logical d \<and> logical d - jc_Created r < 60) (dk_Records d))"

definition rate_count :: "disk \<Rightarrow> u64 \<times> string \<Rightarrow> int" where
  "rate_count d key = int (count_list (live_events d) key) - int (count_list (live_records d) key)"

definition counts_balanced :: "disk \<Rightarrow> bool" where
  "counts_balanced d \<longleftrightarrow> list_all (\<lambda>key. rate_count d key = 0) (live_events d @ live_records d)"

definition state_consistent :: "jrecord \<Rightarrow> bool" where
  "state_consistent r \<longleftrightarrow>
     (let p = jc_Receipt r in
      if jc_State r = ''dispatching''
      then jr_Status p = ''unknown'' \<and> jr_Reason p = ''pending_submission'' \<and> jr_Backend p = []
           \<and> jr_OutcomeNavigation p = None
      else validTerminal (jc_State r) \<and> jr_Status p = jc_State r)"

definition receipt_ok :: "jreceipt \<Rightarrow> bool" where
  "receipt_ok p \<longleftrightarrow>
     validKind (jr_KeyKind p) \<and> validText (jr_TrackingID p) 256 True \<and> validSnapshot (jr_Decision p)
     \<and> validText (jr_Reason p) 128 True \<and> validText (jr_Backend p) 128 False
     \<and> (case jr_OutcomeNavigation p of
          None \<Rightarrow> True
        | Some n \<Rightarrow> validOutcomeNavigation n
                    \<and> validNavigationTransition (sn_Navigation (jr_Decision p)) n)
     \<and> (if jr_KeyKind p = Explicit
        then (case jr_RequestID p of None \<Rightarrow> False | Some q \<Rightarrow> validText q 256 True)
        else jr_RequestID p = None)"

definition record_ok :: "disk \<Rightarrow> string \<times> jrecord \<Rightarrow> bool" where
  "record_ok d kr \<longleftrightarrow>
     (let (k, r) = kr in
      isHex (jc_Session r) \<and> isHex k \<and> isHex (jc_Digest r) \<and> isHex (jc_Attempt r)
      \<and> jc_Created r \<le> logical d \<and> receipt_ok (jc_Receipt r) \<and> state_consistent r)"

text \<open>\<^verbatim>\<open>validate\<close> gives ErrRepair exactly when one of these checks fails.\<close>

definition validate :: "Limits \<Rightarrow> disk \<Rightarrow> bool" where
  "validate limits d \<longleftrightarrow>
     disk_header_ok limits d \<and> events_ok d
     \<and> distinct (map (\<lambda>(k, r). jc_Attempt r) (dk_Records d))
     \<and> list_all (record_ok d) (dk_Records d) \<and> counts_balanced d"

text \<open>The records are a map: keys are distinct.\<close>

definition journal_ok :: "Limits \<Rightarrow> disk \<Rightarrow> bool" where
  "journal_ok limits d \<longleftrightarrow> validate limits d \<and> distinct (map fst (dk_Records d))"

text \<open>
  What a transaction makes of a function's result when storage works: a changed image is written
  if it validates and fits, and otherwise the file stays and the write's error is reported.
\<close>

definition commit ::
    "Limits \<Rightarrow> (disk \<Rightarrow> bool) \<Rightarrow> (jerr + 'r) \<times> bool \<times> disk \<Rightarrow> disk \<Rightarrow> (jerr + 'r) \<times> disk" where
  "commit limits fits out d =
     (let (r, changed, d') = out in
      if \<not> changed then (r, d)
      else if \<not> validate limits d' then (Inl ErrRepair, d)
      else if \<not> fits d' then (Inl ErrFull, d)
      else (r, d'))"

text \<open>The operations of a store, each one transaction, with the checks in front of it.\<close>

datatype jop =
    JLookup Key string
  | JAdmit sample "string option" admission
  | JFinalize Key string string string string "navigation option"
  | JCollect sample

fun japply ::
    "(string \<Rightarrow> string) \<Rightarrow> Limits \<Rightarrow> (disk \<Rightarrow> bool) \<Rightarrow> jop \<Rightarrow> disk \<Rightarrow> (jerr + result option) \<times> disk" where
  "japply sha limits fits (JLookup k digest) d =
     (if valid_key k then commit limits fits (lookup sha d k digest, False, d) d else (Inl ErrInvalid, d))"
| "japply sha limits fits (JAdmit x tok a) d =
     (if valid_key (ad_Key a) then commit limits fits (admit_fn sha x tok a d) d else (Inl ErrInvalid, d))"
| "japply sha limits fits (JFinalize k attempt status reason backend nav) d =
     (if outcome_args_ok k attempt status reason backend nav
      then commit limits fits (finalize_fn sha k attempt status reason backend nav d) d
      else (Inl ErrInvalid, d))"
| "japply sha limits fits (JCollect x) d = commit limits fits (collect_fn x d) d"

subsection \<open>Arithmetic of the windows\<close>

lemma unat_gap: "a \<le> b \<Longrightarrow> unat (b - a) = unat b - unat a" for a b :: u64
  by (simp add: unat_sub)

lemma recent_mono:
  fixes t l l' :: u64
  assumes "t \<le> l" and "l \<le> l'" and "l' - t < n"
  shows "l - t < n"
proof -
  have "l - t \<le> l' - t"
    using assms(1,2) by (simp add: word_le_nat_alt unat_gap order_trans [of t l l'])
  with assms(3) show ?thesis by simp
qed

lemma balanced_iff: "counts_balanced d \<longleftrightarrow> mset (live_events d) = mset (live_records d)"
proof -
  have "counts_balanced d \<longleftrightarrow> (\<forall>k. count_list (live_events d) k = count_list (live_records d) k)"
    by (auto simp: counts_balanced_def rate_count_def list_all_iff count_list_0_iff)
  then show ?thesis by (simp add: multiset_eq_iff count_mset)
qed

end
