(* ===== verification/Notification.thy ===== *)
theory Notification
  imports Journal
begin

text \<open>
  The delivery boundary of \<^verbatim>\<open>internal/notification\<close> (delivery.go, readiness.go,
  admission.go, informational_request.go, terminal_request.go). A navigation result has the fields of
  the journal's navigation, between which the code converts, so both are one record. A deadline is a
  rational, or None for a float that is no number or infinite.
\<close>

datatype Navigation = Required | BestEffort | NoNavigation | OtherNavigation string

fun navigation_string :: "Navigation \<Rightarrow> string" where
  "navigation_string Required = ''required''"
| "navigation_string BestEffort = ''best_effort''"
| "navigation_string NoNavigation = ''none''"
| "navigation_string (OtherNavigation s) = s"

record Content =
  ct_Title :: string
  ct_Body :: string
  ct_Subtitle :: string
  ct_Category :: string

record LinuxBinding =
  lb_SnapshotPath :: string
  lb_SHA256 :: string

record DesktopTarget =
  dt_Provider :: string
  dt_Linux :: LinuxBinding
  dt_ThreadID :: string
  dt_ApplicationPath :: string
  dt_TeamID :: string

definition no_target :: DesktopTarget where
  "no_target = \<lparr>dt_Provider = [], dt_Linux = \<lparr>lb_SnapshotPath = [], lb_SHA256 = []\<rparr>, dt_ThreadID = [],
                dt_ApplicationPath = [], dt_TeamID = []\<rparr>"

record TerminalTarget =
  tt_Agent :: string
  tt_Display :: string
  tt_WindowID :: string
  tt_WindowNonce :: string
  tt_OwnerPID :: int
  tt_OwnerBirth :: u64
  tt_ConfigPath :: string
  tt_ConfigRevision :: string
  tt_ControlRoot :: string
  tt_InstallationID :: string
  tt_Generation :: u64
  tt_PolicySHA256 :: string

record Deadline =
  dl_BootID :: string
  dl_NotAfter :: "rat option"

record PolicySnapshot =
  ps_Valid :: bool
  ps_ExplicitEnabled :: bool
  ps_DesktopEnabled :: bool
  ps_ClickToFocus :: bool
  ps_SoundEnabled :: bool

record Request =
  rq_Content :: Content
  rq_AppIcon :: string
  rq_CorrelationID :: string
  rq_Deadline :: Deadline
  rq_Policy :: PolicySnapshot
  rq_Navigation :: Navigation
  rq_Target :: DesktopTarget
  rq_Terminal :: "TerminalTarget option"
  rq_Silent :: bool

record delivery_receipt =
  dr_CorrelationID :: string
  dr_Status :: string
  dr_Reason :: string
  dr_RetrySafe :: bool
  dr_Backend :: string
  dr_Navigation :: navigation

record Readiness =
  rd_CorrelationID :: string
  rd_Status :: string
  rd_Reason :: string
  rd_Backend :: string
  rd_Navigation :: navigation

record AdmissionDecision =
  as_Navigation :: Navigation
  as_Status :: string
  as_Reason :: string

definition AssessDelivery :: "Request \<Rightarrow> AdmissionDecision" where
  "AssessDelivery r =
     (let nav = (if navigation_string (rq_Navigation r) = [] then Required else rq_Navigation r);
          out = \<lparr>as_Navigation = nav, as_Status = [], as_Reason = []\<rparr>
      in if nav \<notin> {Required, BestEffort, NoNavigation}
         then out\<lparr>as_Status := ''rejected'', as_Reason := ''malformed_request''\<rparr>
         else if \<not> ps_Valid (rq_Policy r)
         then out\<lparr>as_Status := ''rejected'', as_Reason := ''configuration_invalid''\<rparr>
         else if \<not> ps_ExplicitEnabled (rq_Policy r) \<or> \<not> ps_DesktopEnabled (rq_Policy r)
         then out\<lparr>as_Status := ''suppressed'', as_Reason := ''disabled''\<rparr>
         else out)"

definition InformationalDesktopRequest :: "Content \<Rightarrow> string \<Rightarrow> Deadline \<Rightarrow> bool \<Rightarrow> Request" where
  "InformationalDesktopRequest content correlation dl systemSound =
     \<lparr>rq_Content = content, rq_AppIcon = [], rq_CorrelationID = correlation, rq_Deadline = dl,
      rq_Policy = \<lparr>ps_Valid = True, ps_ExplicitEnabled = True, ps_DesktopEnabled = True,
                   ps_ClickToFocus = False, ps_SoundEnabled = systemSound\<rparr>,
      rq_Navigation = NoNavigation, rq_Target = no_target, rq_Terminal = None, rq_Silent = \<not> systemSound\<rparr>"

definition WithTerminalClick :: "Request \<Rightarrow> TerminalTarget option \<Rightarrow> bool \<Rightarrow> Request" where
  "WithTerminalClick request target authorized =
     (if \<not> authorized then request
      else case target of
             None \<Rightarrow> request
           | Some t \<Rightarrow> request\<lparr>rq_Terminal := Some t, rq_Navigation := BestEffort,
                               rq_Policy := (rq_Policy request)\<lparr>ps_ClickToFocus := True\<rparr>\<rparr>)"

text \<open>An informational request is admitted, with or without a terminal to click through to.\<close>

lemma assess_informational:
  "as_Status (AssessDelivery (WithTerminalClick (InformationalDesktopRequest c i dl sound) target authorized)) = []"
  by (simp add: AssessDelivery_def WithTerminalClick_def InformationalDesktopRequest_def split: option.split)

end
