(* ===== verification/Origin.thy ===== *)
theory Origin
  imports Notification
begin

text \<open>
  Identity and routing of a caller: \<^verbatim>\<open>internal/agentnotify/origin/origin.go\<close>. The
  transport builds an origin; the journal keys its requests by a hash of it.
\<close>

datatype Provenance = ClientMetadata | CallerAsserted | OtherProvenance string
datatype Locality = Local | Remote | LocalityUnknown | OtherLocality string
datatype Interface = Desktop | Headless | InterfaceUnknown | OtherInterface string

fun provenance_string :: "Provenance \<Rightarrow> string" where
  "provenance_string ClientMetadata = ''client_metadata''"
| "provenance_string CallerAsserted = ''caller_asserted''"
| "provenance_string (OtherProvenance s) = s"

fun locality_string :: "Locality \<Rightarrow> string" where
  "locality_string Local = ''local''"
| "locality_string Remote = ''remote''"
| "locality_string LocalityUnknown = ''unknown''"
| "locality_string (OtherLocality s) = s"

fun interface_string :: "Interface \<Rightarrow> string" where
  "interface_string Desktop = ''desktop''"
| "interface_string Headless = ''headless''"
| "interface_string InterfaceUnknown = ''unknown''"
| "interface_string (OtherInterface s) = s"

record origin_context =
  oc_Provider :: string
  oc_Namespace :: string
  oc_SessionID :: string
  oc_AnonymousCaller :: string
  oc_CallID :: string
  oc_Provenance :: Provenance
  oc_Locality :: Locality
  oc_Interface :: Interface
  oc_Hidden :: bool

definition Text :: "string \<Rightarrow> nat \<Rightarrow> bool \<Rightarrow> bool" where
  "Text s limit required \<longleftrightarrow>
     \<not> (required \<and> s = []) \<and> length s \<le> limit \<and> valid_utf8 s \<and> list_all (\<lambda>r. \<not> control_rune r) (runes s)"

definition origin_Validate :: "origin_context \<Rightarrow> Navigation \<Rightarrow> string option" where
  "origin_Validate c n =
     (if \<not> Text (oc_Provider c) 256 True \<or> \<not> Text (oc_Namespace c) 256 True
         \<or> \<not> Text (oc_SessionID c) 256 False \<or> \<not> Text (oc_AnonymousCaller c) 256 False
         \<or> \<not> Text (oc_CallID c) 256 False then Some ''invalid_origin''
      else if oc_Provenance c \<notin> {ClientMetadata, CallerAsserted} then Some ''invalid_origin''
      else if oc_Locality c \<notin> {Local, Remote, LocalityUnknown} then Some ''invalid_origin''
      else if oc_Interface c \<notin> {Desktop, Headless, InterfaceUnknown} then Some ''invalid_origin''
      else if oc_SessionID c = [] \<and> (n \<noteq> NoNavigation \<or> oc_AnonymousCaller c = []) then Some ''session_required''
      else None)"

text \<open>What is hashed to name a caller: whether it has a session, and which.\<close>

definition caller_text :: "origin_context \<Rightarrow> string" where
  "caller_text c =
     (if oc_SessionID c = [] then ''anonymous'' @ [CHR 0x00] @ oc_AnonymousCaller c
      else ''session'' @ [CHR 0x00] @ oc_SessionID c)"

definition source_text :: "origin_context \<Rightarrow> string" where
  "source_text c = be64 (length (oc_Provider c)) @ oc_Provider c @ oc_Namespace c"

definition Scope :: "(string \<Rightarrow> string) \<Rightarrow> origin_context \<Rightarrow> string \<times> string" where
  "Scope sha c = (hexEncode (sha (source_text c)), hexEncode (sha (caller_text c)))"

record RoutePolicy =
  ro_Platform :: string
  ro_Linux :: LinuxBinding
  ro_LocalRouting :: bool
  ro_AllowUnknownCaller :: bool
  ro_AllowCallerAsserted :: bool
  ro_ApplicationPath :: string
  ro_TeamID :: string

record origin_target =
  ot_Desktop :: DesktopTarget
  ot_Navigation :: navigation

definition nav_result :: "string \<Rightarrow> string \<Rightarrow> string \<Rightarrow> string \<Rightarrow> navigation" where
  "nav_result capability precision scope reason =
     \<lparr>nv_Capability = capability, nv_Precision = precision, nv_Scope = scope, nv_Reason = reason\<rparr>"

definition no_route :: "string \<Rightarrow> origin_target" where
  "no_route reason = \<lparr>ot_Desktop = no_target, ot_Navigation = nav_result ''unavailable'' ''none'' [] reason\<rparr>"

definition codex_target :: "origin_context \<Rightarrow> RoutePolicy \<Rightarrow> origin_target" where
  "codex_target c p =
     (if ro_Platform p = ''linux'' then
        (if \<not> Text (lb_SnapshotPath (ro_Linux p)) 1024 True \<or> \<not> Text (lb_SHA256 (ro_Linux p)) 64 True
         then no_route ''application_unavailable''
         else \<lparr>ot_Desktop = no_target\<lparr>dt_Provider := ''codex'', dt_ThreadID := oc_SessionID c, dt_Linux := ro_Linux p\<rparr>,
               ot_Navigation = nav_result ''available'' ''chat_id'' ''selected_linux_installation'' ''configured_codex_desktop''\<rparr>)
      else if \<not> Text (ro_ApplicationPath p) 1024 True \<or> \<not> Text (ro_TeamID p) 256 True
      then no_route ''application_unavailable''
      else \<lparr>ot_Desktop = no_target\<lparr>dt_ThreadID := oc_SessionID c, dt_ApplicationPath := ro_ApplicationPath p,
                                  dt_TeamID := ro_TeamID p\<rparr>,
            ot_Navigation = nav_result ''available'' ''chat_id'' ''local_current_profile'' ''configured_codex_desktop''\<rparr>)"

definition ResolveCodex :: "origin_context \<Rightarrow> RoutePolicy \<Rightarrow> origin_target" where
  "ResolveCodex c p =
     (if origin_Validate c Required \<noteq> None then no_route ''invalid_origin''
      else if oc_Provider c \<noteq> ''codex'' then no_route ''provider_unsupported''
      else if oc_Locality c = Remote \<or> oc_Interface c = Headless then no_route ''local_gui_unavailable''
      else if oc_Hidden c then no_route ''hidden_target''
      else if oc_SessionID c = [] then no_route ''session_required''
      else if \<not> ro_LocalRouting p then no_route ''local_routing_disabled''
      else if (oc_Interface c = InterfaceUnknown \<or> oc_Locality c = LocalityUnknown) \<and> \<not> ro_AllowUnknownCaller p
      then no_route ''unknown_caller''
      else if oc_Provenance c = CallerAsserted \<and> \<not> ro_AllowCallerAsserted p
      then no_route ''caller_asserted_disabled''
      else codex_target c p)"

subsection \<open>Origins are told apart\<close>

lemma Text_length: "Text s n required \<Longrightarrow> length s \<le> n"
  by (simp add: Text_def)

lemma Text_nonempty: "Text s n True \<Longrightarrow> s \<noteq> []"
  by (simp add: Text_def)

text \<open>A control character is a rune of its own, so a text holds no NUL.\<close>

lemma no_NUL: "list_all (\<lambda>r. \<not> control_rune r) (runes s) \<Longrightarrow> valid_utf8 s \<Longrightarrow> CHR 0x00 \<notin> set s"
proof
  assume ctl: "list_all (\<lambda>r. \<not> control_rune r) (runes s)" and v: "valid_utf8 s" and "CHR 0x00 \<in> set s"
  then have "CHR 0x00 \<in> set (concat (runes s))" by (simp only: valid_utf8_def)
  then obtain r where r: "r \<in> set (runes s)" "CHR 0x00 \<in> set r" by auto
  have "is_ascii CHR 0x00" by (simp add: is_ascii_def)
  then have "length r = 1" using rune_bytes [OF runes_are_runes [OF r(1)]] r(2) by auto
  with r(2) have "r = [CHR 0x00]" by (cases r) auto
  with ctl r(1) show False by (auto simp: list_all_iff control_rune_def byte_in_def)
qed

lemma Text_validText: "Text s n required \<Longrightarrow> n \<le> m \<Longrightarrow> validText s m required"
  using no_NUL [of s] by (simp add: Text_def validText_def)

lemma split_at_length: "xs @ ys = us @ vs \<Longrightarrow> length xs = length us \<Longrightarrow> xs = us \<and> ys = vs"
  by simp

lemma source_text_inject:
  assumes "source_text c = source_text c'" and "short (oc_Provider c)" and "short (oc_Provider c')"
  shows "oc_Provider c = oc_Provider c' \<and> oc_Namespace c = oc_Namespace c'"
proof -
  have "length (be64 (length (oc_Provider c))) = length (be64 (length (oc_Provider c')))"
    by (simp only: be64_def length_be_bytes)
  note parts = split_at_length [OF assms(1) [unfolded source_text_def] this]
  then have "length (oc_Provider c) = length (oc_Provider c')"
    using be64_inject [OF assms(2,3)] by blast
  with parts split_at_length show ?thesis by blast
qed

lemma caller_text_inject:
  "caller_text c = caller_text c' \<Longrightarrow> oc_SessionID c = oc_SessionID c'
     \<and> (oc_SessionID c = [] \<longrightarrow> oc_AnonymousCaller c = oc_AnonymousCaller c')"
  by (auto simp: caller_text_def split: if_splits)

end
