(* ===== verification/JournalFacts.thy ===== *)
theory JournalFacts
  imports Journal
begin

text \<open>
  Lemmas on the journal of \<^verbatim>\<open>internal/agentnotify/journal\<close>: the balance between the
  live rate events and the retained records, and that what the transaction functions write
  validates again.
\<close>

subsection \<open>Events and records as pairs of a time and a session\<close>

definition event_pairs :: "disk \<Rightarrow> (u64 \<times> string) list" where
  "event_pairs d = map (\<lambda>v. (rv_At v, rv_Session v)) (dk_Events d)"

definition record_pairs :: "disk \<Rightarrow> (u64 \<times> string) list" where
  "record_pairs d = map (\<lambda>(k, r). (jc_Created r, jc_Session r)) (dk_Records d)"

definition live_at :: "u64 \<Rightarrow> (u64 \<times> string) list \<Rightarrow> (u64 \<times> string) list" where
  "live_at now ps = filter (\<lambda>(t, s). now - t < 60) ps"

definition balanced :: "u64 \<Rightarrow> (u64 \<times> string) list \<Rightarrow> (u64 \<times> string) list \<Rightarrow> bool" where
  "balanced now es rs \<longleftrightarrow> mset (live_at now es) = mset (live_at now rs)"

lemma live_at_simps [simp]:
  "live_at now [] = []"
  "live_at now (xs @ ys) = live_at now xs @ live_at now ys"
  "live_at now (live_at now xs) = live_at now xs"
  by (simp_all add: live_at_def)

lemma live_at_later:
  assumes "\<forall>(t, s) \<in> set ps. t \<le> now" and "now \<le> now'"
  shows "live_at now' (live_at now ps) = live_at now' ps"
  using assms by (induction ps) (auto simp: live_at_def intro: recent_mono)

lemma balanced_later:
  assumes "balanced now es rs" and "\<forall>(t, s) \<in> set es \<union> set rs. t \<le> now" and "now \<le> now'"
  shows "balanced now' es rs"
proof -
  have "live_at now' es = live_at now' (live_at now es)" "live_at now' rs = live_at now' (live_at now rs)"
    using assms(2,3) by (auto intro!: live_at_later [symmetric])
  moreover have "mset (live_at now' (live_at now es)) = mset (live_at now' (live_at now rs))"
    unfolding live_at_def [of now'] mset_filter
    using assms(1) by (simp add: balanced_def)
  ultimately show ?thesis by (simp add: balanced_def)
qed

lemma balanced_enter: "balanced now es rs \<Longrightarrow> balanced now (live_at now es @ [p]) (rs @ [p])"
  by (simp add: balanced_def live_at_def)

lemma balanced_keep:
  assumes "balanced now es rs" and "\<And>t s. (t, s) \<in> set rs \<Longrightarrow> now - t < 60 \<Longrightarrow> P (t, s)"
  shows "balanced now es (filter P rs)"
proof -
  have "live_at now (filter P rs) = live_at now rs"
    using assms(2) by (auto simp: live_at_def intro!: filter_cong)
  with assms(1) show ?thesis by (simp add: balanced_def)
qed

lemma live_events_pairs: "live_events d = live_at (logical d) (event_pairs d)"
  by (simp add: live_events_def live_at_def event_pairs_def filter_map o_def)

lemma live_records_pairs:
  "list_all (record_ok d) (dk_Records d) \<Longrightarrow> live_records d = live_at (logical d) (record_pairs d)"
  by (auto simp: live_records_def live_at_def record_pairs_def filter_map o_def record_ok_def
      list_all_iff split_beta intro!: arg_cong [where f = "map _"] filter_cong)

lemma validate_iff:
  "validate limits d \<longleftrightarrow> disk_header_ok limits d \<and> events_ok d
     \<and> distinct (map (\<lambda>(k, r). jc_Attempt r) (dk_Records d))
     \<and> list_all (record_ok d) (dk_Records d)
     \<and> balanced (logical d) (event_pairs d) (record_pairs d)"
  using live_records_pairs by (auto simp: validate_def balanced_iff balanced_def live_events_pairs)

lemma event_pairs_bound: "events_ok d \<Longrightarrow> (t, s) \<in> set (event_pairs d) \<Longrightarrow> t \<le> logical d"
  by (auto simp: events_ok_def event_pairs_def list_all_iff)

lemma record_pairs_bound:
  "list_all (record_ok d) (dk_Records d) \<Longrightarrow> (t, s) \<in> set (record_pairs d) \<Longrightarrow> t \<le> logical d"
  by (auto simp: record_pairs_def list_all_iff record_ok_def Let_def)

subsection \<open>A later clock\<close>

lemma record_ok_later:
  "record_ok d kr \<Longrightarrow> logical d \<le> el_Logical c \<Longrightarrow> record_ok (d\<lparr>dk_Clock := c\<rparr>) kr"
  by (auto simp: record_ok_def Let_def split: prod.splits)

lemma validate_later:
  assumes "validate limits d" and "logical d \<le> el_Logical c"
    and "validText (el_Boot c) 256 False" and "el_Boot c = [] \<Longrightarrow> el_Seconds c = 0"
  shows "validate limits (d\<lparr>dk_Clock := c\<rparr>)"
proof -
  let ?d = "d\<lparr>dk_Clock := c\<rparr>"
  have pairs: "event_pairs ?d = event_pairs d" "record_pairs ?d = record_pairs d"
    by (simp_all add: event_pairs_def record_pairs_def)
  have ok: "events_ok d" "list_all (record_ok d) (dk_Records d)"
    "balanced (logical d) (event_pairs d) (record_pairs d)"
    using assms(1) by (simp_all add: validate_iff)
  have "balanced (el_Logical c) (event_pairs d) (record_pairs d)"
    using ok event_pairs_bound [OF ok(1)] record_pairs_bound [OF ok(2)] assms(2)
    by (intro balanced_later [OF ok(3)]) auto
  moreover have "events_ok ?d"
    using ok(1) assms(2) by (auto simp: events_ok_def list_all_iff)
  moreover have "list_all (record_ok ?d) (dk_Records ?d)"
    using ok(2) record_ok_later [OF _ assms(2)] by (auto simp: list_all_iff)
  ultimately show ?thesis
    using assms by (auto simp: validate_iff pairs disk_header_ok_def)
qed

lemma word_add_bound:
  fixes l x :: u64
  assumes "\<not> - 1 - l < x"
  shows "unat (l + x) = unat l + unat x"
proof -
  have "unat (- 1 - l) = unat (- 1 :: u64) - unat l"
    by (rule unat_sub) simp
  moreover have "unat (- 1 :: u64) = 2 ^ 64 - 1" by (simp add: unsigned_minus_1_eq_mask mask_eq_exp_minus_1)
  moreover have "unat l < 2 ^ 64" using unsigned_less [of l] by simp
  ultimately have "unat l + unat x < 2 ^ 64"
    using assms by (simp add: word_less_nat_alt)
  then show ?thesis by (simp add: unat_word_ariths)
qed

subsection \<open>Each step writes an image that validates\<close>

definition clock_valid :: "elapsed \<Rightarrow> bool" where
  "clock_valid c \<longleftrightarrow> validText (el_Boot c) 256 False \<and> (el_Boot c = [] \<longrightarrow> el_Seconds c = 0)"

lemma validate_clock: "validate limits d \<Longrightarrow> clock_valid (dk_Clock d)"
  by (auto simp: validate_def disk_header_ok_def clock_valid_def)

lemma advance_result:
  assumes "advance x d = Inr (proven, d')"
  obtains c where "d' = d\<lparr>dk_Clock := c\<rparr>" "logical d \<le> el_Logical c"
    "\<not> proven \<Longrightarrow> el_Logical c = logical d"
    "proven \<Longrightarrow> el_Boot c = el_Boot (dk_Clock d)"
    "clock_valid (dk_Clock d) \<Longrightarrow> clock_valid c"
proof -
  have empty: "validText [] 256 False"
    by (simp add: validText_def valid_utf8_def)
  have weak: "validText s 256 True \<Longrightarrow> validText s 256 False \<and> s \<noteq> []" for s
    by (simp add: validText_def)
  have grow: "\<not> - 1 - logical d < y \<Longrightarrow> logical d \<le> logical d + y" for y
    by (simp add: word_le_nat_alt word_add_bound)
  show thesis
    using assms empty weak grow
    by (intro that [of "dk_Clock d'"])
      (auto simp: advance_def clock_valid_def Let_def split: if_splits)
qed

lemma validate_advance:
  assumes "advance x d = Inr (proven, d')" and "validate limits d"
  shows "validate limits d' \<and> logical d \<le> logical d' \<and> dk_Records d' = dk_Records d
     \<and> dk_Events d' = dk_Events d \<and> dk_Namespace d' = dk_Namespace d \<and> dk_Limits d' = limits"
proof -
  from advance_result [OF assms(1)] obtain c where
    c: "d' = d\<lparr>dk_Clock := c\<rparr>" "logical d \<le> el_Logical c" "clock_valid (dk_Clock d) \<Longrightarrow> clock_valid c"
    by metis
  moreover have "clock_valid c" using c(3) validate_clock [OF assms(2)] by simp
  ultimately have "validate limits d'"
    using validate_later [OF assms(2) c(2)] by (simp add: clock_valid_def)
  with c assms(2) show ?thesis by (simp add: validate_def disk_header_ok_def)
qed

lemma recent_not_expired:
  fixes now t r :: u64
  shows "MinRetention \<le> r \<Longrightarrow> now - t < 60 \<Longrightarrow> \<not> r \<le> now - t"
  using order.strict_trans2 [of "60 :: u64" MinRetention r]
  by (auto simp: MinRetention_def not_le dest: order.strict_trans)

lemma le_filter: "int (length xs) \<le> n \<Longrightarrow> int (length (filter P xs)) \<le> n"
  using length_filter_le [of P xs] by linarith

lemma validate_drop_expired:
  assumes "validate limits d" and "MinRetention \<le> lm_Retention limits"
  shows "validate limits (drop_expired d)"
proof -
  let ?P = "\<lambda>(k, r). \<not> lm_Retention (dk_Limits d) \<le> logical d - jc_Created r"
  let ?Q = "\<lambda>(t :: u64, s :: string). \<not> lm_Retention (dk_Limits d) \<le> logical d - t"
  have lim: "dk_Limits d = limits" using assms(1) by (simp add: validate_def disk_header_ok_def)
  have "record_pairs (drop_expired d) = filter ?Q (record_pairs d)"
    by (simp add: record_pairs_def drop_expired_def filter_map o_def case_prod_unfold)
  moreover have "balanced (logical d) (event_pairs d) (filter ?Q (record_pairs d))"
    using assms by (intro balanced_keep) (auto simp: validate_iff lim recent_not_expired)
  moreover have "event_pairs (drop_expired d) = event_pairs d"
    by (simp add: event_pairs_def drop_expired_def)
  moreover have "list_all (record_ok (drop_expired d)) (dk_Records (drop_expired d))"
    using assms(1) by (auto simp: validate_def list_all_iff drop_expired_def record_ok_def)
  moreover have "int (length (filter ?P (dk_Records d))) \<le> lm_Records (dk_Limits d)"
    using assms(1) by (auto simp: validate_def disk_header_ok_def intro: le_filter)
  ultimately show ?thesis
    using assms(1) by (auto simp: validate_iff drop_expired_def disk_header_ok_def events_ok_def distinct_map_filter)
qed

lemma update_absent: "map_of xs k = None \<Longrightarrow> AList.update k v xs = xs @ [(k, v)]"
  by (induction xs) (auto split: if_splits)

lemma live_length:
  assumes "validate limits d"
  shows "length (filter (recent (logical d) 60) (dk_Events d)) \<le> length (dk_Records d)"
proof -
  have "length (live_events d) = length (live_records d)"
    using assms by (auto simp: validate_def balanced_iff dest: mset_eq_length)
  also have "\<dots> \<le> length (dk_Records d)" by (simp add: live_records_def)
  finally show ?thesis by (simp add: live_events_def recent_def [abs_def])
qed

lemma overwrite_front_all: "overwrite_front old old = old"
  by (simp add: overwrite_front_def)

text \<open>What an admission must bring for the record it enters to be valid.\<close>

definition token_ok :: "string option \<Rightarrow> disk \<Rightarrow> bool" where
  "token_ok tok d \<longleftrightarrow>
     (case tok of None \<Rightarrow> True
      | Some t \<Rightarrow> length t = 32 \<and> hexEncode t \<notin> jc_Attempt ` snd ` set (dk_Records d))"

definition admission_ok :: "admission \<Rightarrow> bool" where
  "admission_ok a \<longleftrightarrow>
     valid_key (ad_Key a) \<and> length (ad_Digest a) = 32 \<and> validText (ad_TrackingID a) 256 True
     \<and> validSnapshot (ad_Decision a)"

lemma pending_text [simp]: "validText ''pending_submission'' 128 True" "validText [] n False"
  by (simp_all add: validText_def valid_utf8_def runes_ascii is_ascii_def)

lemma new_receipt_ok: "admission_ok a \<Longrightarrow> receipt_ok (new_receipt a)"
  by (simp add: receipt_ok_def new_receipt_def admission_ok_def valid_key_def)

lemma new_record_ok:
  assumes "admission_ok a" and "length t = 32" and "\<And>s. length (sha s) = 32"
  shows "record_ok (d\<lparr>dk_Events := es, dk_Records := rs\<rparr>)
           (scoped sha (dk_Namespace d) (ad_Key a), new_record sha (hexEncode t) a d)"
  using assms new_receipt_ok [OF assms(1)]
  by (simp add: record_ok_def new_record_def scoped_def session_hash_def journal_hash_def
      state_consistent_def new_receipt_def admission_ok_def)

lemma validate_enter:
  assumes v: "validate limits d" and room: "int (length (dk_Records d)) < lm_Records (dk_Limits d)"
    and new: "map_of (dk_Records d) (scoped sha (dk_Namespace d) (ad_Key a)) = None"
    and kept: "kept = filter (recent (logical d) 60) (dk_Events d)"
    and arg: "admission_ok a" "token_ok (Some t) d" "\<And>s. length (sha s) = 32"
    and out: "enter_record sha (Some t) a kept d = (r, changed, d')"
  shows "validate limits d'"
proof -
  let ?r = "new_record sha (hexEncode t) a d"
  let ?v = "\<lparr>rv_At = logical d, rv_Session = jc_Session ?r\<rparr>"
  have d': "d' = d\<lparr>dk_Events := kept @ [?v],
      dk_Records := dk_Records d @ [(scoped sha (dk_Namespace d) (ad_Key a), ?r)]\<rparr>"
    using out by (auto simp: enter_record_def Let_def update_absent [OF new])
  have pairs: "event_pairs d' = live_at (logical d) (event_pairs d) @ [(logical d, jc_Session ?r)]"
    "record_pairs d' = record_pairs d @ [(logical d, jc_Session ?r)]"
    by (simp_all add: d' event_pairs_def record_pairs_def kept live_at_def filter_map o_def
        recent_def [abs_def] new_record_def)
  have bal: "balanced (logical d') (event_pairs d') (record_pairs d')"
    unfolding pairs using v by (simp add: d' validate_iff balanced_enter)
  have "isHex (jc_Session ?r)"
    using arg(3) by (simp add: new_record_def session_hash_def journal_hash_def)
  then have ev: "events_ok d'"
    using v by (auto simp: validate_def events_ok_def d' kept list_all_iff sorted_append sorted_map
        intro: sorted_wrt_filter)
  have old: "record_ok d' kr" if "record_ok d kr" for kr
    using that by (auto simp: d' record_ok_def Let_def split: prod.splits)
  have recs: "list_all (record_ok d') (dk_Records d')"
    using v old new_record_ok [OF arg(1) _ arg(3), where t = t and d = d] arg(2)
    by (auto simp: validate_def list_all_iff d' token_ok_def)
  have att: "distinct (map (\<lambda>(k, r). jc_Attempt r) (dk_Records d'))"
    using v arg(2) by (auto simp: validate_def d' token_ok_def new_record_def image_iff split_beta)
  have "disk_header_ok limits d'"
    using v room live_length [OF v] by (auto simp: validate_def disk_header_ok_def d' kept)
  with bal ev recs att show ?thesis by (simp add: validate_iff)
qed

subsection \<open>Replacing a record\<close>

lemma map_update_same:
  "map_of xs k = Some v \<Longrightarrow> f (k, w) = f (k, v) \<Longrightarrow> map f (AList.update k w xs) = map f xs"
  by (induction xs) (auto split: if_splits)

lemma list_all_update: "list_all P xs \<Longrightarrow> P (k, w) \<Longrightarrow> list_all P (AList.update k w xs)"
  by (induction xs) auto

lemma validate_settle:
  assumes v: "validate limits d"
    and arg: "outcome_args_ok k attempt status reason backend nav"
    and out: "finalize_fn sha k attempt status reason backend nav d = (res, True, d')"
  shows "validate limits d'"
proof -
  let ?key = "scoped sha (dk_Namespace d) k"
  obtain r where r: "map_of (dk_Records d) ?key = Some r"
    and ok: "nav = Some n \<Longrightarrow> validNavigationTransition (sn_Navigation (jr_Decision (jc_Receipt r))) n"
    and d': "d' = d\<lparr>dk_Records := AList.update ?key (settled_record status reason backend nav r) (dk_Records d)\<rparr>"
    for n
    using out by (auto simp: finalize_fn_def Let_def split: option.splits if_splits)
  let ?r = "settled_record status reason backend nav r"
  have "record_ok d (?key, r)"
    using v map_of_SomeD [OF r] by (auto simp: validate_def list_all_iff)
  then have new: "record_ok d (?key, ?r)"
    using arg ok by (auto simp: record_ok_def settled_record_def receipt_ok_def state_consistent_def
        outcome_args_ok_def validTerminal_def Let_def split: option.splits)
  have "list_all (record_ok d) (dk_Records d')"
    using v new by (auto simp: validate_def d' intro: list_all_update)
  moreover have "record_ok d' = record_ok d" by (auto simp: record_ok_def d' fun_eq_iff)
  moreover have "map (\<lambda>(k, r). jc_Attempt r) (dk_Records d') = map (\<lambda>(k, r). jc_Attempt r) (dk_Records d)"
    unfolding d' by (simp add: map_update_same [OF r] settled_record_def)
  moreover have "record_pairs d' = record_pairs d"
    unfolding d' record_pairs_def by (simp add: map_update_same [OF r] settled_record_def)
  moreover have "length (dk_Records d') = length (dk_Records d)"
    using calculation(3) by (metis length_map)
  ultimately show ?thesis
    using v by (auto simp: validate_iff disk_header_ok_def events_ok_def event_pairs_def d')
qed

subsection \<open>Refusals and the shared array\<close>

lemma sorted_split_recent:
  assumes "sorted (map rv_At es)" and "list_all (\<lambda>v. rv_At v \<le> now) es"
  shows "es = filter (\<lambda>v. \<not> recent now n v) es @ filter (recent now n) es"
  using assms
proof (induction es)
  case (Cons v es)
  then have IH: "es = filter (\<lambda>v. \<not> recent now n v) es @ filter (recent now n) es" by simp
  show ?case
  proof (cases "recent now n v")
    case True
    have "recent now n u" if "u \<in> set es" for u
    proof -
      have "rv_At v \<le> rv_At u" "rv_At u \<le> now"
        using Cons.prems that by (auto simp: list_all_iff)
      then have "now - rv_At u \<le> now - rv_At v"
        by (simp add: word_le_nat_alt unat_gap order_trans [of "rv_At v" "rv_At u" now])
      with True show ?thesis by (simp add: recent_def)
    qed
    then have "filter (recent now n) es = es" "filter (\<lambda>v. \<not> recent now n v) es = []"
      by (auto simp: filter_id_conv filter_empty_conv)
    with True show ?thesis by simp
  next
    case False
    with IH show ?thesis by simp
  qed
qed simp

lemma overwritten_live:
  assumes "es = old @ kept" and "old \<noteq> []" and "kept \<noteq> []" and "P (last kept)"
  shows "length (filter P kept) < length (filter P (overwrite_front kept es))"
proof -
  have lt: "length kept < length es" using assms by (cases old) auto
  then have "drop (length kept) es \<noteq> []" by simp
  moreover have "last (drop (length kept) es) = last kept"
    using last_drop [OF lt] assms(1,3) by (simp del: drop_append)
  ultimately have "last kept \<in> set (drop (length kept) es)" by (metis last_in_set)
  with assms(4) have "filter P (drop (length kept) es) \<noteq> []" by (auto simp: filter_empty_conv)
  then show ?thesis by (simp add: overwrite_front_def)
qed

lemma overwrite_front_valid_iff:
  assumes "validate limits d" and "filter (recent (logical d) 60) (dk_Events d) = kept" and "kept \<noteq> []"
  shows "validate limits (d\<lparr>dk_Events := overwrite_front kept (dk_Events d)\<rparr>)
         \<longleftrightarrow> list_all (recent (logical d) 60) (dk_Events d)"
proof (cases "list_all (recent (logical d) 60) (dk_Events d)")
  case True
  then have "kept = dk_Events d" using assms(2) by (metis filter_True list_all_iff)
  with assms(1) True show ?thesis by (simp add: overwrite_front_all)
next
  case False
  let ?d = "d\<lparr>dk_Events := overwrite_front kept (dk_Events d)\<rparr>"
  let ?old = "filter (\<lambda>v. \<not> recent (logical d) 60 v) (dk_Events d)"
  have "dk_Events d = ?old @ kept"
    using assms(1,2) sorted_split_recent [of "dk_Events d" "logical d" 60]
    by (auto simp: validate_def events_ok_def list_all_iff)
  moreover have "?old \<noteq> []" using False by (auto simp: filter_empty_conv list_all_iff)
  moreover have "recent (logical d) 60 (last kept)"
    using last_in_set [OF assms(3)] unfolding assms(2) [symmetric] by (simp only: set_filter) blast
  ultimately have "length (filter (recent (logical d) 60) kept)
      < length (filter (recent (logical d) 60) (overwrite_front kept (dk_Events d)))"
    using assms(3) by (intro overwritten_live)
  then have "length (live_events d) < length (live_events ?d)"
    using assms(2) by (auto simp: live_events_def recent_def [abs_def])
  moreover have "length (live_events d) = length (live_records d)"
    using assms(1) by (auto simp: validate_def balanced_iff dest: mset_eq_length)
  moreover have "live_records ?d = live_records d" by (simp add: live_records_def)
  ultimately have "\<not> counts_balanced ?d" by (auto simp: balanced_iff dest: mset_eq_length)
  with False show ?thesis by (simp add: validate_def)
qed

subsection \<open>Transactions keep the journal\<close>

lemma commit_ok:
  assumes "journal_ok limits d" and "distinct (map fst (dk_Records (snd (snd out))))"
  shows "journal_ok limits (snd (commit limits fits out d))"
  using assms by (auto simp: commit_def journal_ok_def split: prod.splits)

lemma commit_changed:
  "commit limits fits (r, True, e) d = (r', d') \<Longrightarrow>
     validate limits e \<Longrightarrow> fits e \<Longrightarrow> r' = r \<and> d' = e"
  by (simp add: commit_def)

lemma advance_records [simp]:
  "advance x d = Inr (p, d') \<Longrightarrow> dk_Records d' = dk_Records d \<and> dk_Events d' = dk_Events d
     \<and> dk_Namespace d' = dk_Namespace d \<and> dk_Limits d' = dk_Limits d"
  by (erule advance_result) simp

lemma advance_new_boot:
  assumes "advance x d = Inr (p, d')" and "el_Boot (dk_Clock d') \<noteq> []"
    and "el_Boot (dk_Clock d') \<noteq> el_Boot (dk_Clock d)"
  shows "\<not> p \<and> logical d' = logical d \<and> el_Boot (dk_Clock d') = sm_Boot x"
  using assms by (auto simp: advance_def Let_def split: if_splits)

lemma distinct_drop_expired [simp]:
  "distinct (map fst (dk_Records d)) \<Longrightarrow> distinct (map fst (dk_Records (drop_expired d)))"
  by (simp add: drop_expired_def distinct_map_filter)

lemma refusal_image:
  "snd (persistClockOnRefusal d c) = d \<or> snd (persistClockOnRefusal d c) = d\<lparr>dk_Clock := c\<rparr>"
  by (simp add: persistClockOnRefusal_def)

lemma refusal_records [simp]: "dk_Records (snd (persistClockOnRefusal d c)) = dk_Records d"
  by (simp add: persistClockOnRefusal_def)

lemma enter_distinct:
  "distinct (map fst (dk_Records d)) \<Longrightarrow>
     distinct (map fst (dk_Records (snd (snd (enter_record sha tok a kept d)))))"
  by (auto simp: enter_record_def Let_def distinct_update split: option.splits)

lemma admit_distinct:
  "distinct (map fst (dk_Records d)) \<Longrightarrow>
     distinct (map fst (dk_Records (snd (snd (admit_fn sha x tok a d)))))"
  by (auto simp: admit_fn_def admit_new_def admit_at_def Let_def enter_distinct
      split: sum.splits option.splits prod.splits)

lemma japply_keeps:
  assumes "journal_ok limits d"
  shows "journal_ok limits (snd (japply sha limits fits op d))"
proof -
  have dist: "distinct (map fst (dk_Records d))" using assms by (simp add: journal_ok_def)
  note keep = commit_ok [OF assms]
  show ?thesis
  proof (cases op)
    case (JLookup k digest)
    then show ?thesis using assms dist by (simp add: keep)
  next
    case (JAdmit x tok a)
    then show ?thesis using assms dist by (simp add: keep admit_distinct)
  next
    case (JFinalize k attempt status reason backend nav)
    have "distinct (map fst (dk_Records (snd (snd
        (finalize_fn sha k attempt status reason backend nav d)))))"
      using dist by (auto simp: finalize_fn_def Let_def distinct_update split: option.splits)
    with JFinalize show ?thesis using assms by (simp add: keep)
  next
    case (JCollect x)
    have "distinct (map fst (dk_Records (snd (snd (collect_fn x d)))))"
      using dist by (auto simp: collect_fn_def split: sum.splits)
    with JCollect show ?thesis by (simp add: keep)
  qed
qed

lemma refusal_changed:
  "persistClockOnRefusal d c = (True, d') \<Longrightarrow>
     d' = d \<and> el_Boot (dk_Clock d) \<noteq> [] \<and> el_Boot (dk_Clock d) \<noteq> el_Boot c"
  by (simp add: persistClockOnRefusal_def split: if_splits)

lemma admit_at_changed:
  assumes "admit_at sha tok rates a before d = (r, True, d')"
  defines "kept \<equiv> filter (recent (logical d) 60) (dk_Events d)"
  obtains (full) "r = Inl ErrFull" "d' = d"
  | (rate) "r = Inl ErrRate" "rate_exceeded rates (logical d) (session_hash sha (dk_Namespace d) (ad_Key a)) kept"
      "d' = d\<lparr>dk_Events := overwrite_front kept (dk_Events d)\<rparr>"
      "el_Boot (dk_Clock d) \<noteq> []" "el_Boot (dk_Clock d) \<noteq> el_Boot before"
  | (entered) "enter_record sha tok a kept d = (r, True, d')"
      "int (length (dk_Records d)) < lm_Records (dk_Limits d)"
      "\<not> rate_exceeded rates (logical d) (session_hash sha (dk_Namespace d) (ad_Key a)) kept"
proof (cases "lm_Records (dk_Limits d) \<le> int (length (dk_Records d))")
  case True
  with assms(1) have "r = Inl ErrFull" "persistClockOnRefusal d before = (True, d')"
    by (simp_all add: admit_at_def)
  then show thesis using refusal_changed full by blast
next
  case room: False
  show thesis
  proof (cases "rate_exceeded rates (logical d) (session_hash sha (dk_Namespace d) (ad_Key a)) kept")
    case True
    let ?d = "d\<lparr>dk_Events := overwrite_front kept (dk_Events d)\<rparr>"
    have "r = Inl ErrRate" "persistClockOnRefusal ?d before = (True, d')"
      using assms(1) room True by (simp_all add: admit_at_def Let_def kept_def)
    with refusal_changed [OF this(2)] True show thesis by (intro rate) simp_all
  next
    case False
    with assms(1) room show thesis by (intro entered) (simp_all add: admit_at_def Let_def kept_def)
  qed
qed

subsection \<open>Records stay until they expire\<close>

definition same_admission :: "jrecord \<Rightarrow> jrecord \<Rightarrow> bool" where
  "same_admission r r' \<longleftrightarrow> jc_Created r' = jc_Created r \<and> jc_Attempt r' = jc_Attempt r
     \<and> jc_Digest r' = jc_Digest r \<and> jc_Session r' = jc_Session r
     \<and> (jc_State r \<noteq> ''dispatching'' \<or> jc_State r' = ''dispatching'' \<longrightarrow> r' = r)"

definition keeps_records :: "disk \<Rightarrow> disk \<Rightarrow> bool" where
  "keeps_records d e \<longleftrightarrow>
     dk_Namespace e = dk_Namespace d \<and> dk_Limits e = dk_Limits d \<and> logical d \<le> logical e \<and>
     (\<forall>key r. map_of (dk_Records d) key = Some r \<longrightarrow>
        (\<exists>r'. map_of (dk_Records e) key = Some r' \<and> same_admission r r')
        \<or> lm_Retention (dk_Limits d) \<le> logical e - jc_Created r)"

lemma keeps_refl: "keeps_records d d"
  by (auto simp: keeps_records_def same_admission_def)

lemma map_of_filter_Some: "map_of xs k = Some v \<Longrightarrow> P (k, v) \<Longrightarrow> map_of (filter P xs) k = Some v"
  by (induction xs) (auto split: if_splits)

lemma keeps_advance: "advance x d = Inr (p, d') \<Longrightarrow> keeps_records d d'"
  by (erule advance_result) (auto simp: keeps_records_def same_admission_def)

lemma keeps_drop:
  assumes "keeps_records d e" and "dk_Records e = dk_Records d"
  shows "keeps_records d (drop_expired e)"
proof -
  have "map_of (dk_Records (drop_expired e)) key = Some r"
    if "map_of (dk_Records d) key = Some r" "\<not> lm_Retention (dk_Limits d) \<le> logical e - jc_Created r" for key r
    using that assms by (auto simp: drop_expired_def keeps_records_def intro!: map_of_filter_Some)
  with assms(1) show ?thesis
    by (auto simp: keeps_records_def drop_expired_def same_admission_def)
qed

lemma keeps_enter:
  assumes "keeps_records d e" and "enter_record sha tok a kept e = (r, c, d')"
    and "map_of (dk_Records d) (scoped sha (dk_Namespace e) (ad_Key a)) = None"
  shows "keeps_records d d'"
  using assms by (auto simp: keeps_records_def enter_record_def Let_def update_conv' split: option.splits) blast

lemma keeps_admit:
  assumes "admit_fn sha x tok a d = (r, True, d')"
  shows "keeps_records d d'"
proof -
  obtain rates where new: "admit_new sha x tok rates a d = (r, True, d')"
    and none: "lookup sha d (ad_Key a) (ad_Digest a) = Inr None"
    using assms by (auto simp: admit_fn_def split: sum.splits option.splits if_splits)
  obtain p d1 where ad: "advance x d = Inr (p, d1)"
    and at: "admit_at sha tok rates a (dk_Clock d) (if p then drop_expired d1 else d1) = (r, True, d')"
    using new by (auto simp: admit_new_def split: sum.splits prod.splits)
  define e where "e = (if p then drop_expired d1 else d1)"
  have k: "keeps_records d e"
    using keeps_advance [OF ad] keeps_drop [OF keeps_advance [OF ad]] ad by (auto simp: e_def)
  have "dk_Namespace e = dk_Namespace d" using ad by (simp add: e_def drop_expired_def)
  with none have absent: "map_of (dk_Records d) (scoped sha (dk_Namespace e) (ad_Key a)) = None"
    by (auto simp: lookup_def Let_def split: option.splits if_splits)
  show ?thesis using at unfolding e_def [symmetric]
  proof (cases rule: admit_at_changed)
    case entered
    then show ?thesis using keeps_enter [OF k _ absent] by simp
  qed (use k in \<open>simp_all add: keeps_records_def\<close>)
qed

lemma terminal_not_dispatching: "validTerminal status \<Longrightarrow> status \<noteq> ''dispatching''"
  by (auto simp: validTerminal_def)

lemma keeps_finalize:
  "validTerminal status \<Longrightarrow> finalize_fn sha k attempt status reason backend nav d = (r, c, d') \<Longrightarrow>
     keeps_records d d'"
  by (auto simp: finalize_fn_def keeps_records_def same_admission_def settled_record_def Let_def update_conv'
      terminal_not_dispatching split: option.splits if_splits)

lemma keeps_collect: "collect_fn x d = (r, True, d') \<Longrightarrow> keeps_records d d'"
  using keeps_advance [of x d] keeps_drop [of d] by (auto simp: collect_fn_def split: sum.splits prod.splits if_splits)

lemma commit_image:
  "snd (commit limits fits out d) = d
   \<or> (\<exists>r e. out = (r, True, e) \<and> validate limits e \<and> snd (commit limits fits out d) = e)"
  by (auto simp: commit_def split: prod.splits)

lemma japply_keeps_records: "keeps_records d (snd (japply sha limits fits op d))"
proof (cases op)
  case (JLookup k digest)
  then show ?thesis by (simp add: commit_def keeps_refl)
next
  case (JAdmit x tok a)
  then show ?thesis
    using commit_image [of limits fits "admit_fn sha x tok a d" d]
    by (auto simp: keeps_refl dest: keeps_admit)
next
  case (JFinalize k attempt status reason backend nav)
  then show ?thesis
    using commit_image [of limits fits "finalize_fn sha k attempt status reason backend nav d" d]
    by (auto simp: keeps_refl outcome_args_ok_def dest: keeps_finalize)
next
  case (JCollect x)
  then show ?thesis
    using commit_image [of limits fits "collect_fn x d" d] by (auto simp: keeps_refl dest: keeps_collect)
qed

end
