(* ===== verification/JournalProperties.thy ===== *)
theory JournalProperties
  imports JournalFacts
begin

text \<open>
  What the admission journal guarantees over any sequence of transactions: it writes only images
  it will accept again, quotas bound what was admitted, a key is admitted once per retention
  period, and the rate events carry no information beyond the records.
\<close>

subsection \<open>The journal accepts what it writes\<close>

definition op_typed :: "jop \<Rightarrow> disk \<Rightarrow> bool" where
  "op_typed op d =
     (case op of JAdmit x tok a \<Rightarrow> length (ad_Digest a) = 32 \<and> token_ok tok d | _ \<Rightarrow> True)"

text \<open>
  After a reboot a refused admission keeps the new boot's baseline; if a rate event has expired by
  then, the refusal writes the overwritten array.
\<close>

definition overwriting_refusal :: "jop \<Rightarrow> disk \<Rightarrow> bool" where
  "overwriting_refusal op d =
     (case op of
        JAdmit x tok a \<Rightarrow>
          el_Boot (dk_Clock d) \<noteq> sm_Boot x \<and> \<not> list_all (recent (logical d) 60) (dk_Events d)
      | _ \<Rightarrow> False)"

lemma Normalize_positive:
  "Normalize p = Inr rates \<Longrightarrow>
     1 \<le> rp_SessionPerMinute rates \<and> 1 \<le> rp_RuntimePerMinute rates \<and> 1 \<le> rp_Burst rates"
  by (auto simp: Normalize_def split: if_splits)

lemma not_exceeded_empty: "Normalize p = Inr rates \<Longrightarrow> \<not> rate_exceeded rates now session []"
  using Normalize_positive [of p rates] by (simp add: rate_exceeded_def)

lemma token_ok_drop: "token_ok tok d \<Longrightarrow> dk_Records d' = dk_Records d \<Longrightarrow> token_ok tok (drop_expired d')"
  by (auto simp: token_ok_def drop_expired_def split: option.splits)

lemma map_of_filter_None: "map_of xs k = None \<Longrightarrow> map_of (filter P xs) k = None"
  by (auto simp: map_of_eq_None_iff)

lemma admit_new_image:
  assumes v: "validate limits d0" and ret: "MinRetention \<le> lm_Retention limits"
    and new: "map_of (dk_Records d0) (scoped sha (dk_Namespace d0) (ad_Key a)) = None"
    and arg: "admission_ok a" "token_ok tok d0" "\<And>s. length (sha s) = 32" "Normalize p = Inr rates"
    and out: "admit_new sha x tok rates a d0 = (r, True, d')"
  shows "validate limits d' \<or>
     el_Boot (dk_Clock d0) \<noteq> sm_Boot x \<and> \<not> list_all (recent (logical d0) 60) (dk_Events d0)"
proof -
  obtain proven d1 where ad: "advance x d0 = Inr (proven, d1)"
    using out by (auto simp: admit_new_def split: sum.splits)
  note v1 = validate_advance [OF ad v]
  define d where "d = (if proven then drop_expired d1 else d1)"
  have vd: "validate limits d" using v1 validate_drop_expired [OF _ ret] by (simp add: d_def)
  have lim: "dk_Limits d = limits" using v1 by (simp add: d_def drop_expired_def)
  define kept where "kept = filter (recent (logical d) 60) (dk_Events d)"
  have out': "admit_at sha tok rates a (dk_Clock d0) d = (r, True, d')"
    using out by (simp add: admit_new_def ad d_def)
  show ?thesis using out'
  proof (cases rule: admit_at_changed)
    case full
    with vd show ?thesis by simp
  next
    case rate
    have "dk_Clock d = dk_Clock d1" by (simp add: d_def drop_expired_def)
    with rate(4,5) advance_new_boot [OF ad] have boot: "\<not> proven" "logical d1 = logical d0"
      "el_Boot (dk_Clock d0) \<noteq> sm_Boot x" by auto
    then have same: "d = d1" "logical d = logical d0" "dk_Events d = dk_Events d0"
      using v1 advance_records [OF ad] by (simp_all add: d_def)
    have "kept \<noteq> []" using rate(2) not_exceeded_empty [OF arg(4)] by (auto simp: kept_def)
    then show ?thesis
      using overwrite_front_valid_iff [OF vd kept_def [symmetric]] rate(3) kept_def boot same by auto
  next
    case entered
    from entered(1) obtain t where t: "tok = Some t" by (auto simp: enter_record_def split: option.splits)
    have "dk_Namespace d = dk_Namespace d0" using v1 by (simp add: d_def drop_expired_def)
    moreover from this have "map_of (dk_Records d) (scoped sha (dk_Namespace d) (ad_Key a)) = None"
      using new v1 by (auto simp: d_def drop_expired_def intro: map_of_filter_None)
    moreover have "token_ok (Some t) d"
      using arg(2) v1 token_ok_drop [of tok d0 d1] by (simp add: t d_def token_ok_def)
    ultimately have "validate limits d'"
      using entered by (intro validate_enter [OF vd _ _ kept_def arg(1) _ arg(3)]) (simp_all add: t lim kept_def)
    then show ?thesis ..
  qed
qed

lemma lookup_no_repair: "lookup sha d k digest \<noteq> Inl ErrRepair"
  by (auto simp: lookup_def Let_def split: option.splits)

lemma advance_no_repair: "advance x d \<noteq> Inl ErrRepair"
  by (auto simp: advance_def Let_def)

lemma admit_no_repair: "fst (admit_fn sha x tok a d) \<noteq> Inl ErrRepair"
  using lookup_no_repair [of sha d "ad_Key a" "ad_Digest a"] advance_no_repair [of x d]
  by (auto simp: admit_fn_def admit_new_def admit_at_def enter_record_def Let_def
      split: sum.splits option.splits prod.splits)

lemma admit_image:
  assumes "validate limits d" and "MinRetention \<le> lm_Retention limits" and "\<And>s. length (sha s) = 32"
    and "valid_key (ad_Key a)" and "op_typed (JAdmit x tok a) d" and "admit_fn sha x tok a d = (r, True, d')"
  shows "validate limits d' \<or> overwriting_refusal (JAdmit x tok a) d"
proof -
  obtain rates where "Normalize (ad_Rates a) = Inr rates" "admit_new sha x tok rates a d = (r, True, d')"
    "validText (ad_TrackingID a) 256 True" "validSnapshot (ad_Decision a)"
    "lookup sha d (ad_Key a) (ad_Digest a) = Inr None"
    using assms(6) by (auto simp: admit_fn_def split: sum.splits option.splits if_splits)
  moreover from this(5) have "map_of (dk_Records d) (scoped sha (dk_Namespace d) (ad_Key a)) = None"
    by (auto simp: lookup_def Let_def split: option.splits if_splits)
  moreover have "admission_ok a" "token_ok tok d"
    using assms(4,5) calculation by (simp_all add: op_typed_def admission_ok_def)
  ultimately show ?thesis
    using admit_new_image [where sha = sha, OF assms(1,2) _ _ _ assms(3)]
    by (simp add: overwriting_refusal_def)
qed

lemma commit_repair:
  "commit limits fits out d = (Inl ErrRepair, d') \<Longrightarrow>
     fst out = Inl ErrRepair \<or> fst (snd out) \<and> \<not> validate limits (snd (snd out))"
  by (auto simp: commit_def split: prod.splits if_splits)

text \<open>
  Property C11. The journal accepts what it writes: from a valid image every operation leaves a
  valid image, and none reports that the state needs repair, with one exception: an admission
  refused after a reboot while a rate event on disk has expired.
\<close>

theorem journal_writes_validate:
  assumes "journal_ok limits d" and "MinRetention \<le> lm_Retention limits" and "\<And>s. length (sha s) = 32"
    and "op_typed op d" and "japply sha limits fits op d = (r, d')"
  shows "journal_ok limits d' \<and> (r = Inl ErrRepair \<longrightarrow> overwriting_refusal op d)"
proof -
  have v: "validate limits d" using assms(1) by (simp add: journal_ok_def)
  have "overwriting_refusal op d" if "japply sha limits fits op d = (Inl ErrRepair, d')"
  proof (cases op)
    case (JLookup k digest)
    then show ?thesis using that lookup_no_repair by (auto simp: commit_def split: if_splits)
  next
    case (JAdmit x tok a)
    then have key: "valid_key (ad_Key a)"
      and c: "commit limits fits (admit_fn sha x tok a d) d = (Inl ErrRepair, d')"
      using that by (simp_all split: if_splits)
    from commit_repair [OF c] obtain r e where e: "admit_fn sha x tok a d = (r, True, e)" "\<not> validate limits e"
      using admit_no_repair by (metis prod.collapse)
    from admit_image [OF v assms(2,3) key _ e(1)] e(2) assms(4) JAdmit show ?thesis by simp
  next
    case (JFinalize k attempt status reason backend nav)
    then have arg: "outcome_args_ok k attempt status reason backend nav"
      and c: "commit limits fits (finalize_fn sha k attempt status reason backend nav d) d = (Inl ErrRepair, d')"
      using that by (simp_all split: if_splits)
    have "fst (finalize_fn sha k attempt status reason backend nav d) \<noteq> Inl ErrRepair"
      by (auto simp: finalize_fn_def Let_def split: option.splits)
    with commit_repair [OF c] validate_settle [OF v arg, of sha] show ?thesis
      by (metis prod.collapse)
  next
    case (JCollect x)
    then have "commit limits fits (collect_fn x d) d = (Inl ErrRepair, d')" using that by simp
    from commit_repair [OF this] show ?thesis
      using advance_no_repair [of x d] validate_advance [OF _ v, of x] validate_drop_expired [OF _ assms(2)]
      by (auto simp: collect_fn_def split: sum.splits prod.splits if_splits)
  qed
  with assms(5) japply_keeps [OF assms(1), of sha fits op] show ?thesis by auto
qed

text \<open>
  Property C30. An admission that its quota refuses after a reboot either reports the rate limit and
  records the new boot, or, when some rate event has expired since it was written, reports that
  the journal needs repair and records nothing: the logical clock then stays stopped and the same
  answer comes back until the next collection.
\<close>

theorem refusal_after_reboot:
  assumes "journal_ok limits d" and "\<And>e. fits e" and "valid_key (ad_Key a)"
    and "lookup sha d (ad_Key a) (ad_Digest a) = Inr None" and "Normalize (ad_Rates a) = Inr rates"
    and "validText (ad_TrackingID a) 256 True" and "validSnapshot (ad_Decision a)"
    and "sm_Available x" and "validText (sm_Boot x) 256 True" and "el_Boot (dk_Clock d) \<noteq> sm_Boot x"
    and "int (length (dk_Records d)) < lm_Records limits"
    and "rate_exceeded rates (logical d) (session_hash sha (dk_Namespace d) (ad_Key a))
           (filter (recent (logical d) 60) (dk_Events d))"
  shows "japply sha limits fits (JAdmit x tok a) d =
    (if list_all (recent (logical d) 60) (dk_Events d)
     then (Inl ErrRate, d\<lparr>dk_Clock := (dk_Clock d)\<lparr>el_Boot := sm_Boot x, el_Seconds := sm_Seconds x\<rparr>\<rparr>)
     else (Inl ErrRepair, d))"
proof -
  let ?e = "d\<lparr>dk_Clock := (dk_Clock d)\<lparr>el_Boot := sm_Boot x, el_Seconds := sm_Seconds x\<rparr>\<rparr>"
  let ?kept = "filter (recent (logical d) 60) (dk_Events d)"
  have v: "validate limits d" using assms(1) by (simp add: journal_ok_def)
  have ad: "advance x d = Inr (False, ?e)" using assms(8-10) by (simp add: advance_def)
  have ve: "validate limits ?e" using validate_advance [OF ad v] by simp
  have lim: "dk_Limits d = limits" using v by (simp add: validate_def disk_header_ok_def)
  have boot: "sm_Boot x \<noteq> []" using assms(9) by (simp add: validText_def)
  have "?kept \<noteq> []" using assms(12) not_exceeded_empty [OF assms(5)] by auto
  then have valid: "validate limits (?e\<lparr>dk_Events := overwrite_front ?kept (dk_Events d)\<rparr>)
      \<longleftrightarrow> list_all (recent (logical d) 60) (dk_Events d)"
    using overwrite_front_valid_iff [OF ve, of ?kept] by simp
  have out: "admit_fn sha x tok a d
      = (Inl ErrRate, True, ?e\<lparr>dk_Events := overwrite_front ?kept (dk_Events d)\<rparr>)"
    using assms(4-7,10-12) boot
    by (simp add: admit_fn_def admit_new_def ad admit_at_def lim persistClockOnRefusal_def)
  have "?kept = dk_Events d" if "list_all (recent (logical d) 60) (dk_Events d)"
    using that by (simp add: list_all_iff)
  then have "?e\<lparr>dk_Events := overwrite_front ?kept (dk_Events d)\<rparr> = ?e"
    if "list_all (recent (logical d) 60) (dk_Events d)"
    using that by (simp add: overwrite_front_all)
  with valid show ?thesis by (auto simp: assms(2,3) out commit_def)
qed

subsection \<open>Quotas bound what was admitted\<close>

definition records_within :: "u64 \<Rightarrow> u64 \<Rightarrow> disk \<Rightarrow> jrecord list" where
  "records_within now window d =
     filter (\<lambda>r. jc_Created r \<le> now \<and> now - jc_Created r < window) (map snd (dk_Records d))"

lemma fresh_admission:
  assumes "japply sha limits fits (JAdmit x tok a) d = (Inr (Some r), d')" and "rs_Fresh r"
  obtains rates before e where "Normalize (ad_Rates a) = Inr rates" "validate limits d'"
    "validText (ad_TrackingID a) 256 True" "validSnapshot (ad_Decision a)" "valid_key (ad_Key a)"
    "map_of (dk_Records d) (scoped sha (dk_Namespace d) (ad_Key a)) = None"
    "admit_at sha tok rates a before e = (Inr (Some r), True, d')"
    "\<exists>p d1. advance x d = Inr (p, d1) \<and> e = (if p then drop_expired d1 else d1)"
proof -
  have key: "valid_key (ad_Key a)"
    and c: "commit limits fits (admit_fn sha x tok a d) d = (Inr (Some r), d')"
    using assms(1) by (simp_all split: if_splits)
  from c obtain changed e where e: "admit_fn sha x tok a d = (Inr (Some r), changed, e)"
    and w: "changed \<longrightarrow> validate limits e \<and> d' = e"
    by (auto simp: commit_def split: prod.splits if_splits)
  have none: "lookup sha d (ad_Key a) (ad_Digest a) = Inr None"
    using e assms(2) by (auto simp: admit_fn_def lookup_def Let_def split: sum.splits option.splits if_splits)
  then have absent: "map_of (dk_Records d) (scoped sha (dk_Namespace d) (ad_Key a)) = None"
    by (auto simp: lookup_def Let_def split: option.splits if_splits)
  from e none obtain rates p d1 where n: "Normalize (ad_Rates a) = Inr rates"
    "validText (ad_TrackingID a) 256 True" "validSnapshot (ad_Decision a)"
    "advance x d = Inr (p, d1)"
    "admit_at sha tok rates a (dk_Clock d) (if p then drop_expired d1 else d1) = (Inr (Some r), changed, e)"
    by (auto simp: admit_fn_def admit_new_def split: sum.splits if_splits prod.splits)
  from n(5) have changed
    by (auto simp: admit_at_def enter_record_def Let_def persistClockOnRefusal_def split: if_splits option.splits)
  with n w key absent show thesis by (intro that) auto
qed

text \<open>What entering a record adds, given the image it was entered into.\<close>

lemma entered_image:
  assumes "admit_at sha tok rates a before e = (Inr (Some r), True, d')"
  obtains kept where "kept = filter (recent (logical e) 60) (dk_Events e)"
    "\<not> rate_exceeded rates (logical e) (jc_Session (rs_Record r)) kept"
    "d' = e\<lparr>dk_Events := kept @ [\<lparr>rv_At = logical e, rv_Session = jc_Session (rs_Record r)\<rparr>],
           dk_Records := AList.update (scoped sha (dk_Namespace e) (ad_Key a)) (rs_Record r) (dk_Records e)\<rparr>"
    "jc_Created (rs_Record r) = logical e" "rs_ScopedKey r = scoped sha (dk_Namespace e) (ad_Key a)"
    "jc_Session (rs_Record r) = session_hash sha (dk_Namespace e) (ad_Key a)"
    "jc_Digest (rs_Record r) = hexEncode (ad_Digest a)"
  using assms
proof (cases rule: admit_at_changed)
  case entered
  then show thesis
    by (intro that [OF refl]) (auto simp: enter_record_def Let_def new_record_def split: option.splits)
qed simp_all

lemma records_within_events:
  assumes "validate limits d" and "window \<le> 60" and "\<And>r. P r = Q (jc_Session r)"
  shows "length (filter P (records_within (logical d) window d))
       = length (filter (\<lambda>(t, s). logical d - t < window \<and> Q s) (live_events d))"
proof -
  let ?f = "\<lambda>(t, s). logical d - t < window \<and> Q s"
  have w: "y < window \<Longrightarrow> y < 60" for y by (rule order.strict_trans2 [OF _ assms(2)])
  have "length (filter ?f (live_events d)) = length (filter ?f (live_records d))"
    using assms(1) by (intro mset_eq_length) (simp add: validate_def balanced_iff)
  moreover have "length (filter ?f (live_records d))
      = length (filter P (records_within (logical d) window d))"
  proof -
    let ?g = "\<lambda>kr. (jc_Created (snd kr) \<le> logical d \<and> logical d - jc_Created (snd kr) < 60)
        \<and> logical d - jc_Created (snd kr) < window \<and> Q (jc_Session (snd kr))"
    let ?h = "\<lambda>kr. (jc_Created (snd kr) \<le> logical d \<and> logical d - jc_Created (snd kr) < window)
        \<and> P (snd kr)"
    have "length (filter ?f (live_records d)) = length (filter ?g (dk_Records d))"
      by (simp add: live_records_def filter_map o_def case_prod_unfold)
    moreover have "length (filter P (records_within (logical d) window d)) = length (filter ?h (dk_Records d))"
      by (simp add: records_within_def filter_map o_def)
    moreover have "filter ?g (dk_Records d) = filter ?h (dk_Records d)"
    proof (rule filter_cong [OF refl])
      fix kr :: "string \<times> jrecord"
      show "?g kr = ?h kr" by (cases "logical d - jc_Created (snd kr) < window") (simp_all add: assms(3) w)
    qed
    ultimately show ?thesis by simp
  qed
  ultimately show ?thesis by simp
qed

text \<open>
  Property C28. Quotas bound what was admitted: when an admission is granted, the records created in
  the last 60 logical seconds, this one included, are at most the runtime quota, those of its
  session at most the session quota, and those of the last two seconds at most the burst.
\<close>

theorem journal_quotas_hold:
  assumes "japply sha limits fits (JAdmit x tok a) d = (Inr (Some r), d')" and "rs_Fresh r"
    and "Normalize (ad_Rates a) = Inr rates"
  shows "jc_Created (rs_Record r) = logical d'
    \<and> int (length (records_within (logical d') 60 d')) \<le> rp_RuntimePerMinute rates
    \<and> int (length (filter (\<lambda>r'. jc_Session r' = jc_Session (rs_Record r)) (records_within (logical d') 60 d')))
        \<le> rp_SessionPerMinute rates
    \<and> int (length (records_within (logical d') 2 d')) \<le> rp_Burst rates"
proof -
  from fresh_admission [OF assms(1,2)] obtain rates' before e where "Normalize (ad_Rates a) = Inr rates'"
    and v: "validate limits d'" and at': "admit_at sha tok rates' a before e = (Inr (Some r), True, d')" .
  then have at: "admit_at sha tok rates a before e = (Inr (Some r), True, d')" using assms(3) by simp
  from entered_image [OF at] obtain kept where kept: "kept = filter (recent (logical e) 60) (dk_Events e)"
    "\<not> rate_exceeded rates (logical e) (jc_Session (rs_Record r)) kept"
    and img: "d' = e\<lparr>dk_Events := kept @ [\<lparr>rv_At = logical e, rv_Session = jc_Session (rs_Record r)\<rparr>],
           dk_Records := AList.update (scoped sha (dk_Namespace e) (ad_Key a)) (rs_Record r) (dk_Records e)\<rparr>"
    and created: "jc_Created (rs_Record r) = logical e" .
  have ev: "dk_Events d' = kept @ [\<lparr>rv_At = logical e, rv_Session = jc_Session (rs_Record r)\<rparr>]"
    and now: "logical d' = logical e" by (simp_all add: img)
  note k = kept now created
  have live: "live_events d' = map (\<lambda>v. (rv_At v, rv_Session v)) kept @ [(logical e, jc_Session (rs_Record r))]"
    by (simp add: live_events_def ev k(1,3) recent_def [abs_def])
  have lt: "int (length kept) < rp_RuntimePerMinute rates"
    "int (length (filter (\<lambda>v. rv_Session v = jc_Session (rs_Record r)) kept)) < rp_SessionPerMinute rates"
    "int (length (filter (recent (logical e) 2) kept)) < rp_Burst rates"
    using k(2) by (auto simp: rate_exceeded_def)
  have old: "filter (\<lambda>v. logical e - rv_At v < 60) kept = kept"
    by (simp add: k(1) recent_def [abs_def])
  then have old': "filter (\<lambda>v. logical e - rv_At v < 60 \<and> Q v) kept = filter Q kept" for Q
    by (metis filter_filter)
  note count = records_within_events [OF v, where P = "\<lambda>_. True" and Q = "\<lambda>_. True", simplified]
  have "length (records_within (logical d') 60 d') = Suc (length kept)"
    using count [of 60] by (simp add: live k(3) filter_map o_def old)
  moreover have "length (filter (\<lambda>r'. jc_Session r' = jc_Session (rs_Record r)) (records_within (logical d') 60 d'))
      = Suc (length (filter (\<lambda>v. rv_Session v = jc_Session (rs_Record r)) kept))"
    using records_within_events [OF v, of 60 "\<lambda>r'. jc_Session r' = jc_Session (rs_Record r)"
        "\<lambda>s. s = jc_Session (rs_Record r)"]
    by (simp add: live k(3) filter_map o_def old')
  moreover have "length (records_within (logical d') 2 d')
      = Suc (length (filter (recent (logical e) 2) kept))"
    using count [of 2] by (simp add: live k(3) filter_map o_def recent_def [abs_def])
  ultimately show ?thesis using lt k(3,4) by simp
qed

subsection \<open>A key is admitted once per retention period\<close>

interpretation journal_machine:
  step_machine "\<lambda>op d. snd (japply sha limits fits op d)" "journal_ok limits"
  for sha limits fits
  by unfold_locales (rule japply_keeps)

definition jrun :: "(string \<Rightarrow> string) \<Rightarrow> Limits \<Rightarrow> (disk \<Rightarrow> bool) \<Rightarrow> jop list \<Rightarrow> disk \<Rightarrow> disk" where
  "jrun sha limits fits ops d = fold (\<lambda>op d. snd (japply sha limits fits op d)) ops d"

lemma jrun_ok: "journal_ok limits d \<Longrightarrow> journal_ok limits (jrun sha limits fits ops d)"
  unfolding jrun_def by (rule journal_machine.run_ok)

lemma later_gap: "c \<le> l \<Longrightarrow> l \<le> l' \<Longrightarrow> n \<le> l - c \<Longrightarrow> n \<le> l' - c" for c l l' n :: u64
  by (simp add: word_le_nat_alt unat_gap order_trans [of c l l'])

lemma created_bound:
  "journal_ok limits d \<Longrightarrow> map_of (dk_Records d) key = Some r \<Longrightarrow> jc_Created r \<le> logical d"
  by (auto simp: journal_ok_def validate_def list_all_iff record_ok_def Let_def dest!: map_of_SomeD)

lemma keeps_trans:
  assumes "keeps_records d e" and "keeps_records e f" and "journal_ok limits d"
  shows "keeps_records d f"
proof -
  have "(\<exists>r'. map_of (dk_Records f) key = Some r' \<and> same_admission r r')
      \<or> lm_Retention (dk_Limits d) \<le> logical f - jc_Created r"
    if "map_of (dk_Records d) key = Some r" for key r
  proof -
    have le: "jc_Created r \<le> logical e" "logical e \<le> logical f" "dk_Limits e = dk_Limits d"
      using created_bound [OF assms(3) that] assms(1,2) by (auto simp: keeps_records_def)
    from assms(1) that consider (kept) r' where "map_of (dk_Records e) key = Some r'" "same_admission r r'"
      | (expired) "lm_Retention (dk_Limits d) \<le> logical e - jc_Created r"
      by (auto simp: keeps_records_def)
    then show ?thesis
    proof cases
      case kept
      with assms(2) le(3) show ?thesis by (fastforce simp: keeps_records_def same_admission_def)
    next
      case expired
      with later_gap [OF le(1,2)] show ?thesis by blast
    qed
  qed
  with assms(1,2) show ?thesis by (auto simp: keeps_records_def)
qed

lemma jrun_keeps: "journal_ok limits d \<Longrightarrow> keeps_records d (jrun sha limits fits ops d)"
proof (induction ops rule: rev_induct)
  case Nil
  then show ?case by (simp add: jrun_def keeps_refl)
next
  case (snoc op ops)
  have "jrun sha limits fits (ops @ [op]) d = snd (japply sha limits fits op (jrun sha limits fits ops d))"
    by (simp add: jrun_def)
  with snoc japply_keeps_records show ?case by (metis keeps_trans)
qed

lemma fresh_stored:
  assumes "japply sha limits fits (JAdmit x tok a) d = (Inr (Some r), d')" and "rs_Fresh r"
  shows "rs_ScopedKey r = scoped sha (dk_Namespace d') (ad_Key a)"
    and "map_of (dk_Records d') (rs_ScopedKey r) = Some (rs_Record r)"
    and "jc_Created (rs_Record r) = logical d'"
proof -
  from fresh_admission [OF assms] obtain rates before e
    where "admit_at sha tok rates a before e = (Inr (Some r), True, d')" .
  then obtain es where *: "jc_Created (rs_Record r) = logical e"
    "rs_ScopedKey r = scoped sha (dk_Namespace e) (ad_Key a)"
    "d' = e\<lparr>dk_Events := es,
             dk_Records := AList.update (scoped sha (dk_Namespace e) (ad_Key a)) (rs_Record r) (dk_Records e)\<rparr>"
    by (auto elim!: entered_image)
  then show "rs_ScopedKey r = scoped sha (dk_Namespace d') (ad_Key a)"
    and "map_of (dk_Records d') (rs_ScopedKey r) = Some (rs_Record r)"
    and "jc_Created (rs_Record r) = logical d'"
    by (simp_all add: update_conv')
qed

text \<open>A key present in an image is admitted again only when the retention has passed.\<close>

lemma fresh_apart:
  assumes "journal_ok limits d1" and "map_of (dk_Records d1) (scoped sha (dk_Namespace d1) (ad_Key a)) = Some r1"
    and "keeps_records d1 e" and "japply sha limits fits (JAdmit x tok a) e = (Inr (Some r), d2)" and "rs_Fresh r"
  shows "jc_Created r1 \<le> jc_Created (rs_Record r)
    \<and> lm_Retention limits \<le> jc_Created (rs_Record r) - jc_Created r1"
proof -
  let ?id = "scoped sha (dk_Namespace d1) (ad_Key a)"
  from fresh_admission [OF assms(4,5)] obtain rates' before' e2 p d' where
    new: "map_of (dk_Records e) (scoped sha (dk_Namespace e) (ad_Key a)) = None"
    and at: "admit_at sha tok rates' a before' e2 = (Inr (Some r), True, d2)"
    and ad: "advance x e = Inr (p, d')" "e2 = (if p then drop_expired d' else d')" by metis
  have c2: "jc_Created (rs_Record r) = logical e2" using at by (auto elim!: entered_image)
  have later: "logical e \<le> logical e2"
    using keeps_advance [OF ad(1)] ad(2) by (simp add: keeps_records_def drop_expired_def)
  have lim: "dk_Limits d1 = limits"
    using assms(1) by (simp add: journal_ok_def validate_def disk_header_ok_def)
  have c1: "jc_Created r1 \<le> logical d1" by (rule created_bound [OF assms(1,2)])
  have "map_of (dk_Records e) ?id = None"
    using new assms(3) by (simp add: keeps_records_def)
  moreover have "(\<exists>r'. map_of (dk_Records e) ?id = Some r' \<and> same_admission r1 r')
      \<or> lm_Retention (dk_Limits d1) \<le> logical e - jc_Created r1"
    using assms(2,3) unfolding keeps_records_def by blast
  moreover have "logical d1 \<le> logical e" using assms(3) by (simp add: keeps_records_def)
  ultimately have gap: "lm_Retention limits \<le> logical e - jc_Created r1"
    and e: "jc_Created r1 \<le> logical e"
    using c1 by (simp_all add: lim)
  show ?thesis unfolding c2 using order_trans [OF e later] later_gap [OF e later gap] by simp
qed

text \<open>
  Property C12. A key is admitted once per retention period: between two fresh admissions of the same
  key, whatever happens in between, the logical clock has advanced by at least the retention.
\<close>

theorem fresh_once_per_retention:
  assumes "journal_ok limits d"
    and "japply sha limits fits (JAdmit x1 tok1 a1) d = (Inr (Some r1), d1)" and "rs_Fresh r1"
    and "japply sha limits fits (JAdmit x2 tok2 a2) (jrun sha limits fits ops d1) = (Inr (Some r2), d2)"
    and "rs_Fresh r2" and "ad_Key a2 = ad_Key a1"
  shows "jc_Created (rs_Record r1) \<le> jc_Created (rs_Record r2)
    \<and> lm_Retention limits \<le> jc_Created (rs_Record r2) - jc_Created (rs_Record r1)"
proof -
  have ok1: "journal_ok limits d1"
    using japply_keeps [OF assms(1), of sha fits "JAdmit x1 tok1 a1"] assms(2) by simp
  have "map_of (dk_Records d1) (scoped sha (dk_Namespace d1) (ad_Key a2)) = Some (rs_Record r1)"
    using fresh_stored [OF assms(2,3)] assms(6) by simp
  from fresh_apart [OF ok1 this jrun_keeps [OF ok1] assms(4,5)] show ?thesis .
qed

lemma length_filter_map: "length (filter P (map f xs)) = length (filter (\<lambda>x. P (f x)) xs)"
  by (induction xs) auto

lemma exceeded_by_counts:
  "rate_exceeded rates (logical d) session (filter (recent (logical d) 60) (dk_Events d)) \<longleftrightarrow>
     rp_RuntimePerMinute rates \<le> int (length (live_events d))
     \<or> rp_SessionPerMinute rates \<le> int (length (filter (\<lambda>p. snd p = session) (live_events d)))
     \<or> rp_Burst rates \<le> int (length (filter (\<lambda>p. logical d - fst p < 2) (live_events d)))"
proof -
  let ?kept = "filter (recent (logical d) 60) (dk_Events d)"
  have live: "live_events d = map (\<lambda>v. (rv_At v, rv_Session v)) ?kept"
    by (simp add: live_events_def recent_def [abs_def])
  have "length (filter (\<lambda>p. snd p = session) (live_events d)) = length (filter (\<lambda>v. rv_Session v = session) ?kept)"
    by (simp only: live length_filter_map snd_conv)
  moreover have "length (filter (\<lambda>p. logical d - fst p < 2) (live_events d)) = length (filter (recent (logical d) 2) ?kept)"
    by (simp only: live length_filter_map fst_conv recent_def [abs_def])
  moreover have "length (live_events d) = length ?kept" unfolding live by simp
  ultimately show ?thesis by (simp only: rate_exceeded_def)
qed

lemma mset_length_filter:
  assumes "mset xs = mset ys"
  shows "length (filter P xs) = length (filter P ys)"
proof -
  have "size (filter_mset P (mset xs)) = size (filter_mset P (mset ys))" using assms by simp
  then show ?thesis by (simp only: mset_filter [symmetric] size_mset)
qed

lemma exceeded_same:
  assumes "validate limits d" and "validate limits (d\<lparr>dk_Events := es\<rparr>)"
  shows "rate_exceeded rates (logical d) session (filter (recent (logical d) 60) es)
     \<longleftrightarrow> rate_exceeded rates (logical d) session (filter (recent (logical d) 60) (dk_Events d))"
proof -
  let ?d = "d\<lparr>dk_Events := es\<rparr>"
  have "live_records ?d = live_records d" by (simp add: live_records_def)
  with assms have same: "mset (live_events ?d) = mset (live_events d)"
    by (simp add: validate_def balanced_iff)
  have "logical ?d = logical d" "dk_Events ?d = es" by simp_all
  with exceeded_by_counts [of rates ?d session] exceeded_by_counts [of rates d session] show ?thesis
    by (simp only: mset_length_filter [OF same] mset_eq_length [OF same])
qed

lemma advance_events:
  "advance x (d\<lparr>dk_Events := es\<rparr>) = map_sum id (map_prod id (dk_Events_update (\<lambda>_. es))) (advance x d)"
proof -
  have "dk_Clock (d\<lparr>dk_Events := es\<rparr>) = dk_Clock d" by simp
  then show ?thesis
    unfolding advance_def Let_def
    by (simp only: if_distrib [where f = "map_sum _ _"] map_sum.simps map_prod_simp id_apply) simp
qed

lemma drop_expired_events: "drop_expired (d\<lparr>dk_Events := es\<rparr>) = (drop_expired d)\<lparr>dk_Events := es\<rparr>"
  by (simp add: drop_expired_def)

lemma admit_at_events:
  assumes "validate limits d" and "validate limits (d\<lparr>dk_Events := es\<rparr>)"
  shows "fst (admit_at sha tok rates a before (d\<lparr>dk_Events := es\<rparr>)) = fst (admit_at sha tok rates a before d)"
  using exceeded_same [OF assms]
  by (auto simp: admit_at_def Let_def enter_record_def new_record_def split: option.split)

text \<open>
  Property C29. The rate events carry no information of their own: two valid images that differ only
  in their events give every admission the same answer, so the quota decisions follow from the
  retained records.
\<close>

theorem events_follow_records:
  assumes "journal_ok limits d" and "journal_ok limits (d\<lparr>dk_Events := es\<rparr>)"
    and "MinRetention \<le> lm_Retention limits"
  shows "fst (admit_fn sha x tok a (d\<lparr>dk_Events := es\<rparr>)) = fst (admit_fn sha x tok a d)"
proof -
  let ?d = "d\<lparr>dk_Events := es\<rparr>"
  have v: "validate limits d" "validate limits ?d" using assms(1,2) by (simp_all add: journal_ok_def)
  have "fst (admit_new sha x tok rates a ?d) = fst (admit_new sha x tok rates a d)" for rates
  proof (cases "advance x d")
    case (Inl e)
    then show ?thesis by (simp add: admit_new_def advance_events)
  next
    case (Inr pd)
    then obtain p e where e: "advance x d = Inr (p, e)" by (cases pd) simp
    then have e': "advance x ?d = Inr (p, e\<lparr>dk_Events := es\<rparr>)" by (simp add: advance_events)
    note ve = validate_advance [OF e v(1)] validate_advance [OF e' v(2)]
    show ?thesis
    proof (cases p)
      case True
      have "fst (admit_at sha tok rates a (dk_Clock d) (drop_expired e\<lparr>dk_Events := es\<rparr>))
          = fst (admit_at sha tok rates a (dk_Clock d) (drop_expired e))"
        using ve validate_drop_expired [OF _ assms(3)]
        by (intro admit_at_events [where limits = limits]) (simp_all add: drop_expired_events [symmetric])
      with True show ?thesis by (simp add: admit_new_def e e' drop_expired_events)
    next
      case False
      with admit_at_events [of limits e es] ve show ?thesis by (simp add: admit_new_def e e')
    qed
  qed
  moreover have "lookup sha ?d k g = lookup sha d k g" for k g by (simp add: lookup_def)
  ultimately show ?thesis by (auto simp: admit_fn_def split: sum.split option.split)
qed

subsection \<open>When an admission is granted\<close>

lemma enter_granted:
  "enter_record sha (Some t) a kept d =
     (Inr (Some \<lparr>rs_ScopedKey = scoped sha (dk_Namespace d) (ad_Key a), rs_Fresh = True,
                 rs_Record = new_record sha (hexEncode t) a d\<rparr>), True,
      d\<lparr>dk_Events := kept @ [\<lparr>rv_At = logical d, rv_Session = session_hash sha (dk_Namespace d) (ad_Key a)\<rparr>],
        dk_Records := AList.update (scoped sha (dk_Namespace d) (ad_Key a)) (new_record sha (hexEncode t) a d)
                        (dk_Records d)\<rparr>)"
  by (simp add: enter_record_def new_record_def Let_def)

lemma admit_granted:
  assumes "journal_ok limits d" and "MinRetention \<le> lm_Retention limits" and "\<And>s. length (sha s) = 32"
    and "\<And>e. fits e" and "valid_key (ad_Key a)" and "op_typed (JAdmit x (Some t) a) d"
    and "Normalize (ad_Rates a) = Inr rates" and "validText (ad_TrackingID a) 256 True" and "validSnapshot (ad_Decision a)"
    and "map_of (dk_Records d) (scoped sha (dk_Namespace d) (ad_Key a)) = None"
    and "advance x d = Inr (True, d1)" and "e = drop_expired d1"
    and "int (length (dk_Records e)) < lm_Records limits"
    and "\<not> rate_exceeded rates (logical e) (session_hash sha (dk_Namespace e) (ad_Key a))
           (filter (recent (logical e) 60) (dk_Events e))"
  shows "japply sha limits fits (JAdmit x (Some t) a) d =
    (let (r, _, d') = enter_record sha (Some t) a (filter (recent (logical e) 60) (dk_Events e)) e in (r, d'))"
proof -
  have v: "validate limits d" using assms(1) by (simp add: journal_ok_def)
  have lim: "dk_Limits e = limits" using validate_advance [OF assms(11) v] by (simp add: assms(12) drop_expired_def)
  have boot: "el_Boot (dk_Clock d) = sm_Boot x"
    using assms(11) by (auto simp: advance_def Let_def split: if_splits)
  obtain r e' where r: "enter_record sha (Some t) a (filter (recent (logical e) 60) (dk_Events e)) e = (Inr (Some r), True, e')"
    by (simp only: enter_granted)
  have "lookup sha d (ad_Key a) (ad_Digest a) = Inr None" using assms(10) by (simp add: lookup_def)
  then have out: "admit_fn sha x (Some t) a d = (Inr (Some r), True, e')"
    using assms(7-9,11-14) r lim by (simp add: admit_fn_def admit_new_def admit_at_def)
  have "validate limits e'"
    using admit_image [OF v assms(2,3,5,6) out] boot by (simp add: overwriting_refusal_def)
  with out r assms(4,5) show ?thesis by (simp add: commit_def)
qed

subsection \<open>Examples\<close>

definition sample_sha :: "string \<Rightarrow> string" where
  "sample_sha s = take 32 (rev s @ replicate 32 CHR ''x'')"

lemma length_sample_sha [simp]: "length (sample_sha s) = 32"
  by (simp add: sample_sha_def)

definition sample_limits :: Limits where
  "sample_limits = \<lparr>lm_Records = 10000, lm_Bytes = 8388608, lm_Retention = MinRetention\<rparr>"

definition sample_ns :: string where
  "sample_ns = replicate 64 CHR ''0''"

definition sample_key :: "string \<Rightarrow> Key" where
  "sample_key request = \<lparr>ky_Source = ''src'', ky_Session = ''ses'', ky_Kind = Explicit, ky_Request = request\<rparr>"

definition no_decision :: snapshot where
  "no_decision = \<lparr>sn_Target = \<lparr>jt_Kind = ''none'', jt_ID = [], jt_Application = [], jt_Identity = []\<rparr>,
     sn_Policy = ''p'', sn_Navigation = \<lparr>nv_Capability = ''disabled'', nv_Precision = ''none'',
       nv_Scope = [], nv_Reason = []\<rparr>\<rparr>"

definition sample_admission :: "int \<Rightarrow> string \<Rightarrow> admission" where
  "sample_admission n request =
     \<lparr>ad_Rates = \<lparr>rp_SessionPerMinute = n, rp_RuntimePerMinute = n, rp_Burst = n\<rparr>,
      ad_Key = sample_key request, ad_Digest = replicate 32 CHR ''d'', ad_TrackingID = ''t'',
      ad_Decision = no_decision\<rparr>"

definition empty_journal :: disk where
  "empty_journal = \<lparr>dk_Version = 1, dk_Namespace = sample_ns, dk_Limits = sample_limits,
     dk_Clock = \<lparr>el_Logical = 0, el_Boot = ''b1'', el_Seconds = 0\<rparr>, dk_Events = [], dk_Records = [],
     dk_Null = False\<rparr>"

lemma sample_text:
  "validText ''b1'' n False \<longleftrightarrow> 2 \<le> n" "validText ''b1'' n True \<longleftrightarrow> 2 \<le> n" "validText ''b2'' n True \<longleftrightarrow> 2 \<le> n"
  "validText ''t'' n True \<longleftrightarrow> 1 \<le> n"
  "valid_key (sample_key ''q1'')" "valid_key (sample_key ''q2'')" "valid_key (sample_key ''q3'')"
  "validSnapshot no_decision"
  by (auto simp: validText_def valid_utf8_def runes_ascii is_ascii_def valid_key_def sample_key_def
      validKind_def validSnapshot_def no_decision_def)

lemma sample_ns_hex: "isHex sample_ns"
  by (simp add: isHex_def sample_ns_def hex_digit_def ascii_lower_def list_all_iff)

lemma empty_journal_ok: "journal_ok sample_limits empty_journal"
  by (simp add: journal_ok_def validate_def disk_header_ok_def empty_journal_def sample_ns_hex
      sample_limits_def sample_text events_ok_def counts_balanced_def live_events_def live_records_def)

lemma sample_limits_retention: "MinRetention \<le> lm_Retention sample_limits"
  by (simp add: sample_limits_def)

definition sample_op :: "u64 \<Rightarrow> jop" where
  "sample_op s = JAdmit \<lparr>sm_Boot = ''b1'', sm_Seconds = s, sm_Available = True\<rparr>
     (Some (replicate 32 CHR ''a'')) (sample_admission 2 ''q1'')"

lemma sample_op_typed: "op_typed (sample_op s) empty_journal"
  by (simp add: op_typed_def sample_op_def sample_admission_def token_ok_def empty_journal_def)

lemma journal_writes_validate_witness:
  "journal_ok sample_limits (snd (japply sample_sha sample_limits (\<lambda>_. True) (sample_op 5) empty_journal))
   \<and> fst (japply sample_sha sample_limits (\<lambda>_. True) (sample_op 5) empty_journal) \<noteq> Inl ErrRepair"
proof -
  obtain r d' where out: "japply sample_sha sample_limits (\<lambda>_. True) (sample_op 5) empty_journal = (r, d')"
    by fastforce
  have "\<not> overwriting_refusal (sample_op 5) empty_journal"
    by (simp add: overwriting_refusal_def sample_op_def empty_journal_def)
  with journal_writes_validate [OF empty_journal_ok sample_limits_retention _ sample_op_typed out] out
  show ?thesis by auto
qed

definition clock_sample :: "string \<Rightarrow> u64 \<Rightarrow> sample" where
  "clock_sample boot s = \<lparr>sm_Boot = boot, sm_Seconds = s, sm_Available = True\<rparr>"

definition sample_token :: "char \<Rightarrow> string option" where
  "sample_token c = Some (replicate 32 c)"

definition sample_admits :: "string \<Rightarrow> u64 \<Rightarrow> string \<Rightarrow> char \<Rightarrow> jop" where
  "sample_admits boot s request c =
     JAdmit (clock_sample boot s) (sample_token c) (sample_admission 2 request)"

definition sample_id :: "string \<Rightarrow> string" where
  "sample_id request = scoped sample_sha sample_ns (sample_key request)"

definition sample_session :: string where
  "sample_session = session_hash sample_sha sample_ns (sample_key [])"

lemma sample_session_eq: "session_hash sample_sha sample_ns (sample_key q) = sample_session"
  by (simp add: sample_session_def session_hash_def sample_key_def)

lemma sample_ids: "sample_id ''q3'' \<noteq> sample_id ''q1''" "sample_id ''q3'' \<noteq> sample_id ''q2''"
  "sample_id ''q2'' \<noteq> sample_id ''q1''"
  by code_simp+


definition sample_event :: "u64 \<Rightarrow> rate_event" where
  "sample_event t = \<lparr>rv_At = t, rv_Session = sample_session\<rparr>"

definition sample_record :: "char \<Rightarrow> string \<Rightarrow> u64 \<Rightarrow> jrecord" where
  "sample_record c request t =
     new_record sample_sha (hexEncode (replicate 32 c)) (sample_admission 2 request)
       (empty_journal\<lparr>dk_Clock := \<lparr>el_Logical = t, el_Boot = [], el_Seconds = 0\<rparr>\<rparr>)"

definition sample_image :: "u64 \<Rightarrow> u64 \<Rightarrow> rate_event list \<Rightarrow> (string \<times> jrecord) list \<Rightarrow> disk" where
  "sample_image now s events records =
     empty_journal\<lparr>dk_Clock := \<lparr>el_Logical = now, el_Boot = ''b1'', el_Seconds = s\<rparr>,
                   dk_Events := events, dk_Records := records\<rparr>"

definition sample_result :: "char \<Rightarrow> string \<Rightarrow> u64 \<Rightarrow> result" where
  "sample_result c request t = \<lparr>rs_ScopedKey = sample_id request, rs_Fresh = True, rs_Record = sample_record c request t\<rparr>"

lemma empty_sample_image: "empty_journal = sample_image 0 0 [] []"
  by (simp add: sample_image_def empty_journal_def)


lemma sample_image_simps [simp]:
  "dk_Limits (sample_image now s ev recs) = sample_limits" "dk_Namespace (sample_image now s ev recs) = sample_ns"
  "dk_Events (sample_image now s ev recs) = ev" "dk_Records (sample_image now s ev recs) = recs"
  "el_Boot (dk_Clock (sample_image now s ev recs)) = ''b1''" "logical (sample_image now s ev recs) = now"
  "el_Seconds (dk_Clock (sample_image now s ev recs)) = s"
  by (simp_all add: sample_image_def empty_journal_def)

abbreviation sample_rates :: rate_policy where
  "sample_rates \<equiv> \<lparr>rp_SessionPerMinute = 2, rp_RuntimePerMinute = 2, rp_Burst = 2\<rparr>"

lemma sample_admission_simps [simp]:
  "ad_Rates (sample_admission n q) = \<lparr>rp_SessionPerMinute = n, rp_RuntimePerMinute = n, rp_Burst = n\<rparr>"
  "ad_Key (sample_admission n q) = sample_key q" "ad_Digest (sample_admission n q) = replicate 32 CHR ''d''"
  "ad_TrackingID (sample_admission n q) = ''t''" "ad_Decision (sample_admission n q) = no_decision"
  by (simp_all add: sample_admission_def)

lemma sample_enter:
  "enter_record sample_sha (sample_token c) (sample_admission 2 q) kept (sample_image now s ev recs) =
     (Inr (Some (sample_result c q now)), True,
      sample_image now s (kept @ [sample_event now]) (AList.update (sample_id q) (sample_record c q now) recs))"
  by (simp add: enter_record_def sample_token_def sample_result_def sample_id_def sample_record_def
      new_record_def sample_event_def sample_session_eq sample_image_def empty_journal_def new_receipt_def Let_def)

lemma sample_admit:
  assumes "journal_ok sample_limits (sample_image now s ev recs)" and "valid_key (sample_key q)"
    and "map_of recs (sample_id q) = None"
    and "advance (clock_sample ''b1'' s') (sample_image now s ev recs) = Inr (True, sample_image now' s' ev recs)"
    and "drop_expired (sample_image now' s' ev recs) = sample_image now' s' ev recs'"
    and "length recs' < 10000"
    and "\<not> rate_exceeded sample_rates now' sample_session (filter (recent now' 60) ev)"
    and "\<forall>kr\<in>set recs. jc_Attempt (snd kr) \<noteq> hexEncode (replicate 32 c)"
  shows "japply sample_sha sample_limits (\<lambda>_. True) (sample_admits ''b1'' s' q c) (sample_image now s ev recs)
    = (Inr (Some (sample_result c q now')),
       sample_image now' s' (filter (recent now' 60) ev @ [sample_event now'])
         (AList.update (sample_id q) (sample_record c q now') recs'))"
proof -
  let ?a = "sample_admission 2 q" and ?x = "clock_sample ''b1'' s'" and ?d = "sample_image now s ev recs"
  have rates: "Normalize (ad_Rates ?a) = Inr sample_rates" by (simp add: Normalize_def MaxRate_def)
  have tok: "sample_token c = Some (replicate 32 c)" by (simp add: sample_token_def)
  have "op_typed (JAdmit ?x (sample_token c) ?a) ?d"
    using assms(8) by (auto simp: op_typed_def token_ok_def sample_token_def)
  from admit_granted [where sha = sample_sha and fits = "\<lambda>_. True", OF assms(1) sample_limits_retention _ _ _
      this [unfolded tok] rates _ _ _ assms(4) assms(5) [symmetric]] assms(2,3,6,7)
  show ?thesis
    by (simp del: japply.simps add: sample_admits_def sample_text sample_id_def [symmetric] sample_session_eq
        sample_limits_def sample_enter tok [symmetric])
qed

lemma sample_hex: "hexEncode (replicate 32 CHR ''a'') \<noteq> hexEncode (replicate 32 CHR ''b'')"
  by code_simp

lemma first_admitted:
  "japply sample_sha sample_limits (\<lambda>_. True) (sample_admits ''b1'' 0 ''q1'' CHR ''a'') empty_journal
    = (Inr (Some (sample_result CHR ''a'' ''q1'' 0)),
       sample_image 0 0 [sample_event 0] [(sample_id ''q1'', sample_record CHR ''a'' ''q1'' 0)])"
proof -
  have "advance (clock_sample ''b1'' 0) (sample_image 0 0 [] []) = Inr (True, sample_image 0 0 [] [])"
    by (simp add: advance_def clock_sample_def sample_text sample_image_def empty_journal_def)
  moreover have "drop_expired (sample_image 0 0 [] []) = sample_image 0 0 [] []"
    by (simp add: drop_expired_def sample_image_def empty_journal_def)
  ultimately show ?thesis
    using sample_admit [of 0 0 "[]" "[]" "''q1''" 0 0 "[]" "CHR ''a''"] empty_journal_ok
    by (simp add: empty_sample_image sample_text rate_exceeded_def)
qed

lemma journal_ok_first: "journal_ok sample_limits (sample_image 0 0 [sample_event 0] [(sample_id ''q1'', sample_record CHR ''a'' ''q1'' 0)])"
  using japply_keeps [OF empty_journal_ok, of sample_sha "\<lambda>_. True" "sample_admits ''b1'' 0 ''q1'' CHR ''a''"]
  by (simp add: first_admitted)

lemma sample_record_simps [simp]: "jc_Attempt (sample_record c q t) = hexEncode (replicate 32 c)"
  "jc_Created (sample_record c q t) = t"
  by (simp_all add: sample_record_def new_record_def)

lemma second_admitted:
  "japply sample_sha sample_limits (\<lambda>_. True) (sample_admits ''b1'' 50 ''q2'' CHR ''b'')
     (sample_image 0 0 [sample_event 0] [(sample_id ''q1'', sample_record CHR ''a'' ''q1'' 0)])
    = (Inr (Some (sample_result CHR ''b'' ''q2'' 49)),
       sample_image 49 50 [sample_event 0, sample_event 49]
         [(sample_id ''q1'', sample_record CHR ''a'' ''q1'' 0), (sample_id ''q2'', sample_record CHR ''b'' ''q2'' 49)])"
proof -
  let ?d = "\<lambda>now s. sample_image now s [sample_event 0] [(sample_id ''q1'', sample_record CHR ''a'' ''q1'' 0)]"
  have "advance (clock_sample ''b1'' 50) (?d 0 0) = Inr (True, ?d 49 50)"
    by (simp add: advance_def clock_sample_def sample_text sample_image_def empty_journal_def)
  moreover have "drop_expired (?d 49 50) = ?d 49 50"
    by (simp add: drop_expired_def sample_limits_def MinRetention_def sample_image_def empty_journal_def)
  ultimately show ?thesis
    using sample_admit [of 0 0 "[sample_event 0]" "[(sample_id ''q1'', sample_record CHR ''a'' ''q1'' 0)]" "''q2''" 50 49
         "[(sample_id ''q1'', sample_record CHR ''a'' ''q1'' 0)]" "CHR ''b''"] journal_ok_first sample_hex sample_ids
    by (simp add: sample_text rate_exceeded_def recent_def sample_event_def)
qed

text \<open>A collection one retention later empties the journal and leaves the expired event.\<close>

abbreviation sample_late :: u64 where "sample_late \<equiv> 604802"

lemma late_collected:
  "japply sample_sha sample_limits (\<lambda>_. True) (JCollect (clock_sample ''b1'' sample_late))
     (sample_image 0 0 [sample_event 0] [(sample_id ''q1'', sample_record CHR ''a'' ''q1'' 0)])
    = (Inr None, sample_image 604801 sample_late [sample_event 0] [])"
proof -
  let ?d = "\<lambda>now s recs. sample_image now s [sample_event 0] recs"
  let ?r = "[(sample_id ''q1'', sample_record CHR ''a'' ''q1'' 0)]"
  have ad: "advance (clock_sample ''b1'' sample_late) (?d 0 0 ?r) = Inr (True, ?d 604801 sample_late ?r)"
    by (simp add: advance_def clock_sample_def sample_text sample_image_def empty_journal_def)
  have dr: "drop_expired (?d 604801 sample_late ?r) = ?d 604801 sample_late []"
    by (simp add: drop_expired_def sample_limits_def MinRetention_def sample_image_def empty_journal_def)
  have "validate sample_limits (?d 604801 sample_late [])"
    using journal_ok_first validate_advance [OF ad] validate_drop_expired [OF _ sample_limits_retention]
    by (metis dr journal_ok_def)
  with ad dr show ?thesis by (simp add: commit_def collect_fn_def)
qed

lemma late_ok: "journal_ok sample_limits (sample_image 604801 sample_late [sample_event 0] [])"
  using japply_keeps [OF journal_ok_first, of sample_sha "\<lambda>_. True" "JCollect (clock_sample ''b1'' sample_late)"]
  by (simp del: japply.simps add: late_collected)

lemma late_admitted:
  "japply sample_sha sample_limits (\<lambda>_. True) (sample_admits ''b1'' sample_late ''q1'' CHR ''b'')
     (sample_image 604801 sample_late [sample_event 0] [])
    = (Inr (Some (sample_result CHR ''b'' ''q1'' 604801)),
       sample_image 604801 sample_late [sample_event 604801] [(sample_id ''q1'', sample_record CHR ''b'' ''q1'' 604801)])"
proof -
  have "advance (clock_sample ''b1'' sample_late) (sample_image 604801 sample_late [sample_event 0] [])
      = Inr (True, sample_image 604801 sample_late [sample_event 0] [])"
    by (simp add: advance_def clock_sample_def sample_text sample_image_def empty_journal_def)
  moreover have "drop_expired (sample_image 604801 sample_late [sample_event 0] []) = sample_image 604801 sample_late [sample_event 0] []"
    by (simp add: drop_expired_def sample_image_def empty_journal_def)
  ultimately show ?thesis
    using sample_admit [of 604801 sample_late "[sample_event 0]" "[]" "''q1''" sample_late 604801 "[]" "CHR ''b''"] late_ok
    by (simp add: sample_text rate_exceeded_def recent_def sample_event_def)
qed

lemma fresh_once_per_retention_witness:
  "jc_Created (sample_record CHR ''a'' ''q1'' 0) \<le> jc_Created (sample_record CHR ''b'' ''q1'' 604801)
   \<and> lm_Retention sample_limits
       \<le> jc_Created (sample_record CHR ''b'' ''q1'' 604801) - jc_Created (sample_record CHR ''a'' ''q1'' 0)"
  using fresh_once_per_retention [OF empty_journal_ok first_admitted [unfolded sample_admits_def] _ _ _ refl,
      where ops = "[JCollect (clock_sample ''b1'' sample_late)]" and ?x2.0 = "clock_sample ''b1'' sample_late"
        and ?tok2.0 = "sample_token CHR ''b''"]
    late_admitted [unfolded sample_admits_def]
  by (simp del: japply.simps add: jrun_def late_collected sample_result_def)

lemma journal_quotas_hold_witness:
  "int (length (records_within 0 60 (sample_image 0 0 [sample_event 0] [(sample_id ''q1'', sample_record CHR ''a'' ''q1'' 0)]))) \<le> 2"
  using journal_quotas_hold [OF first_admitted [unfolded sample_admits_def], of sample_rates]
  by (simp add: sample_result_def Normalize_def MaxRate_def)

lemma events_follow_records_witness:
  "fst (admit_fn sample_sha (clock_sample ''b1'' sample_late) (sample_token CHR ''b'') (sample_admission 2 ''q1'')
          (sample_image 604801 sample_late [] []))
   = fst (admit_fn sample_sha (clock_sample ''b1'' sample_late) (sample_token CHR ''b'') (sample_admission 2 ''q1'')
          (sample_image 604801 sample_late [sample_event 0] []))"
proof -
  have same: "(sample_image 604801 sample_late [sample_event 0] [])\<lparr>dk_Events := []\<rparr> = sample_image 604801 sample_late [] []"
    by (simp add: sample_image_def)
  have "journal_ok sample_limits (sample_image 604801 sample_late [] [])"
    using empty_journal_ok
    by (simp add: journal_ok_def validate_def disk_header_ok_def sample_image_def empty_journal_def events_ok_def
        counts_balanced_def live_events_def live_records_def)
  then show ?thesis
    using events_follow_records [OF late_ok, of "[]"] sample_limits_retention by (simp add: same)
qed

lemma second_ok: "journal_ok sample_limits (sample_image 49 50 [sample_event 0, sample_event 49]
    [(sample_id ''q1'', sample_record CHR ''a'' ''q1'' 0), (sample_id ''q2'', sample_record CHR ''b'' ''q2'' 49)])"
  using japply_keeps [OF journal_ok_first, of sample_sha "\<lambda>_. True" "sample_admits ''b1'' 50 ''q2'' CHR ''b''"]
  by (simp add: second_admitted)

lemma refusal_after_reboot_witness:
  "\<exists>d. journal_ok sample_limits d
     \<and> japply sample_sha sample_limits (\<lambda>_. True)
         (JAdmit (clock_sample ''b2'' 3) (sample_token CHR ''c'') (sample_admission 1 ''q3'')) d = (Inl ErrRepair, d)"
proof -
  let ?ev = "[sample_event 0, sample_event 49]"
  let ?recs = "[(sample_id ''q1'', sample_record CHR ''a'' ''q1'' 0), (sample_id ''q2'', sample_record CHR ''b'' ''q2'' 49)]"
  have ad: "advance (clock_sample ''b1'' 71) (sample_image 49 50 ?ev ?recs) = Inr (True, sample_image 69 71 ?ev ?recs)"
    by (simp add: advance_def clock_sample_def sample_text sample_image_def empty_journal_def)
  have "validate sample_limits (sample_image 69 71 ?ev ?recs)"
    using second_ok validate_advance [OF ad] by (simp add: journal_ok_def)
  moreover have "distinct (map fst ?recs)" using sample_ids by auto
  ultimately have ok: "journal_ok sample_limits (sample_image 69 71 ?ev ?recs)" by (simp add: journal_ok_def)
  have none: "lookup sample_sha (sample_image 69 71 ?ev ?recs) (sample_key ''q3'') (replicate 32 CHR ''d'') = Inr None"
    using sample_ids by (auto simp: lookup_def sample_id_def [symmetric])
  show ?thesis
    using refusal_after_reboot [OF ok, of "\<lambda>_. True" "sample_admission 1 ''q3''" sample_sha _ "clock_sample ''b2'' 3"
        "sample_token CHR ''c''"] none ok
    by (intro exI [of _ "sample_image 69 71 ?ev ?recs"])
      (simp add: sample_text clock_sample_def Normalize_def MaxRate_def sample_limits_def sample_session_eq
        rate_exceeded_def recent_def sample_event_def)
qed

end
