(* ===== verification/NotifyService.thy ===== *)
theory NotifyService
  imports JsonText Origin JournalProperties
begin

text \<open>
  The service of \<^verbatim>\<open>internal/agentnotify\<close> (types.go, validation.go, service.go): one
  call of Notify over its ports. A call returns its receipt, the log of what it did to its ports, and
  the state behind the admission port. The ports, the clock at each check of the deadline and the
  source of entropy are fields of the call's environment.
\<close>

subsection \<open>Types\<close>

record notify_payload =
  np_Title :: string
  np_Body :: string
  np_Category :: string
  np_RequestID :: "string option"
  np_Navigation :: Navigation

record notify_receipt =
  nr_RequestID :: "string option"
  nr_TrackingID :: string
  nr_KeyKind :: KeyKind
  nr_Status :: string
  nr_Reason :: string
  nr_Replayed :: bool
  nr_Backend :: string
  nr_Navigation :: navigation
  nr_RetrySafe :: bool

record Policy =
  py_Rates :: rate_policy
  py_Delivery :: PolicySnapshot
  py_Route :: RoutePolicy

datatype policy_error = ConfigurationRequired | PolicyError

text \<open>The ports of admission, over a state and what a call of the port reads from its surroundings.\<close>

record ('e, 'st) admission_port =
  ap_Lookup :: "'e \<Rightarrow> Key \<Rightarrow> string \<Rightarrow> 'st \<Rightarrow> (jerr + result option) \<times> 'st"
  ap_Admit :: "'e \<Rightarrow> admission \<Rightarrow> 'st \<Rightarrow> (jerr + result option) \<times> 'st"
  ap_FinalizeOutcome ::
    "'e \<Rightarrow> Key \<Rightarrow> string \<Rightarrow> string \<Rightarrow> string \<Rightarrow> string \<Rightarrow> navigation option \<Rightarrow> 'st
     \<Rightarrow> (jerr + result option) \<times> 'st"

subsection \<open>The gate\<close>

text \<open>Closing the drained channel twice is a panic: None.\<close>

record gate =
  gt_closed :: bool
  gt_active :: int
  gt_drained :: bool

definition enter :: "gate \<Rightarrow> string \<times> gate" where
  "enter g =
     (if gt_closed g then (''service_closed'', g)
      else if 2 \<le> gt_active g then (''busy'', g)
      else ([], g\<lparr>gt_active := gt_active g + 1\<rparr>))"

definition close_drained :: "gate \<Rightarrow> gate option" where
  "close_drained g = (if gt_drained g then None else Some (g\<lparr>gt_drained := True\<rparr>))"

definition leave :: "gate \<Rightarrow> gate option" where
  "leave g =
     (let g = g\<lparr>gt_active := gt_active g - 1\<rparr>
      in if gt_closed g \<and> gt_active g = 0 then close_drained g else Some g)"

definition close_gate :: "gate \<Rightarrow> gate option" where
  "close_gate g =
     (if gt_closed g then Some g
      else let g = g\<lparr>gt_closed := True\<rparr> in if gt_active g = 0 then close_drained g else Some g)"

subsection \<open>Validation of the payload\<close>

definition line_separator :: "string \<Rightarrow> bool" where
  "line_separator r \<longleftrightarrow> r = bytes [226, 128, 168] \<or> r = bytes [226, 128, 169]"

definition valid_content :: "string \<Rightarrow> nat \<Rightarrow> bool \<Rightarrow> bool" where
  "valid_content s limit body \<longleftrightarrow>
     \<not> (limit < length s \<or> \<not> valid_utf8 s \<or> \<not> body \<and> s = [])
     \<and> list_all (\<lambda>r. \<not> (control_rune r \<and> (\<not> body \<or> r \<noteq> [CHR 0x0A] \<and> r \<noteq> [CHR 0x09]))
                    \<and> \<not> (\<not> body \<and> line_separator r)) (runes s)"

definition payload_size :: "notify_payload \<Rightarrow> origin_context \<Rightarrow> nat" where
  "payload_size p c =
     length (np_Title p) + length (np_Body p) + length (np_Category p)
     + length (navigation_string (np_Navigation p)) + length (oc_Provider c) + length (oc_Namespace c)
     + length (oc_SessionID c) + length (oc_AnonymousCaller c) + length (oc_CallID c)
     + length (provenance_string (oc_Provenance c)) + length (locality_string (oc_Locality c))
     + length (interface_string (oc_Interface c))
     + (case np_RequestID p of None \<Rightarrow> 0 | Some q \<Rightarrow> length q)"

definition default_navigation :: "notify_payload \<Rightarrow> notify_payload" where
  "default_navigation p =
     (if navigation_string (np_Navigation p) = [] then p\<lparr>np_Navigation := Required\<rparr> else p)"

definition validate_payload :: "notify_payload \<Rightarrow> origin_context \<Rightarrow> notify_payload \<times> string" where
  "validate_payload p c =
     (let p = default_navigation p in
      if np_Navigation p \<notin> {Required, BestEffort, NoNavigation} then (p, ''invalid_navigation'')
      else if np_Category p \<notin> {''info'', ''attention'', ''progress''} then (p, ''invalid_category'')
      else if \<not> valid_content (np_Title p) 256 False \<or> \<not> valid_content (np_Body p) 4096 True
      then (p, ''invalid_content'')
      else if (case np_RequestID p of None \<Rightarrow> False | Some q \<Rightarrow> \<not> Text q 256 True)
      then (p, ''invalid_request_id'')
      else case origin_Validate c (np_Navigation p) of
             Some e \<Rightarrow> (p, e)
           | None \<Rightarrow> if 16384 < payload_size p c then (p, ''request_too_large'') else (p, []))"

definition json_field :: "string \<Rightarrow> string \<Rightarrow> string" where
  "json_field name v = CHR 0x22 # name @ [CHR 0x22, CHR '':''] @ v"

definition json_object :: "string list \<Rightarrow> string" where
  "json_object fs = ''{'' @ Join fs '','' @ ''}''"

definition digest_text :: "notify_payload \<Rightarrow> string" where
  "digest_text p =
     json_object [json_field ''Version'' ''1'', json_field ''Title'' (quote_json (np_Title p)),
       json_field ''Body'' (quote_json (np_Body p)), json_field ''Category'' (quote_json (np_Category p)),
       json_field ''Navigation'' (quote_json (navigation_string (np_Navigation p)))]"

definition digest :: "(string \<Rightarrow> string) \<Rightarrow> notify_payload \<Rightarrow> string" where
  "digest sha p = sha (digest_text p)"

subsection \<open>Deadlines\<close>

text \<open>
  What one check of the deadline sees: whether the context ended, and the clock. The difference of
  two floats has the sign of the exact difference, so only a deadline a rounding error beyond 15
  seconds is treated differently.
\<close>

record moment =
  mo_Canceled :: bool
  mo_Now :: Deadline

definition remaining :: "bool \<Rightarrow> moment \<Rightarrow> Deadline \<Rightarrow> duration \<times> string" where
  "remaining has_context m d =
     (if \<not> has_context then (0, ''invalid_context'')
      else if mo_Canceled m then (0, ''canceled'')
      else case (dl_NotAfter d, dl_NotAfter (mo_Now m)) of
             (Some end_at, Some now) \<Rightarrow>
               if \<not> Text (dl_BootID d) 256 True \<or> dl_BootID (mo_Now m) \<noteq> dl_BootID d \<or> now < 0
               then (0, ''invalid_deadline'')
               else let delta = end_at - now in
                    if delta \<le> 0 then (0, ''deadline_exceeded'')
                    else if 15 < delta then (0, ''invalid_deadline'')
                    else (\<lfloor>delta * of_int second\<rfloor>, [])
           | _ \<Rightarrow> (0, ''invalid_deadline''))"

subsection \<open>Routing\<close>

text \<open>A caller is refused because its origin is unknown, or because it asserted it itself.\<close>

definition unknown_origin :: "origin_context \<Rightarrow> bool" where
  "unknown_origin c \<longleftrightarrow> oc_Interface c = InterfaceUnknown \<or> oc_Locality c = LocalityUnknown"

definition routing_refused :: "Policy \<Rightarrow> origin_context \<Rightarrow> notify_payload \<Rightarrow> bool" where
  "routing_refused pol c p \<longleftrightarrow>
     unknown_origin c
       \<and> ((np_Navigation p \<noteq> NoNavigation \<and> \<not> ro_LocalRouting (py_Route pol)) \<or> \<not> ro_AllowUnknownCaller (py_Route pol))
     \<or> oc_Provenance c = CallerAsserted
       \<and> ((np_Navigation p \<noteq> NoNavigation \<and> \<not> ro_LocalRouting (py_Route pol)) \<or> \<not> ro_AllowCallerAsserted (py_Route pol))"

text \<open>Ports may qualify or reduce a resolved capability, never create a new action.\<close>

definition reconcileNavigation :: "navigation \<Rightarrow> navigation \<Rightarrow> navigation \<times> bool" where
  "reconcileNavigation before after =
     (if \<not> Text (nv_Scope after) 1024 False \<or> \<not> Text (nv_Reason after) 1024 False then (after, False)
      else if nv_Capability after = ''available''
      then (after, nv_Precision after = ''chat_id'' \<and> nv_Scope after \<noteq> [] \<and> nv_Capability before = ''available''
                   \<and> nv_Precision before = nv_Precision after \<and> nv_Scope before = nv_Scope after)
      else if nv_Capability after = ''unavailable'' \<or> nv_Capability after = ''disabled''
      then (after, nv_Precision after = ''none'')
      else (after, False))"

definition target_binding :: "DesktopTarget \<Rightarrow> bool" where
  "target_binding t =
     (if lb_SnapshotPath (dt_Linux t) \<noteq> []
      then dt_Provider t = ''codex'' \<and> Text (lb_SnapshotPath (dt_Linux t)) 1024 True
           \<and> Text (lb_SHA256 (dt_Linux t)) 64 True
      else Text (dt_ApplicationPath t) 1024 True \<and> Text (dt_TeamID t) 256 True)"

definition validTarget :: "origin_target \<Rightarrow> bool" where
  "validTarget t =
     (let n = ot_Navigation t in
      if nv_Capability n \<notin> {''available'', ''unavailable'', ''disabled''} then False
      else if \<not> Text (nv_Scope n) 1024 False \<or> \<not> Text (nv_Reason n) 1024 False then False
      else if nv_Capability n \<noteq> ''available'' then nv_Precision n = ''none''
      else nv_Scope n \<noteq> [] \<and> nv_Precision n = ''chat_id'' \<and> Text (dt_ThreadID (ot_Desktop t)) 256 True
           \<and> target_binding (ot_Desktop t))"

subsection \<open>What is recorded\<close>

definition json_bool :: "bool \<Rightarrow> string" where
  "json_bool b = (if b then ''true'' else ''false'')"

definition policy_text :: "Policy \<Rightarrow> string" where
  "policy_text p =
     json_object
       [json_field ''Delivery'' (json_object
          [json_field ''Valid'' (json_bool (ps_Valid (py_Delivery p))),
           json_field ''ExplicitEnabled'' (json_bool (ps_ExplicitEnabled (py_Delivery p))),
           json_field ''DesktopEnabled'' (json_bool (ps_DesktopEnabled (py_Delivery p))),
           json_field ''ClickToFocus'' (json_bool (ps_ClickToFocus (py_Delivery p))),
           json_field ''SoundEnabled'' (json_bool (ps_SoundEnabled (py_Delivery p)))]),
        json_field ''Rates'' (json_object
          [json_field ''SessionPerMinute'' (Itoa (rp_SessionPerMinute (py_Rates p))),
           json_field ''RuntimePerMinute'' (Itoa (rp_RuntimePerMinute (py_Rates p))),
           json_field ''Burst'' (Itoa (rp_Burst (py_Rates p)))])]"

definition service_snapshot :: "Policy \<Rightarrow> origin_target \<Rightarrow> snapshot" where
  "service_snapshot p t =
     (let kind = (if nv_Capability (ot_Navigation t) = ''available'' then ''desktop_thread'' else ''none'');
          d = ot_Desktop t;
          (application, identity) =
            (if lb_SnapshotPath (dt_Linux d) \<noteq> [] then (lb_SnapshotPath (dt_Linux d), lb_SHA256 (dt_Linux d))
             else (dt_ApplicationPath d, dt_TeamID d))
      in \<lparr>sn_Target = \<lparr>jt_Kind = kind, jt_ID = dt_ThreadID d, jt_Application = application, jt_Identity = identity\<rparr>,
          sn_Policy = policy_text p, sn_Navigation = ot_Navigation t\<rparr>)"

text \<open>The identity is a hash in the layout of a version 8 UUID.\<close>

definition set_bits :: "nat \<Rightarrow> nat \<Rightarrow> char \<Rightarrow> char" where
  "set_bits low high c = char_of (of_char c mod low + high)"

definition correlationID :: "(string \<Rightarrow> string) \<Rightarrow> string \<Rightarrow> string \<Rightarrow> string" where
  "correlationID sha scope attempt =
     (let b = sha (''agent-notify/native/v1'' @ [CHR 0x00] @ scope @ [CHR 0x00] @ attempt);
          b = b[6 := set_bits 16 128 (b ! 6)];
          b = b[8 := set_bits 64 128 (b ! 8)]
      in Join (map hexEncode [take 4 b, take 2 (drop 4 b), take 2 (drop 6 b), take 2 (drop 8 b), take 6 (drop 10 b)]) ''-'')"

definition fromJournal :: "jreceipt \<Rightarrow> bool \<Rightarrow> notify_receipt" where
  "fromJournal r replayed =
     \<lparr>nr_RequestID = jr_RequestID r, nr_TrackingID = jr_TrackingID r, nr_KeyKind = jr_KeyKind r,
      nr_Status = jr_Status r, nr_Reason = jr_Reason r, nr_Replayed = replayed, nr_Backend = jr_Backend r,
      nr_Navigation = (case jr_OutcomeNavigation r of None \<Rightarrow> sn_Navigation (jr_Decision r) | Some n \<Rightarrow> n),
      nr_RetrySafe = False\<rparr>"

definition replay :: "result \<Rightarrow> notify_receipt" where
  "replay r = fromJournal (jc_Receipt (rs_Record r)) True"

definition journalFailure :: "notify_receipt \<Rightarrow> jerr \<Rightarrow> notify_receipt" where
  "journalFailure out e =
     (case e of
        ErrConflict \<Rightarrow> out\<lparr>nr_Reason := ''idempotency_conflict'', nr_RetrySafe := False\<rparr>
      | ErrRate \<Rightarrow> out\<lparr>nr_Status := ''suppressed'', nr_Reason := ''rate_limited''\<rparr>
      | ErrFull \<Rightarrow> out\<lparr>nr_Reason := ''journal_full''\<rparr>
      | ErrRepair \<Rightarrow> out\<lparr>nr_Reason := ''state_repair_required''\<rparr>
      | CtxCanceled \<Rightarrow> out\<lparr>nr_Reason := ''canceled''\<rparr>
      | CtxDeadline \<Rightarrow> out\<lparr>nr_Reason := ''deadline_exceeded''\<rparr>
      | _ \<Rightarrow> out\<lparr>nr_Reason := ''journal_unavailable''\<rparr>)"

subsection \<open>One call\<close>

datatype service_event =
    Looked Key string | Entered | Left | Checked Request | Admitting admission
  | Delivered result Request | Finalizing Key string string string string navigation | Finalized

datatype phase = AtStart | AtEntry | AtReadiness | AtAdmission | AtDelivery

record 'e call_env =
  ce_PortsSet :: bool
  ce_Closed :: bool
  ce_Context :: bool
  ce_At :: "phase \<Rightarrow> moment"
  ce_Tracking :: "string option"
  ce_Gate :: gate
  ce_Load :: "origin_context \<Rightarrow> policy_error + Policy"
  ce_Resolve :: "origin_context \<Rightarrow> RoutePolicy \<Rightarrow> origin_target option"
  ce_CheckReadiness :: "Request \<Rightarrow> Readiness"
  ce_Deliver :: "Request \<Rightarrow> delivery_receipt"
  ce_LookupEnv :: 'e
  ce_AdmitEnv :: 'e
  ce_FinalizeEnv :: 'e

abbreviation overdue :: "'e call_env \<Rightarrow> phase \<Rightarrow> Deadline \<Rightarrow> string" where
  "overdue env ph d \<equiv> snd (remaining (ce_Context env) (ce_At env ph) d)"

definition refuse :: "notify_receipt \<Rightarrow> string \<Rightarrow> notify_receipt" where
  "refuse out reason = out\<lparr>nr_Reason := reason\<rparr>"

definition first_receipt :: "notify_payload \<Rightarrow> notify_receipt" where
  "first_receipt p =
     \<lparr>nr_RequestID = np_RequestID p, nr_TrackingID = [], nr_KeyKind = OtherKind [], nr_Status = ''rejected'',
      nr_Reason = [], nr_Replayed = False, nr_Backend = [],
      nr_Navigation = nav_result ''unavailable'' ''none'' [] [], nr_RetrySafe = True\<rparr>"

definition request_key :: "(string \<Rightarrow> string) \<Rightarrow> origin_context \<Rightarrow> notify_payload \<Rightarrow> string \<Rightarrow> Key" where
  "request_key sha c p tracking =
     (let (source, session) = Scope sha c;
          key = \<lparr>ky_Source = source, ky_Session = session, ky_Kind = Generated, ky_Request = tracking\<rparr>
      in case np_RequestID p of
           Some q \<Rightarrow> key\<lparr>ky_Kind := Explicit, ky_Request := q\<rparr>
         | None \<Rightarrow> if oc_CallID c \<noteq> [] then key\<lparr>ky_Kind := ClientCall, ky_Request := oc_CallID c\<rparr> else key)"

definition load_policy :: "'e call_env \<Rightarrow> origin_context \<Rightarrow> string + Policy" where
  "load_policy env c =
     (case ce_Load env c of
        Inl ConfigurationRequired \<Rightarrow> Inl ''configuration_required''
      | Inl PolicyError \<Rightarrow> Inl ''configuration_invalid''
      | Inr pol \<Rightarrow>
          if \<not> ps_Valid (py_Delivery pol) then Inl ''configuration_invalid''
          else (case Normalize (py_Rates pol) of
                  Inl e \<Rightarrow> Inl ''configuration_invalid''
                | Inr rates \<Rightarrow> Inr (pol\<lparr>py_Rates := rates\<rparr>)))"

definition unrouted :: "string \<Rightarrow> string \<Rightarrow> origin_target" where
  "unrouted capability reason =
     \<lparr>ot_Desktop = no_target, ot_Navigation = nav_result capability ''none'' [] reason\<rparr>"

definition resolve_target :: "'e call_env \<Rightarrow> Policy \<Rightarrow> origin_context \<Rightarrow> origin_target option" where
  "resolve_target env pol c =
     (if \<not> ps_ClickToFocus (py_Delivery pol) then Some (unrouted ''disabled'' ''click_to_focus_disabled'')
      else if oc_Hidden c then Some (unrouted ''unavailable'' ''hidden_target'')
      else if \<not> ro_LocalRouting (py_Route pol)
              \<or> unknown_origin c \<and> \<not> ro_AllowUnknownCaller (py_Route pol)
              \<or> oc_Provenance c = CallerAsserted \<and> \<not> ro_AllowCallerAsserted (py_Route pol)
      then Some (unrouted ''unavailable'' ''local_routing_unavailable'')
      else ce_Resolve env c (py_Route pol))"

definition choose_target ::
    "'e call_env \<Rightarrow> Policy \<Rightarrow> origin_context \<Rightarrow> notify_payload \<Rightarrow> string + origin_target" where
  "choose_target env pol c p =
     (if np_Navigation p = NoNavigation then Inr (unrouted ''disabled'' ''navigation_none'')
      else case resolve_target env pol c of
             None \<Rightarrow> Inl ''target_unavailable''
           | Some t \<Rightarrow>
               if \<not> validTarget t then Inl ''invalid_target''
               else Inr (if nv_Capability (ot_Navigation t) \<noteq> ''available'' then t\<lparr>ot_Desktop := no_target\<rparr> else t))"

definition build_request ::
    "(string \<Rightarrow> string) \<Rightarrow> string \<Rightarrow> notify_payload \<Rightarrow> Deadline \<Rightarrow> Policy \<Rightarrow> origin_target \<Rightarrow> Request" where
  "build_request sha tracking p d pol t =
     \<lparr>rq_Content = \<lparr>ct_Title = np_Title p, ct_Body = np_Body p, ct_Subtitle = [], ct_Category = np_Category p\<rparr>,
      rq_AppIcon = [], rq_CorrelationID = correlationID sha ''preflight'' tracking, rq_Deadline = d,
      rq_Policy = py_Delivery pol, rq_Navigation = np_Navigation p, rq_Target = ot_Desktop t,
      rq_Terminal = None, rq_Silent = \<not> ps_SoundEnabled (py_Delivery pol)\<rparr>"

definition readiness_valid :: "Request \<Rightarrow> Readiness \<Rightarrow> bool" where
  "readiness_valid req ready \<longleftrightarrow>
     rd_CorrelationID ready = rq_CorrelationID req \<and> Text (rd_Reason ready) 128 True \<and> Text (rd_Backend ready) 128 False
     \<and> rd_Status ready \<in> {''ready'', ''rejected'', ''suppressed''}"

definition delivery_valid :: "Request \<Rightarrow> delivery_receipt \<Rightarrow> bool" where
  "delivery_valid req r \<longleftrightarrow>
     dr_CorrelationID r = rq_CorrelationID req \<and> dr_Status r \<in> {''submitted'', ''rejected'', ''unknown'', ''suppressed''}
     \<and> Text (dr_Reason r) 128 True \<and> Text (dr_Backend r) 128 False"

text \<open>The outcome to record: status, reason, backend and navigation.\<close>

definition delivery_outcome ::
    "navigation \<Rightarrow> Request \<Rightarrow> delivery_receipt \<Rightarrow> string \<times> string \<times> string \<times> navigation" where
  "delivery_outcome qualified req r =
     (let (final, valid) = reconcileNavigation qualified (dr_Navigation r) in
      if \<not> valid \<or> \<not> delivery_valid req r
      then (''unknown'', ''invalid_delivery_receipt'', [],
            nav_result ''unavailable'' ''none'' [] ''invalid_delivery_receipt'')
      else (dr_Status r, dr_Reason r, dr_Backend r, final))"

definition deliver_admitted ::
    "(string \<Rightarrow> string) \<Rightarrow> ('e, 'st) admission_port \<Rightarrow> 'e call_env \<Rightarrow> Key \<Rightarrow> Deadline \<Rightarrow> navigation \<Rightarrow> Request
     \<Rightarrow> result \<Rightarrow> 'st \<Rightarrow> notify_receipt \<times> service_event list \<times> 'st" where
  "deliver_admitted sha port env key d qualified req r st =
     (let out = fromJournal (jc_Receipt (rs_Record r)) False in
      if overdue env AtDelivery d \<noteq> [] then (out, [], st)
      else
        (let attempt = jc_Attempt (rs_Record r);
             req = req\<lparr>rq_CorrelationID := correlationID sha (rs_ScopedKey r) attempt\<rparr>;
             (status, why, backend, final) = delivery_outcome qualified req (ce_Deliver env req);
             log = [Delivered r req, Finalizing key attempt status why backend final]
         in case ap_FinalizeOutcome port (ce_FinalizeEnv env) key attempt status why backend (Some final) st of
              (Inl e, st) \<Rightarrow> (out\<lparr>nr_Status := ''unknown'', nr_Reason := ''finalization_failed''\<rparr>, log, st)
            | (Inr _, st) \<Rightarrow>
                (out\<lparr>nr_Status := status, nr_Reason := why, nr_Backend := backend, nr_Navigation := final\<rparr>,
                 log @ [Finalized], st)))"

definition admit_and_deliver ::
    "(string \<Rightarrow> string) \<Rightarrow> ('e, 'st) admission_port \<Rightarrow> 'e call_env \<Rightarrow> Deadline \<Rightarrow> navigation \<Rightarrow> Request
     \<Rightarrow> admission \<Rightarrow> notify_receipt \<Rightarrow> 'st \<Rightarrow> notify_receipt \<times> service_event list \<times> 'st" where
  "admit_and_deliver sha port env d qualified req a out st =
     (case ap_Admit port (ce_AdmitEnv env) a st of
        (Inl e, st) \<Rightarrow> ((journalFailure out e)\<lparr>nr_RetrySafe := False\<rparr>, [Admitting a], st)
      | (Inr None, st) \<Rightarrow> ((refuse out ''journal_unavailable'')\<lparr>nr_RetrySafe := False\<rparr>, [Admitting a], st)
      | (Inr (Some r), st) \<Rightarrow>
          if \<not> rs_Fresh r then (replay r, [Admitting a], st)
          else (let (out, log, st) = deliver_admitted sha port env (ad_Key a) d qualified req r st
                in (out, Admitting a # log, st)))"

definition check_and_admit ::
    "(string \<Rightarrow> string) \<Rightarrow> ('e, 'st) admission_port \<Rightarrow> 'e call_env \<Rightarrow> notify_payload \<Rightarrow> Key \<Rightarrow> string \<Rightarrow> string
     \<Rightarrow> Deadline \<Rightarrow> Policy \<Rightarrow> origin_target \<Rightarrow> notify_receipt \<Rightarrow> 'st
     \<Rightarrow> notify_receipt \<times> service_event list \<times> 'st" where
  "check_and_admit sha port env p key dg tracking d pol target out st =
     (let req = build_request sha tracking p d pol target in
      if overdue env AtReadiness d \<noteq> [] then (refuse out (overdue env AtReadiness d), [], st)
      else
        (let ready = ce_CheckReadiness env req;
             (qualified, valid) = reconcileNavigation (ot_Navigation target) (rd_Navigation ready)
         in if \<not> valid \<or> \<not> readiness_valid req ready
            then (refuse (out\<lparr>nr_Navigation := ot_Navigation target\<rparr>) ''invalid_readiness_receipt'', [Checked req], st)
            else
              (let out = out\<lparr>nr_Navigation := qualified\<rparr> in
               if rd_Status ready \<noteq> ''ready''
               then ((refuse out (rd_Reason ready))
                       \<lparr>nr_Status := if rd_Status ready = ''suppressed'' then ''suppressed'' else nr_Status out\<rparr>,
                     [Checked req], st)
               else if overdue env AtAdmission d \<noteq> [] then (refuse out (overdue env AtAdmission d), [Checked req], st)
               else if np_Navigation p = Required \<and> nv_Capability qualified \<noteq> ''available''
               then (refuse out ''navigation_unavailable'', [Checked req], st)
               else
                 (let decision = (service_snapshot pol target)\<lparr>sn_Navigation := qualified\<rparr>;
                      req' = (if nv_Capability qualified \<noteq> ''available'' then req\<lparr>rq_Target := no_target\<rparr> else req);
                      a = \<lparr>ad_Rates = py_Rates pol, ad_Key = key, ad_Digest = dg, ad_TrackingID = tracking,
                           ad_Decision = decision\<rparr>;
                      (out, log, st) = admit_and_deliver sha port env d qualified req' a out st
                  in (out, Checked req # log, st)))))"

text \<open>What runs between entering the gate and leaving it.\<close>

definition entered_call ::
    "(string \<Rightarrow> string) \<Rightarrow> ('e, 'st) admission_port \<Rightarrow> 'e call_env \<Rightarrow> origin_context \<Rightarrow> notify_payload \<Rightarrow> Key
     \<Rightarrow> string \<Rightarrow> string \<Rightarrow> Deadline \<Rightarrow> notify_receipt \<Rightarrow> 'st \<Rightarrow> notify_receipt \<times> service_event list \<times> 'st" where
  "entered_call sha port env c p key dg tracking d out st =
     (if overdue env AtEntry d \<noteq> [] then (refuse out (overdue env AtEntry d), [], st)
      else case load_policy env c of
             Inl reason \<Rightarrow> (refuse out reason, [], st)
           | Inr pol \<Rightarrow>
               if \<not> ps_ExplicitEnabled (py_Delivery pol) \<or> \<not> ps_DesktopEnabled (py_Delivery pol)
               then ((refuse out ''disabled'')\<lparr>nr_Status := ''suppressed''\<rparr>, [], st)
               else if oc_Locality c = Remote \<or> oc_Interface c = Headless
               then (refuse out ''local_gui_unavailable'', [], st)
               else if routing_refused pol c p then (refuse out ''local_routing_unavailable'', [], st)
               else (case choose_target env pol c p of
                       Inl reason \<Rightarrow> (refuse out reason, [], st)
                     | Inr target \<Rightarrow>
                         if np_Navigation p = Required \<and> nv_Capability (ot_Navigation target) \<noteq> ''available''
                         then ((refuse out ''navigation_unavailable'')\<lparr>nr_Navigation := ot_Navigation target\<rparr>, [], st)
                         else check_and_admit sha port env p key dg tracking d pol target out st))"

definition Notify ::
    "(string \<Rightarrow> string) \<Rightarrow> ('e, 'st) admission_port \<Rightarrow> 'e call_env \<Rightarrow> notify_payload \<Rightarrow> origin_context \<Rightarrow> Deadline
     \<Rightarrow> 'st \<Rightarrow> notify_receipt \<times> service_event list \<times> 'st" where
  "Notify sha port env p c d st =
     (let out = first_receipt p in
      if \<not> ce_PortsSet env then (refuse out ''invalid_dependencies'', [], st)
      else if ce_Closed env then (refuse out ''service_closed'', [], st)
      else if overdue env AtStart d \<noteq> [] then (refuse out (overdue env AtStart d), [], st)
      else
        (let (p, reason) = validate_payload p c in
         if reason \<noteq> [] then (refuse out reason, [], st)
         else case ce_Tracking env of
                None \<Rightarrow> (refuse out ''entropy_unavailable'', [], st)
              | Some tok \<Rightarrow>
                  (let tracking = hexEncode tok;
                       key = request_key sha c p tracking;
                       out = out\<lparr>nr_TrackingID := tracking, nr_KeyKind := ky_Kind key\<rparr>;
                       dg = digest sha p
                   in case ap_Lookup port (ce_LookupEnv env) key dg st of
                        (Inl e, st) \<Rightarrow> (journalFailure out e, [Looked key dg], st)
                      | (Inr (Some r), st) \<Rightarrow> (replay r, [Looked key dg], st)
                      | (Inr None, st) \<Rightarrow>
                          if fst (enter (ce_Gate env)) \<noteq> []
                          then (refuse out (fst (enter (ce_Gate env))), [Looked key dg], st)
                          else (let (out, log, st) = entered_call sha port env c p key dg tracking d out st
                                in (out, [Looked key dg, Entered] @ log @ [Left], st)))))"

end
