(* ===== verification/NotifyFacts.thy ===== *)
theory NotifyFacts
  imports NotifyService
begin

text \<open>
  The branches of a call as case rules, and what the service hands to its ports: the requests it
  admits and the outcomes it records are ones a journal accepts.
\<close>

subsection \<open>Branches\<close>

definition hands_off :: "service_event list \<Rightarrow> bool" where
  "hands_off evs \<longleftrightarrow> list_all (\<lambda>v. case v of Looked k g \<Rightarrow> True | Entered \<Rightarrow> True | Left \<Rightarrow> True | Checked q \<Rightarrow> True | _ \<Rightarrow> False) evs"

lemma hands_off_simps [simp]:
  "hands_off []" "hands_off (Looked k g # evs) = hands_off evs" "hands_off (Entered # evs) = hands_off evs"
  "hands_off (Left # evs) = hands_off evs" "hands_off (Checked q # evs) = hands_off evs"
  "\<not> hands_off (Admitting a # evs)" "hands_off (evs @ evs') \<longleftrightarrow> hands_off evs \<and> hands_off evs'"
  by (simp_all add: hands_off_def)

lemma refuse_RetrySafe [simp]: "nr_RetrySafe (refuse out reason) = nr_RetrySafe out"
  "nr_Replayed (refuse out reason) = nr_Replayed out"
  by (simp_all add: refuse_def)

lemma first_receipt_Replayed [simp]: "\<not> nr_Replayed (first_receipt p)"
  by (simp add: first_receipt_def)

lemma check_and_admit_cases:
  assumes "check_and_admit sha port env p key dg tracking d pol target out st = (out', evs, st')"
  obtains (refused) "hands_off evs" "st' = st" "nr_Replayed out' = nr_Replayed out"
  | (admitting) req ready nav a evs' where
    "req = build_request sha tracking p d pol target" "ready = ce_CheckReadiness env req"
    "reconcileNavigation (ot_Navigation target) (rd_Navigation ready) = (nav, True)"
    "readiness_valid req ready" "rd_Status ready = ''ready''" "overdue env AtAdmission d = []"
    "np_Navigation p = Required \<Longrightarrow> nv_Capability nav = ''available''"
    "a = \<lparr>ad_Rates = py_Rates pol, ad_Key = key, ad_Digest = dg, ad_TrackingID = tracking,
         ad_Decision = (service_snapshot pol target)\<lparr>sn_Navigation := nav\<rparr>\<rparr>"
    "admit_and_deliver sha port env d nav
       (if nv_Capability nav \<noteq> ''available'' then req\<lparr>rq_Target := no_target\<rparr> else req) a
       (out\<lparr>nr_Navigation := nav\<rparr>) st = (out', evs', st')"
    "evs = Checked req # evs'"
  using assms
  by (simp add: check_and_admit_def Let_def split: if_splits prod.splits) (blast | fastforce)+


lemma journalFailure_Replayed [simp]: "nr_Replayed (journalFailure out e) = nr_Replayed out"
  by (simp add: journalFailure_def split: jerr.split)

lemma entered_call_cases:
  assumes "entered_call sha port env c p key dg tracking d out st = (out', evs, st')"
  obtains (refused) "hands_off evs" "st' = st" "nr_Replayed out' = nr_Replayed out"
  | (checked) pol target where
    "load_policy env c = Inr pol" "ps_ExplicitEnabled (py_Delivery pol)" "ps_DesktopEnabled (py_Delivery pol)"
    "oc_Locality c \<noteq> Remote" "oc_Interface c \<noteq> Headless" "\<not> routing_refused pol c p"
    "choose_target env pol c p = Inr target"
    "check_and_admit sha port env p key dg tracking d pol target out st = (out', evs, st')"
  using assms by (auto simp: entered_call_def split: if_splits sum.splits)

lemma Notify_cases:
  assumes "Notify sha port env p c d st = (out', evs, st')"
  obtains (refused) "hands_off evs" "st' = st" "\<not> nr_Replayed out'"
  | (looked) q tok key r where
    "validate_payload p c = (q, [])" "ce_Tracking env = Some tok" "key = request_key sha c q (hexEncode tok)"
    "ap_Lookup port (ce_LookupEnv env) key (digest sha q) st = (r, st')"
    "hands_off evs" "out' = (case r of Inr (Some r) \<Rightarrow> replay r | _ \<Rightarrow> out')"
    "nr_Replayed out' \<longleftrightarrow> (\<exists>r'. r = Inr (Some r'))"
  | (entered) q tok key out st1 evs' where
    "validate_payload p c = (q, [])" "ce_Tracking env = Some tok" "key = request_key sha c q (hexEncode tok)"
    "ap_Lookup port (ce_LookupEnv env) key (digest sha q) st = (Inr None, st1)"
    "overdue env AtStart d = []" "\<not> nr_Replayed out"
    "entered_call sha port env c q key (digest sha q) (hexEncode tok) d out st1 = (out', evs', st')"
    "evs = [Looked key (digest sha q), Entered] @ evs' @ [Left]"
proof (cases "hands_off evs \<and> st' = st \<and> \<not> nr_Replayed out'")
  case True
  then show thesis using refused by blast
next
  case False
  obtain q reason where q: "validate_payload p c = (q, reason)" by fastforce
  from False assms q obtain tok where tok: "reason = []" "ce_Tracking env = Some tok" "overdue env AtStart d = []"
    by (auto simp: Notify_def Let_def split: if_splits option.splits)
  define key where "key = request_key sha c q (hexEncode tok)"
  define out where "out = (first_receipt p)\<lparr>nr_TrackingID := hexEncode tok, nr_KeyKind := ky_Kind key\<rparr>"
  have fresh: "\<not> nr_Replayed out" by (simp add: out_def first_receipt_def)
  obtain r st1 where r: "ap_Lookup port (ce_LookupEnv env) key (digest sha q) st = (r, st1)" by fastforce
  have rest: "(case r of
                 Inl e \<Rightarrow> (journalFailure out e, [Looked key (digest sha q)], st1)
               | Inr (Some r) \<Rightarrow> (replay r, [Looked key (digest sha q)], st1)
               | Inr None \<Rightarrow>
                   if fst (enter (ce_Gate env)) \<noteq> []
                   then (refuse out (fst (enter (ce_Gate env))), [Looked key (digest sha q)], st1)
                   else (let (out, evs, st) = entered_call sha port env c q key (digest sha q) (hexEncode tok) d out st1
                         in (out, [Looked key (digest sha q), Entered] @ evs @ [Left], st)))
              = (out', evs, st')"
    using assms False q tok r [unfolded key_def] unfolding key_def out_def
    by (auto simp: Notify_def Let_def split: if_splits)
  show thesis
  proof (cases "\<exists>evs' st2. evs = [Looked key (digest sha q), Entered] @ evs' @ [Left]
      \<and> entered_call sha port env c q key (digest sha q) (hexEncode tok) d out st1 = (out', evs', st')
      \<and> r = Inr None")
    case True
    with q tok r fresh show thesis by (auto intro!: entered [of q tok key] simp: key_def)
  next
    case False
    with rest fresh have "hands_off evs" "st1 = st'" "out' = (case r of Inr (Some r) \<Rightarrow> replay r | _ \<Rightarrow> out')"
      "nr_Replayed out' \<longleftrightarrow> (\<exists>r'. r = Inr (Some r'))"
      by (auto simp: replay_def fromJournal_def Let_def split: sum.splits option.splits if_splits prod.splits)
    with q tok r show thesis by (intro looked [of q tok key r]) (simp_all add: key_def)
  qed
qed


definition settled_receipt :: "notify_receipt \<Rightarrow> jerr + result option \<Rightarrow> string \<times> string \<times> string \<times> navigation \<Rightarrow> notify_receipt" where
  "settled_receipt out res x =
     (let (status, why, backend, final) = x in
      case res of
        Inl e \<Rightarrow> out\<lparr>nr_Status := ''unknown'', nr_Reason := ''finalization_failed''\<rparr>
      | Inr _ \<Rightarrow> out\<lparr>nr_Status := status, nr_Reason := why, nr_Backend := backend, nr_Navigation := final\<rparr>)"

lemma admit_and_deliver_cases:
  assumes "admit_and_deliver sha port env d nav req a out st = (out', evs, st')"
  obtains (failed) e where "ap_Admit port (ce_AdmitEnv env) a st = (Inl e, st')" "evs = [Admitting a]"
    "out' = (journalFailure out e)\<lparr>nr_RetrySafe := False\<rparr>"
  | (lost) "ap_Admit port (ce_AdmitEnv env) a st = (Inr None, st')" "evs = [Admitting a]"
    "out' = (refuse out ''journal_unavailable'')\<lparr>nr_RetrySafe := False\<rparr>"
  | (seen) r where "ap_Admit port (ce_AdmitEnv env) a st = (Inr (Some r), st')" "\<not> rs_Fresh r"
    "evs = [Admitting a]" "out' = replay r"
  | (stopped) r where "ap_Admit port (ce_AdmitEnv env) a st = (Inr (Some r), st')" "rs_Fresh r"
    "evs = [Admitting a]" "out' = fromJournal (jc_Receipt (rs_Record r)) False"
  | (delivered) r st1 req' status why backend final res where
    "ap_Admit port (ce_AdmitEnv env) a st = (Inr (Some r), st1)" "rs_Fresh r" "overdue env AtDelivery d = []"
    "req' = req\<lparr>rq_CorrelationID := correlationID sha (rs_ScopedKey r) (jc_Attempt (rs_Record r))\<rparr>"
    "delivery_outcome nav req' (ce_Deliver env req') = (status, why, backend, final)"
    "ap_FinalizeOutcome port (ce_FinalizeEnv env) (ad_Key a) (jc_Attempt (rs_Record r)) status why backend
       (Some final) st1 = (res, st')"
    "evs = [Admitting a, Delivered r req',
            Finalizing (ad_Key a) (jc_Attempt (rs_Record r)) status why backend final]
           @ (if isl res then [] else [Finalized])"
    "out' = settled_receipt (fromJournal (jc_Receipt (rs_Record r)) False) res (status, why, backend, final)"
proof -
  obtain res st1 where adm: "ap_Admit port (ce_AdmitEnv env) a st = (res, st1)" by fastforce
  show thesis
  proof (cases "\<exists>r. res = Inr (Some r) \<and> rs_Fresh r \<and> overdue env AtDelivery d = []")
    case False
    with assms adm show thesis
      by (auto simp: admit_and_deliver_def deliver_admitted_def Let_def
          split: sum.splits option.splits if_splits intro: failed lost seen stopped)
  next
    case True
    then obtain r where r: "res = Inr (Some r)" "rs_Fresh r" "overdue env AtDelivery d = []" by blast
    define req' where "req' = req\<lparr>rq_CorrelationID := correlationID sha (rs_ScopedKey r) (jc_Attempt (rs_Record r))\<rparr>"
    obtain status why backend final where out:
      "delivery_outcome nav req' (ce_Deliver env req') = (status, why, backend, final)"
      by (metis prod_cases4)
    obtain res' st2 where fin: "ap_FinalizeOutcome port (ce_FinalizeEnv env) (ad_Key a)
      (jc_Attempt (rs_Record r)) status why backend (Some final) st1 = (res', st2)" by fastforce
    show thesis
      using assms adm r out fin
      by (intro delivered [where ?st1.0 = st1 and res = res', OF _ r(2,3) req'_def out])
        (auto simp: admit_and_deliver_def deliver_admitted_def settled_receipt_def Let_def req'_def [symmetric]
          split: sum.splits)
  qed
qed

text \<open>A call that enters the gate without reaching the journal's admission changes nothing.\<close>

lemma entered_hands_off:
  assumes "entered_call sha port env c p key dg tracking d out st = (out', evs, st')" and "hands_off evs"
  shows "st' = st \<and> nr_Replayed out' = nr_Replayed out"
  using assms(1)
proof (cases rule: entered_call_cases)
  case (checked pol target)
  from checked(8) show ?thesis
  proof (cases rule: check_and_admit_cases)
    case (admitting req ready nav a evs')
    from admitting(9) have "\<not> hands_off evs'" by (cases rule: admit_and_deliver_cases) simp_all
    with assms(2) admitting(10) show ?thesis by simp
  qed simp
qed simp

text \<open>A call that reaches the journal's admission, from its receipt back to its checks.\<close>

lemma Notify_admitting:
  assumes "Notify sha port env p c d st = (out', evs, st')" and "\<not> hands_off evs"
  obtains (admitting) q tok key st1 pol target nav ready req a out evs' where
    "validate_payload p c = (q, [])" "ce_Tracking env = Some tok" "key = request_key sha c q (hexEncode tok)"
    "ap_Lookup port (ce_LookupEnv env) key (digest sha q) st = (Inr None, st1)"
    "load_policy env c = Inr pol" "ps_ExplicitEnabled (py_Delivery pol)" "ps_DesktopEnabled (py_Delivery pol)"
    "oc_Locality c \<noteq> Remote" "oc_Interface c \<noteq> Headless" "\<not> routing_refused pol c q"
    "choose_target env pol c q = Inr target" "req = build_request sha (hexEncode tok) q d pol target"
    "ready = ce_CheckReadiness env req" "readiness_valid req ready" "rd_Status ready = ''ready''"
    "reconcileNavigation (ot_Navigation target) (rd_Navigation ready) = (nav, True)"
    "np_Navigation q = Required \<Longrightarrow> nv_Capability nav = ''available''"
    "a = \<lparr>ad_Rates = py_Rates pol, ad_Key = key, ad_Digest = digest sha q, ad_TrackingID = hexEncode tok,
         ad_Decision = (service_snapshot pol target)\<lparr>sn_Navigation := nav\<rparr>\<rparr>"
    "admit_and_deliver sha port env d nav
       (if nv_Capability nav \<noteq> ''available'' then req\<lparr>rq_Target := no_target\<rparr> else req) a out st1 = (out', evs', st')"
    "evs = [Looked key (digest sha q), Entered, Checked req] @ evs' @ [Left]" "\<not> nr_Replayed out"
  using assms(1)
proof (cases rule: Notify_cases)
  case (entered q tok key out st1 evs')
  from entered(7) show thesis
  proof (cases rule: entered_call_cases)
    case (checked pol target)
    from checked(8) show thesis
    proof (cases rule: check_and_admit_cases)
      case (admitting req ready nav a evs'')
      have "evs = [Looked key (digest sha q), Entered, Checked req] @ evs'' @ [Left]"
        and "\<not> nr_Replayed (out\<lparr>nr_Navigation := nav\<rparr>)"
        using entered(6,8) admitting(10) by simp_all
      with admitting(7) show thesis
        by (intro that [OF entered(1-4) checked(1-7) admitting(1,2,4,5,3) _ admitting(8,9)])
    qed (use entered assms(2) in simp)
  qed (use entered assms(2) in simp)
qed (use assms(2) in simp_all)

subsection \<open>Plain text\<close>

definition plain :: "string \<Rightarrow> bool" where
  "plain s \<longleftrightarrow> list_all (\<lambda>c. 32 \<le> (of_char c :: nat) \<and> (of_char c :: nat) < 127) s"

lemma plain_simps [simp]:
  "plain []" "plain (c # s) \<longleftrightarrow> (32 \<le> (of_char c :: nat) \<and> (of_char c :: nat) < 127) \<and> plain s"
  "plain (s @ t) \<longleftrightarrow> plain s \<and> plain t"
  by (simp_all add: plain_def)

lemma runes_plain: "plain s \<Longrightarrow> runes s = map (\<lambda>c. [c]) s"
  by (induction s) (simp_all add: runes_ascii is_ascii_def)

lemma plain_Text: "plain s \<Longrightarrow> length s \<le> n \<Longrightarrow> (required \<Longrightarrow> s \<noteq> []) \<Longrightarrow> Text s n required"
  by (auto simp: Text_def valid_utf8_def runes_plain list_all_iff control_rune_def byte_in_def plain_def)

lemma plain_validText: "plain s \<Longrightarrow> length s \<le> n \<Longrightarrow> (required \<Longrightarrow> s \<noteq> []) \<Longrightarrow> validText s n required"
  by (rule Text_validText [OF plain_Text order_refl])

lemma plain_nibble: "32 \<le> (of_char (nibble n) :: nat) \<and> (of_char (nibble n) :: nat) < 127"
proof -
  have "\<forall>c \<in> set ''0123456789abcdef''. 32 \<le> (of_char c :: nat) \<and> (of_char c :: nat) < 127" by simp
  moreover have "nibble n \<in> set ''0123456789abcdef''" unfolding nibble_def by (rule nth_mem) simp
  ultimately show ?thesis by blast
qed

lemma plain_hexEncode: "plain (hexEncode s)"
  by (induction s) (use plain_nibble in \<open>simp_all add: hexEncode_def\<close>)

lemma length_hexEncode: "length (hexEncode s) = 2 * length s"
  by (induction s) (simp_all add: hexEncode_def)

lemma hexEncode_validText: "length s = 32 \<Longrightarrow> validText (hexEncode s) 256 required"
  by (rule plain_validText) (auto simp: plain_hexEncode length_hexEncode dest: arg_cong [where f = length])

lemma plain_show_nat: "plain (show_nat n)"
  by (induction n rule: show_nat.induct) (subst show_nat.simps, auto)

lemma show_nat_digits: "0 < k \<Longrightarrow> n < 10 ^ k \<Longrightarrow> length (show_nat n) \<le> k"
proof (induction n arbitrary: k rule: show_nat.induct)
  case (1 n)
  show ?case
  proof (cases "n < 10")
    case True
    with 1 show ?thesis by (subst show_nat.simps) simp
  next
    case False
    with 1 obtain j where k: "k = Suc j" "0 < j" by (cases k; cases "k - 1") auto
    with 1 False have "length (show_nat (n div 10)) \<le> j" by (intro 1) auto
    with False k show ?thesis by (subst show_nat.simps) simp
  qed
qed

subsection \<open>What the service hands to the journal\<close>

lemma request_key_valid:
  assumes "validate_payload p c = (q, [])" and "length tok = 32" and "\<And>s. length (sha s) = 32"
  shows "valid_key (request_key sha c q (hexEncode tok))"
proof -
  have req: "case np_RequestID q of None \<Rightarrow> True | Some r \<Rightarrow> Text r 256 True"
    and call: "Text (oc_CallID c) 256 False"
    using assms(1)
    by (auto simp: validate_payload_def origin_Validate_def Let_def split: if_splits option.splits)
  have "validText (oc_CallID c) 256 False" by (rule Text_validText [OF call order_refl])
  then have call': "oc_CallID c \<noteq> [] \<Longrightarrow> validText (oc_CallID c) 256 True" by (simp add: validText_def)
  from req have req': "np_RequestID q = Some r \<Longrightarrow> validText r 256 True" for r
    by (auto intro: Text_validText)
  show ?thesis
    using req' call' assms(2,3)
    by (simp add: valid_key_def request_key_def Scope_def Let_def validKind_def hexEncode_validText split: option.split)
qed

lemma Normalize_idem: "Normalize p = Inr q \<Longrightarrow> Normalize q = Inr q"
  by (auto simp: Normalize_def MaxRate_def split: if_splits)

lemma Normalize_bounds:
  "Normalize p = Inr q \<Longrightarrow> 0 \<le> rp_SessionPerMinute q \<and> rp_SessionPerMinute q < 100000
     \<and> 0 \<le> rp_RuntimePerMinute q \<and> rp_RuntimePerMinute q < 100000 \<and> 0 \<le> rp_Burst q \<and> rp_Burst q < 100000"
  by (auto simp: Normalize_def MaxRate_def split: if_splits)

lemma Itoa_rate: "0 \<le> x \<Longrightarrow> x < 100000 \<Longrightarrow> plain (Itoa x) \<and> length (Itoa x) \<le> 5"
  using show_nat_digits [of 5 "nat x"] by (simp add: Itoa_def plain_show_nat)

lemma json_bool_plain: "plain (json_bool b)" "length (json_bool b) \<le> 5"
  by (simp_all add: json_bool_def)

lemma policy_text_valid:
  assumes "load_policy env c = Inr pol"
  shows "validText (policy_text pol) 1024 False"
proof (rule plain_validText)
  have "\<exists>p. Normalize p = Inr (py_Rates pol)"
    using assms by (auto simp: load_policy_def split: sum.splits policy_error.splits if_splits)
  then obtain p where "Normalize p = Inr (py_Rates pol)" ..
  note rates = Normalize_bounds [OF this]
  note n = Itoa_rate [of "rp_SessionPerMinute (py_Rates pol)"] Itoa_rate [of "rp_RuntimePerMinute (py_Rates pol)"]
    Itoa_rate [of "rp_Burst (py_Rates pol)"]
  show "plain (policy_text pol)"
    using rates n by (simp add: policy_text_def json_object_def json_field_def json_bool_plain)
  have bools: "length (json_bool b) \<le> 5" for b by (rule json_bool_plain)
  show "length (policy_text pol) \<le> 1024"
    using rates n bools [of "ps_Valid (py_Delivery pol)"] bools [of "ps_ExplicitEnabled (py_Delivery pol)"]
      bools [of "ps_DesktopEnabled (py_Delivery pol)"] bools [of "ps_ClickToFocus (py_Delivery pol)"]
      bools [of "ps_SoundEnabled (py_Delivery pol)"]
    by (simp add: policy_text_def json_object_def json_field_def)
qed simp

lemma unrouted_valid:
  "plain reason \<Longrightarrow> length reason \<le> 1024 \<Longrightarrow> capability \<in> {''disabled'', ''unavailable''} \<Longrightarrow>
     validTarget (unrouted capability reason)"
  by (auto simp: validTarget_def unrouted_def nav_result_def plain_Text)

lemma choose_target_valid:
  assumes "choose_target env pol c q = Inr t"
  shows "validTarget t" and "nv_Capability (ot_Navigation t) \<noteq> ''available'' \<Longrightarrow> ot_Desktop t = no_target"
proof -
  have "validTarget t \<and> (nv_Capability (ot_Navigation t) \<noteq> ''available'' \<longrightarrow> ot_Desktop t = no_target)"
  proof (cases "np_Navigation q = NoNavigation")
    case True
    with assms unrouted_valid [of "''navigation_none''" "''disabled''"] show ?thesis
      by (auto simp: choose_target_def unrouted_def)
  next
    case False
    with assms show ?thesis
      by (auto simp: choose_target_def validTarget_def Let_def split: option.splits if_splits)
  qed
  then show "validTarget t" "nv_Capability (ot_Navigation t) \<noteq> ''available'' \<Longrightarrow> ot_Desktop t = no_target"
    by simp_all
qed

lemma reconcile_nav:
  assumes "reconcileNavigation before after = (final, True)"
  shows "final = after" and "validOutcomeNavigation final" and "validNavigationTransition before final"
  using assms Text_validText [OF _ order_refl, of "nv_Scope after" 1024 False]
    Text_validText [OF _ order_refl, of "nv_Reason after" 1024 False]
  by (auto simp: reconcileNavigation_def validOutcomeNavigation_def validNavigationTransition_def split: if_splits)

lemma nav_texts:
  "validOutcomeNavigation n \<Longrightarrow> validText (nv_Capability n) 1024 False \<and> validText (nv_Precision n) 1024 False
     \<and> validText (nv_Scope n) 1024 False \<and> validText (nv_Reason n) 1024 False"
  by (auto simp: validOutcomeNavigation_def intro: plain_validText)

lemma snapshot_valid:
  assumes "load_policy env c = Inr pol" and "validTarget t" and "validOutcomeNavigation nav"
    and "nv_Capability (ot_Navigation t) \<noteq> ''available'' \<Longrightarrow> ot_Desktop t = no_target"
  shows "validSnapshot ((service_snapshot pol t)\<lparr>sn_Navigation := nav\<rparr>)"
proof -
  have binding: "validText (dt_ThreadID (ot_Desktop t)) 1024 False \<and> validText (lb_SnapshotPath (dt_Linux (ot_Desktop t))) 1024 False
      \<and> (lb_SnapshotPath (dt_Linux (ot_Desktop t)) \<noteq> [] \<longrightarrow> validText (lb_SHA256 (dt_Linux (ot_Desktop t))) 1024 False)
      \<and> (lb_SnapshotPath (dt_Linux (ot_Desktop t)) = [] \<longrightarrow>
           validText (dt_ApplicationPath (ot_Desktop t)) 1024 False \<and> validText (dt_TeamID (ot_Desktop t)) 1024 False)"
  proof (cases "nv_Capability (ot_Navigation t) = ''available''")
    case True
    have weaken: "validText s 1024 False" if "Text s n True" "n \<le> 1024" for s n
      using Text_validText [OF that] by (simp add: validText_def)
    from True assms(2) show ?thesis
      by (auto simp: validTarget_def Let_def target_binding_def split: if_splits intro: weaken plain_validText)
  next
    case False
    then show ?thesis by (simp add: assms(4) no_target_def plain_validText)
  qed
  then show ?thesis
    using policy_text_valid [OF assms(1)] nav_texts [OF assms(3)]
    by (auto simp: validSnapshot_def service_snapshot_def Let_def plain_validText)
qed

lemma delivery_outcome_ok:
  assumes "delivery_outcome nav req r = (status, why, backend, final)"
  shows "validTerminal status" and "validText why 128 True" and "validText backend 128 False"
    and "validOutcomeNavigation final" and "validNavigationTransition nav final"
proof -
  obtain after valid where rec: "reconcileNavigation nav (dr_Navigation r) = (after, valid)" by fastforce
  have "validTerminal status \<and> validText why 128 True \<and> validText backend 128 False
      \<and> validOutcomeNavigation final \<and> validNavigationTransition nav final"
  proof (cases "valid \<and> delivery_valid req r")
    case True
    with assms rec reconcile_nav [of nav "dr_Navigation r" after] show ?thesis
      by (auto simp: delivery_outcome_def delivery_valid_def validTerminal_def intro: Text_validText)
  next
    case False
    with assms rec show ?thesis
      by (auto simp: delivery_outcome_def validTerminal_def validOutcomeNavigation_def
          validNavigationTransition_def nav_result_def intro!: plain_validText)
  qed
  then show "validTerminal status" "validText why 128 True" "validText backend 128 False"
    "validOutcomeNavigation final" "validNavigationTransition nav final" by simp_all
qed

subsection \<open>What is hashed\<close>

text \<open>The text that is hashed determines the payload.\<close>

lemma digest_text_inject:
  assumes "digest_text p = digest_text q"
    and "valid_utf8 (np_Title p)" "valid_utf8 (np_Title q)" "valid_utf8 (np_Body p)" "valid_utf8 (np_Body q)"
    and "valid_utf8 (np_Category p)" "valid_utf8 (np_Category q)"
    and "valid_utf8 (navigation_string (np_Navigation p))" "valid_utf8 (navigation_string (np_Navigation q))"
  shows "np_Title p = np_Title q \<and> np_Body p = np_Body q \<and> np_Category p = np_Category q
    \<and> navigation_string (np_Navigation p) = navigation_string (np_Navigation q)"
proof -
  define rest where "rest u v w = '','' @ json_field ''Body'' u @ '','' @ json_field ''Category'' v @ '',''
      @ json_field ''Navigation'' w @ ''}''" for u v w
  define tail where "tail v w = '','' @ json_field ''Category'' v @ '','' @ json_field ''Navigation'' w @ ''}''" for v w
  define final where "final w = '','' @ json_field ''Navigation'' w @ ''}''" for w
  let ?t = "\<lambda>p. quote_json (np_Title p)" and ?b = "\<lambda>p. quote_json (np_Body p)"
  let ?c = "\<lambda>p. quote_json (np_Category p)" and ?n = "\<lambda>p. quote_json (navigation_string (np_Navigation p))"
  have shape: "digest_text x = ''{'' @ json_field ''Version'' ''1'' @ '','' @ CHR 0x22 # ''Title'' @ [CHR 0x22, CHR '':'']
      @ ?t x @ rest (?b x) (?c x) (?n x)" for x
    by (simp add: digest_text_def json_object_def json_field_def rest_def)
  from assms(1) have "?t p @ rest (?b p) (?c p) (?n p) = ?t q @ rest (?b q) (?c q) (?n q)"
    by (simp add: shape)
  from quote_json_inject [OF assms(2,3) this]
  have title: "np_Title p = np_Title q" and "rest (?b p) (?c p) (?n p) = rest (?b q) (?c q) (?n q)" by blast+
  then have "?b p @ tail (?c p) (?n p) = ?b q @ tail (?c q) (?n q)"
    by (simp add: rest_def tail_def json_field_def)
  from quote_json_inject [OF assms(4,5) this]
  have body: "np_Body p = np_Body q" and "tail (?c p) (?n p) = tail (?c q) (?n q)" by blast+
  then have "?c p @ final (?n p) = ?c q @ final (?n q)" by (simp add: tail_def final_def json_field_def)
  from quote_json_inject [OF assms(6,7) this]
  have category: "np_Category p = np_Category q" and "final (?n p) = final (?n q)" by blast+
  then have "?n p @ ''}'' = ?n q @ ''}''" by (simp add: final_def json_field_def)
  from quote_json_inject [OF assms(8,9) this] title body category show ?thesis by blast
qed

lemma validated_texts:
  assumes "validate_payload p c = (q, [])"
  shows "valid_utf8 (np_Title q) \<and> valid_utf8 (np_Body q) \<and> valid_utf8 (np_Category q)
    \<and> valid_utf8 (navigation_string (np_Navigation q)) \<and> q = default_navigation p"
proof -
  have v: "valid_utf8 s" if "plain s" for s using plain_Text [OF that order_refl, of False] by (simp add: Text_def)
  have "np_Category q \<in> {''info'', ''attention'', ''progress''}" "np_Navigation q \<in> {Required, BestEffort, NoNavigation}"
    "valid_content (np_Title q) 256 False" "valid_content (np_Body q) 4096 True" "q = default_navigation p"
    using assms by (auto simp: validate_payload_def Let_def split: if_splits option.splits)
  then show ?thesis by (auto simp: valid_content_def intro!: v)
qed

lemma hexEncode_inject: "hexEncode s = hexEncode t \<Longrightarrow> s = t"
proof (induction s arbitrary: t)
  case Nil
  then show ?case by (cases t) (auto simp: hexEncode_def)
next
  case (Cons c s)
  then obtain c' t' where t: "t = c' # t'" by (cases t) (auto simp: hexEncode_def)
  have eq: "hex_value (nibble (of_char x div 16)) = of_char x div 16" "hex_value (nibble (of_char x)) = of_char x mod 16" for x :: char
  proof -
    have "of_char x div 16 < (16 :: nat)" using nat_of_char_less_256 [of x] by linarith
    then show "hex_value (nibble (of_char x div 16)) = of_char x div 16" "hex_value (nibble (of_char x)) = of_char x mod 16"
      by (simp_all add: hex_value_nibble)
  qed
  from Cons.prems have "nibble (of_char c div 16) = nibble (of_char c' div 16)" "nibble (of_char c) = nibble (of_char c')"
    and rest: "hexEncode s = hexEncode t'" by (simp_all add: t hexEncode_def)
  then have "(of_char c :: nat) div 16 = of_char c' div 16" "(of_char c :: nat) mod 16 = of_char c' mod 16"
    by (metis eq(1), metis eq(2))
  then have "(of_char c :: nat) = of_char c'" by (metis div_mult_mod_eq)
  then have "c = c'" by simp
  with Cons.IH [OF rest] t show ?case by simp
qed

end
