(* ===== verification/NotifyJournal.thy ===== *)
theory NotifyJournal
  imports NotifyFacts
begin

text \<open>
  What a call relies on in an admission port, as an interface; its lemmas for any port that keeps
  it; and the journal as such a port, with other processes and storage faults in between. Last, the
  conditions under which a call goes through.
\<close>

subsection \<open>The contract of an admission port\<close>

lemma Notify_delivered:
  assumes "Notify sha port env p c d st = (out, evs, st')" and "Delivered r req \<in> set evs"
  obtains (delivered) q tok st1 st2 a status why backend final res where
    "validate_payload p c = (q, [])" "ce_Tracking env = Some tok" "ad_Key a = request_key sha c q (hexEncode tok)"
    "ad_Digest a = digest sha q"
    "ap_Lookup port (ce_LookupEnv env) (ad_Key a) (digest sha q) st = (Inr None, st1)"
    "ap_Admit port (ce_AdmitEnv env) a st1 = (Inr (Some r), st2)" "rs_Fresh r"
    "ap_FinalizeOutcome port (ce_FinalizeEnv env) (ad_Key a) (jc_Attempt (rs_Record r)) status why backend
       (Some final) st2 = (res, st')"
    "out = settled_receipt (fromJournal (jc_Receipt (rs_Record r)) False) res (status, why, backend, final)"
    "Finalized \<in> set evs \<longleftrightarrow> \<not> isl res"
proof -
  have "\<not> hands_off evs" using assms(2) by (force simp: hands_off_def list_all_iff)
  with assms(1) show thesis
  proof (cases rule: Notify_admitting)
    case (admitting q tok key st1 pol target nav ready rq a out1 evs')
    from admitting(19) show thesis
    proof (cases rule: admit_and_deliver_cases)
      case (delivered r' st2 req' status why backend final res)
      have "r' = r" using assms(2) by (auto simp: admitting(20) delivered(7) split: if_splits)
      moreover have "ad_Key a = key" "ad_Digest a = digest sha q" by (simp_all add: admitting(18))
      ultimately show thesis
        using admitting delivered by (intro that [of q tok a st1 st2 status why backend final res]) simp_all
    qed (use assms(2) in \<open>simp_all add: admitting(20)\<close>)
  qed
qed

text \<open>
  The client of a journal relies on four things: a call only moves the state forward, a key is
  admitted again only when \<^verbatim>\<open>apart\<close> holds, a recorded outcome is what later lookups find
  while the record is \<^verbatim>\<open>retained\<close>, and a fresh admission stores the receipt of its request.
\<close>

definition settles :: "jreceipt \<Rightarrow> string \<Rightarrow> string \<Rightarrow> string \<Rightarrow> navigation \<Rightarrow> jreceipt" where
  "settles p status why backend nav =
     p\<lparr>jr_OutcomeNavigation := Some nav, jr_Status := status, jr_Reason := why, jr_Backend := backend\<rparr>"

text \<open>A replay without a request to the journal's admission was found by the lookup.\<close>

lemma answered:
  assumes "Notify sha port env p c d st = (out, evs, st')" and "nr_Replayed out" and "hands_off evs"
  obtains q tok r where "validate_payload p c = (q, [])"
    "ap_Lookup port (ce_LookupEnv env) (request_key sha c q (hexEncode tok)) (digest sha q) st = (Inr (Some r), st')"
    "out = replay r"
  using assms(1)
proof (cases rule: Notify_cases)
  case (looked q tok key r)
  then show thesis using that assms(2) by auto
next
  case (entered q tok key out1 st1 evs1)
  with entered_hands_off [OF entered(7)] assms(2,3) show thesis by simp
qed (use assms(2) in simp)

lemma validate_payload_id: "validate_payload p c = (q, r) \<Longrightarrow> np_RequestID q = np_RequestID p"
  by (auto simp: validate_payload_def default_navigation_def Let_def split: if_splits option.splits)

locale admission_contract =
  fixes port :: "('e, 'st) admission_port"
    and ok :: "'st \<Rightarrow> bool"
    and later :: "'st \<Rightarrow> 'st \<Rightarrow> bool"
    and apart :: "jrecord \<Rightarrow> jrecord \<Rightarrow> bool"
    and retained :: "'st \<Rightarrow> jrecord \<Rightarrow> bool"
  assumes later_refl: "ok st \<Longrightarrow> later st st"
    and later_trans: "ok st \<Longrightarrow> later st st1 \<Longrightarrow> later st1 st2 \<Longrightarrow> later st st2"
    and lookup_later: "ok st \<Longrightarrow> ap_Lookup port e k g st = (res, st') \<Longrightarrow> ok st' \<and> later st st'"
    and admit_later: "ok st \<Longrightarrow> ap_Admit port e a st = (res, st') \<Longrightarrow> ok st' \<and> later st st'"
    and finalize_later:
      "ok st \<Longrightarrow> ap_FinalizeOutcome port e k attempt status why backend onav st = (res, st') \<Longrightarrow> ok st' \<and> later st st'"
    and fresh_apart:
      "ok st \<Longrightarrow> ap_Admit port e a st = (Inr (Some r), st1) \<Longrightarrow> rs_Fresh r \<Longrightarrow> later st1 st2 \<Longrightarrow> ok st2 \<Longrightarrow>
       ap_Admit port e' a' st2 = (Inr (Some r'), st3) \<Longrightarrow> rs_Fresh r' \<Longrightarrow> ad_Key a' = ad_Key a \<Longrightarrow>
       apart (rs_Record r) (rs_Record r')"
    and settled_stays:
      "ok st \<Longrightarrow> ap_Admit port e a st = (Inr (Some r), st1) \<Longrightarrow> rs_Fresh r \<Longrightarrow>
       ap_FinalizeOutcome port e' (ad_Key a) (jc_Attempt (rs_Record r)) status why backend (Some nav) st1 = (Inr x, st2) \<Longrightarrow>
       later st2 st3 \<Longrightarrow> ok st3 \<Longrightarrow> ap_Lookup port e'' (ad_Key a) g st3 = (Inr (Some r'), st4) \<Longrightarrow> retained st4 (rs_Record r) \<Longrightarrow>
       jc_Receipt (rs_Record r') = settles (jc_Receipt (rs_Record r)) status why backend nav"
    and digest_stays:
      "ok st \<Longrightarrow> ap_Admit port e a st = (Inr (Some r), st1) \<Longrightarrow> rs_Fresh r \<Longrightarrow> later st1 st2 \<Longrightarrow> ok st2 \<Longrightarrow>
       ap_Lookup port e' (ad_Key a) g st2 = (Inr (Some r'), st3) \<Longrightarrow> retained st3 (rs_Record r) \<Longrightarrow>
       g = ad_Digest a"
begin

lemma admit_and_deliver_later:
  assumes "ok st" and "admit_and_deliver sha port env d nav req a out st = (out', evs, st')"
  shows "ok st' \<and> later st st'"
  using assms(2)
proof (cases rule: admit_and_deliver_cases)
  case (delivered r st1 req' status why backend final res)
  from admit_later [OF assms(1) delivered(1)] finalize_later [of st1] delivered(6) later_trans [OF assms(1)]
  show ?thesis by metis
qed (use admit_later [OF assms(1)] in blast)+

lemma Notify_later:
  assumes "ok st" and "Notify sha port env p c d st = (out, evs, st')"
  shows "ok st' \<and> later st st'"
proof (cases "hands_off evs")
  case False
  with assms(2) show ?thesis
  proof (cases rule: Notify_admitting)
    case (admitting q tok key st1 pol target nav ready req a out1 evs')
    from lookup_later [OF assms(1) admitting(4)] admit_and_deliver_later [OF _ admitting(19)]
      later_trans [OF assms(1)]
    show ?thesis by blast
  qed
next
  case True
  from assms(2) show ?thesis
  proof (cases rule: Notify_cases)
    case (entered q tok key out1 st1 evs')
    with entered_hands_off [OF entered(7)] True lookup_later [OF assms(1) entered(4)] show ?thesis by simp
  qed (use assms(1) later_refl lookup_later in blast)+
qed

lemma delivered_apart:
  assumes "ok st" and "Notify sha port env p c d st = (out, evs, st1)" and "Delivered r req \<in> set evs"
    and "later st1 st2" and "Notify sha port env' p' c' d' st2 = (out', evs', st3)"
    and "Delivered r' req' \<in> set evs'" and "ok st2" and "np_RequestID p = Some ident" and "np_RequestID p' = Some ident" and "Scope sha c = Scope sha c'"
  shows "apart (rs_Record r) (rs_Record r')"
  using assms(2,3)
proof (cases rule: Notify_delivered)
  case 1: (delivered q tok s1 s2 a status why backend final res)
  from assms(5,6) show ?thesis
  proof (cases rule: Notify_delivered)
    case 2: (delivered q' tok' s1' s2' a' status' why' backend' final' res')
    have "np_RequestID q = Some ident" "np_RequestID q' = Some ident"
      using validate_payload_id [OF 1(1)] validate_payload_id [OF 2(1)] assms(8,9) by simp_all
    then have key: "ad_Key a' = ad_Key a"
      using assms(10) by (simp add: 1(3) 2(3) request_key_def Let_def split: prod.split)
    have s1: "ok s1" using lookup_later [OF assms(1) 1(5)] by simp
    have s2: "ok s2" using admit_later [OF s1 1(6)] by simp
    have "later s2 st1" using finalize_later [OF s2 1(8)] by simp
    then have "later s2 st2" using later_trans [OF s2] assms(4) by blast
    then have "later s2 s1'" "ok s1'" using later_trans [OF s2] lookup_later [OF assms(7) 2(5)] by blast+
    then show ?thesis by (rule fresh_apart [OF s1 1(6,7) _ _ 2(6,7) key])
  qed
qed

text \<open>A call answers from the journal only for the payload that was delivered.\<close>

lemma replayed_digest:
  assumes "ok st" and "Notify sha port env p c d st = (out, evs, st1)" and "Delivered r req \<in> set evs"
    and "later st1 st2" and "Notify sha port env' p' c' d' st2 = (out', evs', st3)" and "nr_Replayed out'"
    and "hands_off evs'"
    and "ok st2" and "np_RequestID p = Some ident" and "np_RequestID p' = Some ident" and "Scope sha c = Scope sha c'"
    and "retained st3 (rs_Record r)"
  obtains q q' where "validate_payload p c = (q, [])" "validate_payload p' c' = (q', [])" "digest sha q' = digest sha q"
  using assms(2,3)
proof (cases rule: Notify_delivered)
  case 1: (delivered q tok s1 s2 a status why backend final res)
  have s1: "ok s1" using lookup_later [OF assms(1) 1(5)] by simp
  have s2: "ok s2" using admit_later [OF s1 1(6)] by simp
  have l: "later s2 st2"
    using later_trans [OF s2] finalize_later [OF s2 1(8)] assms(4) by blast
  from answered [OF assms(5-7)] obtain q' tok' r' where 2:
    "validate_payload p' c' = (q', [])"
    "ap_Lookup port (ce_LookupEnv env') (request_key sha c' q' (hexEncode tok')) (digest sha q') st2 = (Inr (Some r'), st3)" .
  have "np_RequestID q = Some ident" "np_RequestID q' = Some ident"
    using validate_payload_id [OF 1(1)] validate_payload_id [OF 2(1)] assms(9,10) by simp_all
  then have "request_key sha c' q' (hexEncode tok') = ad_Key a"
    using assms(11) by (simp add: 1(3) request_key_def Let_def split: prod.split)
  with digest_stays [OF s1 1(6,7) l assms(8) _ assms(12)] 2(2) 1(4) have "digest sha q' = digest sha q" by metis
  with 1(1) 2(1) show thesis by (rule that)
qed

text \<open>
  A call that answers from the journal a request whose outcome was recorded gives the receipt of the
  call that delivered it.
\<close>

lemma replayed_outcome:
  assumes "ok st" and "Notify sha port env p c d st = (out, evs, st1)" and "Delivered r req \<in> set evs"
    and "Finalized \<in> set evs"
    and "later st1 st2" and "Notify sha port env' p' c' d' st2 = (out', evs', st3)" and "nr_Replayed out'"
    and "hands_off evs'"
    and "ok st2" and "np_RequestID p = Some ident" and "np_RequestID p' = Some ident" and "Scope sha c = Scope sha c'"
    and "retained st3 (rs_Record r)"
  shows "out' = out\<lparr>nr_Replayed := True\<rparr>"
  using assms(2,3)
proof (cases rule: Notify_delivered)
  case 1: (delivered q tok s1 s2 a status why backend final res)
  have s1: "ok s1" using lookup_later [OF assms(1) 1(5)] by simp
  obtain x where res: "res = Inr x" using 1(10) assms(4) by (cases res) auto
  from answered [OF assms(6-8)] obtain q' tok' r' where 2:
    "validate_payload p' c' = (q', [])"
    "ap_Lookup port (ce_LookupEnv env') (request_key sha c' q' (hexEncode tok')) (digest sha q') st2 = (Inr (Some r'), st3)"
    "out' = replay r'" .
  have "np_RequestID q = Some ident" "np_RequestID q' = Some ident"
    using validate_payload_id [OF 1(1)] validate_payload_id [OF 2(1)] assms(10,11) by simp_all
  then have "request_key sha c' q' (hexEncode tok') = ad_Key a"
    using assms(12) by (simp add: 1(3) request_key_def Let_def split: prod.split)
  with settled_stays [OF s1 1(6,7) 1(8) [unfolded res] assms(5,9)] 2(2) assms(13)
  have "jc_Receipt (rs_Record r') = settles (jc_Receipt (rs_Record r)) status why backend final" by metis
  then show ?thesis
    by (simp add: 2(3) 1(9) res settled_receipt_def replay_def fromJournal_def settles_def)
qed

end

subsection \<open>The journal as an admission port\<close>

text \<open>
  One call of a store: what other processes did to the journal before it, the sample and the token
  it reads, and a fault of its storage, which may come before or after the image was replaced.
\<close>

datatype storage_fault = NoFault | FailBefore jerr | FailAfter jerr

record journal_env =
  je_Others :: "jop list"
  je_Sample :: sample
  je_Token :: "string option"
  je_Fault :: storage_fault

definition journal_call ::
    "(string \<Rightarrow> string) \<Rightarrow> Limits \<Rightarrow> (disk \<Rightarrow> bool) \<Rightarrow> journal_env \<Rightarrow> jop \<Rightarrow> disk
     \<Rightarrow> (jerr + result option) \<times> disk" where
  "journal_call sha limits fits e op d =
     (let d1 = jrun sha limits fits (je_Others e) d;
          (res, d2) = japply sha limits fits op d1
      in case je_Fault e of
           NoFault \<Rightarrow> (res, d2)
         | FailBefore x \<Rightarrow> (Inl x, d1)
         | FailAfter x \<Rightarrow> (Inl x, d2))"

definition journal_port ::
    "(string \<Rightarrow> string) \<Rightarrow> Limits \<Rightarrow> (disk \<Rightarrow> bool) \<Rightarrow> (journal_env, disk) admission_port" where
  "journal_port sha limits fits =
     \<lparr>ap_Lookup = (\<lambda>e k g. journal_call sha limits fits e (JLookup k g)),
      ap_Admit = (\<lambda>e a. journal_call sha limits fits e (JAdmit (je_Sample e) (je_Token e) a)),
      ap_FinalizeOutcome = (\<lambda>e k attempt status why backend nav.
        journal_call sha limits fits e (JFinalize k attempt status why backend nav))\<rparr>"

definition retention_apart :: "Limits \<Rightarrow> jrecord \<Rightarrow> jrecord \<Rightarrow> bool" where
  "retention_apart limits r r' \<longleftrightarrow>
     jc_Created r \<le> jc_Created r' \<and> lm_Retention limits \<le> jc_Created r' - jc_Created r"

definition retained_at :: "Limits \<Rightarrow> disk \<Rightarrow> jrecord \<Rightarrow> bool" where
  "retained_at limits d r \<longleftrightarrow> logical d - jc_Created r < lm_Retention limits"

lemma journal_limits: "journal_ok limits d \<Longrightarrow> dk_Limits d = limits"
  by (simp add: journal_ok_def validate_def disk_header_ok_def)

lemma journal_call_later:
  assumes "journal_ok limits d" and "journal_call sha limits fits e op d = (res, d')"
  shows "journal_ok limits d' \<and> keeps_records d d'"
proof -
  let ?d1 = "jrun sha limits fits (je_Others e) d"
  have ok: "journal_ok limits ?d1" and k: "keeps_records d ?d1"
    by (rule jrun_ok [OF assms(1)], rule jrun_keeps [OF assms(1)])
  have "journal_ok limits (snd (japply sha limits fits op ?d1))"
    and "keeps_records d (snd (japply sha limits fits op ?d1))"
    using japply_keeps [OF ok] keeps_trans [OF k japply_keeps_records assms(1)] by blast+
  with assms(2) ok k show ?thesis
    by (auto simp: journal_call_def Let_def split: storage_fault.splits prod.splits)
qed

lemma journal_call_success:
  "journal_call sha limits fits e op d = (Inr x, d') \<Longrightarrow>
     japply sha limits fits op (jrun sha limits fits (je_Others e) d) = (Inr x, d')"
  by (auto simp: journal_call_def Let_def split: storage_fault.splits prod.splits)

lemma fresh_dispatching:
  assumes "japply sha limits fits (JAdmit x tok a) d = (Inr (Some r), d')" and "rs_Fresh r"
  shows "jc_State (rs_Record r) = ''dispatching''"
proof -
  from fresh_admission [OF assms] obtain rates before e
    where at: "admit_at sha tok rates a before e = (Inr (Some r), True, d')" .
  then show ?thesis
    by (auto simp: admit_at_def enter_record_def new_record_def Let_def split: if_splits option.splits)
qed

lemma finalize_success:
  assumes "japply sha limits fits (JFinalize k attempt status why backend nav) d = (Inr x, d')"
  obtains r where "map_of (dk_Records d) (scoped sha (dk_Namespace d) k) = Some r" "jc_Attempt r = attempt"
    "jc_State r = ''dispatching''" "validTerminal status" "dk_Namespace d' = dk_Namespace d"
    "map_of (dk_Records d') (scoped sha (dk_Namespace d) k) = Some (settled_record status why backend nav r)"
  using assms
  by (auto simp: commit_def finalize_fn_def outcome_args_ok_def Let_def update_conv'
      split: if_splits option.splits)

lemma still_retained:
  assumes "keeps_records d e" and "map_of (dk_Records d) key = Some r" and "journal_ok limits d"
    and "keeps_records e f" and "retained_at limits f r"
  obtains r' where "map_of (dk_Records e) key = Some r'" "same_admission r r'"
proof -
  have le: "jc_Created r \<le> logical e"
    using created_bound [OF assms(3,2)] assms(1) by (auto simp: keeps_records_def)
  have "\<not> lm_Retention (dk_Limits d) \<le> logical e - jc_Created r"
    using later_gap [OF le] assms(4,5) journal_limits [OF assms(3)]
    by (auto simp: keeps_records_def retained_at_def not_le [symmetric])
  with assms(1,2) show thesis using that unfolding keeps_records_def by blast
qed

text \<open>What happens to one record between an admission, its outcome and a later lookup.\<close>

lemma settled_outcome:
  assumes ok: "journal_ok limits d0" and R: "map_of (dk_Records d0) (scoped sha (dk_Namespace d0) k) = Some rec"
    and k1: "keeps_records d0 d1" and okd1: "journal_ok limits d1"
    and fin: "japply sha limits fits (JFinalize k attempt status why backend (Some nav)) d1 = (Inr y, d2)"
    and k3: "keeps_records d2 d3"
    and look: "japply sha limits fits (JLookup k g) d3 = (Inr (Some r'), d4)" and retained: "retained_at limits d4 rec"
  shows "jc_Receipt (rs_Record r') = settles (jc_Receipt rec) status why backend nav"
proof -
  let ?id = "scoped sha (dk_Namespace d0) k"
  have k2: "keeps_records d1 d2" using japply_keeps_records [of d1] fin by (metis snd_conv)
  have ok2: "journal_ok limits d2" using japply_keeps [OF okd1] fin by (metis snd_conv)
  have d4: "d4 = d3" using look by (auto simp: commit_def split: if_splits)
  have ns: "dk_Namespace d1 = dk_Namespace d0" "dk_Namespace d3 = dk_Namespace d0"
    using k1 k2 k3 by (simp_all add: keeps_records_def)
  from finalize_success [OF fin] obtain r0 where r0:
    "map_of (dk_Records d1) ?id = Some r0" "jc_State r0 = ''dispatching''" "validTerminal status"
    "map_of (dk_Records d2) ?id = Some (settled_record status why backend (Some nav) r0)"
    unfolding ns by blast
  have kd3: "keeps_records d1 d4" unfolding d4 by (rule keeps_trans [OF k2 k3 okd1])
  from still_retained [OF k1 R ok kd3 retained] r0(1,2) have same: "r0 = rec"
    by (auto simp: same_admission_def)
  let ?S = "settled_record status why backend (Some nav) rec"
  have "retained_at limits d4 ?S" using retained by (simp add: retained_at_def settled_record_def)
  from still_retained [OF k3 r0(4) ok2 keeps_refl, unfolded same, folded d4, OF this] obtain r'' where
    "map_of (dk_Records d4) ?id = Some r''" "same_admission ?S r''" .
  moreover have "jc_State ?S \<noteq> ''dispatching''"
    using terminal_not_dispatching [OF r0(3)] by (simp add: settled_record_def)
  ultimately have "map_of (dk_Records d4) ?id = Some ?S" by (simp add: same_admission_def)
  then have "rs_Record r' = ?S"
    using look ns d4 by (auto simp: commit_def lookup_def Let_def split: if_splits option.splits)
  then show ?thesis by (simp add: settled_record_def settles_def)
qed

lemma journal_settled_stays:
  assumes ok: "journal_ok limits st"
    and "journal_call sha limits fits e (JAdmit x tok a) st = (Inr (Some r), st1)" and "rs_Fresh r"
    and "journal_call sha limits fits e' (JFinalize (ad_Key a) (jc_Attempt (rs_Record r)) status why backend (Some nav)) st1
           = (Inr y, st2)"
    and "keeps_records st2 st3"
    and "journal_call sha limits fits e'' (JLookup (ad_Key a) g) st3 = (Inr (Some r'), st4)"
    and "journal_ok limits st3" and "retained_at limits st4 (rs_Record r)"
  shows "jc_Receipt (rs_Record r') = settles (jc_Receipt (rs_Record r)) status why backend nav"
proof -
  have ok1: "journal_ok limits st1" using journal_call_later [OF ok assms(2)] by simp
  have ok2: "journal_ok limits st2" using journal_call_later [OF ok1 assms(4)] by simp
  have R: "map_of (dk_Records st1) (scoped sha (dk_Namespace st1) (ad_Key a)) = Some (rs_Record r)"
    using fresh_stored [OF journal_call_success [OF assms(2)] assms(3)] by simp
  show ?thesis
    by (rule settled_outcome [OF ok1 R jrun_keeps [OF ok1] jrun_ok [OF ok1] journal_call_success [OF assms(4)]
          keeps_trans [OF assms(5) jrun_keeps [OF assms(7)] ok2] journal_call_success [OF assms(6)] assms(8)])
qed

lemma lookup_found:
  assumes "japply sha limits fits (JLookup k g) d = (Inr (Some r), d')"
  shows "d' = d \<and> map_of (dk_Records d) (scoped sha (dk_Namespace d) k) = Some (rs_Record r)
    \<and> jc_Digest (rs_Record r) = hexEncode g"
  using assms by (auto simp: commit_def lookup_def Let_def split: if_splits option.splits)

lemma fresh_digest:
  assumes "japply sha limits fits (JAdmit x tok a) d = (Inr (Some r), d')" and "rs_Fresh r"
  shows "jc_Digest (rs_Record r) = hexEncode (ad_Digest a)"
proof -
  from fresh_admission [OF assms] obtain rates before e
    where at: "admit_at sha tok rates a before e = (Inr (Some r), True, d')" .
  then show ?thesis by (auto elim!: entered_image)
qed

lemma looked_digest:
  assumes ok: "journal_ok limits d0" and R: "map_of (dk_Records d0) (scoped sha (dk_Namespace d0) k) = Some rec"
    and k: "keeps_records d0 d2" and look: "japply sha limits fits (JLookup k g) d2 = (Inr (Some r'), d3)"
    and retained: "retained_at limits d3 rec"
  shows "hexEncode g = jc_Digest rec"
proof -
  from lookup_found [OF look]
  have look: "d3 = d2" "map_of (dk_Records d2) (scoped sha (dk_Namespace d2) k) = Some (rs_Record r')"
    "jc_Digest (rs_Record r') = hexEncode g" by simp_all
  from still_retained [OF k R ok keeps_refl retained [unfolded look(1)]] look(2) k
  have "jc_Digest (rs_Record r') = jc_Digest rec"
    by (auto simp: keeps_records_def same_admission_def)
  then show ?thesis using look(3) by simp
qed

lemma journal_digest_stays:
  assumes ok: "journal_ok limits st"
    and "journal_call sha limits fits e (JAdmit x tok a) st = (Inr (Some r), st1)" and "rs_Fresh r"
    and "keeps_records st1 st2" and "journal_ok limits st2"
    and "journal_call sha limits fits e' (JLookup (ad_Key a) g) st2 = (Inr (Some r'), st3)"
    and "retained_at limits st3 (rs_Record r)"
  shows "g = ad_Digest a"
proof -
  have ok1: "journal_ok limits st1" using journal_call_later [OF ok assms(2)] by simp
  note adm = journal_call_success [OF assms(2)]
  have R: "map_of (dk_Records st1) (scoped sha (dk_Namespace st1) (ad_Key a)) = Some (rs_Record r)"
    using fresh_stored [OF adm assms(3)] by simp
  have "hexEncode g = jc_Digest (rs_Record r)"
    by (rule looked_digest [OF ok1 R keeps_trans [OF assms(4) jrun_keeps [OF assms(5)] ok1]
          journal_call_success [OF assms(6)] assms(7)])
  then show ?thesis using fresh_digest [OF adm assms(3)] by (simp add: hexEncode_inject)
qed

interpretation journal_admission:
  admission_contract "journal_port sha limits fits" "journal_ok limits" keeps_records
    "retention_apart limits" "retained_at limits" for sha limits fits
proof
  show "keeps_records st st" if "journal_ok limits st" for st by (rule keeps_refl)
  show "keeps_records st st2"
    if "journal_ok limits st" "keeps_records st st1" "keeps_records st1 st2" for st st1 st2
    using keeps_trans that by blast
  show "journal_ok limits st' \<and> keeps_records st st'"
    if "journal_ok limits st" "ap_Lookup (journal_port sha limits fits) e k g st = (res, st')" for st e k g res st'
    using journal_call_later that by (simp add: journal_port_def)
  show "journal_ok limits st' \<and> keeps_records st st'"
    if "journal_ok limits st" "ap_Admit (journal_port sha limits fits) e a st = (res, st')" for st e a res st'
    using journal_call_later that by (simp add: journal_port_def)
  show "journal_ok limits st' \<and> keeps_records st st'"
    if "journal_ok limits st"
      "ap_FinalizeOutcome (journal_port sha limits fits) e k attempt status why backend onav st = (res, st')"
    for st e k attempt status why backend onav res st'
    using journal_call_later that by (simp add: journal_port_def)
  show "retention_apart limits (rs_Record r) (rs_Record r')"
    if "journal_ok limits st" "ap_Admit (journal_port sha limits fits) e a st = (Inr (Some r), st1)" "rs_Fresh r"
      "keeps_records st1 st2" "journal_ok limits st2" "ap_Admit (journal_port sha limits fits) e' a' st2 = (Inr (Some r'), st3)" "rs_Fresh r'"
      "ad_Key a' = ad_Key a"
    for st e a r st1 st2 e' a' r' st3
  proof -
    from that have ok1: "journal_ok limits st1"
      using journal_call_later [OF that(1)] by (simp add: journal_port_def)
    have adm: "japply sha limits fits (JAdmit (je_Sample e) (je_Token e) a) (jrun sha limits fits (je_Others e) st)
        = (Inr (Some r), st1)"
      by (rule journal_call_success) (use that(2) in \<open>simp add: journal_port_def\<close>)
    have stored: "map_of (dk_Records st1) (scoped sha (dk_Namespace st1) (ad_Key a')) = Some (rs_Record r)"
      using fresh_stored [OF adm that(3)] that(8) by simp
    have adm': "japply sha limits fits (JAdmit (je_Sample e') (je_Token e') a') (jrun sha limits fits (je_Others e') st2)
        = (Inr (Some r'), st3)"
      by (rule journal_call_success) (use that(6) in \<open>simp add: journal_port_def\<close>)
    have "keeps_records st1 (jrun sha limits fits (je_Others e') st2)"
      by (rule keeps_trans [OF that(4) jrun_keeps [OF that(5)] ok1])
    from fresh_apart [OF ok1 stored this adm' that(7)] show ?thesis by (simp add: retention_apart_def)
  qed
  show "jc_Receipt (rs_Record r') = settles (jc_Receipt (rs_Record r)) status why backend nav"
    if "journal_ok limits st" "ap_Admit (journal_port sha limits fits) e a st = (Inr (Some r), st1)" "rs_Fresh r"
      "ap_FinalizeOutcome (journal_port sha limits fits) e' (ad_Key a) (jc_Attempt (rs_Record r)) status why backend
         (Some nav) st1 = (Inr x, st2)"
      "keeps_records st2 st3" "journal_ok limits st3"
      "ap_Lookup (journal_port sha limits fits) e'' (ad_Key a) g st3 = (Inr (Some r'), st4)"
      "retained_at limits st4 (rs_Record r)"
    for st e a r st1 e' status why backend nav x st2 st3 e'' g r' st4
    using that journal_settled_stays [of limits st sha fits e "je_Sample e" "je_Token e" a r st1 e' status why backend nav
        x st2 st3 e'' g r' st4]
    by (simp add: journal_port_def)
  show "g = ad_Digest a"
    if "journal_ok limits st" "ap_Admit (journal_port sha limits fits) e a st = (Inr (Some r), st1)" "rs_Fresh r"
      "keeps_records st1 st2" "journal_ok limits st2"
      "ap_Lookup (journal_port sha limits fits) e' (ad_Key a) g st2 = (Inr (Some r'), st3)"
      "retained_at limits st3 (rs_Record r)"
    for st e a r st1 st2 e' g r' st3
    using that journal_digest_stays [of limits st sha fits e "je_Sample e" "je_Token e" a r st1 st2 e' g r' st3]
    by (simp add: journal_port_def)
qed

subsection \<open>A call that goes through\<close>

lemma Notify_delivers:
  assumes "ce_PortsSet env" "\<not> ce_Closed env" "\<And>ph. overdue env ph d = []"
    and "validate_payload p c = (q, [])" "ce_Tracking env = Some tok" "key = request_key sha c q (hexEncode tok)"
    and "ap_Lookup port (ce_LookupEnv env) key (digest sha q) st = (Inr None, st1)" "fst (enter (ce_Gate env)) = []"
    and "load_policy env c = Inr pol" "ps_ExplicitEnabled (py_Delivery pol)" "ps_DesktopEnabled (py_Delivery pol)"
    and "oc_Locality c \<noteq> Remote" "oc_Interface c \<noteq> Headless" "\<not> routing_refused pol c q"
    and "choose_target env pol c q = Inr target"
    and "np_Navigation q = Required \<Longrightarrow> nv_Capability (ot_Navigation target) = ''available''"
    and "req = build_request sha (hexEncode tok) q d pol target" "readiness_valid req (ce_CheckReadiness env req)"
    and "rd_Status (ce_CheckReadiness env req) = ''ready''"
    and "reconcileNavigation (ot_Navigation target) (rd_Navigation (ce_CheckReadiness env req)) = (nav, True)"
    and "np_Navigation q = Required \<Longrightarrow> nv_Capability nav = ''available''"
    and "a = \<lparr>ad_Rates = py_Rates pol, ad_Key = key, ad_Digest = digest sha q, ad_TrackingID = hexEncode tok,
             ad_Decision = (service_snapshot pol target)\<lparr>sn_Navigation := nav\<rparr>\<rparr>"
    and "ap_Admit port (ce_AdmitEnv env) a st1 = (Inr (Some r), st2)" "rs_Fresh r"
    and "req' = (if nv_Capability nav \<noteq> ''available'' then req\<lparr>rq_Target := no_target\<rparr> else req)
           \<lparr>rq_CorrelationID := correlationID sha (rs_ScopedKey r) (jc_Attempt (rs_Record r))\<rparr>"
    and "delivery_outcome nav req' (ce_Deliver env req') = (status, why, backend, final)"
    and "ap_FinalizeOutcome port (ce_FinalizeEnv env) key (jc_Attempt (rs_Record r)) status why backend (Some final) st2
           = (res, st3)"
  shows "Notify sha port env p c d st =
    (settled_receipt (fromJournal (jc_Receipt (rs_Record r)) False) res (status, why, backend, final),
     [Looked key (digest sha q), Entered, Checked req, Admitting a, Delivered r req',
      Finalizing key (jc_Attempt (rs_Record r)) status why backend final]
     @ (if isl res then [] else [Finalized]) @ [Left], st3)"
proof -
  let ?req = "if nv_Capability nav \<noteq> ''available'' then req\<lparr>rq_Target := no_target\<rparr> else req"
  have del: "deliver_admitted sha port env key d nav ?req r st2 =
      (settled_receipt (fromJournal (jc_Receipt (rs_Record r)) False) res (status, why, backend, final),
       [Delivered r req', Finalizing key (jc_Attempt (rs_Record r)) status why backend final]
       @ (if isl res then [] else [Finalized]), st3)"
    using assms(3,26,27) unfolding deliver_admitted_def Let_def assms(25) [symmetric]
    by (cases res) (simp_all add: settled_receipt_def)
  have key: "ad_Key a = key" by (simp add: assms(22))
  have adm: "admit_and_deliver sha port env d nav ?req a out st1 =
      (settled_receipt (fromJournal (jc_Receipt (rs_Record r)) False) res (status, why, backend, final),
       Admitting a # [Delivered r req', Finalizing key (jc_Attempt (rs_Record r)) status why backend final]
       @ (if isl res then [] else [Finalized]), st3)" for out
    using assms(23,24) unfolding admit_and_deliver_def key by (simp add: del)
  have check: "check_and_admit sha port env q key (digest sha q) (hexEncode tok) d pol target out st1 =
      (settled_receipt (fromJournal (jc_Receipt (rs_Record r)) False) res (status, why, backend, final),
       [Checked req, Admitting a, Delivered r req',
        Finalizing key (jc_Attempt (rs_Record r)) status why backend final]
       @ (if isl res then [] else [Finalized]), st3)" for out
  proof -
    have "\<not> (np_Navigation q = Required \<and> nv_Capability nav \<noteq> ''available'')" using assms(21) by blast
    then show ?thesis
      using assms(3,18-20) unfolding check_and_admit_def Let_def assms(17) [symmetric]
      by (simp only: prod.case simp_thms if_False if_True fst_conv snd_conv adm [unfolded assms(22)] append.simps assms(22))
  qed
  have enter: "entered_call sha port env c q key (digest sha q) (hexEncode tok) d out st1 =
      (settled_receipt (fromJournal (jc_Receipt (rs_Record r)) False) res (status, why, backend, final),
       [Checked req, Admitting a, Delivered r req',
        Finalizing key (jc_Attempt (rs_Record r)) status why backend final]
       @ (if isl res then [] else [Finalized]), st3)" for out
    using assms(3,9-16) by (auto simp: entered_call_def check)
  show ?thesis
    using assms(1-5,7,8) unfolding Notify_def Let_def by (simp add: enter assms(6) [symmetric])
qed

lemma Notify_found:
  assumes "ce_PortsSet env" "\<not> ce_Closed env" "\<And>ph. overdue env ph d = []"
    and "validate_payload p c = (q, [])" "ce_Tracking env = Some tok"
    and "ap_Lookup port (ce_LookupEnv env) (request_key sha c q (hexEncode tok)) (digest sha q) st = (Inr (Some r), st1)"
  shows "Notify sha port env p c d st = (replay r, [Looked (request_key sha c q (hexEncode tok)) (digest sha q)], st1)"
  using assms by (simp add: Notify_def Let_def)

lemma finalize_granted:
  assumes "journal_ok limits d" and "outcome_args_ok k attempt status why backend (Some nav)"
    and "map_of (dk_Records d) (scoped sha (dk_Namespace d) k) = Some r" "jc_Attempt r = attempt"
    and "jc_State r = ''dispatching''" and "validNavigationTransition (sn_Navigation (jr_Decision (jc_Receipt r))) nav"
  shows "japply sha limits (\<lambda>_. True) (JFinalize k attempt status why backend (Some nav)) d =
    (Inr None, d\<lparr>dk_Records := AList.update (scoped sha (dk_Namespace d) k)
                     (settled_record status why backend (Some nav) r) (dk_Records d)\<rparr>)"
proof -
  let ?d = "d\<lparr>dk_Records := AList.update (scoped sha (dk_Namespace d) k)
                     (settled_record status why backend (Some nav) r) (dk_Records d)\<rparr>"
  have out: "finalize_fn sha k attempt status why backend (Some nav) d = (Inr None, True, ?d)"
    using assms(3-6) by (simp add: finalize_fn_def)
  have "validate limits ?d"
    using validate_settle [OF _ assms(2) out] assms(1) by (simp add: journal_ok_def)
  with out assms(2) show ?thesis by (simp add: commit_def)
qed

end
