(* ===== verification/NotifyProperties.thy ===== *)
theory NotifyProperties
  imports NotifyJournal
begin

text \<open>
  What a call of the service guarantees: on its own (the gate, retries, the requests it makes) and
  over the journal, whatever other processes do to the journal meanwhile.
\<close>

subsection \<open>The gate\<close>

text \<open>The gate with the number of calls inside; each step is one critical section.\<close>

inductive gate_step :: "gate \<times> nat \<Rightarrow> gate \<times> nat \<Rightarrow> bool" where
  enters: "enter g = ([], g') \<Longrightarrow> gate_step (g, h) (g', Suc h)"
| refused: "enter g = (reason, g') \<Longrightarrow> reason \<noteq> [] \<Longrightarrow> gate_step (g, h) (g', h)"
| leaves: "leave g = Some g' \<Longrightarrow> gate_step (g, Suc h) (g', h)"
| closes: "close_gate g = Some g' \<Longrightarrow> gate_step (g, h) (g', h)"

inductive_cases gate_stepE: "gate_step x y"

definition new_gate :: gate where
  "new_gate = \<lparr>gt_closed = False, gt_active = 0, gt_drained = False\<rparr>"

definition gate_ok :: "gate \<times> nat \<Rightarrow> bool" where
  "gate_ok x = (let (g, h) = x in gt_active g = int h \<and> h \<le> 2 \<and> (gt_drained g \<longleftrightarrow> gt_closed g \<and> h = 0))"

lemma gate_step_ok: "gate_step x y \<Longrightarrow> gate_ok x \<Longrightarrow> gate_ok y"
  by (erule gate_stepE)
    (auto simp: gate_ok_def enter_def leave_def close_gate_def close_drained_def Let_def split: if_splits)

lemma gate_reachable: "gate_step\<^sup>*\<^sup>* (new_gate, 0) x \<Longrightarrow> gate_ok x"
proof (induction rule: rtranclp_induct)
  case base
  show ?case by (simp add: gate_ok_def new_gate_def)
next
  case (step y z)
  then show ?case by (blast intro: gate_step_ok)
qed

text \<open>
  Property C19. However calls and closings interleave, the gate counts exactly the calls inside, at
  most two, the drained channel is closed exactly when the gate is closed and empty, and neither
  leaving nor closing ever panics.
\<close>

theorem gate_never_panics:
  assumes "gate_step\<^sup>*\<^sup>* (new_gate, 0) (g, h)"
  shows "gt_active g = int h \<and> h \<le> 2 \<and> (gt_drained g \<longleftrightarrow> gt_closed g \<and> h = 0)
    \<and> close_gate g \<noteq> None \<and> (if 0 < h then leave g \<noteq> None else True)"
  using gate_reachable [OF assms]
  by (auto simp: gate_ok_def leave_def close_gate_def close_drained_def Let_def split: if_splits)

lemma gate_never_panics_witness:
  "gt_drained \<lparr>gt_closed = True, gt_active = 0, gt_drained = True\<rparr>
   \<and> close_gate \<lparr>gt_closed = True, gt_active = 0, gt_drained = True\<rparr> \<noteq> None"
proof -
  have "gate_step (new_gate, 0) (\<lparr>gt_closed = False, gt_active = 1, gt_drained = False\<rparr>, Suc 0)"
    by (rule enters) (simp add: enter_def new_gate_def)
  moreover have "gate_step (\<lparr>gt_closed = False, gt_active = 1, gt_drained = False\<rparr>, Suc 0)
      (\<lparr>gt_closed = True, gt_active = 1, gt_drained = False\<rparr>, Suc 0)"
    by (rule closes) (simp add: close_gate_def)
  moreover have "gate_step (\<lparr>gt_closed = True, gt_active = 1, gt_drained = False\<rparr>, Suc 0)
      (\<lparr>gt_closed = True, gt_active = 0, gt_drained = True\<rparr>, 0)"
    by (rule leaves) (simp add: leave_def close_drained_def)
  ultimately have "gate_step\<^sup>*\<^sup>* (new_gate, 0) (\<lparr>gt_closed = True, gt_active = 0, gt_drained = True\<rparr>, 0)"
    by (meson rtranclp.rtrancl_into_rtrancl rtranclp.rtrancl_refl)
  from gate_never_panics [OF this] show ?thesis by simp
qed

subsection \<open>Retries\<close>

text \<open>
  Property C8. A receipt marked as safe to retry means that the call admitted nothing, delivered
  nothing and left the journal as its lookup left it.
\<close>

theorem notify_retry_safe:
  assumes "Notify sha port env p c d st = (out, evs, st')" and "nr_RetrySafe out"
  shows "hands_off evs \<and> (st' = st \<or> (\<exists>key g r. ap_Lookup port (ce_LookupEnv env) key g st = (r, st')))"
proof (cases "hands_off evs")
  case True
  from assms(1) have "st' = st \<or> (\<exists>key g r. ap_Lookup port (ce_LookupEnv env) key g st = (r, st'))"
  proof (cases rule: Notify_cases)
    case (entered q tok key out1 st1 evs')
    with entered_hands_off [OF entered(7)] True show ?thesis by auto
  qed auto
  with True show ?thesis by blast
next
  case False
  from assms(1) False have "\<not> nr_RetrySafe out"
  proof (cases rule: Notify_admitting)
    case (admitting q tok key st1 pol target nav ready req a out1 evs')
    from admitting(19) show ?thesis
      by (cases rule: admit_and_deliver_cases)
        (simp_all add: replay_def fromJournal_def settled_receipt_def split: sum.splits)
  qed
  with assms(2) show ?thesis by simp
qed

subsection \<open>Requests and outcomes the journal accepts\<close>

text \<open>What a journal checks of an admission and of an outcome, given the admitted record.\<close>

definition acceptable :: "service_event \<Rightarrow> bool" where
  "acceptable v =
     (case v of
        Admitting a \<Rightarrow>
          valid_key (ad_Key a) \<and> length (ad_Digest a) = 32 \<and> validText (ad_TrackingID a) 256 True
          \<and> validSnapshot (ad_Decision a) \<and> Normalize (ad_Rates a) = Inr (ad_Rates a)
      | Finalizing k attempt status why backend nav \<Rightarrow>
          if isHex attempt then outcome_args_ok k attempt status why backend (Some nav) else True
      | _ \<Rightarrow> True)"

text \<open>
  Property C18. The service asks the journal only for what the journal accepts: keys, digests,
  identifiers, decisions and rates of its admissions are valid, and so are the outcomes it records
  for an attempt.
\<close>

theorem notify_requests_acceptable:
  assumes "Notify sha port env p c d st = (out, evs, st')" and "\<And>s. length (sha s) = 32"
    and "\<And>tok. ce_Tracking env = Some tok \<Longrightarrow> length tok = 32"
  shows "list_all acceptable evs"
proof (cases "hands_off evs")
  case True
  then show ?thesis
    by (auto simp: hands_off_def list_all_iff acceptable_def split: service_event.splits)
next
  case False
  from assms(1) False show ?thesis
  proof (cases rule: Notify_admitting)
    case (admitting q tok key st1 pol target nav ready req a out1 evs')
    have key_ok: "valid_key key"
      unfolding admitting(3) by (rule request_key_valid [OF admitting(1) assms(3) [OF admitting(2)] assms(2)])
    have rates: "Normalize (py_Rates pol) = Inr (py_Rates pol)"
      using admitting(5) Normalize_idem
      by (auto simp: load_policy_def split: sum.splits policy_error.splits if_splits)
    have "validSnapshot ((service_snapshot pol target)\<lparr>sn_Navigation := nav\<rparr>)"
      using admitting(5,11,16) snapshot_valid choose_target_valid reconcile_nav(2) by metis
    with rates have adm: "acceptable (Admitting a)"
      using key_ok assms(2) assms(3) [OF admitting(2)]
      by (simp add: acceptable_def admitting(18) digest_def hexEncode_validText)
    from admitting(19) have "list_all acceptable evs'"
    proof (cases rule: admit_and_deliver_cases)
      case (delivered r st2 req' status why backend final res)
      then show ?thesis
        using adm key_ok delivery_outcome_ok [OF delivered(5)]
        by (auto simp: acceptable_def outcome_args_ok_def admitting(18))
    qed (use adm in simp_all)
    then show ?thesis by (simp add: admitting(20) acceptable_def)
  qed
qed

subsection \<open>Calls over the journal\<close>

text \<open>
  Property C4. A request is delivered once per retention period: if two calls with the same request
  identifier from the same caller both deliver, whatever other processes do to the journal during
  and between the calls and whatever faults its storage has, the logical clock advanced by the
  retention between their admissions.
\<close>

theorem notify_delivers_once:
  assumes "journal_ok limits d"
    and "Notify sha (journal_port sha limits fits) env p c dl d = (out, evs, d1)" and "Delivered r req \<in> set evs"
    and "Notify sha (journal_port sha limits fits) env' p' c' dl' (jrun sha limits fits ops d1) = (out', evs', d2)"
    and "Delivered r' req' \<in> set evs'"
    and "np_RequestID p = Some ident" and "np_RequestID p' = Some ident" and "Scope sha c = Scope sha c'"
  shows "jc_Created (rs_Record r) \<le> jc_Created (rs_Record r')
    \<and> lm_Retention limits \<le> jc_Created (rs_Record r') - jc_Created (rs_Record r)"
proof -
  have ok: "journal_ok limits d1" using journal_admission.Notify_later [OF assms(1,2)] by simp
  from journal_admission.delivered_apart [OF assms(1-3) jrun_keeps [OF ok] assms(4,5) jrun_ok [OF ok] assms(6-8)]
  show ?thesis by (simp add: retention_apart_def)
qed

text \<open>
  Property C9. A repeated request gets the first one's receipt: once an outcome is recorded, a later
  call with the same request identifier from the same caller that answers from the journal returns
  the receipt of the delivering call, marked as replayed, for as long as the record is retained.
\<close>

theorem notify_replays_receipt:
  assumes "journal_ok limits d"
    and "Notify sha (journal_port sha limits fits) env p c dl d = (out, evs, d1)" and "Delivered r req \<in> set evs"
    and "Finalized \<in> set evs"
    and "Notify sha (journal_port sha limits fits) env' p' c' dl' (jrun sha limits fits ops d1) = (out', evs', d2)"
    and "nr_Replayed out'" and "hands_off evs'"
    and "np_RequestID p = Some ident" and "np_RequestID p' = Some ident" and "Scope sha c = Scope sha c'"
    and "logical d2 - jc_Created (rs_Record r) < lm_Retention limits"
  shows "out' = out\<lparr>nr_Replayed := True\<rparr>"
proof -
  have ok: "journal_ok limits d1" using journal_admission.Notify_later [OF assms(1,2)] by simp
  have "retained_at limits d2 (rs_Record r)" using assms(11) by (simp add: retained_at_def)
  from journal_admission.replayed_outcome [OF assms(1-4) jrun_keeps [OF ok] assms(5-7) jrun_ok [OF ok] assms(8-10) this]
  show ?thesis .
qed

text \<open>
  Property C10. A request identifier stands for one payload: as long as the record of a delivered
  request is retained, a later call with its identifier from the same caller is answered by the
  lookup only if it carries the same title, body, category and navigation, unless the digests
  of the two payloads collide.
\<close>

theorem notify_replays_same_payload:
  assumes "journal_ok limits d"
    and "Notify sha (journal_port sha limits fits) env p c dl d = (out, evs, d1)" and "Delivered r req \<in> set evs"
    and "Notify sha (journal_port sha limits fits) env' p' c' dl' (jrun sha limits fits ops d1) = (out', evs', d2)"
    and "nr_Replayed out'" and "hands_off evs'"
    and "np_RequestID p = Some ident" and "np_RequestID p' = Some ident" and "Scope sha c = Scope sha c'"
    and "logical d2 - jc_Created (rs_Record r) < lm_Retention limits"
    and "sha (digest_text (default_navigation p')) = sha (digest_text (default_navigation p)) \<Longrightarrow>
           digest_text (default_navigation p') = digest_text (default_navigation p)"
  shows "np_Title p' = np_Title p \<and> np_Body p' = np_Body p \<and> np_Category p' = np_Category p
    \<and> navigation_string (np_Navigation (default_navigation p')) = navigation_string (np_Navigation (default_navigation p))"
proof -
  have ok: "journal_ok limits d1" using journal_admission.Notify_later [OF assms(1,2)] by simp
  have "retained_at limits d2 (rs_Record r)" using assms(10) by (simp add: retained_at_def)
  from journal_admission.replayed_digest [OF assms(1-3) jrun_keeps [OF ok] assms(4-6) jrun_ok [OF ok] assms(7-9) this]
  obtain q q' where q: "validate_payload p c = (q, [])" "validate_payload p' c' = (q', [])"
    "digest sha q' = digest sha q" .
  note v = validated_texts [OF q(1)] validated_texts [OF q(2)]
  then have eq: "q = default_navigation p" "q' = default_navigation p'" by simp_all
  have "digest_text q' = digest_text q"
    using q(3) assms(11) unfolding eq digest_def by blast
  moreover have "valid_utf8 (np_Title q)" "valid_utf8 (np_Title q')" "valid_utf8 (np_Body q)" "valid_utf8 (np_Body q')"
    "valid_utf8 (np_Category q)" "valid_utf8 (np_Category q')" "valid_utf8 (navigation_string (np_Navigation q))"
    "valid_utf8 (navigation_string (np_Navigation q'))"
    using v by blast+
  ultimately have "np_Title q' = np_Title q \<and> np_Body q' = np_Body q \<and> np_Category q' = np_Category q
    \<and> navigation_string (np_Navigation q') = navigation_string (np_Navigation q)"
    by (intro digest_text_inject)
  then show ?thesis unfolding eq by (simp add: default_navigation_def split: if_splits)
qed

subsection \<open>Examples\<close>

text \<open>One caller, one payload, ports that always agree, and the journal of the earlier examples.\<close>

definition sample_caller :: origin_context where
  "sample_caller = \<lparr>oc_Provider = ''codex'', oc_Namespace = ''n'', oc_SessionID = ''s'', oc_AnonymousCaller = [],
     oc_CallID = [], oc_Provenance = ClientMetadata, oc_Locality = Local, oc_Interface = Desktop, oc_Hidden = False\<rparr>"

definition sample_payload :: notify_payload where
  "sample_payload = \<lparr>np_Title = ''T'', np_Body = ''B'', np_Category = ''info'', np_RequestID = Some ''q1'',
     np_Navigation = NoNavigation\<rparr>"

definition sample_navigation :: navigation where
  "sample_navigation = nav_result ''disabled'' ''none'' [] ''navigation_none''"

definition sample_policy :: Policy where
  "sample_policy =
     \<lparr>py_Rates = \<lparr>rp_SessionPerMinute = 2, rp_RuntimePerMinute = 2, rp_Burst = 2\<rparr>,
      py_Delivery = \<lparr>ps_Valid = True, ps_ExplicitEnabled = True, ps_DesktopEnabled = True, ps_ClickToFocus = True,
                     ps_SoundEnabled = False\<rparr>,
      py_Route = \<lparr>ro_Platform = ''darwin'', ro_Linux = \<lparr>lb_SnapshotPath = [], lb_SHA256 = []\<rparr>, ro_LocalRouting = True,
                  ro_AllowUnknownCaller = False, ro_AllowCallerAsserted = False, ro_ApplicationPath = [], ro_TeamID = []\<rparr>\<rparr>"

definition sample_deadline :: Deadline where
  "sample_deadline = \<lparr>dl_BootID = ''b1'', dl_NotAfter = Some 10\<rparr>"

definition sample_journal_env :: "u64 \<Rightarrow> char \<Rightarrow> journal_env" where
  "sample_journal_env s c =
     \<lparr>je_Others = [], je_Sample = clock_sample ''b1'' s, je_Token = sample_token c, je_Fault = NoFault\<rparr>"

definition sample_ports :: "'e \<Rightarrow> char \<Rightarrow> 'e call_env" where
  "sample_ports e c =
     \<lparr>ce_PortsSet = True, ce_Closed = False, ce_Context = True,
      ce_At = (\<lambda>_. \<lparr>mo_Canceled = False, mo_Now = \<lparr>dl_BootID = ''b1'', dl_NotAfter = Some 0\<rparr>\<rparr>),
      ce_Tracking = Some (replicate 32 c), ce_Gate = new_gate, ce_Load = (\<lambda>_. Inr sample_policy),
      ce_Resolve = (\<lambda>_ _. None),
      ce_CheckReadiness = (\<lambda>r. \<lparr>rd_CorrelationID = rq_CorrelationID r, rd_Status = ''ready'', rd_Reason = ''ok'',
                                 rd_Backend = [], rd_Navigation = sample_navigation\<rparr>),
      ce_Deliver = (\<lambda>r. \<lparr>dr_CorrelationID = rq_CorrelationID r, dr_Status = ''submitted'', dr_Reason = ''accepted'',
                          dr_RetrySafe = False, dr_Backend = ''native'', dr_Navigation = sample_navigation\<rparr>),
      ce_LookupEnv = e, ce_AdmitEnv = e,
      ce_FinalizeEnv = e\<rparr>"

abbreviation sample_env :: "u64 \<Rightarrow> char \<Rightarrow> journal_env call_env" where
  "sample_env s c \<equiv> sample_ports (sample_journal_env s c) c"

abbreviation sample_port :: "(journal_env, disk) admission_port" where
  "sample_port \<equiv> journal_port sample_sha sample_limits (\<lambda>_. True)"

definition request_id :: Key where
  "request_id = request_key sample_sha sample_caller sample_payload []"

lemma sample_valid: "validate_payload sample_payload sample_caller = (sample_payload, [])"
proof -
  have "valid_content ''T'' 256 False" "valid_content ''B'' 4096 True"
    by (simp_all add: valid_content_def valid_utf8_def runes_plain control_rune_def byte_in_def line_separator_def bytes_def)
  moreover have "origin_Validate sample_caller NoNavigation = None"
    by (simp add: origin_Validate_def sample_caller_def plain_Text)
  ultimately show ?thesis
    by (simp add: validate_payload_def default_navigation_def sample_payload_def plain_Text payload_size_def sample_caller_def)
qed

lemma sample_key_any: "request_key sample_sha sample_caller sample_payload t = request_id"
  by (simp add: request_id_def request_key_def sample_payload_def Let_def split: prod.split)

lemma sample_overdue: "overdue (sample_ports e c) ph sample_deadline = []"
  by (simp add: remaining_def sample_ports_def sample_deadline_def plain_Text)

lemma sample_load: "load_policy (sample_ports e c) cl = Inr sample_policy"
  by (simp add: load_policy_def sample_ports_def sample_policy_def Normalize_def MaxRate_def)

lemma sample_target: "choose_target (sample_ports e c) sample_policy cl sample_payload
    = Inr \<lparr>ot_Desktop = no_target, ot_Navigation = sample_navigation\<rparr>"
  by (simp add: choose_target_def sample_payload_def unrouted_def sample_navigation_def)

lemma sample_reconcile: "reconcileNavigation sample_navigation sample_navigation = (sample_navigation, True)"
  by (simp add: reconcileNavigation_def sample_navigation_def nav_result_def plain_Text)

lemma sample_outcome:
  "delivery_outcome sample_navigation r (ce_Deliver (sample_ports e c) r)
     = (''submitted'', ''accepted'', ''native'', sample_navigation)"
  by (simp add: delivery_outcome_def sample_ports_def sample_reconcile delivery_valid_def plain_Text)

definition call_admission :: "char \<Rightarrow> admission" where
  "call_admission c =
     \<lparr>ad_Rates = py_Rates sample_policy, ad_Key = request_id, ad_Digest = digest sample_sha sample_payload,
      ad_TrackingID = hexEncode (replicate 32 c),
      ad_Decision = (service_snapshot sample_policy \<lparr>ot_Desktop = no_target, ot_Navigation = sample_navigation\<rparr>)
        \<lparr>sn_Navigation := sample_navigation\<rparr>\<rparr>"

definition call_record :: "char \<Rightarrow> u64 \<Rightarrow> jrecord" where
  "call_record c now = new_record sample_sha (hexEncode (replicate 32 c)) (call_admission c) (sample_image now 0 [] [])"

definition call_result :: "char \<Rightarrow> u64 \<Rightarrow> result" where
  "call_result c now = \<lparr>rs_ScopedKey = scoped sample_sha sample_ns request_id, rs_Fresh = True, rs_Record = call_record c now\<rparr>"

definition call_image :: "u64 \<Rightarrow> u64 \<Rightarrow> jrecord \<Rightarrow> disk" where
  "call_image now s r =
     sample_image now s [\<lparr>rv_At = now, rv_Session = session_hash sample_sha sample_ns request_id\<rparr>]
       [(scoped sample_sha sample_ns request_id, r)]"

definition settled_call :: "char \<Rightarrow> u64 \<Rightarrow> jrecord" where
  "settled_call c now = settled_record ''submitted'' ''accepted'' ''native'' (Some sample_navigation) (call_record c now)"

lemma request_id_valid: "valid_key request_id"
  using request_key_valid [OF sample_valid, of "replicate 32 CHR ''x''" sample_sha] by (simp add: sample_key_any)

lemma call_admission_valid:
  "Normalize (ad_Rates (call_admission c)) = Inr sample_rates" "validText (ad_TrackingID (call_admission c)) 256 True"
  "validSnapshot (ad_Decision (call_admission c))" "length (ad_Digest (call_admission c)) = 32"
proof -
  show "Normalize (ad_Rates (call_admission c)) = Inr sample_rates"
    by (simp add: call_admission_def sample_policy_def Normalize_def MaxRate_def)
  show "validText (ad_TrackingID (call_admission c)) 256 True"
    by (simp add: call_admission_def hexEncode_validText)
  show "validSnapshot (ad_Decision (call_admission c))"
    using snapshot_valid [OF sample_load choose_target_valid(1) [OF sample_target] reconcile_nav(2) [OF sample_reconcile]
        choose_target_valid(2) [OF sample_target]]
    by (simp add: call_admission_def)
qed (simp add: call_admission_def digest_def)

lemma call_admit:
  assumes "journal_ok sample_limits (sample_image now s ev [])"
    and "advance (clock_sample ''b1'' s') (sample_image now s ev []) = Inr (True, sample_image now' s' ev [])"
    and "filter (recent now' 60) ev = []"
  shows "japply sample_sha sample_limits (\<lambda>_. True) (JAdmit (clock_sample ''b1'' s') (sample_token c) (call_admission c))
      (sample_image now s ev []) = (Inr (Some (call_result c now')), call_image now' s' (call_record c now'))"
proof -
  have tok: "sample_token c = Some (replicate 32 c)" by (simp add: sample_token_def)
  have typed: "op_typed (JAdmit (clock_sample ''b1'' s') (Some (replicate 32 c)) (call_admission c)) (sample_image now s ev [])"
    by (simp add: op_typed_def token_ok_def call_admission_valid)
  have drop: "sample_image now' s' ev [] = drop_expired (sample_image now' s' ev [])"
    by (simp add: drop_expired_def sample_image_def empty_journal_def)
  have key: "ad_Key (call_admission c) = request_id" by (simp add: call_admission_def)
  have "\<not> rate_exceeded sample_rates now' (session_hash sample_sha sample_ns request_id) (filter (recent now' 60) ev)"
    by (simp add: assms(3) rate_exceeded_def)
  from admit_granted [where sha = sample_sha and fits = "\<lambda>_. True", OF assms(1) sample_limits_retention _ _ _ typed
      call_admission_valid(1-3) _ assms(2) drop] this assms(3)
  show ?thesis
    by (simp del: japply.simps add: tok key request_id_valid sample_limits_def enter_granted call_result_def call_image_def
        call_record_def new_record_def)
      (simp add: sample_image_def empty_journal_def)
qed

lemma call_finalize:
  assumes "journal_ok sample_limits (call_image now s (call_record c now))"
  shows "japply sample_sha sample_limits (\<lambda>_. True)
      (JFinalize request_id (jc_Attempt (call_record c now)) ''submitted'' ''accepted'' ''native'' (Some sample_navigation))
      (call_image now s (call_record c now)) = (Inr None, call_image now s (settled_call c now))"
proof -
  have "outcome_args_ok request_id (jc_Attempt (call_record c now)) ''submitted'' ''accepted'' ''native'' (Some sample_navigation)"
    using request_id_valid reconcile_nav(2) [OF sample_reconcile]
    by (simp add: outcome_args_ok_def call_record_def new_record_def validTerminal_def plain_validText)
  from finalize_granted [OF assms this, where sha = sample_sha and r = "call_record c now"] show ?thesis
    by (simp del: japply.simps add: call_image_def call_record_def new_record_def new_receipt_def call_admission_def
        validNavigationTransition_def sample_navigation_def nav_result_def settled_call_def)
      (simp add: sample_image_def empty_journal_def)
qed

lemma call_lookup:
  "journal_call sample_sha sample_limits (\<lambda>_. True) (sample_journal_env s c) (JLookup request_id g) d
     = commit sample_limits (\<lambda>_. True) (lookup sample_sha d request_id g, False, d) d"
  by (simp add: journal_call_def sample_journal_env_def jrun_def request_id_valid split: prod.split)

lemma call_op:
  "journal_call sample_sha sample_limits (\<lambda>_. True) (sample_journal_env s c) op d
     = japply sample_sha sample_limits (\<lambda>_. True) op d"
  by (simp add: journal_call_def sample_journal_env_def jrun_def del: japply.simps split: prod.split)

definition call_receipt :: "char \<Rightarrow> u64 \<Rightarrow> notify_receipt" where
  "call_receipt c now = fromJournal (jc_Receipt (settled_call c now)) False"

text \<open>A call whose port finds nothing, admits the request and records its outcome.\<close>

lemma port_call:
  assumes look: "ap_Lookup port e request_id (digest sample_sha sample_payload) st = (Inr None, st0)"
    and adm: "ap_Admit port e (call_admission c) st0 = (Inr (Some (call_result c now)), st1)"
    and fin: "ap_FinalizeOutcome port e request_id (jc_Attempt (rs_Record (call_result c now)))
        ''submitted'' ''accepted'' ''native'' (Some sample_navigation) st1 = (Inr x, st2)"
  obtains evs req where
    "Notify sample_sha port (sample_ports e c) sample_payload sample_caller sample_deadline st
       = (call_receipt c now, evs, st2)"
    "Delivered (call_result c now) req \<in> set evs" "Finalized \<in> set evs" "\<not> hands_off evs"
proof -
  define req where "req = build_request sample_sha (hexEncode (replicate 32 c)) sample_payload sample_deadline sample_policy
      \<lparr>ot_Desktop = no_target, ot_Navigation = sample_navigation\<rparr>"
  let ?env = "sample_ports e c"
  have env: "ce_PortsSet ?env" "\<not> ce_Closed ?env" "ce_Tracking ?env = Some (replicate 32 c)" "fst (enter (ce_Gate ?env)) = []"
    "ce_LookupEnv ?env = e" "ce_AdmitEnv ?env = e" "ce_FinalizeEnv ?env = e"
    "ce_CheckReadiness ?env r = \<lparr>rd_CorrelationID = rq_CorrelationID r, rd_Status = ''ready'', rd_Reason = ''ok'',
                                 rd_Backend = [], rd_Navigation = sample_navigation\<rparr>" for r
    by (simp_all add: sample_ports_def enter_def new_gate_def)
  have flags: "ps_ExplicitEnabled (py_Delivery sample_policy)" "ps_DesktopEnabled (py_Delivery sample_policy)"
    "oc_Locality sample_caller \<noteq> Remote" "oc_Interface sample_caller \<noteq> Headless"
    "\<not> routing_refused sample_policy sample_caller sample_payload" "np_Navigation sample_payload \<noteq> Required"
    by (simp_all add: sample_policy_def sample_caller_def routing_refused_def unknown_origin_def sample_payload_def)
  let ?req' = "req\<lparr>rq_Target := no_target\<rparr>
      \<lparr>rq_CorrelationID := correlationID sample_sha (rs_ScopedKey (call_result c now)) (jc_Attempt (rs_Record (call_result c now)))\<rparr>"
  have ready: "readiness_valid req (ce_CheckReadiness ?env req)" "rd_Status (ce_CheckReadiness ?env req) = ''ready''"
    "reconcileNavigation (ot_Navigation \<lparr>ot_Desktop = no_target, ot_Navigation = sample_navigation\<rparr>)
       (rd_Navigation (ce_CheckReadiness ?env req)) = (sample_navigation, True)"
    by (simp_all add: env readiness_valid_def plain_Text sample_reconcile)
  have closed: "nv_Capability sample_navigation \<noteq> ''available''" by (simp add: sample_navigation_def nav_result_def)
  have fresh: "rs_Fresh (call_result c now)" by (simp add: call_result_def)
  have calls: "ap_Lookup port (ce_LookupEnv ?env) request_id (digest sample_sha sample_payload) st = (Inr None, st0)"
    "ap_Admit port (ce_AdmitEnv ?env) (call_admission c) st0 = (Inr (Some (call_result c now)), st1)"
    "ap_FinalizeOutcome port (ce_FinalizeEnv ?env) request_id (jc_Attempt (rs_Record (call_result c now)))
       ''submitted'' ''accepted'' ''native'' (Some sample_navigation) st1 = (Inr x, st2)"
    using look adm fin by (simp_all only: env(5-7))
  note run = Notify_delivers [where env = ?env and d = sample_deadline and st = st and sha = sample_sha
      and port = port and req' = ?req', OF env(1,2) sample_overdue sample_valid env(3) sample_key_any [symmetric]
        calls(1) env(4) sample_load flags(1-5) sample_target _ req_def ready(1-3) _ call_admission_def
        calls(2) fresh _ sample_outcome calls(3)]
  have "Notify sample_sha port ?env sample_payload sample_caller sample_deadline st =
    (call_receipt c now, [Looked request_id (digest sample_sha sample_payload), Entered, Checked req,
       Admitting (call_admission c), Delivered (call_result c now) ?req',
       Finalizing request_id (jc_Attempt (rs_Record (call_result c now))) ''submitted'' ''accepted'' ''native'' sample_navigation,
       Finalized, Left], st2)"
    using run flags(6) closed
    by (simp add: call_receipt_def settled_receipt_def fromJournal_def settled_call_def settled_record_def call_result_def)
  from that [OF this, of ?req'] show thesis by simp
qed

lemma sample_call:
  assumes "journal_ok sample_limits (sample_image now s ev [])"
    and "advance (clock_sample ''b1'' s') (sample_image now s ev []) = Inr (True, sample_image now' s' ev [])"
    and "filter (recent now' 60) ev = []"
  obtains evs req where
    "Notify sample_sha sample_port (sample_env s' c) sample_payload sample_caller sample_deadline (sample_image now s ev [])
       = (call_receipt c now', evs, call_image now' s' (settled_call c now'))"
    "Delivered (call_result c now') req \<in> set evs" "Finalized \<in> set evs" "\<not> hands_off evs"
    "journal_ok sample_limits (call_image now' s' (settled_call c now'))"
proof -
  let ?st = "sample_image now s ev []"
  note admit = call_admit [OF assms, of c]
  have ok1: "journal_ok sample_limits (call_image now' s' (call_record c now'))"
    using japply_keeps [OF assms(1)] admit by (metis snd_conv)
  note final = call_finalize [OF ok1]
  have ok2: "journal_ok sample_limits (call_image now' s' (settled_call c now'))"
    using japply_keeps [OF ok1] final by (metis snd_conv)
  have je: "je_Sample (sample_journal_env s' c) = clock_sample ''b1'' s'" "je_Token (sample_journal_env s' c) = sample_token c"
    by (simp_all add: sample_journal_env_def)
  have look: "ap_Lookup sample_port (sample_journal_env s' c) request_id (digest sample_sha sample_payload) ?st = (Inr None, ?st)"
    by (simp add: journal_port_def call_lookup commit_def lookup_def)
  have adm: "ap_Admit sample_port (sample_journal_env s' c) (call_admission c) ?st
      = (Inr (Some (call_result c now')), call_image now' s' (call_record c now'))"
    using admit by (simp add: journal_port_def call_op je del: japply.simps)
  have fin: "ap_FinalizeOutcome sample_port (sample_journal_env s' c) request_id (jc_Attempt (rs_Record (call_result c now')))
        ''submitted'' ''accepted'' ''native'' (Some sample_navigation) (call_image now' s' (call_record c now'))
      = (Inr None, call_image now' s' (settled_call c now'))"
    using final by (simp add: journal_port_def call_op call_result_def del: japply.simps)
  from look adm fin show thesis by (rule port_call) (rule that [OF _ _ _ _ ok2])
qed

lemma call_start: "advance (clock_sample ''b1'' 0) (sample_image 0 0 [] []) = Inr (True, sample_image 0 0 [] [])"
  by (simp add: advance_def clock_sample_def sample_text sample_image_def empty_journal_def)

text \<open>The first call, and a second one after the record has expired and was collected.\<close>

lemma first_call:
  obtains evs req where
    "Notify sample_sha sample_port (sample_env 0 CHR ''a'') sample_payload sample_caller sample_deadline (sample_image 0 0 [] [])
       = (call_receipt CHR ''a'' 0, evs, call_image 0 0 (settled_call CHR ''a'' 0))"
    "Delivered (call_result CHR ''a'' 0) req \<in> set evs" "Finalized \<in> set evs" "\<not> hands_off evs"
    "journal_ok sample_limits (call_image 0 0 (settled_call CHR ''a'' 0))"
  by (rule sample_call [OF _ call_start, of "CHR ''a''"]) (use empty_journal_ok in \<open>simp_all add: empty_sample_image\<close>)

lemma call_collects:
  "japply sample_sha sample_limits (\<lambda>_. True) (JCollect (clock_sample ''b1'' sample_late)) (call_image 0 0 (settled_call CHR ''a'' 0))
     = (Inr None, sample_image 604801 sample_late [\<lparr>rv_At = 0, rv_Session = session_hash sample_sha sample_ns request_id\<rparr>] [])"
proof -
  let ?d = "call_image 0 0 (settled_call CHR ''a'' 0)"
  let ?e = "\<lambda>recs. sample_image 604801 sample_late [\<lparr>rv_At = 0, rv_Session = session_hash sample_sha sample_ns request_id\<rparr>] recs"
  let ?recs = "[(scoped sample_sha sample_ns request_id, settled_call CHR ''a'' 0)]"
  have ad: "advance (clock_sample ''b1'' sample_late) ?d = Inr (True, ?e ?recs)"
    by (simp add: advance_def clock_sample_def sample_text call_image_def sample_image_def empty_journal_def)
  have dr: "drop_expired (?e ?recs) = ?e []"
    by (simp add: drop_expired_def sample_limits_def MinRetention_def sample_image_def empty_journal_def settled_call_def
        settled_record_def call_record_def new_record_def)
  have "journal_ok sample_limits ?d" using first_call by blast
  then have "validate sample_limits (?e [])"
    using validate_advance [OF ad] validate_drop_expired [OF _ sample_limits_retention]
    by (metis dr journal_ok_def)
  with ad dr show ?thesis by (simp add: commit_def collect_fn_def)
qed

lemma call_collected:
  "jrun sample_sha sample_limits (\<lambda>_. True) [JCollect (clock_sample ''b1'' sample_late)] (call_image 0 0 (settled_call CHR ''a'' 0))
     = sample_image 604801 sample_late [\<lparr>rv_At = 0, rv_Session = session_hash sample_sha sample_ns request_id\<rparr>] []"
  by (simp add: jrun_def call_collects del: japply.simps)

lemma call_later: "advance (clock_sample ''b1'' sample_late) (sample_image 604801 sample_late ev [])
    = Inr (True, sample_image 604801 sample_late ev [])"
  by (simp add: advance_def clock_sample_def sample_text sample_image_def empty_journal_def)

lemma second_call:
  obtains evs req where
    "Notify sample_sha sample_port (sample_env sample_late CHR ''b'') sample_payload sample_caller sample_deadline
       (jrun sample_sha sample_limits (\<lambda>_. True) [JCollect (clock_sample ''b1'' sample_late)]
          (call_image 0 0 (settled_call CHR ''a'' 0)))
       = (call_receipt CHR ''b'' 604801, evs, call_image 604801 sample_late (settled_call CHR ''b'' 604801))"
    "Delivered (call_result CHR ''b'' 604801) req \<in> set evs"
proof -
  have "journal_ok sample_limits (jrun sample_sha sample_limits (\<lambda>_. True) [JCollect (clock_sample ''b1'' sample_late)]
      (call_image 0 0 (settled_call CHR ''a'' 0)))"
    by (rule jrun_ok) (use first_call in blast)
  from sample_call [OF this [unfolded call_collected] call_later, of "CHR ''b''"] show thesis
    using that by (simp add: call_collected recent_def) metis
qed

lemma notify_delivers_once_witness:
  "jc_Created (rs_Record (call_result CHR ''a'' 0)) \<le> jc_Created (rs_Record (call_result CHR ''b'' 604801))
   \<and> lm_Retention sample_limits
       \<le> jc_Created (rs_Record (call_result CHR ''b'' 604801)) - jc_Created (rs_Record (call_result CHR ''a'' 0))"
proof -
  obtain evs req where 1:
    "Notify sample_sha sample_port (sample_env 0 CHR ''a'') sample_payload sample_caller sample_deadline (sample_image 0 0 [] [])
       = (call_receipt CHR ''a'' 0, evs, call_image 0 0 (settled_call CHR ''a'' 0))"
    "Delivered (call_result CHR ''a'' 0) req \<in> set evs" using first_call by metis
  obtain evs' req' where 2:
    "Notify sample_sha sample_port (sample_env sample_late CHR ''b'') sample_payload sample_caller sample_deadline
       (jrun sample_sha sample_limits (\<lambda>_. True) [JCollect (clock_sample ''b1'' sample_late)]
          (call_image 0 0 (settled_call CHR ''a'' 0)))
       = (call_receipt CHR ''b'' 604801, evs', call_image 604801 sample_late (settled_call CHR ''b'' 604801))"
    "Delivered (call_result CHR ''b'' 604801) req' \<in> set evs'" using second_call by metis
  have "journal_ok sample_limits (sample_image 0 0 [] [])" using empty_journal_ok by (simp add: empty_sample_image)
  from notify_delivers_once [OF this 1 2 _ _ refl, of "''q1''"] show ?thesis by (simp add: sample_payload_def)
qed

lemma repeat_call:
  "Notify sample_sha sample_port (sample_env 0 CHR ''c'') sample_payload sample_caller sample_deadline
     (jrun sample_sha sample_limits (\<lambda>_. True) [] (call_image 0 0 (settled_call CHR ''a'' 0)))
   = ((call_receipt CHR ''a'' 0)\<lparr>nr_Replayed := True\<rparr>, [Looked request_id (digest sample_sha sample_payload)],
      call_image 0 0 (settled_call CHR ''a'' 0))"
proof -
  let ?d = "call_image 0 0 (settled_call CHR ''a'' 0)" and ?env = "sample_env 0 CHR ''c''"
  let ?r = "\<lparr>rs_ScopedKey = scoped sample_sha sample_ns request_id, rs_Fresh = False, rs_Record = settled_call CHR ''a'' 0\<rparr>"
  have env: "ce_PortsSet ?env" "\<not> ce_Closed ?env" "ce_Tracking ?env = Some (replicate 32 CHR ''c'')"
    "ce_LookupEnv ?env = sample_journal_env 0 CHR ''c''"
    by (simp_all add: sample_ports_def)
  have "lookup sample_sha ?d request_id (digest sample_sha sample_payload) = Inr (Some ?r)"
    by (simp add: lookup_def call_image_def settled_call_def settled_record_def call_record_def new_record_def call_admission_def)
  then have "ap_Lookup sample_port (ce_LookupEnv ?env)
      (request_key sample_sha sample_caller sample_payload (hexEncode (replicate 32 CHR ''c'')))
      (digest sample_sha sample_payload) ?d = (Inr (Some ?r), ?d)"
    by (simp add: env(4) sample_key_any journal_port_def call_lookup commit_def)
  from Notify_found [where env = ?env and d = sample_deadline, OF env(1,2) sample_overdue sample_valid env(3) this]
  show ?thesis by (simp add: sample_key_any jrun_def replay_def call_receipt_def fromJournal_def)
qed

lemma sample_start_ok: "journal_ok sample_limits (sample_image 0 0 [] [])"
  using empty_journal_ok by (simp add: empty_sample_image)

lemma sample_identity: "np_RequestID sample_payload = Some ''q1''"
  by (simp add: sample_payload_def)

lemma sample_retained:
  "logical (call_image 0 0 (settled_call CHR ''a'' 0)) - jc_Created (rs_Record (call_result CHR ''a'' 0))
     < lm_Retention sample_limits"
  by (simp add: call_result_def call_record_def new_record_def call_image_def sample_limits_def MinRetention_def)

lemma notify_replays_receipt_witness:
  "fst (Notify sample_sha sample_port (sample_env 0 CHR ''c'') sample_payload sample_caller sample_deadline
     (jrun sample_sha sample_limits (\<lambda>_. True) [] (call_image 0 0 (settled_call CHR ''a'' 0))))
   = (call_receipt CHR ''a'' 0)\<lparr>nr_Replayed := True\<rparr>"
proof -
  obtain evs req where 1:
    "Notify sample_sha sample_port (sample_env 0 CHR ''a'') sample_payload sample_caller sample_deadline (sample_image 0 0 [] [])
       = (call_receipt CHR ''a'' 0, evs, call_image 0 0 (settled_call CHR ''a'' 0))"
    "Delivered (call_result CHR ''a'' 0) req \<in> set evs" "Finalized \<in> set evs" using first_call by metis
  obtain out evs' where 2: "Notify sample_sha sample_port (sample_env 0 CHR ''c'') sample_payload sample_caller sample_deadline
      (jrun sample_sha sample_limits (\<lambda>_. True) [] (call_image 0 0 (settled_call CHR ''a'' 0)))
        = (out, evs', call_image 0 0 (settled_call CHR ''a'' 0))" "nr_Replayed out" "hands_off evs'"
    by (simp add: repeat_call)
  from notify_replays_receipt [OF sample_start_ok 1 2 sample_identity sample_identity refl sample_retained]
  show ?thesis by (simp only: 2(1) fst_conv)
qed

lemma notify_replays_same_payload_witness:
  "\<exists>out evs d. Notify sample_sha sample_port (sample_env 0 CHR ''c'') sample_payload sample_caller sample_deadline
       (jrun sample_sha sample_limits (\<lambda>_. True) [] (call_image 0 0 (settled_call CHR ''a'' 0))) = (out, evs, d)
     \<and> nr_Replayed out \<and> np_Body sample_payload = np_Body sample_payload"
proof -
  obtain evs req where 1:
    "Notify sample_sha sample_port (sample_env 0 CHR ''a'') sample_payload sample_caller sample_deadline (sample_image 0 0 [] [])
       = (call_receipt CHR ''a'' 0, evs, call_image 0 0 (settled_call CHR ''a'' 0))"
    "Delivered (call_result CHR ''a'' 0) req \<in> set evs" using first_call by metis
  obtain out evs' where 2: "Notify sample_sha sample_port (sample_env 0 CHR ''c'') sample_payload sample_caller sample_deadline
      (jrun sample_sha sample_limits (\<lambda>_. True) [] (call_image 0 0 (settled_call CHR ''a'' 0)))
        = (out, evs', call_image 0 0 (settled_call CHR ''a'' 0))" "nr_Replayed out" "hands_off evs'"
    by (simp add: repeat_call)
  from notify_replays_same_payload [OF sample_start_ok 1 2 sample_identity sample_identity refl sample_retained] 2(1,2)
  show ?thesis by blast
qed

lemma notify_requests_acceptable_witness:
  "\<exists>out evs d. Notify sample_sha sample_port (sample_env 0 CHR ''a'') sample_payload sample_caller sample_deadline
      (sample_image 0 0 [] []) = (out, evs, d) \<and> \<not> hands_off evs \<and> list_all acceptable evs"
proof -
  obtain evs where run: "Notify sample_sha sample_port (sample_env 0 CHR ''a'') sample_payload sample_caller sample_deadline
      (sample_image 0 0 [] []) = (call_receipt CHR ''a'' 0, evs, call_image 0 0 (settled_call CHR ''a'' 0))"
    and "\<not> hands_off evs" using first_call by metis
  moreover have "list_all acceptable evs"
    by (rule notify_requests_acceptable [OF run]) (auto simp: sample_ports_def)
  ultimately show ?thesis by blast
qed

lemma notify_retry_safe_witness:
  "nr_RetrySafe (fst (Notify sample_sha sample_port ((sample_env 0 CHR ''a'')\<lparr>ce_Closed := True\<rparr>) sample_payload
      sample_caller sample_deadline empty_journal))
   \<and> hands_off (fst (snd (Notify sample_sha sample_port ((sample_env 0 CHR ''a'')\<lparr>ce_Closed := True\<rparr>) sample_payload
      sample_caller sample_deadline empty_journal)))"
proof -
  let ?run = "Notify sample_sha sample_port ((sample_env 0 CHR ''a'')\<lparr>ce_Closed := True\<rparr>) sample_payload
      sample_caller sample_deadline empty_journal"
  have run: "?run = (refuse (first_receipt sample_payload) ''service_closed'', [], empty_journal)"
    by (simp add: Notify_def sample_ports_def)
  then have "nr_RetrySafe (fst ?run)" by (simp add: first_receipt_def)
  with run notify_retry_safe [OF run] show ?thesis by simp
qed

subsection \<open>Keys and routes\<close>

text \<open>
  Theorem. Requests with the same journal key come from the same caller and are the same
  request: unless the hash of a caller collides, provider, namespace and session agree, and so do
  the request identifier and, without one, the identifier of the client's call.
\<close>

theorem request_keys_distinct:
  assumes "request_key sha c p t = request_key sha c' p' t'"
    and "length (oc_Provider c) \<le> 256" and "length (oc_Provider c') \<le> 256"
    and "sha (source_text c) = sha (source_text c') \<Longrightarrow> source_text c = source_text c'"
    and "sha (caller_text c) = sha (caller_text c') \<Longrightarrow> caller_text c = caller_text c'"
  shows "oc_Provider c = oc_Provider c' \<and> oc_Namespace c = oc_Namespace c' \<and> oc_SessionID c = oc_SessionID c'
    \<and> np_RequestID p = np_RequestID p' \<and> (if np_RequestID p = None then oc_CallID c = oc_CallID c' else True)"
proof -
  have scope: "ky_Source (request_key sha x q u) = hexEncode (sha (source_text x))"
    "ky_Session (request_key sha x q u) = hexEncode (sha (caller_text x))" for x q u
    by (simp_all add: request_key_def Scope_def Let_def split: option.split)
  have "source_text c = source_text c'" "caller_text c = caller_text c'"
    using arg_cong [OF assms(1), of ky_Source] arg_cong [OF assms(1), of ky_Session] assms(4,5)
    by (simp_all add: scope hexEncode_inject)
  then have "oc_Provider c = oc_Provider c' \<and> oc_Namespace c = oc_Namespace c'" "oc_SessionID c = oc_SessionID c'"
    using source_text_inject [of c c'] caller_text_inject [of c c'] assms(2,3) by (simp_all add: short_def)
  moreover have "np_RequestID p = np_RequestID p' \<and> (if np_RequestID p = None then oc_CallID c = oc_CallID c' else True)"
    using assms(1) by (auto simp: request_key_def Scope_def Let_def split: option.splits if_splits)
  ultimately show ?thesis by simp
qed

lemma request_keys_distinct_witness:
  "oc_Namespace sample_caller = ''n'' \<and> np_RequestID sample_payload = Some ''q1''
   \<and> oc_SessionID sample_caller = oc_SessionID (sample_caller\<lparr>oc_Hidden := True\<rparr>)"
proof -
  have texts: "source_text (sample_caller\<lparr>oc_Hidden := True\<rparr>) = source_text sample_caller"
    "caller_text (sample_caller\<lparr>oc_Hidden := True\<rparr>) = caller_text sample_caller"
    by (simp_all add: source_text_def caller_text_def)
  then have "request_key sample_sha sample_caller sample_payload [] =
      request_key sample_sha (sample_caller\<lparr>oc_Hidden := True\<rparr>) sample_payload []"
    by (simp add: request_key_def Scope_def Let_def sample_payload_def)
  from request_keys_distinct [OF this] show ?thesis
    by (simp add: texts) (simp add: sample_caller_def sample_payload_def)
qed

definition refusal :: "origin_target \<Rightarrow> bool" where
  "refusal t \<longleftrightarrow> (\<exists>reason. plain reason \<and> length reason \<le> 1024 \<and> t = no_route reason)"

lemma refusal_no_route: "plain reason \<Longrightarrow> length reason \<le> 1024 \<Longrightarrow> refusal (no_route reason)"
  by (auto simp: refusal_def)

lemma refusal_target:
  "refusal t \<Longrightarrow> validTarget t \<and> nv_Capability (ot_Navigation t) = ''unavailable'' \<and> ot_Desktop t = no_target"
  by (auto simp: refusal_def validTarget_def no_route_def nav_result_def plain_Text)

lemma ResolveCodex_cases:
  "refusal (ResolveCodex c p) \<or>
     ResolveCodex c p = codex_target c p \<and> origin_Validate c Required = None \<and> oc_Provider c = ''codex''
     \<and> oc_Locality c \<noteq> Remote \<and> oc_Interface c \<noteq> Headless \<and> \<not> oc_Hidden c \<and> oc_SessionID c \<noteq> []
     \<and> ro_LocalRouting p \<and> (unknown_origin c \<longrightarrow> ro_AllowUnknownCaller p)
     \<and> (oc_Provenance c = CallerAsserted \<longrightarrow> ro_AllowCallerAsserted p)"
proof -
  note r = refusal_no_route
  show ?thesis unfolding ResolveCodex_def unknown_origin_def
    by (split if_split, intro conjI impI, simp add: r)+ blast
qed

lemma codex_target_cases:
  assumes "Text (oc_SessionID c) 256 True"
  shows "refusal (codex_target c p) \<or>
     validTarget (codex_target c p) \<and> nv_Capability (ot_Navigation (codex_target c p)) = ''available''
     \<and> dt_ThreadID (ot_Desktop (codex_target c p)) = oc_SessionID c"
proof (cases "ro_Platform p = ''linux''")
  case True
  show ?thesis
  proof (cases "Text (lb_SnapshotPath (ro_Linux p)) 1024 True \<and> Text (lb_SHA256 (ro_Linux p)) 64 True")
    case True
    with \<open>ro_Platform p = ''linux''\<close> assms Text_nonempty show ?thesis
      by (auto simp: codex_target_def validTarget_def target_binding_def nav_result_def plain_Text no_target_def)
  next
    case False
    with \<open>ro_Platform p = ''linux''\<close> show ?thesis by (auto simp: codex_target_def refusal_no_route)
  qed
next
  case False
  show ?thesis
  proof (cases "Text (ro_ApplicationPath p) 1024 True \<and> Text (ro_TeamID p) 256 True")
    case True
    with False assms show ?thesis
      by (auto simp: codex_target_def validTarget_def target_binding_def nav_result_def plain_Text no_target_def)
  next
    case refused: False
    with False show ?thesis by (auto simp: codex_target_def refusal_no_route)
  qed
qed

text \<open>
  Theorem. The Codex resolver only makes routes the service accepts: its target is always a valid
  one, and if it can be opened, it names the caller's own session, the caller is local, shown and on
  a desktop, and the route policy admits it, so the service does not refuse its routing.
\<close>

theorem codex_routes_safe:
  "validTarget (ResolveCodex c (py_Route pol))
   \<and> (if nv_Capability (ot_Navigation (ResolveCodex c (py_Route pol))) = ''available''
      then dt_ThreadID (ot_Desktop (ResolveCodex c (py_Route pol))) = oc_SessionID c \<and> oc_SessionID c \<noteq> []
        \<and> oc_Provider c = ''codex'' \<and> oc_Locality c \<noteq> Remote \<and> oc_Interface c \<noteq> Headless \<and> \<not> oc_Hidden c
        \<and> ro_LocalRouting (py_Route pol) \<and> \<not> routing_refused pol c p
      else ot_Desktop (ResolveCodex c (py_Route pol)) = no_target)"
proof (cases "refusal (ResolveCodex c (py_Route pol))")
  case True
  from refusal_target [OF this] show ?thesis by simp
next
  case False
  with ResolveCodex_cases [of c "py_Route pol"] have *: "ResolveCodex c (py_Route pol) = codex_target c (py_Route pol)"
    "origin_Validate c Required = None" "oc_Provider c = ''codex''" "oc_Locality c \<noteq> Remote" "oc_Interface c \<noteq> Headless"
    "\<not> oc_Hidden c" "oc_SessionID c \<noteq> []" "ro_LocalRouting (py_Route pol)"
    "unknown_origin c \<Longrightarrow> ro_AllowUnknownCaller (py_Route pol)"
    "oc_Provenance c = CallerAsserted \<Longrightarrow> ro_AllowCallerAsserted (py_Route pol)" by simp_all
  from *(2) have "Text (oc_SessionID c) 256 False" by (auto simp: origin_Validate_def split: if_splits)
  with *(7) have "Text (oc_SessionID c) 256 True" by (simp add: Text_def)
  from codex_target_cases [OF this, of "py_Route pol"] False *(1)
  have "validTarget (codex_target c (py_Route pol))" "nv_Capability (ot_Navigation (codex_target c (py_Route pol))) = ''available''"
    "dt_ThreadID (ot_Desktop (codex_target c (py_Route pol))) = oc_SessionID c" by simp_all
  moreover have "\<not> routing_refused pol c p" using *(8-10) by (auto simp: routing_refused_def)
  ultimately show ?thesis using *(1,3-8) by simp
qed

end
