(* ===== verification/Paths.thy ===== *)
theory Paths
  imports GoStrings
begin

text \<open>
  Paths as \<^verbatim>\<open>path/filepath\<close> treats them on Unix, and splitting at a separator. These are
  the lexical functions of the standard library that the store and the resolver call.
\<close>

fun split_at :: "char \<Rightarrow> string \<Rightarrow> string list" where
  "split_at c [] = [[]]"
| "split_at c (x # s) =
     (if x = c then [] # split_at c s
      else (case split_at c s of [] \<Rightarrow> [[x]] | p # ps \<Rightarrow> (x # p) # ps))"

definition IsAbs :: "string \<Rightarrow> bool" where
  "IsAbs s \<longleftrightarrow> HasPrefix s ''/''"

text \<open>The elements kept so far, the last one first.\<close>

fun clean_parts :: "bool \<Rightarrow> string list \<Rightarrow> string list \<Rightarrow> string list" where
  "clean_parts rooted out [] = rev out"
| "clean_parts rooted out (p # ps) =
     (if p = [] \<or> p = ''.'' then clean_parts rooted out ps
      else if p = ''..'' then
        (case out of
           [] \<Rightarrow> clean_parts rooted (if rooted then [] else [p]) ps
         | q # qs \<Rightarrow> clean_parts rooted (if q = ''..'' then p # out else qs) ps)
      else clean_parts rooted (p # out) ps)"

definition Clean :: "string \<Rightarrow> string" where
  "Clean s =
     (let rooted = IsAbs s;
          joined = Join (clean_parts rooted [] (split_at (CHR ''/'') s)) ''/''
      in if rooted then CHR ''/'' # joined else if joined = [] then ''.'' else joined)"

text \<open>The elements of an absolute path.\<close>

definition path_parts :: "string \<Rightarrow> string list" where
  "path_parts s = split_at (CHR ''/'') (TrimPrefix s ''/'')"

end
