(* ===== verification/JsonTree.thy ===== *)
theory JsonTree
  imports JsonText
begin

text \<open>
  JSON documents as trees: how \<^verbatim>\<open>encoding/json\<close> writes a tree built from Go structs, and a
  reader for whole documents with white space, every escape and the grammar of numbers. Numbers stay
  the text they are written in. The reader's fuel bounds its nesting and its lists; the fuel of
  \<^verbatim>\<open>read_document\<close> is enough for every text (\<^verbatim>\<open>read_value_fuel\<close>).
\<close>

datatype jtree =
    TNull
  | TBool bool
  | TNum string
  | TStr string
  | TArr "jtree list"
  | TObj "(string \<times> jtree) list"

subsection \<open>Writing\<close>

fun commas :: "string list \<Rightarrow> string" where
  "commas [] = []"
| "commas [x] = x"
| "commas (x # y # zs) = x @ '','' @ commas (y # zs)"

fun print_tree :: "jtree \<Rightarrow> string" where
  "print_tree TNull = ''null''"
| "print_tree (TBool b) = (if b then ''true'' else ''false'')"
| "print_tree (TNum s) = s"
| "print_tree (TStr s) = quote_json s"
| "print_tree (TArr xs) = ''['' @ commas (map print_tree xs) @ '']''"
| "print_tree (TObj m) = ''{'' @ commas (map (\<lambda>(k, x). quote_json k @ '':'' @ print_tree x) m) @ ''}''"

subsection \<open>Strings\<close>

definition nibble_of :: "char \<Rightarrow> nat option" where
  "nibble_of c =
     (let n = of_char c :: nat in
      if 48 \<le> n \<and> n \<le> 57 then Some (n - 48)
      else if 97 \<le> n \<and> n \<le> 102 then Some (n - 97 + 10)
      else if 65 \<le> n \<and> n \<le> 70 then Some (n - 65 + 10)
      else None)"

text \<open>The four hexadecimal digits of a UTF-16 code unit.\<close>

definition hex4 :: "string \<Rightarrow> (nat \<times> string) option" where
  "hex4 s =
     (case s of
        a # b # c # d # t \<Rightarrow>
          (case (nibble_of a, nibble_of b, nibble_of c, nibble_of d) of
             (Some w, Some x, Some y, Some z) \<Rightarrow> Some (((w * 16 + x) * 16 + y) * 16 + z, t)
           | _ \<Rightarrow> None)
      | _ \<Rightarrow> None)"

lemma hex4_shorter: "hex4 s = Some (v, t) \<Longrightarrow> length t < length s"
  by (auto simp: hex4_def split: list.splits option.splits)

abbreviation high_surrogate :: "nat \<Rightarrow> bool" where
  "high_surrogate v \<equiv> 0xD800 \<le> v \<and> v \<le> 0xDBFF"

abbreviation low_surrogate :: "nat \<Rightarrow> bool" where
  "low_surrogate v \<equiv> 0xDC00 \<le> v \<and> v \<le> 0xDFFF"

definition encode_rune :: "nat \<Rightarrow> string" where
  "encode_rune n =
     (if n < 0x80 then bytes [n]
      else if n < 0x800 then bytes [192 + n div 64, 128 + n mod 64]
      else if n < 0x10000 then bytes [224 + n div 4096, 128 + n div 64 mod 64, 128 + n mod 64]
      else bytes [240 + n div 262144, 128 + n div 4096 mod 64, 128 + n div 64 mod 64, 128 + n mod 64])"

text \<open>The unit after \<^verbatim>\<open>\u\<close>; a surrogate without its other half becomes the replacement character.\<close>

definition read_unit :: "nat \<Rightarrow> string \<Rightarrow> string \<times> string" where
  "read_unit v t =
     (if high_surrogate v then
        (case t of
           b # u # t1 \<Rightarrow>
             (if b = CHR 0x5C \<and> u = CHR ''u'' then
                (case hex4 t1 of
                   Some (w, t2) \<Rightarrow>
                     if low_surrogate w then (encode_rune (0x10000 + (v - 0xD800) * 0x400 + (w - 0xDC00)), t2)
                     else (replacement, t)
                 | None \<Rightarrow> (replacement, t))
              else (replacement, t))
         | _ \<Rightarrow> (replacement, t))
      else if low_surrogate v then (replacement, t)
      else (encode_rune v, t))"

definition read_escape :: "string \<Rightarrow> (string \<times> string) option" where
  "read_escape s =
     (case s of
        [] \<Rightarrow> None
      | c # t \<Rightarrow>
          if c = CHR ''u'' then (case hex4 t of None \<Rightarrow> None | Some (v, u) \<Rightarrow> Some (read_unit v u))
          else if c \<in> {CHR 0x22, CHR 0x5C, CHR ''/''} then Some ([c], t)
          else if c = CHR ''b'' then Some ([CHR 0x08], t)
          else if c = CHR ''f'' then Some ([CHR 0x0C], t)
          else if c = CHR ''n'' then Some ([CHR 0x0A], t)
          else if c = CHR ''r'' then Some ([CHR 0x0D], t)
          else if c = CHR ''t'' then Some ([CHR 0x09], t)
          else None)"

lemma read_unit_shorter: "read_unit v t = (r, u) \<Longrightarrow> length u \<le> length t"
  by (auto simp: read_unit_def dest!: hex4_shorter split: if_splits list.splits option.splits)

lemma read_escape_shorter: "read_escape s = Some (r, u) \<Longrightarrow> length u < length s"
  by (cases s) (auto simp: read_escape_def split: if_splits option.splits
      dest!: hex4_shorter read_unit_shorter)

text \<open>The rest of a string after its opening quote.\<close>

function read_string :: "string \<Rightarrow> (string \<times> string) option" where
  "read_string [] = None"
| "read_string (c # t) =
     (if c = CHR 0x22 then Some ([], t)
      else if c = CHR 0x5C then
        (case read_escape t of
           None \<Rightarrow> None
         | Some (r, u) \<Rightarrow> map_option (\<lambda>(x, w). (r @ x, w)) (read_string u))
      else if (of_char c :: nat) < 32 then None
      else map_option (\<lambda>(x, w). (c # x, w)) (read_string t))"
  by pat_completeness auto
termination
  by (relation "measure length") (auto dest: read_escape_shorter)

declare read_string.simps(2) [simp del]

lemma read_string_shorter: "read_string s = Some (x, t) \<Longrightarrow> length t < length s"
proof (induction s arbitrary: x rule: read_string.induct)
  case (2 c s)
  then show ?case
    by (auto simp: read_string.simps(2) split: if_splits option.splits dest!: read_escape_shorter)
      (meson less_trans less_SucI)+
qed simp

subsection \<open>Numbers and literals\<close>

definition digit :: "char \<Rightarrow> bool" where
  "digit c \<longleftrightarrow> 48 \<le> (of_char c :: nat) \<and> (of_char c :: nat) \<le> 57"

definition read_digits :: "string \<Rightarrow> (string \<times> string) option" where
  "read_digits s = (if takeWhile digit s = [] then None else Some (takeWhile digit s, dropWhile digit s))"

text \<open>The scanner never gives a character back: a dot or an exponent must have its digits.\<close>

definition read_sign :: "char set \<Rightarrow> string \<Rightarrow> string \<times> string" where
  "read_sign signs s = (case s of c # t \<Rightarrow> if c \<in> signs then ([c], t) else ([], s) | [] \<Rightarrow> ([], s))"

definition read_integer :: "string \<Rightarrow> (string \<times> string) option" where
  "read_integer s = (case s of c # t \<Rightarrow> if c = CHR ''0'' then Some ([c], t) else read_digits s | [] \<Rightarrow> None)"

definition read_fraction :: "string \<Rightarrow> (string \<times> string) option" where
  "read_fraction s =
     (case s of
        c # t \<Rightarrow> if c = CHR ''.'' then map_option (\<lambda>(d, u). (c # d, u)) (read_digits t) else Some ([], s)
      | [] \<Rightarrow> Some ([], s))"

definition read_exponent :: "string \<Rightarrow> (string \<times> string) option" where
  "read_exponent s =
     (case s of
        c # t \<Rightarrow>
          if c = CHR ''e'' \<or> c = CHR ''E'' then
            (let (sign, u) = read_sign {CHR ''+'', CHR ''-''} t
             in map_option (\<lambda>(d, w). (c # sign @ d, w)) (read_digits u))
          else Some ([], s)
      | [] \<Rightarrow> Some ([], s))"

definition read_number :: "string \<Rightarrow> (string \<times> string) option" where
  "read_number s =
     (let (sign, t) = read_sign {CHR ''-''} s in
      case read_integer t of
        None \<Rightarrow> None
      | Some (whole, u) \<Rightarrow>
          (case read_fraction u of
             None \<Rightarrow> None
           | Some (dec, v) \<Rightarrow>
               map_option (\<lambda>(e, w). (sign @ whole @ dec @ e, w)) (read_exponent v)))"

definition read_scalar :: "string \<Rightarrow> (jtree \<times> string) option" where
  "read_scalar s =
     (case s of
        [] \<Rightarrow> None
      | c # t \<Rightarrow>
          if c = CHR 0x22 then map_option (\<lambda>(x, u). (TStr x, u)) (read_string t)
          else if HasPrefix s ''null'' then Some (TNull, drop 4 s)
          else if HasPrefix s ''true'' then Some (TBool True, drop 4 s)
          else if HasPrefix s ''false'' then Some (TBool False, drop 5 s)
          else map_option (\<lambda>(x, u). (TNum x, u)) (read_number s))"

subsection \<open>Documents\<close>

definition json_space :: "char \<Rightarrow> bool" where
  "json_space c \<longleftrightarrow> c \<in> {CHR '' '', CHR 0x09, CHR 0x0A, CHR 0x0D}"

abbreviation skip_ws :: "string \<Rightarrow> string" where
  "skip_ws s \<equiv> dropWhile json_space s"

definition read_key :: "string \<Rightarrow> (string \<times> string) option" where
  "read_key s =
     (case skip_ws s of
        [] \<Rightarrow> None
      | c # t \<Rightarrow>
          if c \<noteq> CHR 0x22 then None
          else (case read_string t of
                  None \<Rightarrow> None
                | Some (k, u) \<Rightarrow>
                    (case skip_ws u of
                       [] \<Rightarrow> None
                     | d # v \<Rightarrow> if d = CHR '':'' then Some (k, v) else None)))"

text \<open>Where the next item of a list starts: at once for the first one, after a comma for the others.\<close>

definition next_item :: "char \<Rightarrow> bool \<Rightarrow> string \<Rightarrow> (string + string) option" where
  "next_item close first s =
     (case skip_ws s of
        [] \<Rightarrow> None
      | c # t \<Rightarrow>
          if c = close then Some (Inl t)
          else if first then Some (Inr (c # t))
          else if c = CHR '','' then Some (Inr t)
          else None)"

fun read_value :: "nat \<Rightarrow> string \<Rightarrow> (jtree \<times> string) option"
  and read_items :: "nat \<Rightarrow> bool \<Rightarrow> string \<Rightarrow> (jtree list \<times> string) option"
  and read_members :: "nat \<Rightarrow> bool \<Rightarrow> string \<Rightarrow> ((string \<times> jtree) list \<times> string) option" where
  "read_value 0 s = None"
| "read_value (Suc n) s =
     (case skip_ws s of
        [] \<Rightarrow> None
      | c # t \<Rightarrow>
          if c = CHR ''['' then map_option (\<lambda>(xs, u). (TArr xs, u)) (read_items n True t)
          else if c = CHR ''{'' then map_option (\<lambda>(m, u). (TObj m, u)) (read_members n True t)
          else read_scalar (c # t))"
| "read_items 0 first s = None"
| "read_items (Suc n) first s =
     (case next_item (CHR '']'') first s of
        None \<Rightarrow> None
      | Some (Inl u) \<Rightarrow> Some ([], u)
      | Some (Inr u) \<Rightarrow>
          (case read_value n u of
             None \<Rightarrow> None
           | Some (x, v) \<Rightarrow> map_option (\<lambda>(xs, w). (x # xs, w)) (read_items n False v)))"
| "read_members 0 first s = None"
| "read_members (Suc n) first s =
     (case next_item (CHR ''}'') first s of
        None \<Rightarrow> None
      | Some (Inl u) \<Rightarrow> Some ([], u)
      | Some (Inr u) \<Rightarrow>
          (case read_key u of
             None \<Rightarrow> None
           | Some (k, r) \<Rightarrow>
               (case read_value n r of
                  None \<Rightarrow> None
                | Some (x, v) \<Rightarrow> map_option (\<lambda>(m, w). ((k, x) # m, w)) (read_members n False v))))"

definition enough_fuel :: "string \<Rightarrow> nat" where
  "enough_fuel s = 2 * length s + 2"

definition read_document :: "string \<Rightarrow> jtree option" where
  "read_document s =
     (case read_value (enough_fuel s) s of
        None \<Rightarrow> None
      | Some (j, t) \<Rightarrow> if skip_ws t = [] then Some j else None)"


subsection \<open>Reading consumes\<close>

lemma skip_ws_length: "length (skip_ws s) \<le> length s"
  by (rule length_dropWhile_le)

lemma read_digits_shorter: "read_digits s = Some (d, t) \<Longrightarrow> length t < length s"
  by (cases s) (auto simp: read_digits_def split: if_splits intro: le_imp_less_Suc length_dropWhile_le)

lemma read_sign_length: "read_sign signs s = (d, t) \<Longrightarrow> length t \<le> length s"
  by (auto simp: read_sign_def split: list.splits if_splits)

lemma read_integer_shorter: "read_integer s = Some (d, t) \<Longrightarrow> length t < length s"
  by (auto simp: read_integer_def split: list.splits if_splits dest!: read_digits_shorter)

lemma read_fraction_length: "read_fraction s = Some (d, t) \<Longrightarrow> length t \<le> length s"
  by (auto simp: read_fraction_def split: list.splits if_splits dest!: read_digits_shorter)

lemma read_exponent_length: "read_exponent s = Some (d, t) \<Longrightarrow> length t \<le> length s"
  by (auto simp: read_exponent_def split: list.splits if_splits prod.splits
      dest!: read_digits_shorter read_sign_length)

lemma read_number_shorter: "read_number s = Some (d, t) \<Longrightarrow> length t < length s"
  by (auto simp: read_number_def split: prod.splits option.splits
      dest!: read_sign_length read_integer_shorter read_fraction_length read_exponent_length)

lemma read_scalar_shorter: "read_scalar s = Some (j, t) \<Longrightarrow> length t < length s"
  by (auto simp: read_scalar_def HasPrefix_iff split: list.splits if_splits
      dest!: read_string_shorter read_number_shorter)

lemma next_item_length:
  "next_item close first s = Some (Inl t) \<Longrightarrow> length t < length s"
  "next_item close first s = Some (Inr t) \<Longrightarrow> length t \<le> length s"
  "next_item close False s = Some (Inr t) \<Longrightarrow> length t < length s"
proof -
  show "next_item close first s = Some (Inl t) \<Longrightarrow> length t < length s"
    "next_item close False s = Some (Inr t) \<Longrightarrow> length t < length s"
    using skip_ws_length [of s] by (auto simp: next_item_def split: list.splits if_splits)
  show "next_item close first s = Some (Inr t) \<Longrightarrow> length t \<le> length s"
    using skip_ws_length [of s]
    by (cases "skip_ws s") (auto simp: next_item_def length_dropWhile_le split: if_splits)
qed

lemma read_key_shorter: "read_key s = Some (k, t) \<Longrightarrow> length t < length s"
  using skip_ws_length [of s]
  by (auto simp: read_key_def split: list.splits if_splits option.splits dest!: read_string_shorter)
    (metis length_Cons less_SucI less_trans skip_ws_length order_le_less_trans not_less_eq)

lemma shorter:
  shows read_value_shorter: "read_value n s = Some (j, t) \<Longrightarrow> length t < length s"
    and read_items_shorter: "read_items n first s = Some (xs, t) \<Longrightarrow> length t < length s"
    and read_members_shorter: "read_members n first s = Some (m, t) \<Longrightarrow> length t < length s"
proof (induction n s and n first s and n first s arbitrary: j t and xs t and m t
    rule: read_value_read_items_read_members.induct)
  case (2 n s)
  from 2(3) obtain c r where s: "skip_ws s = c # r" by (cases "skip_ws s") auto
  then have len: "Suc (length r) \<le> length s" using skip_ws_length [of s] by simp
  show ?case
  proof (cases "c = CHR ''['' \<or> c = CHR ''{''")
    case True
    with 2 s len show ?thesis by (auto split: if_splits simp: less_SucI) (metis Suc_le_lessD less_trans)+
  next
    case False
    with 2(3) s len show ?thesis by (auto dest!: read_scalar_shorter)
  qed
next
  case (4 n first s)
  then show ?case
    by (auto split: option.splits sum.splits dest: next_item_length) (meson less_trans order_less_le_trans next_item_length)
next
  case (6 n first s)
  then show ?case
    by (auto split: option.splits sum.splits dest: next_item_length)
      (meson less_trans order_less_le_trans next_item_length read_key_shorter)
qed simp_all

text \<open>The fuel does not matter once it is enough.\<close>

lemma read_fuel:
  shows "2 * length s < n \<Longrightarrow> 2 * length s < k \<Longrightarrow> read_value n s = read_value k s"
    and "2 * length s + 1 < n \<Longrightarrow> 2 * length s + 1 < k \<Longrightarrow> read_items n first s = read_items k first s"
    and "2 * length s + 1 < n \<Longrightarrow> 2 * length s + 1 < k \<Longrightarrow> read_members n first s = read_members k first s"
proof (induction n s and n first s and n first s arbitrary: k and k and k
    rule: read_value_read_items_read_members.induct)
  case (2 n s)
  then obtain k' where k: "k = Suc k'" by (cases k) auto
  show ?case
  proof (cases "skip_ws s")
    case (Cons c r)
    then have len: "Suc (length r) \<le> length s" using skip_ws_length [of s] by simp
    with 2(3,4) have b: "2 * length r + 1 < n" "2 * length r + 1 < k'" by (simp_all add: k)
    show ?thesis
      using 2(1) [OF Cons _ b] 2(2) [OF Cons _ _ b] by (simp add: k Cons)
  qed (simp only: k read_value.simps list.case)
next
  case (4 n first s)
  from 4(4) obtain k' where k: "k = Suc k'" by (cases k) simp_all
  show ?case
  proof (cases "next_item (CHR '']'') first s")
    case (Some a)
    show ?thesis
    proof (cases a)
      case (Inr u)
      note at = Some [unfolded Inr]
      have b: "2 * length u < n" "2 * length u < k'"
        using next_item_length(2) [OF at] 4(3,4) by (simp_all add: k)
      have v: "read_value n u = read_value k' u" by (rule 4(1) [OF at refl b])
      show ?thesis
      proof (cases "read_value n u")
        case (Some p)
        obtain x w where p: "p = (x, w)" by (cases p)
        have "length w < length u" using read_value_shorter Some p by blast
        then have "2 * length w + 1 < n" "2 * length w + 1 < k'" using b by simp_all
        from 4(2) [OF at refl Some [unfolded p] refl this] show ?thesis
          using Some p v [symmetric] by (simp add: k at)
      qed (use v in \<open>simp add: k at\<close>)
    qed (simp add: k Some)
  qed (simp add: k)
next
  case (6 n first s)
  from 6(4) obtain k' where k: "k = Suc k'" by (cases k) simp_all
  show ?case
  proof (cases "next_item (CHR ''}'') first s")
    case (Some a)
    show ?thesis
    proof (cases a)
      case (Inr u)
      note at = Some [unfolded Inr]
      show ?thesis
      proof (cases "read_key u")
        case (Some q)
        obtain key r where q: "q = (key, r)" by (cases q)
        note key = Some [unfolded q]
        have b: "2 * length r < n" "2 * length r < k'"
          using next_item_length(2) [OF at] read_key_shorter [OF key] 6(3,4) by (simp_all add: k)
        have v: "read_value n r = read_value k' r" by (rule 6(1) [OF at refl key refl b])
        show ?thesis
        proof (cases "read_value n r")
          case (Some p)
          obtain x w where p: "p = (x, w)" by (cases p)
          have "length w < length r" using read_value_shorter Some p by blast
          then have "2 * length w + 1 < n" "2 * length w + 1 < k'" using b by simp_all
          from 6(2) [OF at refl key refl Some [unfolded p] refl this] show ?thesis
            using Some p v [symmetric] by (simp add: k at key)
        qed (use v in \<open>simp add: k at key\<close>)
      qed (simp add: k at)
    qed (simp add: k Some)
  qed (simp add: k)
qed simp_all

lemmas read_value_fuel = read_fuel(1)


subsection \<open>What is written is read back\<close>

definition number_text :: "string \<Rightarrow> bool" where
  "number_text s \<longleftrightarrow> s \<noteq> [] \<and> list_all digit s \<and> (if hd s = CHR ''0'' then length s = 1 else True)"

fun tree_ok :: "jtree \<Rightarrow> bool" where
  "tree_ok TNull = True"
| "tree_ok (TBool b) = True"
| "tree_ok (TNum s) = number_text s"
| "tree_ok (TStr s) = valid_utf8 s"
| "tree_ok (TArr xs) = list_all tree_ok xs"
| "tree_ok (TObj m) = list_all (\<lambda>(k, x). valid_utf8 k \<and> tree_ok x) m"

definition delimited :: "string \<Rightarrow> bool" where
  "delimited t \<longleftrightarrow> t = [] \<or> json_space (hd t) \<or> hd t \<in> {CHR '','', CHR '']'', CHR ''}''}"

lemma nibble_of_nibble: "nibble_of (nibble n) = Some (n mod 16)"
proof -
  have "\<forall>k\<in>{..<16}. nibble_of (''0123456789abcdef'' ! k) = Some k"
    by code_simp
  then show ?thesis by (simp add: nibble_def)
qed

lemma encode_ascii: "is_ascii c \<Longrightarrow> encode_rune (of_char c) = [c]"
  by (simp add: encode_rune_def is_ascii_def bytes_def)

lemma read_string_hex_escape:
  assumes "is_ascii c"
  shows "read_string (hex_escape c @ t) = map_option (\<lambda>(x, w). (c # x, w)) (read_string t)"
proof -
  have n: "(of_char c :: nat) < 128" using assms by (simp add: is_ascii_def)
  then have "(of_char c :: nat) div 16 < 16" by linarith
  then have v: "hex4 (''00'' @ [nibble (of_char c div 16), nibble (of_char c)] @ t) = Some (of_char c, t)"
  proof -
    have "nibble_of (CHR ''0'') = Some 0" by (simp add: nibble_of_def)
    then show ?thesis
      using \<open>(of_char c :: nat) div 16 < 16\<close> by (simp add: hex4_def nibble_of_nibble)
  qed
  have "read_unit (of_char c) t = ([c], t)"
    using n encode_ascii [OF assms] by (simp add: read_unit_def)
  with v show ?thesis
    by (simp add: hex_escape_def read_string.simps(2) read_escape_def)
qed

lemma read_string_ascii:
  assumes "is_ascii c"
  shows "read_string (escape_ascii c @ t) = map_option (\<lambda>(x, w). (c # x, w)) (read_string t)"
proof (cases "html_safe c")
  case True
  then show ?thesis by (simp add: escape_ascii_def read_string.simps(2) html_safe_def)
next
  case unsafe: False
  let ?short = "{CHR 0x22, CHR 0x5C, CHR 0x08, CHR 0x0C, CHR 0x0A, CHR 0x0D, CHR 0x09}"
  show ?thesis
  proof (cases "c \<in> ?short")
    case True
    then show ?thesis
      by (elim insertE emptyE) (simp_all add: escape_ascii_def html_safe_def read_string.simps(2) read_escape_def)
  next
    case False
    with unsafe have "escape_ascii c = hex_escape c" by (simp add: escape_ascii_def)
    then show ?thesis by (simp only: read_string_hex_escape [OF assms])
  qed
qed

lemma read_string_high:
  "list_all (\<lambda>c. \<not> is_ascii c) r \<Longrightarrow> read_string (r @ t) = map_option (\<lambda>(x, w). (r @ x, w)) (read_string t)"
proof (induction r)
  case (Cons c r)
  then have "\<not> is_ascii c" by simp
  then have "c \<noteq> CHR 0x22" "c \<noteq> CHR 0x5C" "\<not> (of_char c :: nat) < 32" by (auto simp: is_ascii_def)
  with Cons show ?case
    by (simp add: read_string.simps(2) option.map_comp comp_def case_prod_unfold)
qed (simp add: option.map_ident case_prod_unfold)

lemma read_string_rune:
  assumes "is_rune r"
  shows "read_string (escape_rune r @ t) = map_option (\<lambda>(x, w). (r @ x, w)) (read_string t)"
proof (cases "length r = 1")
  case True
  with rune_single [OF assms] show ?thesis by (auto simp: escape_rune_def read_string_ascii)
next
  case False
  show ?thesis
  proof (cases "r = bytes [226, 128, 168] \<or> r = bytes [226, 128, 169]")
    case True
    then show ?thesis
      using False
      by (elim disjE)
        (simp_all add: escape_rune_def read_string.simps(2) read_escape_def hex4_def nibble_of_def read_unit_def
          encode_rune_def bytes_def)
  next
    case plain: False
    then have "escape_rune r = r" using False by (simp add: escape_rune_def)
    moreover have "list_all (\<lambda>c. \<not> is_ascii c) r"
      using rune_bytes [OF assms] False by (simp add: list_all_iff)
    ultimately show ?thesis by (simp only: read_string_high)
  qed
qed

lemma read_string_escaped:
  assumes "valid_utf8 s"
  shows "read_string (escape_json s @ CHR 0x22 # t) = Some (s, t)"
proof -
  have "read_string (concat (map escape_rune rs) @ CHR 0x22 # t) = Some (concat rs, t)" if "list_all is_rune rs" for rs
    using that by (induction rs) (simp_all add: read_string_rune read_string.simps(2))
  from this [OF runes_text [of s]] assms show ?thesis
    by (simp add: escape_json_valid valid_utf8_def)
qed

lemma read_number_text:
  assumes "number_text s" and "delimited t"
  shows "read_number (s @ t) = Some (s, t)"
proof -
  obtain c r where s: "s = c # r" using assms(1) by (cases s) (auto simp: number_text_def)
  have t: "t = [] \<or> \<not> digit (hd t) \<and> hd t \<noteq> CHR ''.'' \<and> hd t \<noteq> CHR ''e'' \<and> hd t \<noteq> CHR ''E''"
    using assms(2) by (auto simp: delimited_def json_space_def digit_def)
  then have tail: "read_fraction t = Some ([], t)" "read_exponent t = Some ([], t)"
    by (cases t; simp add: read_fraction_def read_exponent_def)+
  have split: "takeWhile digit (s @ t) = s" "dropWhile digit (s @ t) = t"
    using assms(1) t by (cases t; simp add: number_text_def list_all_iff takeWhile_append2 dropWhile_append2)+
  have "digit c" using assms(1) by (simp add: s number_text_def)
  then have "c \<noteq> CHR ''-''" by (auto simp: digit_def)
  then have "read_sign {CHR ''-''} (s @ t) = ([], s @ t)" by (simp add: s read_sign_def)
  moreover have "read_integer (s @ t) = Some (s, t)"
  proof (cases "c = CHR ''0''")
    case True
    with assms(1) have "r = []" by (simp add: s number_text_def)
    then show ?thesis by (simp add: s True read_integer_def)
  next
    case False
    then show ?thesis
      using split s by (simp add: read_integer_def read_digits_def)
  qed
  ultimately show ?thesis by (simp add: read_number_def tail)
qed

lemma commas_Cons: "commas (x # xs) = x @ concat (map (\<lambda>y. CHR '','' # y) xs)"
  by (induction xs arbitrary: x) simp_all

lemma print_tree_start:
  assumes "tree_ok j"
  obtains c r where "print_tree j = c # r" "\<not> json_space c" "c \<noteq> CHR '']''" "c \<noteq> CHR '','' "
proof (cases j)
  case (TNum s)
  with assms obtain c r where "s = c # r" "digit c" by (cases s) (auto simp: number_text_def)
  moreover from this(2) have "\<not> json_space c" "c \<noteq> CHR '']''" "c \<noteq> CHR '',''"
    by (auto simp: digit_def json_space_def)
  ultimately show thesis using that TNum by simp
next
  case (TBool b)
  then show thesis by (cases b) (auto intro: that simp: json_space_def)
qed (use that in \<open>auto simp: quote_json_def json_space_def split: if_splits\<close>)

lemma skip_ws_start: "\<not> json_space c \<Longrightarrow> skip_ws (c # t) = c # t"
  by simp

definition reads_back :: "jtree \<Rightarrow> bool" where
  "reads_back j \<longleftrightarrow>
     (\<forall>t n. if delimited t \<and> 2 * length (print_tree j @ t) < n
            then read_value n (print_tree j @ t) = Some (j, t) else True)"

lemma reads_backD:
  "reads_back j \<Longrightarrow> delimited t \<Longrightarrow> 2 * length (print_tree j @ t) < n \<Longrightarrow> read_value n (print_tree j @ t) = Some (j, t)"
  by (auto simp: reads_back_def)

lemma reads_scalar:
  assumes "\<And>t. delimited t \<Longrightarrow> read_scalar (print_tree j @ t) = Some (j, t)"
    and "print_tree j = c # r" "\<not> json_space c" "c \<noteq> CHR ''[''" "c \<noteq> CHR ''{''"
  shows "reads_back j"
proof -
  have "read_value n (print_tree j @ t) = Some (j, t)" if "delimited t" "0 < n" for t n
    using assms that by (cases n) auto
  then show ?thesis by (auto simp: reads_back_def)
qed

lemma read_rest_items:
  "list_all (\<lambda>x. tree_ok x \<and> reads_back x) xs \<Longrightarrow>
   2 * length (concat (map (\<lambda>y. CHR '','' # y) (map print_tree xs)) @ CHR '']'' # t) + 1 < n \<Longrightarrow>
     read_items n False (concat (map (\<lambda>y. CHR '','' # y) (map print_tree xs)) @ CHR '']'' # t) = Some (xs, t)"
proof (induction xs arbitrary: n)
  case Nil
  then show ?case by (cases n) (simp_all add: next_item_def json_space_def)
next
  case (Cons x xs)
  then obtain m where n: "n = Suc m" by (cases n) auto
  let ?r = "concat (map (\<lambda>y. CHR '','' # y) (map print_tree xs)) @ CHR '']'' # t"
  have "delimited ?r" by (cases xs) (simp_all add: delimited_def)
  moreover have "2 * length (print_tree x @ ?r) < m" using Cons.prems n by simp
  ultimately have x: "read_value m (print_tree x @ ?r) = Some (x, ?r)"
    using Cons.prems(1) by (intro reads_backD) auto
  have "read_items m False ?r = Some (xs, t)"
    using Cons.prems n by (intro Cons.IH) auto
  with x show ?case by (simp add: n next_item_def json_space_def)
qed

lemma reads_array:
  assumes "list_all (\<lambda>x. tree_ok x \<and> reads_back x) xs"
  shows "reads_back (TArr xs)"
proof -
  have "read_value n (print_tree (TArr xs) @ t) = Some (TArr xs, t)"
    if "2 * length (print_tree (TArr xs) @ t) < n" for t n
  proof -
    from that obtain m where n: "n = Suc m" by (cases n) auto
    have "read_items m True (commas (map print_tree xs) @ CHR '']'' # t) = Some (xs, t)"
    proof (cases xs)
      case Nil
      then show ?thesis using that n by (cases m) (simp_all add: next_item_def json_space_def)
    next
      case (Cons x ys)
      let ?r = "concat (map (\<lambda>y. CHR '','' # y) (map print_tree ys)) @ CHR '']'' # t"
      from that obtain k where m: "m = Suc k" by (cases m) (auto simp: n)
      from assms Cons obtain c u where c: "print_tree x = c # u" "\<not> json_space c" "c \<noteq> CHR '']''"
        by (auto elim: print_tree_start)
      have "delimited ?r" by (cases ys) (simp_all add: delimited_def)
      moreover have "2 * length (print_tree x @ ?r) < k"
        using that by (simp add: n m Cons commas_Cons)
      ultimately have "read_value k (print_tree x @ ?r) = Some (x, ?r)"
        using assms Cons by (intro reads_backD) auto
      moreover have "read_items k False ?r = Some (ys, t)"
        using assms Cons that c by (intro read_rest_items) (auto simp: n m commas_Cons)
      moreover have "next_item (CHR '']'') True (print_tree x @ ?r) = Some (Inr (print_tree x @ ?r))"
        using c by (simp add: next_item_def)
      ultimately show ?thesis by (simp add: m Cons commas_Cons)
    qed
    then show ?thesis by (simp add: n json_space_def)
  qed
  then show ?thesis by (auto simp: reads_back_def)
qed

abbreviation member_text :: "string \<times> jtree \<Rightarrow> string" where
  "member_text \<equiv> \<lambda>(k, x). quote_json k @ '':'' @ print_tree x"

lemma read_key_text: "valid_utf8 k \<Longrightarrow> read_key (quote_json k @ '':'' @ t) = Some (k, t)"
  by (simp add: read_key_def quote_json_def json_space_def read_string_escaped)

lemma read_rest_members:
  "list_all (\<lambda>(k, x). valid_utf8 k \<and> tree_ok x \<and> reads_back x) ms \<Longrightarrow>
   2 * length (concat (map (\<lambda>y. CHR '','' # y) (map member_text ms)) @ CHR ''}'' # t) + 1 < n \<Longrightarrow>
     read_members n False (concat (map (\<lambda>y. CHR '','' # y) (map member_text ms)) @ CHR ''}'' # t) = Some (ms, t)"
proof (induction ms arbitrary: n)
  case Nil
  then show ?case by (cases n) (simp_all add: next_item_def json_space_def)
next
  case (Cons p ms)
  then obtain m where n: "n = Suc m" by (cases n) auto
  obtain k x where p: "p = (k, x)" by (cases p)
  let ?r = "concat (map (\<lambda>y. CHR '','' # y) (map member_text ms)) @ CHR ''}'' # t"
  have "delimited ?r" by (cases ms) (simp_all add: delimited_def)
  moreover have "2 * length (print_tree x @ ?r) < m" using Cons.prems n p by simp
  ultimately have x: "read_value m (print_tree x @ ?r) = Some (x, ?r)"
    using Cons.prems(1) p by (intro reads_backD) auto
  have rest: "read_members m False ?r = Some (ms, t)"
    using Cons.prems n by (intro Cons.IH) auto
  have "next_item (CHR ''}'') False (CHR '','' # quote_json k @ '':'' @ print_tree x @ ?r)
      = Some (Inr (quote_json k @ '':'' @ print_tree x @ ?r))"
    by (simp add: next_item_def json_space_def)
  moreover have "read_key (quote_json k @ '':'' @ print_tree x @ ?r) = Some (k, print_tree x @ ?r)"
    using Cons.prems(1) p by (intro read_key_text) simp
  ultimately show ?case using x rest by (simp add: n p)
qed

lemma reads_object:
  assumes "list_all (\<lambda>(k, x). valid_utf8 k \<and> tree_ok x \<and> reads_back x) ms"
  shows "reads_back (TObj ms)"
proof -
  have "read_value n (print_tree (TObj ms) @ t) = Some (TObj ms, t)"
    if "2 * length (print_tree (TObj ms) @ t) < n" for t n
  proof -
    from that obtain m where n: "n = Suc m" by (cases n) auto
    have "read_members m True (commas (map member_text ms) @ CHR ''}'' # t) = Some (ms, t)"
    proof (cases ms)
      case Nil
      then show ?thesis using that n by (cases m) (simp_all add: next_item_def json_space_def)
    next
      case (Cons p ys)
      obtain k x where p: "p = (k, x)" by (cases p)
      let ?r = "concat (map (\<lambda>y. CHR '','' # y) (map member_text ys)) @ CHR ''}'' # t"
      from that obtain f where m: "m = Suc f" by (cases m) (auto simp: n)
      have "delimited ?r" by (cases ys) (simp_all add: delimited_def)
      moreover have "2 * length (print_tree x @ ?r) < f"
        using that by (simp add: n m Cons p commas_Cons quote_json_def)
      ultimately have "read_value f (print_tree x @ ?r) = Some (x, ?r)"
        using assms Cons p by (intro reads_backD) auto
      moreover have "read_members f False ?r = Some (ys, t)"
        using assms Cons that by (intro read_rest_members) (auto simp: n m p commas_Cons quote_json_def)
      moreover have "next_item (CHR ''}'') True (quote_json k @ '':'' @ print_tree x @ ?r)
          = Some (Inr (quote_json k @ '':'' @ print_tree x @ ?r))"
        by (simp add: next_item_def quote_json_def json_space_def)
      moreover have "read_key (quote_json k @ '':'' @ print_tree x @ ?r) = Some (k, print_tree x @ ?r)"
        using assms Cons p by (intro read_key_text) simp
      ultimately show ?thesis by (simp add: m Cons p commas_Cons)
    qed
    then show ?thesis by (simp add: n json_space_def)
  qed
  then show ?thesis by (auto simp: reads_back_def)
qed

lemma printed_reads_back: "tree_ok j \<Longrightarrow> reads_back j"
proof (induction j rule: tree_ok.induct)
  case (3 s)
  then obtain c r where s: "s = c # r" "digit c" by (cases s) (auto simp: number_text_def)
  then have c: "c \<noteq> CHR 0x22" "c \<noteq> CHR ''n''" "c \<noteq> CHR ''t''" "c \<noteq> CHR ''f''" "\<not> json_space c" "c \<noteq> CHR ''[''" "c \<noteq> CHR ''{''"
    by (auto simp: digit_def json_space_def)
  show ?case
  proof (rule reads_scalar)
    show "read_scalar (print_tree (TNum s) @ t) = Some (TNum s, t)" if "delimited t" for t
      using read_number_text [of s t] 3 that c s by (simp add: read_scalar_def HasPrefix_def)
  qed (use c s in auto)
next
  case (4 s)
  show ?case
    by (rule reads_scalar) (use 4 in \<open>auto simp: read_scalar_def quote_json_def json_space_def read_string_escaped\<close>)
next
  case (5 xs)
  then show ?case by (intro reads_array) (auto simp: list_all_iff)
next
  case (6 m)
  then show ?case by (intro reads_object) (auto simp: list_all_iff)
next
  case 1
  show ?case by (rule reads_scalar) (auto simp: read_scalar_def HasPrefix_def json_space_def)
next
  case (2 b)
  show ?case
    by (cases b; rule reads_scalar) (auto simp: read_scalar_def HasPrefix_def json_space_def)
qed

lemma read_printed:
  assumes "tree_ok j" and "skip_ws t = []"
  shows "read_document (print_tree j @ t) = Some j"
proof -
  have "delimited t" using assms(2) by (cases t) (auto simp: delimited_def)
  then have "read_value (enough_fuel (print_tree j @ t)) (print_tree j @ t) = Some (j, t)"
    by (intro reads_backD printed_reads_back assms(1)) (simp_all add: enough_fuel_def)
  then show ?thesis using assms(2) by (simp only: read_document_def option.case prod.case if_True simp_thms)
qed

end
