(* ===== verification/StrictJson.thy ===== *)
theory StrictJson
  imports JsonTree
begin

text \<open>
  Bounded validation of JSON, \<^verbatim>\<open>internal/strictjson/json.go\<close>: the scan for lone
  surrogates and the walk over the tokens of \<^verbatim>\<open>json.Decoder\<close>, whose states and stack are
  those of the standard library.
\<close>

record Budget =
  bd_Bytes :: int
  bd_Depth :: int
  bd_Entries :: int

subsection \<open>Surrogates\<close>

text \<open>Inside a string; a text that ends there is left to the decoder.\<close>

function scan_string :: "string \<Rightarrow> string option" where
  "scan_string [] = Some []"
| "scan_string (c # t) =
     (if c = CHR 0x22 then Some t
      else if c = CHR 0x5C then
        (case t of
           [] \<Rightarrow> None
         | e # u \<Rightarrow>
             if e = CHR ''u'' then
               (case hex4 u of
                  None \<Rightarrow> None
                | Some (v, w) \<Rightarrow>
                    if high_surrogate v then
                      (case w of
                         b # x # y \<Rightarrow>
                           if b = CHR 0x5C \<and> x = CHR ''u'' then
                             (case hex4 y of
                                None \<Rightarrow> None
                              | Some (l, z) \<Rightarrow> if low_surrogate l then scan_string z else None)
                           else None
                       | _ \<Rightarrow> None)
                    else if low_surrogate v then None else scan_string w)
             else scan_string u)
      else scan_string t)"
  by pat_completeness auto
termination
  by (relation "measure length") (auto dest!: hex4_shorter)

declare scan_string.simps(2) [simp del]

lemma scan_string_shorter: "scan_string s = Some t \<Longrightarrow> length t \<le> length s"
proof (induction s rule: scan_string.induct)
  case (2 c s)
  note prem = 2(5) [unfolded scan_string.simps(2)]
  show ?case
  proof (cases "c = CHR 0x22")
    case quote: False
    show ?thesis
    proof (cases "c = CHR 0x5C")
      case True
      then obtain e u where s: "s = e # u" using prem quote by (cases s) auto
      show ?thesis
      proof (cases "e = CHR ''u''")
        case unit: True
        with prem obtain v w where h: "hex4 u = Some (v, w)"
          by (auto simp: True s split: option.splits)
        with prem 2(1,2) show ?thesis
          by (fastforce simp: True s unit dest!: hex4_shorter split: if_splits list.splits option.splits)
      qed (use 2(3) prem in \<open>auto simp: True s\<close>)
    qed (use 2(4) prem quote in auto)
  qed (use prem in auto)
qed simp

function scan_strings :: "string \<Rightarrow> bool" where
  "scan_strings [] = True"
| "scan_strings (c # t) =
     (if c = CHR 0x22 then (case scan_string t of None \<Rightarrow> False | Some u \<Rightarrow> scan_strings u) else scan_strings t)"
  by pat_completeness auto
termination
  by (relation "measure length") (auto dest!: scan_string_shorter)

subsection \<open>The token decoder\<close>

datatype tstate =
    TopValue | ArrayStart | ArrayValue | ArrayComma
  | ObjectStart | ObjectKey | ObjectColon | ObjectValue | ObjectComma

record decoder =
  dc_Rest :: string
  dc_State :: tstate
  dc_Stack :: "tstate list"

datatype token = Delim char | StrTok string | OtherTok

datatype tokerr = EndOfInput | Malformed

definition tokenValueAllowed :: "tstate \<Rightarrow> bool" where
  "tokenValueAllowed s \<longleftrightarrow> s \<in> {TopValue, ArrayStart, ArrayValue, ObjectValue}"

fun tokenValueEnd :: "tstate \<Rightarrow> tstate" where
  "tokenValueEnd ArrayStart = ArrayComma"
| "tokenValueEnd ArrayValue = ArrayComma"
| "tokenValueEnd ObjectValue = ObjectComma"
| "tokenValueEnd s = s"

definition open_token :: "char \<Rightarrow> tstate \<Rightarrow> string \<Rightarrow> decoder \<Rightarrow> tokerr + token \<times> decoder" where
  "open_token c inner t d =
     (if tokenValueAllowed (dc_State d)
      then Inr (Delim c, \<lparr>dc_Rest = t, dc_State = inner, dc_Stack = dc_State d # dc_Stack d\<rparr>)
      else Inl Malformed)"

definition close_token :: "char \<Rightarrow> tstate set \<Rightarrow> string \<Rightarrow> decoder \<Rightarrow> tokerr + token \<times> decoder" where
  "close_token c allowed t d =
     (if dc_State d \<notin> allowed then Inl Malformed
      else (case dc_Stack d of
              [] \<Rightarrow> Inl Malformed
            | s # stack \<Rightarrow> Inr (Delim c, \<lparr>dc_Rest = t, dc_State = tokenValueEnd s, dc_Stack = stack\<rparr>)))"

definition scalar_token :: "string \<Rightarrow> decoder \<Rightarrow> tokerr + token \<times> decoder" where
  "scalar_token s d =
     (if \<not> tokenValueAllowed (dc_State d) then Inl Malformed
      else (case read_scalar s of
              None \<Rightarrow> Inl Malformed
            | Some (j, t) \<Rightarrow>
                Inr (case j of TStr x \<Rightarrow> StrTok x | _ \<Rightarrow> OtherTok, d\<lparr>dc_Rest := t, dc_State := tokenValueEnd (dc_State d)\<rparr>)))"

lemma skip_ws_Cons: "skip_ws s = c # t \<Longrightarrow> length t < length s"
  using skip_ws_length [of s] by simp

text \<open>\<^verbatim>\<open>Decoder.Token\<close> skips a colon or a comma where one is due.\<close>

function Token :: "decoder \<Rightarrow> tokerr + token \<times> decoder" where
  "Token d =
     (case skip_ws (dc_Rest d) of
        [] \<Rightarrow> Inl EndOfInput
      | c # t \<Rightarrow>
          if c = CHR ''['' then open_token c ArrayStart t d
          else if c = CHR '']'' then close_token c {ArrayStart, ArrayComma} t d
          else if c = CHR ''{'' then open_token c ObjectStart t d
          else if c = CHR ''}'' then close_token c {ObjectStart, ObjectComma} t d
          else if c = CHR '':'' then
            (if dc_State d \<noteq> ObjectColon then Inl Malformed else Token (d\<lparr>dc_Rest := t, dc_State := ObjectValue\<rparr>))
          else if c = CHR '','' then
            (if dc_State d = ArrayComma then Token (d\<lparr>dc_Rest := t, dc_State := ArrayValue\<rparr>)
             else if dc_State d = ObjectComma then Token (d\<lparr>dc_Rest := t, dc_State := ObjectKey\<rparr>)
             else Inl Malformed)
          else if c = CHR 0x22 \<and> (dc_State d = ObjectStart \<or> dc_State d = ObjectKey) then
            (case read_string t of
               None \<Rightarrow> Inl Malformed
             | Some (x, u) \<Rightarrow> Inr (StrTok x, d\<lparr>dc_Rest := u, dc_State := ObjectColon\<rparr>))
          else scalar_token (c # t) d)"
  by pat_completeness auto
termination
  by (relation "measure (length \<circ> dc_Rest)") (auto dest: skip_ws_Cons)

declare Token.simps [simp del]

definition More :: "decoder \<Rightarrow> bool" where
  "More d = (case skip_ws (dc_Rest d) of [] \<Rightarrow> False | c # t \<Rightarrow> c \<noteq> CHR '']'' \<and> c \<noteq> CHR ''}'')"

subsection \<open>The bounded walk\<close>

definition close_container :: "char \<Rightarrow> decoder \<Rightarrow> tokerr + decoder" where
  "close_container close d =
     (case Token d of
        Inl e \<Rightarrow> Inl e
      | Inr (t, d') \<Rightarrow> if t = Delim close then Inr d' else Inl Malformed)"

text \<open>The fuel bounds calls and rounds; the fuel of \<^verbatim>\<open>validate_json\<close> is enough for its text.\<close>

fun jsonValue :: "nat \<Rightarrow> Budget \<Rightarrow> int \<Rightarrow> decoder \<Rightarrow> tokerr + decoder"
  and object_loop :: "nat \<Rightarrow> Budget \<Rightarrow> int \<Rightarrow> string list \<Rightarrow> decoder \<Rightarrow> tokerr + decoder"
  and array_loop :: "nat \<Rightarrow> Budget \<Rightarrow> int \<Rightarrow> int \<Rightarrow> decoder \<Rightarrow> tokerr + decoder" where
  "jsonValue 0 b depth d = Inl Malformed"
| "jsonValue (Suc n) b depth d =
     (if bd_Depth b < depth then Inl Malformed
      else (case Token d of
              Inl e \<Rightarrow> Inl e
            | Inr (t, d1) \<Rightarrow>
                (case t of
                   Delim c \<Rightarrow>
                     if c = CHR ''{'' then
                       (case object_loop n b depth [] d1 of Inl e \<Rightarrow> Inl e | Inr d2 \<Rightarrow> close_container (CHR ''}'') d2)
                     else if c = CHR ''['' then
                       (case array_loop n b depth 0 d1 of Inl e \<Rightarrow> Inl e | Inr d2 \<Rightarrow> close_container (CHR '']'') d2)
                     else Inl Malformed
                 | _ \<Rightarrow> Inr d1)))"
| "object_loop 0 b depth seen d = Inl Malformed"
| "object_loop (Suc n) b depth seen d =
     (if \<not> More d then Inr d
      else (case Token d of
              Inl e \<Rightarrow> Inl e
            | Inr (t, d1) \<Rightarrow>
                (case t of
                   StrTok s \<Rightarrow>
                     if s \<in> set seen then Inl Malformed
                     else if bd_Entries b \<le> int (length seen) then Inl Malformed
                     else (case jsonValue n b (depth + 1) d1 of
                             Inl e \<Rightarrow> Inl e
                           | Inr d2 \<Rightarrow> object_loop n b depth (s # seen) d2)
                 | _ \<Rightarrow> Inl Malformed)))"
| "array_loop 0 b depth count d = Inl Malformed"
| "array_loop (Suc n) b depth count d =
     (if \<not> More d then Inr d
      else if bd_Entries b < count + 1 then Inl Malformed
      else (case jsonValue n b (depth + 1) d of
              Inl e \<Rightarrow> Inl e
            | Inr d2 \<Rightarrow> array_loop n b depth (count + 1) d2))"

definition validate_json :: "string \<Rightarrow> Budget \<Rightarrow> bool" where
  "validate_json s b \<longleftrightarrow>
     valid_utf8 s \<and> scan_strings s \<and>
     (case jsonValue (enough_fuel s) b 0 \<lparr>dc_Rest = s, dc_State = TopValue, dc_Stack = []\<rparr> of
        Inl e \<Rightarrow> False
      | Inr d \<Rightarrow> Token d = Inl EndOfInput)"

text \<open>\<^verbatim>\<open>Validate\<close> gives no error.\<close>

definition strict_Validate :: "string \<Rightarrow> Budget \<Rightarrow> bool" where
  "strict_Validate s b \<longleftrightarrow>
     \<not> (bd_Bytes b < 1 \<or> bd_Depth b < 1 \<or> bd_Entries b < 1 \<or> bd_Bytes b < int (length s)) \<and> validate_json s b"

subsection \<open>What it accepts\<close>

fun within_budget :: "Budget \<Rightarrow> int \<Rightarrow> jtree \<Rightarrow> bool" where
  "within_budget b depth (TArr xs) \<longleftrightarrow>
     depth \<le> bd_Depth b \<and> int (length xs) \<le> bd_Entries b \<and> list_all (within_budget b (depth + 1)) xs"
| "within_budget b depth (TObj m) \<longleftrightarrow>
     depth \<le> bd_Depth b \<and> int (length m) \<le> bd_Entries b \<and> distinct (map fst m) \<and>
     list_all (\<lambda>(k, x). within_budget b (depth + 1) x) m"
| "within_budget b depth j \<longleftrightarrow> depth \<le> bd_Depth b"

abbreviation at_token :: "string \<Rightarrow> tstate \<Rightarrow> tstate list \<Rightarrow> decoder" where
  "at_token s st stack \<equiv> \<lparr>dc_Rest = s, dc_State = st, dc_Stack = stack\<rparr>"

definition accepted :: "(tokerr + decoder) \<Rightarrow> decoder option" where
  "accepted r = (case r of Inl e \<Rightarrow> None | Inr d \<Rightarrow> Some d)"

lemma accepted_simps [simp]:
  "accepted (Inl e) = None"
  "accepted (Inr d) = Some d"
  by (simp_all add: accepted_def)

lemma Token_skip:
  assumes "skip_ws s = CHR '','' # u"
  shows "Token (at_token s ArrayComma stack) = Token (at_token u ArrayValue stack)"
    and "Token (at_token s ObjectComma stack) = Token (at_token u ObjectKey stack)"
  using assms by (simp_all add: Token.simps [of "at_token s _ stack"])

lemma Token_colon:
  assumes "skip_ws s = CHR '':'' # u"
  shows "Token (at_token s ObjectColon stack) = Token (at_token u ObjectValue stack)"
  using assms by (simp add: Token.simps [of "at_token s _ stack"])

lemma jsonValue_Token: "Token d = Token d' \<Longrightarrow> jsonValue n b depth d = jsonValue n b depth d'"
  by (cases n) simp_all


text \<open>What the walk makes of what the reader reads.\<close>

definition outcome_of :: "Budget \<Rightarrow> int \<Rightarrow> tstate \<Rightarrow> tstate list \<Rightarrow> (jtree \<times> string) option \<Rightarrow> decoder option" where
  "outcome_of b depth st stack r =
     (case r of
        None \<Rightarrow> None
      | Some (j, t) \<Rightarrow> if within_budget b depth j then Some (at_token t (tokenValueEnd st) stack) else None)"

text \<open>The rest of an array, its closing bracket included.\<close>

definition items_outcome :: "Budget \<Rightarrow> int \<Rightarrow> int \<Rightarrow> tstate \<Rightarrow> tstate list \<Rightarrow> (jtree list \<times> string) option \<Rightarrow> decoder option" where
  "items_outcome b depth count st stack r =
     (case r of
        None \<Rightarrow> None
      | Some (xs, t) \<Rightarrow>
          if (xs = [] \<or> count + int (length xs) \<le> bd_Entries b) \<and> list_all (within_budget b (depth + 1)) xs
          then Some (at_token t (tokenValueEnd st) stack) else None)"

definition members_outcome :: "Budget \<Rightarrow> int \<Rightarrow> string list \<Rightarrow> tstate \<Rightarrow> tstate list \<Rightarrow> ((string \<times> jtree) list \<times> string) option \<Rightarrow> decoder option" where
  "members_outcome b depth seen st stack r =
     (case r of
        None \<Rightarrow> None
      | Some (m, t) \<Rightarrow>
          if (m = [] \<or> int (length seen + length m) \<le> bd_Entries b) \<and> distinct (map fst m)
             \<and> set seen \<inter> fst ` set m = {} \<and> list_all (\<lambda>(k, x). within_budget b (depth + 1) x) m
          then Some (at_token t (tokenValueEnd st) stack) else None)"

definition closing :: "char \<Rightarrow> (tokerr + decoder) \<Rightarrow> decoder option" where
  "closing c r = (case r of Inl e \<Rightarrow> None | Inr d \<Rightarrow> accepted (close_container c d))"

lemma closing_Inl [simp]: "closing c (Inl e) = None"
  by (simp add: closing_def)

lemma within_depth: "within_budget b depth j \<Longrightarrow> depth \<le> bd_Depth b"
  by (cases j) simp_all

lemma scalar_within: "read_scalar s = Some (j, t) \<Longrightarrow> within_budget b depth j \<longleftrightarrow> depth \<le> bd_Depth b"
  by (auto simp: read_scalar_def split: list.splits if_splits)

lemma no_scalar:
  "c \<in> set ''[]{}:,'' \<Longrightarrow> read_scalar (c # t) = None"
proof -
  assume "c \<in> set ''[]{}:,''"
  then have c: "\<not> digit c" "c \<notin> {CHR 0x22, CHR ''n'', CHR ''t'', CHR ''f'', CHR ''-'', CHR ''0''}"
    by (auto simp: digit_def)
  then have "read_number (c # t) = None"
    by (simp add: read_number_def read_sign_def read_integer_def read_digits_def)
  with c show ?thesis by (simp add: read_scalar_def HasPrefix_def)
qed

lemma skip_idem: "skip_ws (skip_ws s) = skip_ws s"
  by (induction s) auto

text \<open>What stands where an item of a list or the end of the list is due.\<close>

lemma Token_ws: "Token (at_token (skip_ws s) st stack) = Token (at_token s st stack)"
  unfolding Token.simps [of "at_token (skip_ws s) st stack"] Token.simps [of "at_token s st stack"]
  by (simp only: decoder.simps skip_idem open_token_def close_token_def scalar_token_def)

lemma not_due:
  assumes "skip_ws s = c # t" and "c \<noteq> CHR '','' " and "c \<noteq> CHR '']''" and "c \<noteq> CHR ''}''"
  shows "Token (at_token s ArrayComma stack) = Inl Malformed"
    and "Token (at_token s ObjectComma stack) = Inl Malformed"
  using assms by (simp_all add: Token.simps [of "at_token s _ stack"] open_token_def scalar_token_def tokenValueAllowed_def)

lemma More_iff: "skip_ws s = c # t \<Longrightarrow> More (at_token s st stack) \<longleftrightarrow> c \<noteq> CHR '']'' \<and> c \<noteq> CHR ''}''"
  by (simp add: More_def)

lemma closing_end:
  assumes "skip_ws s = []"
  shows "closing c (Inr (at_token s st stack)) = None" and "\<not> More (at_token s st stack)"
proof -
  have "Token (at_token s st stack) = Inl EndOfInput"
    by (simp only: Token.simps [of "at_token s st stack"] assms list.case decoder.simps)
  then show "closing c (Inr (at_token s st stack)) = None"
    by (simp add: closing_def close_container_def)
  show "\<not> More (at_token s st stack)"
    by (simp only: More_def decoder.simps assms list.case simp_thms)
qed

lemma closing_array:
  assumes "skip_ws s = c # t" and "c = CHR '']'' \<or> c = CHR ''}''"
  shows "closing (CHR '']'') (Inr (at_token s (if first then ArrayStart else ArrayComma) (st # stack)))
    = (if c = CHR '']'' then Some (at_token t (tokenValueEnd st) stack) else None)"
  using assms
  by (auto simp: closing_def close_container_def Token.simps [of "at_token s _ _"] close_token_def)

lemma closing_object:
  assumes "skip_ws s = c # t" and "c = CHR '']'' \<or> c = CHR ''}''"
  shows "closing (CHR ''}'') (Inr (at_token s (if first then ObjectStart else ObjectComma) (st # stack)))
    = (if c = CHR ''}'' then Some (at_token t (tokenValueEnd st) stack) else None)"
  using assms
  by (auto simp: closing_def close_container_def Token.simps [of "at_token s _ _"] close_token_def)

lemma read_value_stray:
  "read_value n (CHR '']'' # t) = None"
  "read_value n (CHR ''}'' # t) = None"
  by (cases n; simp add: json_space_def no_scalar)+

text \<open>The walk at the next item of an array, and at the next member of an object.\<close>

lemma array_item:
  assumes "skip_ws s = c # t" and "c \<noteq> CHR '']''" and "c \<noteq> CHR ''}''"
  shows "jsonValue n b depth (at_token s (if first then ArrayStart else ArrayComma) stack) =
    (case next_item (CHR '']'') first s of
       Some (Inr u) \<Rightarrow> jsonValue n b depth (at_token u (if first then ArrayStart else ArrayValue) stack)
     | _ \<Rightarrow> Inl Malformed)"
proof (cases first)
  case True
  then show ?thesis
    using assms jsonValue_Token [OF Token_ws [of s ArrayStart stack], of n b depth]
    by (simp add: next_item_def)
next
  case False
  show ?thesis
  proof (cases "c = CHR '','' ")
    case True
    then show ?thesis
      using False assms jsonValue_Token [OF Token_skip(1) [of s t stack], of n b depth]
      by (simp add: next_item_def)
  next
    case no: False
    then show ?thesis
      using False assms not_due(1) [OF assms(1) no assms(2,3), of stack]
      by (cases n) (simp_all add: next_item_def)
  qed
qed

lemma object_item:
  assumes "skip_ws s = c # t" and "c \<noteq> CHR '']''" and "c \<noteq> CHR ''}''"
  shows "Token (at_token s (if first then ObjectStart else ObjectComma) stack) =
    (case next_item (CHR ''}'') first s of
       Some (Inr u) \<Rightarrow> Token (at_token u (if first then ObjectStart else ObjectKey) stack)
     | _ \<Rightarrow> Inl Malformed)"
proof (cases first)
  case True
  then show ?thesis
    using assms Token_ws [of s ObjectStart stack] by (simp add: next_item_def)
next
  case False
  show ?thesis
  proof (cases "c = CHR '','' ")
    case True
    then show ?thesis
      using False assms Token_skip(2) [of s t stack] by (simp add: next_item_def)
  next
    case no: False
    then show ?thesis
      using False assms not_due(2) [OF assms(1) no assms(2,3), of stack]
      by (simp add: next_item_def)
  qed
qed

text \<open>A key, and the value after its colon.\<close>

lemma no_colon:
  assumes "\<And>r. skip_ws v \<noteq> CHR '':'' # r"
  shows "accepted (jsonValue n b depth (at_token v ObjectColon stack)) = None"
proof -
  have "\<exists>e. Token (at_token v ObjectColon stack) = Inl e"
  proof (cases "skip_ws v")
    case Nil
    show ?thesis
      by (rule exI, simp only: Token.simps [of "at_token v ObjectColon stack"] Nil list.case decoder.simps)
  next
    case (Cons c r)
    then show ?thesis
      using assms
      by (auto simp: Token.simps [of "at_token v _ _"] open_token_def close_token_def scalar_token_def tokenValueAllowed_def)
  qed
  then show ?thesis by (cases n) auto
qed

lemma member_token:
  assumes "st = ObjectStart \<and> hd (skip_ws u) \<noteq> CHR ''}'' \<or> st = ObjectKey"
  obtains (key) k r v where "read_key u = Some (k, r)" "skip_ws v = CHR '':'' # r"
      "Token (at_token u st stack) = Inr (StrTok k, at_token v ObjectColon stack)"
    | (none) e where "read_key u = None" "Token (at_token u st stack) = Inl e"
    | (bare) k v where "read_key u = None" "\<And>r. skip_ws v \<noteq> CHR '':'' # r"
      "Token (at_token u st stack) = Inr (StrTok k, at_token v ObjectColon stack)"
proof (cases "skip_ws u")
  case Nil
  have "Token (at_token u st stack) = Inl EndOfInput"
    by (simp only: Token.simps [of "at_token u st stack"] Nil list.case decoder.simps)
  moreover have "read_key u = None" by (simp only: read_key_def Nil list.case)
  ultimately show thesis by (rule none [rotated])
next
  case (Cons c t)
  show thesis
  proof (cases "c = CHR 0x22")
    case True
    note tok = Token.simps [of "at_token u st stack"]
    show thesis
    proof (cases "read_string t")
      case None
      then show thesis
        using assms by (intro none [of Malformed]) (auto simp: tok read_key_def Cons True)
    next
      case (Some p)
      obtain k v where p: "p = (k, v)" by (cases p)
      have t: "Token (at_token u st stack) = Inr (StrTok k, at_token v ObjectColon stack)"
        using assms by (auto simp: tok Cons True Some p)
      show thesis
      proof (cases "\<exists>r. skip_ws v = CHR '':'' # r")
        case True
        then obtain r where r: "skip_ws v = CHR '':'' # r" by blast
        moreover have "read_key u = Some (k, r)"
          by (simp add: read_key_def Cons \<open>c = CHR 0x22\<close> Some p r)
        ultimately show thesis using t by (intro key)
      next
        case False
        have "read_key u = None"
        proof (cases "skip_ws v")
          case Nil
          then show ?thesis
            by (simp only: read_key_def Cons \<open>c = CHR 0x22\<close> Some p list.case option.case prod.case) simp
        next
          case (Cons d w)
          then show ?thesis
            using False by (auto simp: read_key_def \<open>skip_ws u = c # t\<close> \<open>c = CHR 0x22\<close> Some p)
        qed
        with False t show thesis by (intro bare) auto
      qed
    qed
  next
    case False
    then have "read_key u = None" by (simp add: read_key_def Cons)
    moreover have "Token (at_token u st stack) = Inl Malformed"
      using assms False
      by (auto simp: Token.simps [of "at_token u _ _"] Cons open_token_def close_token_def scalar_token_def tokenValueAllowed_def)
    ultimately show thesis by (rule none)
  qed
qed

text \<open>Where a value is due, the decoder's walk is the reader's.\<close>

lemma next_item_cases:
  assumes "skip_ws s = c # t" and "c \<noteq> close"
  shows "next_item close first s = (if first then Some (Inr (c # t)) else if c = CHR '','' then Some (Inr t) else None)"
  using assms by (simp add: next_item_def)

lemma array_step:
  assumes entries: "0 \<le> bd_Entries b" and IH1: "\<And>u depth st stack. next_item (CHR '']'') first s = Some (Inr u) \<Longrightarrow> tokenValueAllowed st \<Longrightarrow>
      accepted (jsonValue n b depth (at_token u st stack)) = outcome_of b depth st stack (read_value n u)"
    and IH2: "\<And>u x v depth count st stack. next_item (CHR '']'') first s = Some (Inr u) \<Longrightarrow> read_value n u = Some (x, v) \<Longrightarrow>
      closing (CHR '']'') (array_loop n b depth count (at_token v ArrayComma (st # stack)))
        = items_outcome b depth count st stack (read_items n False v)"
  shows "closing (CHR '']'') (array_loop (Suc n) b depth count (at_token s (if first then ArrayStart else ArrayComma) (st # stack)))
    = items_outcome b depth count st stack (read_items (Suc n) first s)"
proof (cases "skip_ws s")
  case Nil
  then have "read_items (Suc n) first s = None"
    by (simp only: read_items.simps next_item_def list.case option.case)
  then show ?thesis
    by (simp only: array_loop.simps closing_end [OF Nil] simp_thms if_True items_outcome_def option.case)
next
  case (Cons c t)
  let ?d = "at_token s (if first then ArrayStart else ArrayComma) (st # stack)"
  consider (close) "c = CHR '']''" | (stray) "c = CHR ''}''" | (item) "c \<noteq> CHR '']''" "c \<noteq> CHR ''}''" by blast
  then show ?thesis
  proof cases
    case close
    then show ?thesis
      using closing_array [OF Cons, of first st stack]
      by (simp add: More_iff [OF Cons] next_item_def Cons items_outcome_def entries)
  next
    case stray
    then have "read_items (Suc n) first s = None"
      by (simp add: next_item_def Cons read_value_stray)
    then show ?thesis
      using closing_array [OF Cons, of first st stack] stray
      by (simp add: More_iff [OF Cons] items_outcome_def del: read_items.simps)
  next
    case item
    note loop = array_loop.simps(2) [of n b depth count ?d]
    have more: "More ?d" using item by (simp add: More_iff [OF Cons])
    show ?thesis
    proof (cases "bd_Entries b < count + 1")
      case True
      have "xs \<noteq> []" if "read_items (Suc n) first s = Some (xs, w)" for xs w
        using that item by (auto simp: next_item_cases [OF Cons item(1)] split: if_splits option.splits)
      with True have "items_outcome b depth count st stack (read_items (Suc n) first s) = None"
        by (cases "read_items (Suc n) first s")
          (auto simp: items_outcome_def neq_Nil_conv simp del: read_items.simps)
      then show ?thesis
        unfolding loop using True by (simp add: more del: read_items.simps)
    next
      case False
      then have ok: "count + 1 \<le> bd_Entries b" by simp
      show ?thesis
      proof (cases "next_item (CHR '']'') first s")
        case None
        then show ?thesis
          unfolding loop array_item [OF Cons item] by (simp add: more ok items_outcome_def)
      next
        case (Some r)
        then obtain u where u: "next_item (CHR '']'') first s = Some (Inr u)"
          using next_item_cases [OF Cons item(1), of first] by (auto split: if_splits)
        let ?st = "if first then ArrayStart else ArrayValue"
        have v: "accepted (jsonValue n b (depth + 1) (at_token u ?st (st # stack)))
            = outcome_of b (depth + 1) ?st (st # stack) (read_value n u)"
          by (rule IH1 [OF u]) (simp add: tokenValueAllowed_def)
        show ?thesis
        proof (cases "read_value n u")
          case None
          with v have "\<exists>e. jsonValue n b (depth + 1) (at_token u ?st (st # stack)) = Inl e"
            by (auto simp: outcome_of_def accepted_def split: sum.splits)
          then show ?thesis
            unfolding loop array_item [OF Cons item] using None by (auto simp: more ok u items_outcome_def)
        next
          case (Some p)
          obtain x w where p: "p = (x, w)" by (cases p)
          note IH = IH2 [OF u Some [unfolded p], of depth "count + 1" st stack]
          have end_st: "tokenValueEnd ?st = ArrayComma" by simp
          show ?thesis
          proof (cases "within_budget b (depth + 1) x")
            case True
            then have "jsonValue n b (depth + 1) (at_token u ?st (st # stack)) = Inr (at_token w ArrayComma (st # stack))"
              using v Some p end_st by (auto simp: outcome_of_def accepted_def split: sum.splits)
            then show ?thesis
              unfolding loop array_item [OF Cons item] using IH True Some p
              by (auto simp: more ok u items_outcome_def split: option.splits)
          next
            case False
            then have "\<exists>e. jsonValue n b (depth + 1) (at_token u ?st (st # stack)) = Inl e"
              using v Some p by (auto simp: outcome_of_def accepted_def split: sum.splits)
            then show ?thesis
              unfolding loop array_item [OF Cons item] using False Some p
              by (auto simp: more ok u items_outcome_def split: option.splits)
          qed
        qed
      qed
    qed
  qed
qed

lemma object_step:
  assumes entries: "0 \<le> bd_Entries b"
    and IH1: "\<And>u k r depth st stack. next_item (CHR ''}'') first s = Some (Inr u) \<Longrightarrow> read_key u = Some (k, r) \<Longrightarrow> tokenValueAllowed st \<Longrightarrow>
      accepted (jsonValue n b depth (at_token r st stack)) = outcome_of b depth st stack (read_value n r)"
    and IH2: "\<And>u k r x v depth seen st stack. next_item (CHR ''}'') first s = Some (Inr u) \<Longrightarrow> read_key u = Some (k, r) \<Longrightarrow>
      read_value n r = Some (x, v) \<Longrightarrow>
      closing (CHR ''}'') (object_loop n b depth seen (at_token v ObjectComma (st # stack)))
        = members_outcome b depth seen st stack (read_members n False v)"
  shows "closing (CHR ''}'') (object_loop (Suc n) b depth seen (at_token s (if first then ObjectStart else ObjectComma) (st # stack)))
    = members_outcome b depth seen st stack (read_members (Suc n) first s)"
proof (cases "skip_ws s")
  case Nil
  then have "read_members (Suc n) first s = None"
    by (simp only: read_members.simps next_item_def list.case option.case)
  then show ?thesis
    by (simp only: object_loop.simps closing_end [OF Nil] simp_thms if_True members_outcome_def option.case)
next
  case (Cons c t)
  let ?d = "at_token s (if first then ObjectStart else ObjectComma) (st # stack)"
  consider (close) "c = CHR ''}''" | (stray) "c = CHR '']''" | (item) "c \<noteq> CHR '']''" "c \<noteq> CHR ''}''" by blast
  then show ?thesis
  proof cases
    case close
    then show ?thesis
      using closing_object [OF Cons, of first st stack]
      by (simp add: More_iff [OF Cons] next_item_def Cons members_outcome_def entries)
  next
    case stray
    then have "read_members (Suc n) first s = None"
      by (simp add: next_item_def Cons read_key_def json_space_def)
    then show ?thesis
      using closing_object [OF Cons, of first st stack] stray
      by (simp add: More_iff [OF Cons] members_outcome_def del: read_members.simps)
  next
    case item
    note loop = object_loop.simps(2) [of n b depth seen ?d]
    have more: "More ?d" using item by (simp add: More_iff [OF Cons])
    show ?thesis
    proof (cases "next_item (CHR ''}'') first s")
      case None
      then show ?thesis
        unfolding loop object_item [OF Cons item] by (simp add: more members_outcome_def)
    next
      case (Some a)
      then obtain u where u: "next_item (CHR ''}'') first s = Some (Inr u)"
        using next_item_cases [OF Cons item(2), of first] by (auto split: if_splits)
      let ?st = "if first then ObjectStart else ObjectKey"
      have "?st = ObjectStart \<and> hd (skip_ws u) \<noteq> CHR ''}'' \<or> ?st = ObjectKey"
      proof (cases first)
        case True
        then have "u = skip_ws s" using u next_item_cases [OF Cons item(2), of first] by (simp add: Cons)
        moreover have "skip_ws (c # t) = c # t" using skip_idem [of s] by (simp only: Cons)
        ultimately show ?thesis using True item by (simp only: Cons list.sel) simp
      qed simp
      then show ?thesis
      proof (cases rule: member_token [where stack = "st # stack"])
        case (none e)
        then show ?thesis
          unfolding loop object_item [OF Cons item] by (simp add: more u members_outcome_def)
      next
        case (bare k v)
        obtain e where "jsonValue n b (depth + 1) (at_token v ObjectColon (st # stack)) = Inl e"
          using no_colon [OF bare(2), of n b "depth + 1" "st # stack"] by (auto simp: accepted_def split: sum.splits)
        with bare show ?thesis
          unfolding loop object_item [OF Cons item] by (simp add: more u members_outcome_def)
      next
        case (key k r v)
        let ?dr = "at_token r ObjectValue (st # stack)"
        have colon: "jsonValue n b (depth + 1) (at_token v ObjectColon (st # stack)) = jsonValue n b (depth + 1) ?dr"
          by (rule jsonValue_Token [OF Token_colon [OF key(2)]])
        have val: "accepted (jsonValue n b (depth + 1) ?dr) = outcome_of b (depth + 1) ObjectValue (st # stack) (read_value n r)"
          by (rule IH1 [OF u key(1)]) (simp add: tokenValueAllowed_def)
        show ?thesis
        proof (cases "k \<in> set seen \<or> bd_Entries b \<le> int (length seen)")
          case True
          then show ?thesis
            unfolding loop object_item [OF Cons item] using key
            by (auto simp: more u members_outcome_def split: option.splits)
        next
          case False
          show ?thesis
          proof (cases "read_value n r")
            case None
            with val obtain e where "jsonValue n b (depth + 1) ?dr = Inl e"
              by (auto simp: outcome_of_def accepted_def split: sum.splits)
            then show ?thesis
              unfolding loop object_item [OF Cons item] using None key False colon by (simp add: more u members_outcome_def)
          next
            case (Some p)
            obtain x w where p: "p = (x, w)" by (cases p)
            note IH = IH2 [OF u key(1) Some [unfolded p], of depth "k # seen" st stack]
            show ?thesis
            proof (cases "within_budget b (depth + 1) x")
              case True
              then have "jsonValue n b (depth + 1) ?dr = Inr (at_token w ObjectComma (st # stack))"
                using val Some p by (auto simp: outcome_of_def accepted_def split: sum.splits)
              moreover have "int (length seen) < bd_Entries b" using False by simp
              ultimately show ?thesis
                unfolding loop object_item [OF Cons item] using IH True Some p key False colon
                by (auto simp: more u members_outcome_def split: option.splits)
            next
              case no: False
              then obtain e where "jsonValue n b (depth + 1) ?dr = Inl e"
                using val Some p by (auto simp: outcome_of_def accepted_def split: sum.splits)
              then show ?thesis
                unfolding loop object_item [OF Cons item] using no Some p key False colon
                by (auto simp: more u members_outcome_def split: option.splits)
            qed
          qed
        qed
      qed
    qed
  qed
qed

lemma value_step:
  assumes entries: "0 \<le> bd_Entries b" and allowed: "tokenValueAllowed st"
    and IH1: "\<And>t. skip_ws s = CHR ''['' # t \<Longrightarrow>
      closing (CHR '']'') (array_loop n b depth 0 (at_token t ArrayStart (st # stack)))
        = items_outcome b depth 0 st stack (read_items n True t)"
    and IH2: "\<And>t. skip_ws s = CHR ''{'' # t \<Longrightarrow>
      closing (CHR ''}'') (object_loop n b depth [] (at_token t ObjectStart (st # stack)))
        = members_outcome b depth [] st stack (read_members n True t)"
  shows "accepted (jsonValue (Suc n) b depth (at_token s st stack)) = outcome_of b depth st stack (read_value (Suc n) s)"
proof (cases "depth \<le> bd_Depth b")
  case depth: True
  note tok = Token.simps [of "at_token s st stack"]
  show ?thesis
  proof (cases "skip_ws s")
    case Nil
    then have "Token (at_token s st stack) = Inl EndOfInput" by (simp only: tok list.case decoder.simps)
    with Nil depth show ?thesis by (simp only: jsonValue.simps read_value.simps outcome_of_def) simp
  next
    case (Cons c t)
    consider (arr) "c = CHR ''[''" | (obj) "c = CHR ''{''" | (bad) "c \<in> set '']}:,''"
      | (scalar) "c \<notin> set ''[]{}:,''" by auto
    then show ?thesis
    proof cases
      case arr
      have "Token (at_token s st stack) = Inr (Delim c, at_token t ArrayStart (st # stack))"
        using allowed by (simp add: tok Cons arr open_token_def)
      then have "accepted (jsonValue (Suc n) b depth (at_token s st stack))
          = closing (CHR '']'') (array_loop n b depth 0 (at_token t ArrayStart (st # stack)))"
        using depth arr by (simp add: closing_def split: sum.split)
      also have "\<dots> = items_outcome b depth 0 st stack (read_items n True t)"
        using IH1 Cons arr by simp
      also have "\<dots> = outcome_of b depth st stack (read_value (Suc n) s)"
        using entries depth by (auto simp: Cons arr outcome_of_def items_outcome_def split: option.splits)
      finally show ?thesis .
    next
      case obj
      have "Token (at_token s st stack) = Inr (Delim c, at_token t ObjectStart (st # stack))"
        using allowed by (simp add: tok Cons obj open_token_def)
      then have "accepted (jsonValue (Suc n) b depth (at_token s st stack))
          = closing (CHR ''}'') (object_loop n b depth [] (at_token t ObjectStart (st # stack)))"
        using depth obj by (simp add: closing_def split: sum.split)
      also have "\<dots> = members_outcome b depth [] st stack (read_members n True t)"
        using IH2 Cons obj by simp
      also have "\<dots> = outcome_of b depth st stack (read_value (Suc n) s)"
        using entries depth by (auto simp: Cons obj outcome_of_def members_outcome_def split: option.splits)
      finally show ?thesis .
    next
      case bad
      then have c: "c \<noteq> CHR ''[''" "c \<noteq> CHR ''{''" "read_scalar (c # t) = None" by (auto intro!: no_scalar)
      have st: "st \<noteq> ArrayComma" "st \<noteq> ObjectComma" "st \<noteq> ObjectStart" "st \<noteq> ObjectColon"
        using allowed by (auto simp: tokenValueAllowed_def)
      have "(\<exists>e. Token (at_token s st stack) = Inl e) \<or> (\<exists>d. Token (at_token s st stack) = Inr (Delim c, d))"
        using bad st by (auto simp: tok Cons close_token_def split: list.splits)
      then have "accepted (jsonValue (Suc n) b depth (at_token s st stack)) = None"
        using depth c by auto
      then show ?thesis using c by (simp add: Cons outcome_of_def)
    next
      case scalar
      then have tok: "Token (at_token s st stack) = scalar_token (c # t) (at_token s st stack)"
        using allowed by (auto simp: tok Cons tokenValueAllowed_def)
      from scalar have "read_value (Suc n) s = read_scalar (c # t)" by (simp add: Cons)
      moreover have "accepted (jsonValue (Suc n) b depth (at_token s st stack)) = outcome_of b depth st stack (read_scalar (c # t))"
      proof (cases "read_scalar (c # t)")
        case (Some p)
        obtain j u where p: "p = (j, u)" by (cases p)
        show ?thesis
          using depth allowed scalar_within [OF Some [unfolded p], of b depth] tok
          by (simp add: scalar_token_def Some p outcome_of_def split: jtree.splits)
      qed (use depth allowed tok in \<open>simp add: scalar_token_def outcome_of_def\<close>)
      ultimately show ?thesis by simp
    qed
  qed
next
  case False
  then show ?thesis by (auto simp: outcome_of_def dest: within_depth split: option.splits simp del: read_value.simps)
qed

lemma jsonValue_reads:
  assumes "0 \<le> bd_Entries b"
  shows "tokenValueAllowed st \<Longrightarrow>
      accepted (jsonValue n b depth (at_token s st stack)) = outcome_of b depth st stack (read_value n s)"
    and "closing (CHR '']'') (array_loop n b depth count (at_token s (if first then ArrayStart else ArrayComma) (st # stack)))
      = items_outcome b depth count st stack (read_items n first s)"
    and "closing (CHR ''}'') (object_loop n b depth seen (at_token s (if first then ObjectStart else ObjectComma) (st # stack)))
      = members_outcome b depth seen st stack (read_members n first s)"
proof (induction n s and n first s and n first s arbitrary: depth st stack and depth count st stack and depth seen st stack
    rule: read_value_read_items_read_members.induct)
  case (2 n s)
  have "closing (CHR '']'') (array_loop n b depth 0 (at_token t ArrayStart (st # stack)))
      = items_outcome b depth 0 st stack (read_items n True t)" if "skip_ws s = CHR ''['' # t" for t
    using 2(1) [OF that refl, of depth 0 st stack] by simp
  moreover have "closing (CHR ''}'') (object_loop n b depth [] (at_token t ObjectStart (st # stack)))
      = members_outcome b depth [] st stack (read_members n True t)" if "skip_ws s = CHR ''{'' # t" for t
    using 2(2) [OF that _ refl, of depth "[]" st stack] by simp
  ultimately show ?case by (rule value_step [OF assms 2(3)])
next
  case (4 n first s)
  show ?case
    by (rule array_step [OF assms]) (use 4(1) 4(2) in \<open>auto\<close>)
next
  case (6 n first s)
  show ?case
    by (rule object_step [OF assms]) (use 6(1) 6(2) in \<open>auto\<close>)
qed (simp_all add: outcome_of_def items_outcome_def members_outcome_def)

lemma top_level:
  assumes "0 \<le> bd_Entries b"
  shows "(case jsonValue (enough_fuel s) b 0 (at_token s TopValue []) of Inl e \<Rightarrow> False | Inr d \<Rightarrow> Token d = Inl EndOfInput)
    \<longleftrightarrow> (case read_document s of None \<Rightarrow> False | Some j \<Rightarrow> within_budget b 0 j)"
proof -
  have eof: "Token (at_token t TopValue []) = Inl EndOfInput \<longleftrightarrow> skip_ws t = []" for t
  proof (cases "skip_ws t")
    case Nil
    then show ?thesis by (simp only: Token.simps [of "at_token t TopValue []"] list.case decoder.simps simp_thms)
  next
    case (Cons c u)
    then have "Token (at_token t TopValue []) \<noteq> Inl EndOfInput"
      by (auto simp: Token.simps [of "at_token t TopValue []"] open_token_def close_token_def scalar_token_def split: option.splits)
    with Cons show ?thesis by (simp only: list.distinct simp_thms)
  qed
  have "accepted (jsonValue (enough_fuel s) b 0 (at_token s TopValue []))
      = outcome_of b 0 TopValue [] (read_value (enough_fuel s) s)"
    by (rule jsonValue_reads(1) [OF assms]) (simp add: tokenValueAllowed_def)
  then show ?thesis
    by (cases "jsonValue (enough_fuel s) b 0 (at_token s TopValue [])"; cases "read_value (enough_fuel s) s")
      (auto simp: outcome_of_def read_document_def eof split: if_splits prod.splits simp del: dropWhile_eq_Nil_conv)
qed

lemma strict_Validate_iff:
  "strict_Validate s b \<longleftrightarrow>
     1 \<le> bd_Depth b \<and> 1 \<le> bd_Entries b \<and> 1 \<le> bd_Bytes b \<and> int (length s) \<le> bd_Bytes b \<and> valid_utf8 s \<and> scan_strings s \<and>
     (case read_document s of None \<Rightarrow> False | Some j \<Rightarrow> within_budget b 0 j)"
  using top_level [of b s] by (auto simp: strict_Validate_def validate_json_def not_less)


subsection \<open>What is written is accepted\<close>

lemma valid_utf8_append: "valid_utf8 a \<Longrightarrow> valid_utf8 b \<Longrightarrow> valid_utf8 (a @ b)"
  using runes_concat [OF runes_text [of a], of b] by (simp add: valid_utf8_def)

lemma valid_utf8_concat: "list_all valid_utf8 xs \<Longrightarrow> valid_utf8 (concat xs)"
  by (induction xs) (auto simp: valid_utf8_append, simp add: valid_utf8_def)

lemma valid_utf8_ascii: "list_all is_ascii s \<Longrightarrow> valid_utf8 s"
  using json_string_ascii [of s] by (simp add: valid_utf8_def json_string_def)

lemma ascii_nibble: "is_ascii (nibble n)"
proof -
  have "nibble n \<in> set ''0123456789abcdef''" unfolding nibble_def by (rule nth_mem) simp
  moreover have "\<forall>c\<in>set ''0123456789abcdef''. is_ascii c" by (simp add: is_ascii_def)
  ultimately show ?thesis by blast
qed

lemma ascii_escape: "is_ascii c \<Longrightarrow> list_all is_ascii (escape_ascii c)"
proof -
  assume c: "is_ascii c"
  have "list_all is_ascii (CHR 0x5C # ''u00bfnrt'')" by (simp add: is_ascii_def)
  then show ?thesis using c ascii_nibble by (simp add: escape_ascii_def hex_escape_def)
qed

lemma valid_escape_rune: "is_rune r \<Longrightarrow> valid_utf8 (escape_rune r)"
proof -
  assume r: "is_rune r"
  have "valid_utf8 r" using runes_of_concat [of "[r]"] r by (simp add: valid_utf8_def)
  moreover have "valid_utf8 (escape_ascii (hd r))" if "length r = 1"
    using rune_single [OF r that] valid_utf8_ascii [OF ascii_escape] by auto
  moreover have "valid_utf8 (CHR 0x5C # ''u2028'')" "valid_utf8 (CHR 0x5C # ''u2029'')"
    by (intro valid_utf8_ascii, simp add: is_ascii_def)+
  ultimately show ?thesis by (simp add: escape_rune_def)
qed

lemma valid_quote: "valid_utf8 s \<Longrightarrow> valid_utf8 (quote_json s)"
proof -
  assume s: "valid_utf8 s"
  have "valid_utf8 (concat (map escape_rune (runes s)))"
    using runes_text [of s] by (intro valid_utf8_concat) (auto simp: list_all_iff intro: valid_escape_rune)
  moreover have "valid_utf8 [CHR 0x22]" by (intro valid_utf8_ascii) (simp add: is_ascii_def)
  moreover have "quote_json s = [CHR 0x22] @ escape_json s @ [CHR 0x22]" by (simp add: quote_json_def)
  ultimately show ?thesis using s by (simp only: escape_json_valid valid_utf8_append)
qed

lemma valid_commas: "list_all valid_utf8 xs \<Longrightarrow> valid_utf8 (commas xs)"
proof (induction xs rule: commas.induct)
  case (3 x y zs)
  have "valid_utf8 '',''" by (intro valid_utf8_ascii) (simp add: is_ascii_def)
  with 3 show ?case by (auto simp del: append_Cons append_Nil intro!: valid_utf8_append)
qed (simp_all add: valid_utf8_def)

lemma digit_ascii: "digit c \<Longrightarrow> is_ascii c"
  by (simp add: digit_def is_ascii_def)

lemma valid_print: "tree_ok j \<Longrightarrow> valid_utf8 (print_tree j)"
proof (induction j rule: tree_ok.induct)
  case (3 s)
  then show ?case by (auto simp: number_text_def list_all_iff intro!: valid_utf8_ascii digit_ascii)
next
  case (4 s)
  then show ?case by (simp add: valid_quote)
next
  case (5 xs)
  have "valid_utf8 ''[''" "valid_utf8 '']''" by (intro valid_utf8_ascii, simp add: is_ascii_def)+
  moreover have "valid_utf8 (commas (map print_tree xs))"
    using 5 by (intro valid_commas) (auto simp: list_all_iff)
  ultimately show ?case by (simp only: print_tree.simps valid_utf8_append)
next
  case (6 m)
  have "valid_utf8 ''{''" "valid_utf8 ''}''" and colon: "valid_utf8 '':''"
    by (intro valid_utf8_ascii, simp add: is_ascii_def)+
  moreover have "valid_utf8 (commas (map member_text m))"
    using 6 by (intro valid_commas) (auto simp: list_all_iff simp del: append_Cons append_Nil
        intro!: valid_utf8_append valid_quote colon)
  ultimately show ?case by (simp only: print_tree.simps valid_utf8_append)
qed (auto intro!: valid_utf8_ascii simp: is_ascii_def)

subsubsection \<open>Surrogates\<close>

lemma scan_hex_escape:
  assumes "is_ascii c"
  shows "scan_string (hex_escape c @ t) = scan_string t"
proof -
  have n: "(of_char c :: nat) < 128" using assms by (simp add: is_ascii_def)
  then have "(of_char c :: nat) div 16 < 16" by linarith
  moreover have "nibble_of (CHR ''0'') = Some 0" by (simp add: nibble_of_def)
  ultimately have "hex4 (''00'' @ [nibble (of_char c div 16), nibble (of_char c)] @ t) = Some (of_char c, t)"
    by (simp add: hex4_def nibble_of_nibble)
  with n show ?thesis by (simp add: hex_escape_def scan_string.simps(2))
qed

lemma scan_escape_ascii:
  assumes "is_ascii c"
  shows "scan_string (escape_ascii c @ t) = scan_string t"
proof (cases "html_safe c")
  case True
  then show ?thesis by (simp add: escape_ascii_def scan_string.simps(2) html_safe_def)
next
  case unsafe: False
  let ?short = "{CHR 0x22, CHR 0x5C, CHR 0x08, CHR 0x0C, CHR 0x0A, CHR 0x0D, CHR 0x09}"
  show ?thesis
  proof (cases "c \<in> ?short")
    case True
    then show ?thesis
      by (elim insertE emptyE) (simp_all add: escape_ascii_def html_safe_def scan_string.simps(2))
  next
    case False
    with unsafe have "escape_ascii c = hex_escape c" by (simp add: escape_ascii_def)
    then show ?thesis by (simp only: scan_hex_escape [OF assms])
  qed
qed

lemma scan_high: "list_all (\<lambda>c. \<not> is_ascii c) r \<Longrightarrow> scan_string (r @ t) = scan_string t"
proof (induction r)
  case (Cons c r)
  then have "c \<noteq> CHR 0x22" "c \<noteq> CHR 0x5C" by (auto simp: is_ascii_def)
  with Cons show ?case by (simp add: scan_string.simps(2))
qed simp

lemma scan_rune:
  assumes "is_rune r"
  shows "scan_string (escape_rune r @ t) = scan_string t"
proof (cases "length r = 1")
  case True
  with rune_single [OF assms] show ?thesis by (auto simp: escape_rune_def scan_escape_ascii)
next
  case False
  then have high: "list_all (\<lambda>c. \<not> is_ascii c) r" using rune_bytes [OF assms] by (simp add: list_all_iff)
  then show ?thesis
    using False scan_high [OF high, of t]
    by (auto simp: escape_rune_def scan_string.simps(2) hex4_def nibble_of_def)
qed

lemma scan_quoted: "valid_utf8 s \<Longrightarrow> scan_strings (quote_json s @ t) = scan_strings t"
proof -
  assume s: "valid_utf8 s"
  have "scan_string (concat (map escape_rune rs) @ CHR 0x22 # t) = Some t" if "list_all is_rune rs" for rs
    using that by (induction rs) (simp_all add: scan_rune scan_string.simps(2))
  from this [OF runes_text [of s]] s show ?thesis by (simp add: quote_json_def escape_json_valid)
qed

lemma scan_unquoted: "CHR 0x22 \<notin> set s \<Longrightarrow> scan_strings (s @ t) = scan_strings t"
  by (induction s) auto

lemma scan_commas:
  assumes "\<And>x t. x \<in> set xs \<Longrightarrow> scan_strings (x @ t) = scan_strings t"
  shows "scan_strings (commas xs @ t) = scan_strings t"
  using assms by (induction xs rule: commas.induct) simp_all

lemma scan_print: "tree_ok j \<Longrightarrow> scan_strings (print_tree j @ t) = scan_strings t"
proof (induction j arbitrary: t rule: tree_ok.induct)
  case (3 s)
  then have "CHR 0x22 \<notin> set s" by (auto simp: number_text_def list_all_iff digit_def)
  then show ?case by (simp add: scan_unquoted)
next
  case (4 s)
  then show ?case by (simp add: scan_quoted)
next
  case (5 xs)
  then have "scan_strings (commas (map print_tree xs) @ CHR '']'' # t) = scan_strings (CHR '']'' # t)"
    by (intro scan_commas) (auto simp: list_all_iff)
  then show ?case by simp
next
  case (6 m)
  then have "scan_strings (commas (map member_text m) @ CHR ''}'' # t) = scan_strings (CHR ''}'' # t)"
    by (intro scan_commas) (auto simp: list_all_iff scan_quoted)
  then show ?case by simp
qed simp_all

lemma printed_accepted:
  assumes "tree_ok j" and "within_budget b 0 j" and "1 \<le> bd_Depth b" and "1 \<le> bd_Entries b"
    and "int (length (print_tree j)) \<le> bd_Bytes b"
  shows "strict_Validate (print_tree j) b"
proof -
  have "print_tree j \<noteq> []" by (cases j) (use assms(1) in \<open>auto simp: number_text_def quote_json_def\<close>)
  then have "1 \<le> bd_Bytes b" using assms(5) by (cases "print_tree j") simp_all
  moreover have "read_document (print_tree j) = Some j" using read_printed [OF assms(1), of "[]"] by simp
  moreover have "scan_strings (print_tree j)" using scan_print [OF assms(1), of "[]"] by simp
  ultimately show ?thesis using assms valid_print [OF assms(1)] by (simp add: strict_Validate_iff)
qed

end
