(* ===== verification/JournalCodec.thy ===== *)
theory JournalCodec
  imports StrictJson JournalFacts "HOL-Library.Char_ord" "HOL-Library.List_Lexorder"
begin

text \<open>
  The journal's file contents: the JSON of a disk image (\<^verbatim>\<open>journal.go\<close>, the struct
  tags), its strict and canonical reading (\<^verbatim>\<open>json.go\<close> and the second half of
  \<^verbatim>\<open>Store.read\<close> in \<^verbatim>\<open>storage_unix.go\<close>), and the proof that what is
  written is read back.
\<close>

subsection \<open>Writing\<close>

definition num :: "nat \<Rightarrow> jtree" where
  "num n = TNum (show_nat n)"

definition int_num :: "int \<Rightarrow> jtree" where
  "int_num x = TNum (Itoa x)"

definition target_tree :: "jtarget \<Rightarrow> jtree" where
  "target_tree t =
     TObj [(''kind'', TStr (jt_Kind t)), (''id'', TStr (jt_ID t)),
           (''application'', TStr (jt_Application t)), (''identity'', TStr (jt_Identity t))]"

definition navigation_tree :: "navigation \<Rightarrow> jtree" where
  "navigation_tree n =
     TObj [(''capability'', TStr (nv_Capability n)), (''precision'', TStr (nv_Precision n)),
           (''scope'', TStr (nv_Scope n)), (''reason'', TStr (nv_Reason n))]"

definition snapshot_tree :: "snapshot \<Rightarrow> jtree" where
  "snapshot_tree s =
     TObj [(''target'', target_tree (sn_Target s)), (''policy'', TStr (sn_Policy s)),
           (''navigation'', navigation_tree (sn_Navigation s))]"

definition receipt_tree :: "jreceipt \<Rightarrow> jtree" where
  "receipt_tree p =
     TObj ([(''status'', TStr (jr_Status p)), (''reason'', TStr (jr_Reason p)), (''backend'', TStr (jr_Backend p)),
            (''request_id'', case jr_RequestID p of None \<Rightarrow> TNull | Some q \<Rightarrow> TStr q),
            (''tracking_id'', TStr (jr_TrackingID p)), (''key_kind'', TStr (kind_string (jr_KeyKind p))),
            (''decision'', snapshot_tree (jr_Decision p))]
           @ (case jr_OutcomeNavigation p of None \<Rightarrow> [] | Some n \<Rightarrow> [(''outcome_navigation'', navigation_tree n)]))"

definition record_tree :: "jrecord \<Rightarrow> jtree" where
  "record_tree r =
     TObj [(''session'', TStr (jc_Session r)), (''digest'', TStr (jc_Digest r)), (''attempt'', TStr (jc_Attempt r)),
           (''created'', num (unat (jc_Created r))), (''state'', TStr (jc_State r)),
           (''receipt'', receipt_tree (jc_Receipt r))]"

definition limits_tree :: "Limits \<Rightarrow> jtree" where
  "limits_tree l =
     TObj [(''records'', int_num (lm_Records l)), (''bytes'', int_num (lm_Bytes l)),
           (''retention'', num (unat (lm_Retention l)))]"

definition elapsed_tree :: "elapsed \<Rightarrow> jtree" where
  "elapsed_tree e =
     TObj [(''logical'', num (unat (el_Logical e))), (''boot'', TStr (el_Boot e)),
           (''seconds'', num (unat (el_Seconds e)))]"

definition event_tree :: "rate_event \<Rightarrow> jtree" where
  "event_tree v = TObj [(''at'', num (unat (rv_At v))), (''session'', TStr (rv_Session v))]"

text \<open>The keys of a map are written in order.\<close>

definition disk_tree :: "disk \<Rightarrow> jtree" where
  "disk_tree d =
     TObj [(''version'', int_num (dk_Version d)), (''namespace'', TStr (dk_Namespace d)),
           (''limits'', limits_tree (dk_Limits d)), (''clock'', elapsed_tree (dk_Clock d)),
           (''events'', if dk_Null d then TNull else TArr (map event_tree (dk_Events d))),
           (''records'', if dk_Null d then TNull
                         else TObj (map (\<lambda>(k, r). (k, record_tree r)) (sort_key fst (dk_Records d))))]"

definition marshal :: "disk \<Rightarrow> string" where
  "marshal d = print_tree (disk_tree d)"

text \<open>The order of the records is that of their keys once an image was written and read.\<close>

definition canonical :: "disk \<Rightarrow> disk" where
  "canonical d = d\<lparr>dk_Records := sort_key fst (dk_Records d)\<rparr>"

text \<open>
  The size check of \<^verbatim>\<open>write\<close>: a running sum that counts a comma for every entry, and then
  the text itself.
\<close>

definition entry_size :: "string \<times> jrecord \<Rightarrow> nat" where
  "entry_size kr = (let (k, r) = kr in length k + 3 + length (print_tree (record_tree r)) + 1)"

definition image_fits :: "Limits \<Rightarrow> disk \<Rightarrow> bool" where
  "image_fits limits d \<longleftrightarrow>
     (let header = length (marshal (d\<lparr>dk_Records := []\<rparr>)) in
      list_all (\<lambda>n. int (header + sum_list (map entry_size (take (Suc n) (dk_Records d)))) \<le> lm_Bytes limits)
        [0..<length (dk_Records d)]
      \<and> int (length (marshal d)) \<le> lm_Bytes limits)"

subsection \<open>Reading\<close>

definition parse_nat :: "string \<Rightarrow> nat option" where
  "parse_nat s = (if number_text s then Some (foldl (\<lambda>n c. 10 * n + (of_char c - 48)) 0 s) else None)"

definition parse_u64 :: "string \<Rightarrow> u64 option" where
  "parse_u64 s = (case parse_nat s of None \<Rightarrow> None | Some n \<Rightarrow> if n < 2 ^ 64 then Some (of_nat n) else None)"

definition parse_int :: "string \<Rightarrow> int option" where
  "parse_int s = (case parse_nat s of None \<Rightarrow> None | Some n \<Rightarrow> if n < 2 ^ 63 then Some (int n) else None)"

definition string_kind :: "string \<Rightarrow> KeyKind" where
  "string_kind s =
     (if s = ''explicit'' then Explicit else if s = ''client_call'' then ClientCall
      else if s = ''generated'' then Generated else OtherKind s)"

text \<open>
  Decoding and the comparison with the canonical text accept only the fields of the structs, each
  once and in order, so the shapes below are all that needs decoding. A negative integer is refused
  here; it would be refused by the validation after it.
\<close>

fun field_strings :: "string list \<Rightarrow> (string \<times> jtree) list \<Rightarrow> string list option" where
  "field_strings [] [] = Some []"
| "field_strings (n # ns) ((k, TStr s) # m) = (if k = n then map_option (Cons s) (field_strings ns m) else None)"
| "field_strings ns m = None"

fun tree_target :: "jtree \<Rightarrow> jtarget option" where
  "tree_target (TObj m) =
     (case field_strings [''kind'', ''id'', ''application'', ''identity''] m of
        Some [a, b, c, d] \<Rightarrow> Some \<lparr>jt_Kind = a, jt_ID = b, jt_Application = c, jt_Identity = d\<rparr>
      | _ \<Rightarrow> None)"
| "tree_target j = None"

fun tree_navigation :: "jtree \<Rightarrow> navigation option" where
  "tree_navigation (TObj m) =
     (case field_strings [''capability'', ''precision'', ''scope'', ''reason''] m of
        Some [a, b, c, d] \<Rightarrow> Some \<lparr>nv_Capability = a, nv_Precision = b, nv_Scope = c, nv_Reason = d\<rparr>
      | _ \<Rightarrow> None)"
| "tree_navigation j = None"

fun tree_snapshot :: "jtree \<Rightarrow> snapshot option" where
  "tree_snapshot (TObj [(a, t), (b, TStr p), (c, n)]) =
     (if [a, b, c] \<noteq> [''target'', ''policy'', ''navigation''] then None
      else (case (tree_target t, tree_navigation n) of
              (Some t, Some n) \<Rightarrow> Some \<lparr>sn_Target = t, sn_Policy = p, sn_Navigation = n\<rparr>
            | _ \<Rightarrow> None))"
| "tree_snapshot j = None"

fun tree_request :: "jtree \<Rightarrow> string option option" where
  "tree_request TNull = Some None"
| "tree_request (TStr s) = Some (Some s)"
| "tree_request j = None"

fun tree_outcome :: "(string \<times> jtree) list \<Rightarrow> navigation option option" where
  "tree_outcome [] = Some None"
| "tree_outcome [(k, n)] = (if k = ''outcome_navigation'' then map_option Some (tree_navigation n) else None)"
| "tree_outcome m = None"

fun tree_receipt :: "jtree \<Rightarrow> jreceipt option" where
  "tree_receipt (TObj (s # r # b # (q, req) # t # k # (d, dec) # m)) =
     (if q \<noteq> ''request_id'' \<or> d \<noteq> ''decision'' then None
      else (case (field_strings [''status'', ''reason'', ''backend'', ''tracking_id'', ''key_kind''] [s, r, b, t, k],
                  tree_request req, tree_snapshot dec, tree_outcome m) of
              (Some [s, r, b, t, k], Some req, Some dec, Some nav) \<Rightarrow>
                Some \<lparr>jr_Status = s, jr_Reason = r, jr_Backend = b, jr_RequestID = req, jr_TrackingID = t,
                      jr_KeyKind = string_kind k, jr_Decision = dec, jr_OutcomeNavigation = nav\<rparr>
            | _ \<Rightarrow> None))"
| "tree_receipt j = None"

fun tree_record :: "jtree \<Rightarrow> jrecord option" where
  "tree_record (TObj [s, g, a, (c, TNum n), st, (p, rc)]) =
     (if c \<noteq> ''created'' \<or> p \<noteq> ''receipt'' then None
      else (case (field_strings [''session'', ''digest'', ''attempt'', ''state''] [s, g, a, st],
                  parse_u64 n, tree_receipt rc) of
              (Some [s, g, a, st], Some n, Some rc) \<Rightarrow>
                Some \<lparr>jc_Session = s, jc_Digest = g, jc_Attempt = a, jc_Created = n, jc_State = st, jc_Receipt = rc\<rparr>
            | _ \<Rightarrow> None))"
| "tree_record j = None"

fun tree_limits :: "jtree \<Rightarrow> Limits option" where
  "tree_limits (TObj [(a, TNum x), (b, TNum y), (c, TNum z)]) =
     (if [a, b, c] \<noteq> [''records'', ''bytes'', ''retention''] then None
      else (case (parse_int x, parse_int y, parse_u64 z) of
              (Some x, Some y, Some z) \<Rightarrow> Some \<lparr>lm_Records = x, lm_Bytes = y, lm_Retention = z\<rparr>
            | _ \<Rightarrow> None))"
| "tree_limits j = None"

fun tree_elapsed :: "jtree \<Rightarrow> elapsed option" where
  "tree_elapsed (TObj [(a, TNum x), (b, TStr y), (c, TNum z)]) =
     (if [a, b, c] \<noteq> [''logical'', ''boot'', ''seconds''] then None
      else (case (parse_u64 x, parse_u64 z) of
              (Some x, Some z) \<Rightarrow> Some \<lparr>el_Logical = x, el_Boot = y, el_Seconds = z\<rparr>
            | _ \<Rightarrow> None))"
| "tree_elapsed j = None"

fun tree_event :: "jtree \<Rightarrow> rate_event option" where
  "tree_event (TObj [(a, TNum x), (b, TStr y)]) =
     (if [a, b] \<noteq> [''at'', ''session''] then None
      else map_option (\<lambda>x. \<lparr>rv_At = x, rv_Session = y\<rparr>) (parse_u64 x))"
| "tree_event j = None"

fun all_some :: "'a option list \<Rightarrow> 'a list option" where
  "all_some [] = Some []"
| "all_some (None # xs) = None"
| "all_some (Some x # xs) = map_option (Cons x) (all_some xs)"

text \<open>A null in place of the events or of the records is a nil slice or map.\<close>

fun tree_events :: "jtree \<Rightarrow> (bool \<times> rate_event list) option" where
  "tree_events TNull = Some (True, [])"
| "tree_events (TArr xs) = map_option (Pair False) (all_some (map tree_event xs))"
| "tree_events j = None"

fun tree_records :: "jtree \<Rightarrow> (bool \<times> (string \<times> jrecord) list) option" where
  "tree_records TNull = Some (True, [])"
| "tree_records (TObj m) =
     map_option (Pair False) (all_some (map (\<lambda>(k, j). map_option (Pair k) (tree_record j)) m))"
| "tree_records j = None"

fun tree_disk :: "jtree \<Rightarrow> disk option" where
  "tree_disk (TObj [(a, TNum v), (b, TStr ns), (c, l), (d, e), (f, vs), (g, rs)]) =
     (if [a, b, c, d, f, g] \<noteq> [''version'', ''namespace'', ''limits'', ''clock'', ''events'', ''records''] then None
      else (case (parse_int v, tree_limits l, tree_elapsed e, tree_events vs, tree_records rs) of
              (Some v, Some l, Some e, Some (n1, vs), Some (n2, rs)) \<Rightarrow>
                Some \<lparr>dk_Version = v, dk_Namespace = ns, dk_Limits = l, dk_Clock = e, dk_Events = vs,
                      dk_Records = rs, dk_Null = (n1 \<or> n2)\<rparr>
            | _ \<Rightarrow> None))"
| "tree_disk j = None"

text \<open>\<^verbatim>\<open>json.Compact\<close> on a valid document: white space outside strings goes.\<close>

fun compact_out :: "string \<Rightarrow> string" and compact_in :: "string \<Rightarrow> string" where
  "compact_out [] = []"
| "compact_out (c # t) =
     (if json_space c then compact_out t else if c = CHR 0x22 then c # compact_in t else c # compact_out t)"
| "compact_in [] = []"
| "compact_in (c # t) =
     (if c = CHR 0x22 then c # compact_out t
      else if c = CHR 0x5C then (case t of [] \<Rightarrow> [c] | e # u \<Rightarrow> c # e # compact_in u)
      else c # compact_in t)"

definition strictJSON :: "string \<Rightarrow> bool" where
  "strictJSON b = strict_Validate b \<lparr>bd_Bytes = max 1 (int (length b)), bd_Depth = 16, bd_Entries = 10000\<rparr>"

text \<open>The image of a text, for a store that expects the namespace \<^verbatim>\<open>expected\<close> when it is not empty.\<close>

definition decode_image :: "Limits \<Rightarrow> string \<Rightarrow> string \<Rightarrow> string \<Rightarrow> jerr + disk" where
  "decode_image limits expected ns b =
     (if \<not> strictJSON b then Inl ErrRepair
      else (case Option.bind (read_document b) tree_disk of
              None \<Rightarrow> Inl ErrRepair
            | Some d \<Rightarrow>
                if compact_out b \<noteq> marshal d then Inl ErrRepair
                else if dk_Namespace d \<noteq> ns \<or> expected \<noteq> [] \<and> expected \<noteq> dk_Namespace d then Inl ErrRepair
                else if \<not> validate limits d then Inl ErrRepair
                else Inr d))"


subsection \<open>Numbers\<close>

lemma digit_char: "n < 10 \<Longrightarrow> digit (char_of (48 + n)) \<and> (of_char (char_of (48 + n) :: char) :: nat) = 48 + n"
  by (auto simp: digit_def)

lemma show_nat_digits': "list_all digit (show_nat n)"
  by (induction n rule: show_nat.induct) (subst show_nat.simps, auto simp: digit_char)

lemma show_nat_head: "0 < n \<Longrightarrow> hd (show_nat n) \<noteq> CHR ''0''"
proof (induction n rule: show_nat.induct)
  case (1 n)
  show ?case
  proof (cases "n < 10")
    case True
    then have "(of_char (char_of (48 + n) :: char) :: nat) = 48 + n" by (simp add: digit_char)
    with 1 have "(char_of (48 + n) :: char) \<noteq> CHR ''0''" by (auto dest!: arg_cong [where f = "of_char :: char \<Rightarrow> nat"])
    with True show ?thesis by (subst show_nat.simps) simp
  next
    case False
    with 1 have "hd (show_nat (n div 10)) \<noteq> CHR ''0''" by simp
    with False show ?thesis by (subst show_nat.simps) simp
  qed
qed

lemma number_show_nat [simp]: "number_text (show_nat n)"
proof (cases "n = 0")
  case True
  then show ?thesis by (simp add: number_text_def show_nat.simps [of 0] digit_def)
next
  case False
  then show ?thesis using show_nat_head [of n] by (simp add: number_text_def show_nat_digits')
qed

lemma parse_show_nat [simp]: "parse_nat (show_nat n) = Some n"
proof -
  have "foldl (\<lambda>n c. 10 * n + (of_char c - 48)) 0 (show_nat n) = n"
  proof (induction n rule: show_nat.induct)
    case (1 n)
    show ?case
    proof (cases "n < 10")
      case True
      then show ?thesis by (subst show_nat.simps) (simp add: digit_char)
    next
      case False
      have "(of_char (char_of (48 + n mod 10) :: char) :: nat) = 48 + n mod 10"
        by (rule conjunct2 [OF digit_char]) simp
      with False 1 show ?thesis by (subst show_nat.simps) simp
    qed
  qed
  then show ?thesis by (simp add: parse_nat_def)
qed

lemma parse_u64_show [simp]: "parse_u64 (show_nat (unat (x :: u64))) = Some x"
  using unsigned_less [of x] by (simp add: parse_u64_def)

lemma parse_int_show: "0 \<le> x \<Longrightarrow> x < 2 ^ 63 \<Longrightarrow> parse_int (Itoa x) = Some x"
  by (simp add: parse_int_def Itoa_def)

lemma Itoa_number: "0 \<le> x \<Longrightarrow> number_text (Itoa x)"
  by (simp add: Itoa_def)

subsection \<open>Structures are read back\<close>

lemma string_kind_string: "validKind k \<Longrightarrow> string_kind (kind_string k) = k"
  by (auto simp: validKind_def string_kind_def)

lemma tree_target_back [simp]: "tree_target (target_tree t) = Some t"
  by (simp add: target_tree_def)

lemma tree_navigation_back [simp]: "tree_navigation (navigation_tree n) = Some n"
  by (simp add: navigation_tree_def)

lemma tree_snapshot_back [simp]: "tree_snapshot (snapshot_tree s) = Some s"
  by (simp add: snapshot_tree_def)

lemma tree_receipt_back: "validKind (jr_KeyKind p) \<Longrightarrow> tree_receipt (receipt_tree p) = Some p"
  by (simp add: receipt_tree_def string_kind_string split: option.split)

lemma tree_record_back: "validKind (jr_KeyKind (jc_Receipt r)) \<Longrightarrow> tree_record (record_tree r) = Some r"
  by (simp add: record_tree_def num_def tree_receipt_back)

definition small_limits :: "Limits \<Rightarrow> bool" where
  "small_limits l \<longleftrightarrow> 0 \<le> lm_Records l \<and> lm_Records l \<le> 10000 \<and> 0 \<le> lm_Bytes l \<and> lm_Bytes l < 2 ^ 63"

lemma normalized_small: "normalize_limits l = Inr l' \<Longrightarrow> small_limits l'"
  by (auto simp: normalize_limits_def small_limits_def Let_def split: if_splits)

lemma tree_limits_back: "small_limits l \<Longrightarrow> tree_limits (limits_tree l) = Some l"
  by (simp add: limits_tree_def int_num_def num_def parse_int_show small_limits_def)

lemma tree_elapsed_back [simp]: "tree_elapsed (elapsed_tree e) = Some e"
  by (simp add: elapsed_tree_def num_def)

lemma tree_event_back [simp]: "tree_event (event_tree v) = Some v"
  by (simp add: event_tree_def num_def)

lemma all_some_map: "(\<And>x. x \<in> set xs \<Longrightarrow> f x = Some (g x)) \<Longrightarrow> all_some (map f xs) = Some (map g xs)"
  by (induction xs) simp_all

lemma tree_disk_back:
  assumes "validate limits d" and "small_limits limits"
  shows "tree_disk (disk_tree d) = Some (canonical d)"
proof -
  from assms(1) have l: "dk_Version d = 1" "dk_Limits d = limits" "\<not> dk_Null d"
    by (simp_all add: validate_def disk_header_ok_def)
  have "validKind (jr_KeyKind (jc_Receipt r))" if "(k, r) \<in> set (dk_Records d)" for k r
    using assms(1) that by (force simp: validate_def list_all_iff record_ok_def receipt_ok_def Let_def)
  then have records: "all_some (map (\<lambda>(k, j). map_option (Pair k) (tree_record j))
      (map (\<lambda>(k, r). (k, record_tree r)) (sort_key fst (dk_Records d)))) = Some (sort_key fst (dk_Records d))"
    by (auto simp: tree_record_back intro!: all_some_map [where g = "\<lambda>x. x", simplified])
  have events: "all_some (map (\<lambda>x. tree_event (event_tree x)) (dk_Events d)) = Some (dk_Events d)"
    by (simp add: all_some_map [where g = "\<lambda>x. x", simplified])
  show ?thesis
    using records events assms(2) l
    by (simp add: disk_tree_def int_num_def parse_int_show tree_limits_back comp_def canonical_def)
qed

subsection \<open>The tree is well formed and within the budget\<close>

lemma validText_utf8: "validText s n b \<Longrightarrow> valid_utf8 s"
  by (simp add: validText_def)

lemma hex_utf8: "isHex s \<Longrightarrow> valid_utf8 s"
proof -
  assume "isHex s"
  then have h: "list_all hex_digit s" by (simp add: isHex_def)
  have "\<forall>c\<in>set ''0123456789abcdefABCDEF''. is_ascii c" by (simp add: is_ascii_def)
  with h have "list_all is_ascii s" unfolding list_all_iff hex_digit_def by blast
  then show ?thesis by (rule valid_utf8_ascii)
qed

lemma plain_words:
  "valid_utf8 ''explicit''" "valid_utf8 ''client_call''" "valid_utf8 ''generated''"
  "valid_utf8 ''available''" "valid_utf8 ''unavailable''" "valid_utf8 ''disabled''"
  "valid_utf8 ''chat_id''" "valid_utf8 ''none''" "valid_utf8 ''unknown''" "valid_utf8 ''dispatching''"
  "valid_utf8 ''submitted''" "valid_utf8 ''rejected''" "valid_utf8 ''suppressed''"
  by (rule valid_utf8_ascii, simp add: is_ascii_def)+

lemma ascii_names: "list_all (list_all is_ascii) xs \<Longrightarrow> list_all valid_utf8 xs"
  by (auto simp: list_all_iff intro!: valid_utf8_ascii)

lemma field_names:
  "list_all valid_utf8 [''kind'', ''id'', ''application'', ''identity'', ''capability'', ''precision'', ''scope'',
    ''reason'', ''target'', ''policy'', ''navigation'', ''status'', ''backend'', ''request_id'', ''tracking_id'',
    ''key_kind'', ''decision'', ''outcome_navigation'', ''session'', ''digest'', ''attempt'', ''created'', ''state'',
    ''receipt'', ''records'', ''bytes'', ''retention'', ''logical'', ''boot'', ''seconds'', ''at'', ''version'',
    ''namespace'', ''limits'', ''clock'', ''events'']"
  by (rule ascii_names) code_simp

lemma snapshot_tree_ok: "validSnapshot s \<Longrightarrow> tree_ok (snapshot_tree s)"
  using field_names
  by (auto simp: validSnapshot_def snapshot_tree_def target_tree_def navigation_tree_def dest!: validText_utf8)

lemma outcome_tree_ok: "validOutcomeNavigation n \<Longrightarrow> tree_ok (navigation_tree n)"
  using field_names plain_words
  by (auto simp: validOutcomeNavigation_def navigation_tree_def dest!: validText_utf8)

lemma kind_utf8: "validKind k \<Longrightarrow> valid_utf8 (kind_string k)"
  using plain_words by (auto simp: validKind_def)

lemma receipt_tree_ok:
  assumes "receipt_ok p" and "valid_utf8 (jr_Status p)"
  shows "tree_ok (receipt_tree p)"
proof -
  have "valid_utf8 q" if "jr_RequestID p = Some q" for q
    using assms(1) that by (auto simp: receipt_ok_def Let_def dest: validText_utf8 split: if_splits)
  moreover have "tree_ok (navigation_tree n)" if "jr_OutcomeNavigation p = Some n" for n
    using assms(1) that by (simp add: receipt_ok_def Let_def outcome_tree_ok)
  moreover have "valid_utf8 (jr_TrackingID p)" "valid_utf8 (jr_Reason p)" "valid_utf8 (jr_Backend p)"
      "valid_utf8 (kind_string (jr_KeyKind p))" "tree_ok (snapshot_tree (jr_Decision p))"
    using assms(1) by (auto simp: receipt_ok_def Let_def dest: validText_utf8 kind_utf8 snapshot_tree_ok)
  ultimately show ?thesis
    using assms(2) field_names by (simp add: receipt_tree_def split: option.split)
qed

lemma record_tree_ok:
  assumes "record_ok d (k, r)"
  shows "valid_utf8 k" and "tree_ok (record_tree r)"
proof -
  have r: "isHex (jc_Session r)" "isHex k" "isHex (jc_Digest r)" "isHex (jc_Attempt r)" "receipt_ok (jc_Receipt r)"
    "state_consistent r"
    using assms by (simp_all add: record_ok_def)
  then show "valid_utf8 k" by (simp add: hex_utf8)
  have "valid_utf8 (jc_State r) \<and> valid_utf8 (jr_Status (jc_Receipt r))"
    using r(6) plain_words by (auto simp: state_consistent_def validTerminal_def Let_def split: if_splits)
  then show "tree_ok (record_tree r)"
    using r field_names by (simp add: record_tree_def num_def hex_utf8 receipt_tree_ok)
qed

lemma disk_tree_ok:
  assumes "validate limits d" and "small_limits limits"
  shows "tree_ok (disk_tree d)"
proof -
  have h: "dk_Version d = 1" "isHex (dk_Namespace d)" "dk_Limits d = limits" "\<not> dk_Null d"
    "validText (el_Boot (dk_Clock d)) 256 False"
    using assms(1) by (simp_all add: validate_def disk_header_ok_def)
  have "tree_ok (event_tree v)" if "v \<in> set (dk_Events d)" for v
    using assms(1) that field_names
    by (auto simp: validate_def events_ok_def list_all_iff event_tree_def num_def hex_utf8)
  moreover have "valid_utf8 k \<and> tree_ok (record_tree r)" if "(k, r) \<in> set (dk_Records d)" for k r
    using assms(1) that record_tree_ok [of d k r] by (auto simp: validate_def list_all_iff)
  moreover have "tree_ok (limits_tree limits)"
    using assms(2) field_names by (simp add: limits_tree_def int_num_def num_def small_limits_def Itoa_number)
  moreover have "tree_ok (elapsed_tree (dk_Clock d))"
    using validText_utf8 [OF h(5)] field_names by (simp add: elapsed_tree_def num_def)
  ultimately show ?thesis
    using h field_names by (auto simp: disk_tree_def int_num_def Itoa_number hex_utf8 list_all_iff)
qed

abbreviation journal_budget :: "int \<Rightarrow> Budget" where
  "journal_budget n \<equiv> \<lparr>bd_Bytes = n, bd_Depth = 16, bd_Entries = 10000\<rparr>"

lemma record_within: "within_budget (journal_budget n) 2 (record_tree r)"
  by (simp add: record_tree_def num_def receipt_tree_def snapshot_tree_def target_tree_def navigation_tree_def split: option.split)

lemma disk_within:
  assumes "journal_ok limits d" and "small_limits limits"
  shows "within_budget (journal_budget n) 0 (disk_tree d)"
proof -
  from assms(1) have v: "dk_Limits d = limits" "\<not> dk_Null d" "int (length (dk_Records d)) \<le> lm_Records limits"
    "int (length (dk_Events d)) \<le> lm_Records limits" "distinct (map fst (dk_Records d))"
    by (auto simp: journal_ok_def validate_def disk_header_ok_def)
  have "distinct (map fst (sort_key fst (dk_Records d)))"
    using v(5) by (metis distinct_map distinct_sort set_sort)
  then show ?thesis
    using v assms(2) record_within [of n]
    by (auto simp: disk_tree_def limits_tree_def elapsed_tree_def event_tree_def num_def int_num_def list_all_iff
        small_limits_def comp_def case_prod_unfold)
qed

subsection \<open>Compact text stays\<close>

lemma compact_in_high: "list_all (\<lambda>c. \<not> is_ascii c) r \<Longrightarrow> compact_in (r @ t) = r @ compact_in t"
proof (induction r)
  case (Cons c r)
  then have "c \<noteq> CHR 0x22" "c \<noteq> CHR 0x5C" by (auto simp: is_ascii_def)
  with Cons show ?case by simp
qed simp

lemma nibble_plain: "nibble n \<noteq> CHR 0x22" "nibble n \<noteq> CHR 0x5C"
proof -
  have "nibble n \<in> set ''0123456789abcdef''" unfolding nibble_def by (rule nth_mem) simp
  then show "nibble n \<noteq> CHR 0x22" "nibble n \<noteq> CHR 0x5C" by auto
qed

lemma compact_in_ascii: "compact_in (escape_ascii c @ t) = escape_ascii c @ compact_in t"
  by (simp add: escape_ascii_def html_safe_def hex_escape_def nibble_plain)

lemma compact_in_rune:
  assumes "is_rune r"
  shows "compact_in (escape_rune r @ t) = escape_rune r @ compact_in t"
proof (cases "length r = 1")
  case True
  then show ?thesis by (simp add: escape_rune_def compact_in_ascii)
next
  case False
  then have "list_all (\<lambda>c. \<not> is_ascii c) r" using rune_bytes [OF assms] by (simp add: list_all_iff)
  then show ?thesis using False compact_in_high by (simp add: escape_rune_def)
qed

lemma compact_quoted: "valid_utf8 s \<Longrightarrow> compact_out (quote_json s @ t) = quote_json s @ compact_out t"
proof -
  assume s: "valid_utf8 s"
  have "compact_in (concat (map escape_rune rs) @ CHR 0x22 # t) = concat (map escape_rune rs) @ CHR 0x22 # compact_out t"
    if "list_all is_rune rs" for rs
    using that by (induction rs) (simp_all add: compact_in_rune)
  from this [OF runes_text [of s]] s show ?thesis
    by (simp add: quote_json_def escape_json_valid json_space_def)
qed

lemma compact_plain: "list_all (\<lambda>c. \<not> json_space c \<and> c \<noteq> CHR 0x22) s \<Longrightarrow> compact_out (s @ t) = s @ compact_out t"
  by (induction s) auto

lemma compact_commas:
  assumes "\<And>x t. x \<in> set xs \<Longrightarrow> compact_out (x @ t) = x @ compact_out t"
  shows "compact_out (commas xs @ t) = commas xs @ compact_out t"
  using assms by (induction xs rule: commas.induct) (simp_all add: json_space_def)

lemma compact_print: "tree_ok j \<Longrightarrow> compact_out (print_tree j @ t) = print_tree j @ compact_out t"
proof (induction j arbitrary: t rule: tree_ok.induct)
  case (3 s)
  then have "list_all (\<lambda>c. \<not> json_space c \<and> c \<noteq> CHR 0x22) s"
    by (auto simp: number_text_def list_all_iff digit_def json_space_def)
  then show ?case by (simp add: compact_plain)
next
  case (4 s)
  then show ?case by (simp add: compact_quoted)
next
  case (5 xs)
  then have "compact_out (commas (map print_tree xs) @ u) = commas (map print_tree xs) @ compact_out u" for u
    by (intro compact_commas) (auto simp: list_all_iff)
  then show ?case by (simp add: json_space_def)
next
  case (6 m)
  then have "compact_out (commas (map member_text m) @ u) = commas (map member_text m) @ compact_out u" for u
    by (intro compact_commas) (auto simp: list_all_iff compact_quoted json_space_def)
  then show ?case by (simp add: json_space_def)
qed (simp_all add: json_space_def)

subsection \<open>Images are read back\<close>

lemma marshal_canonical [simp]: "marshal (canonical d) = marshal d"
  by (simp add: marshal_def disk_tree_def canonical_def sort_key_id_if_sorted)

lemma mset_live_records:
  "mset (live_records (d\<lparr>dk_Records := xs\<rparr>)) =
     image_mset (\<lambda>(k, r). (jc_Created r, jc_Session r))
       (filter_mset (\<lambda>(k, r). jc_Created r \<le> logical d \<and> logical d - jc_Created r < 60) (mset xs))"
  by (simp add: live_records_def mset_filter)

lemma validate_permuted:
  assumes "mset xs = mset (dk_Records d)"
  shows "validate limits (d\<lparr>dk_Records := xs\<rparr>) = validate limits d"
proof -
  let ?d = "d\<lparr>dk_Records := xs\<rparr>"
  have "length xs = length (dk_Records d)" using assms by (rule mset_eq_length)
  moreover have "distinct (map (\<lambda>(k, r). jc_Attempt r) xs) = distinct (map (\<lambda>(k, r). jc_Attempt r) (dk_Records d))"
    by (intro mset_eq_imp_distinct_iff) (simp add: assms)
  moreover have "list_all (record_ok ?d) xs = list_all (record_ok d) (dk_Records d)"
    using mset_eq_setD [OF assms] by (simp add: list_all_iff record_ok_def case_prod_unfold Let_def)
  moreover have "mset (live_records ?d) = mset (live_records d)"
    using mset_live_records [where d = d and xs = xs] mset_live_records [where d = d and xs = "dk_Records d"] assms by simp
  then have "counts_balanced ?d = counts_balanced d"
    by (simp add: balanced_iff live_events_def)
  moreover have "disk_header_ok limits ?d = disk_header_ok limits d"
    using calculation(1) by (simp add: disk_header_ok_def)
  moreover have "events_ok ?d = events_ok d" by (simp add: events_ok_def)
  ultimately show ?thesis by (simp add: validate_def)
qed

lemma validate_canonical [simp]: "validate limits (canonical d) = validate limits d"
  unfolding canonical_def by (rule validate_permuted) simp

lemma journal_ok_canonical [simp]: "journal_ok limits (canonical d) = journal_ok limits d"
  unfolding journal_ok_def using distinct_map [of fst "sort_key fst (dk_Records d)"] distinct_map [of fst "dk_Records d"]
  by (simp add: canonical_def validate_permuted)

lemma decode_marshal:
  assumes "journal_ok limits d" and "small_limits limits" and "expected = [] \<or> expected = dk_Namespace d"
  shows "decode_image limits expected (dk_Namespace d) (marshal d) = Inr (canonical d)"
proof -
  have v: "validate limits d" using assms(1) by (simp add: journal_ok_def)
  have ok: "tree_ok (disk_tree d)" by (rule disk_tree_ok [OF v assms(2)])
  have "strictJSON (marshal d)"
    unfolding strictJSON_def marshal_def
    by (rule printed_accepted) (use ok disk_within [OF assms(1,2)] in auto)
  moreover have "read_document (marshal d) = Some (disk_tree d)"
    using read_printed [OF ok, of "[]"] by (simp add: marshal_def)
  moreover have "compact_out (marshal d) = marshal d"
    using compact_print [OF ok, of "[]"] by (simp add: marshal_def)
  moreover have "dk_Namespace (canonical d) = dk_Namespace d" by (simp add: canonical_def)
  ultimately show ?thesis
    using tree_disk_back [OF v assms(2)] v assms(3) by (auto simp: decode_image_def)
qed

end
