(* ===== verification/JournalStore.thy ===== *)
theory JournalStore
  imports Paths JournalCodec
begin

unbundle bit_operations_syntax

text \<open>
  The journal's storage, \<^verbatim>\<open>internal/agentnotify/journal/storage_unix.go\<close>: the directory
  of a store as a table of inodes, what system calls do to it, and the operations that lock, read
  and replace the image. Every call into the operating system, every check of the context and every
  fault hook is a site; an environment says whether the call at a site works, fails or is where the
  process dies.
\<close>

type_synonym u32 = "32 word"

subsection \<open>A directory and its inodes\<close>

text \<open>
  The entries of the pinned directory, and the earlier entries a crash of the machine may bring
  back: those since the directory was last synced, the latest first. The data of an inode survives
  a crash when it was synced after the last write.
\<close>

record inode =
  nd_Mode :: u32
  nd_Uid :: u32
  nd_Links :: nat
  nd_Data :: string
  nd_Synced :: bool

record fsys =
  fs_Dir :: "(string \<times> nat) list"
  fs_Lost :: "(string \<times> nat) list list"
  fs_Node :: "nat \<Rightarrow> inode option"
  fs_Next :: nat

definition S_IFMT :: u32 where
  "S_IFMT = 0xF000"

definition S_IFREG :: u32 where
  "S_IFREG = 0x8000"

definition S_IFDIR :: u32 where
  "S_IFDIR = 0x4000"

definition S_IFLNK :: u32 where
  "S_IFLNK = 0xA000"

text \<open>\<^verbatim>\<open>nd_Links\<close> counts the names an inode has in other directories.\<close>

definition nlink :: "fsys \<Rightarrow> nat \<Rightarrow> nat" where
  "nlink fs i =
     (case fs_Node fs i of None \<Rightarrow> 0 | Some n \<Rightarrow> nd_Links n + length (filter (\<lambda>(k, j). j = i) (fs_Dir fs)))"

definition set_dir :: "(string \<times> nat) list \<Rightarrow> fsys \<Rightarrow> fsys" where
  "set_dir dir fs = fs\<lparr>fs_Dir := dir, fs_Lost := fs_Dir fs # fs_Lost fs\<rparr>"

text \<open>A crash of the machine: one of the directories since the last sync, and junk in unsynced files.\<close>

definition crash :: "nat \<Rightarrow> (nat \<Rightarrow> string) \<Rightarrow> fsys \<Rightarrow> fsys" where
  "crash n junk fs =
     (let dirs = fs_Dir fs # fs_Lost fs in
      fs\<lparr>fs_Dir := dirs ! (n mod length dirs), fs_Lost := [],
        fs_Node := (\<lambda>i. map_option (\<lambda>nd. if nd_Synced nd then nd else nd\<lparr>nd_Data := junk i, nd_Synced := True\<rparr>)
                         (fs_Node fs i))\<rparr>)"

subsection \<open>Sites, environments and programs\<close>

datatype site =
    Open string | Fstat string | SizeOf string | ReadAll string | Lstat string | Unlink string
  | WriteAt string | Sync string | CloseFile | Rename | Names | Context string | Hook string

datatype answer = Works | Fails jerr | Dies

datatype 'a outcome = Ret 'a | Raise jerr | Dead

type_synonym 'a prog = "fsys \<Rightarrow> 'a outcome \<times> fsys"

text \<open>How a component of the path to the root opens: not at all, without a stat, or with mode and owner.\<close>

datatype walked = NoOpen jerr | NoStat jerr | Opened u32 u32

datatype flock = Acquired | Busy | FlockError jerr

text \<open>
  The waits are counted in milliseconds: \<^verbatim>\<open>se_Deadline\<close> and \<^verbatim>\<open>se_Cancel\<close> are those
  of the context, \<^verbatim>\<open>se_Late\<close> is how late the timer of a poll fires.
\<close>

record store_env =
  se_At :: "site \<Rightarrow> answer"
  se_Short :: nat
  se_Uid :: u32
  se_Umask :: u32
  se_Walk :: "string list \<Rightarrow> walked"
  se_Start :: nat
  se_Deadline :: "nat option"
  se_Cancel :: "nat option"
  se_Flock :: "nat \<Rightarrow> flock"
  se_Late :: "nat \<Rightarrow> nat"
  se_Sample :: sample
  se_Token :: "string option"

definition ret :: "'a \<Rightarrow> 'a prog" where
  "ret x fs = (Ret x, fs)"

definition raise :: "jerr \<Rightarrow> 'a prog" where
  "raise e fs = (Raise e, fs)"

definition thenDo :: "'a prog \<Rightarrow> ('a \<Rightarrow> 'b prog) \<Rightarrow> 'b prog" where
  "thenDo p k fs =
     (case p fs of
        (Ret x, fs') \<Rightarrow> k x fs'
      | (Raise e, fs') \<Rightarrow> (Raise e, fs')
      | (Dead, fs') \<Rightarrow> (Dead, fs'))"

text \<open>A call at a site: the operation runs only where the call works.\<close>

definition sys :: "answer \<Rightarrow> (fsys \<Rightarrow> (jerr + 'a) \<times> fsys) \<Rightarrow> 'a prog" where
  "sys a act fs =
     (case a of
        Dies \<Rightarrow> (Dead, fs)
      | Fails e \<Rightarrow> (Raise e, fs)
      | Works \<Rightarrow> (case act fs of (Inl e, fs') \<Rightarrow> (Raise e, fs') | (Inr x, fs') \<Rightarrow> (Ret x, fs')))"

definition pass :: "answer \<Rightarrow> unit prog" where
  "pass a = sys a (\<lambda>fs. (Inr (), fs))"

text \<open>\<^verbatim>\<open>wrap\<close> makes every error one that asks for repair.\<close>

definition wrapped :: "'a prog \<Rightarrow> 'a prog" where
  "wrapped p fs = (case p fs of (Raise e, fs') \<Rightarrow> (Raise ErrRepair, fs') | r \<Rightarrow> r)"

text \<open>A deferred action runs on every return, and its error is dropped; a dead process runs nothing.\<close>

definition deferred :: "unit prog \<Rightarrow> 'a prog \<Rightarrow> 'a prog" where
  "deferred c p fs =
     (case p fs of
        (Dead, fs') \<Rightarrow> (Dead, fs')
      | (r, fs') \<Rightarrow> (case c fs' of (Dead, fs2) \<Rightarrow> (Dead, fs2) | (_, fs2) \<Rightarrow> (r, fs2)))"

subsection \<open>System calls\<close>

datatype open_flags = RDONLY | RDWR | RDWR_CREAT | WRONLY_CREAT_EXCL

definition ENOENT :: jerr where
  "ENOENT = StorageErr ''ENOENT''"

definition create_node :: "store_env \<Rightarrow> string \<Rightarrow> fsys \<Rightarrow> nat \<times> fsys" where
  "create_node env name fs =
     (let i = fs_Next fs;
          node = \<lparr>nd_Mode = S_IFREG OR (0x180 AND NOT (se_Umask env)), nd_Uid = se_Uid env, nd_Links = 0,
                  nd_Data = [], nd_Synced = False\<rparr>
      in (i, (set_dir ((name, i) # fs_Dir fs) fs)\<lparr>fs_Node := (fs_Node fs)(i \<mapsto> node), fs_Next := Suc i\<rparr>))"

text \<open>\<^verbatim>\<open>openat\<close> with \<^verbatim>\<open>O_NOFOLLOW\<close> and mode 0600.\<close>

definition openat :: "store_env \<Rightarrow> open_flags \<Rightarrow> string \<Rightarrow> fsys \<Rightarrow> (jerr + nat) \<times> fsys" where
  "openat env flags name fs =
     (case map_of (fs_Dir fs) name of
        None \<Rightarrow>
          if flags = RDWR_CREAT \<or> flags = WRONLY_CREAT_EXCL
          then (let (i, fs') = create_node env name fs in (Inr i, fs'))
          else (Inl ENOENT, fs)
      | Some i \<Rightarrow>
          (case fs_Node fs i of
             None \<Rightarrow> (Inl (StorageErr ''EIO''), fs)
           | Some n \<Rightarrow>
               if flags = WRONLY_CREAT_EXCL then (Inl (StorageErr ''EEXIST''), fs)
               else if nd_Mode n AND S_IFMT = S_IFLNK then (Inl (StorageErr ''ELOOP''), fs)
               else if flags \<noteq> RDONLY \<and> nd_Mode n AND S_IFMT = S_IFDIR then (Inl (StorageErr ''EISDIR''), fs)
               else (Inr i, fs)))"

definition private_file :: "store_env \<Rightarrow> nat \<Rightarrow> fsys \<Rightarrow> bool" where
  "private_file env i fs =
     (case fs_Node fs i of
        None \<Rightarrow> False
      | Some n \<Rightarrow>
          \<not> (nd_Mode n AND S_IFMT \<noteq> S_IFREG \<or> nd_Uid n \<noteq> se_Uid env \<or> nlink fs i \<noteq> 1 \<or> nd_Mode n AND 0x1FF \<noteq> 0x180))"

definition openFile :: "store_env \<Rightarrow> string \<Rightarrow> string \<Rightarrow> open_flags \<Rightarrow> nat prog" where
  "openFile env role name flags =
     thenDo (sys (se_At env (Open role)) (openat env flags name)) (\<lambda>i.
       sys (se_At env (Fstat role)) (\<lambda>fs. (if private_file env i fs then Inr i else Inl ErrRepair, fs)))"

definition append_data :: "nat \<Rightarrow> string \<Rightarrow> fsys \<Rightarrow> fsys" where
  "append_data i b fs =
     fs\<lparr>fs_Node := (fs_Node fs)(i := map_option (\<lambda>n. n\<lparr>nd_Data := nd_Data n @ b, nd_Synced := False\<rparr>) (fs_Node fs i))\<rparr>"

text \<open>A write that fails, or dies, may have written a part.\<close>

definition write_file :: "store_env \<Rightarrow> string \<Rightarrow> nat \<Rightarrow> string \<Rightarrow> unit prog" where
  "write_file env part i b fs =
     (case se_At env (WriteAt part) of
        Works \<Rightarrow> (Ret (), append_data i b fs)
      | Fails e \<Rightarrow> (Raise e, append_data i (take (se_Short env) b) fs)
      | Dies \<Rightarrow> (Dead, append_data i (take (se_Short env) b) fs))"

definition sync_file :: "nat \<Rightarrow> fsys \<Rightarrow> (jerr + unit) \<times> fsys" where
  "sync_file i fs =
     (Inr (), fs\<lparr>fs_Node := (fs_Node fs)(i := map_option (\<lambda>n. n\<lparr>nd_Synced := True\<rparr>) (fs_Node fs i))\<rparr>)"

definition sync_dir :: "fsys \<Rightarrow> (jerr + unit) \<times> fsys" where
  "sync_dir fs = (Inr (), fs\<lparr>fs_Lost := []\<rparr>)"

definition unlinkat :: "string \<Rightarrow> fsys \<Rightarrow> (jerr + unit) \<times> fsys" where
  "unlinkat name fs =
     (case map_of (fs_Dir fs) name of
        None \<Rightarrow> (Inl ENOENT, fs)
      | Some i \<Rightarrow> (Inr (), set_dir (AList.delete name (fs_Dir fs)) fs))"

definition renameat :: "string \<Rightarrow> string \<Rightarrow> fsys \<Rightarrow> (jerr + unit) \<times> fsys" where
  "renameat from_name to_name fs =
     (case map_of (fs_Dir fs) from_name of
        None \<Rightarrow> (Inl ENOENT, fs)
      | Some i \<Rightarrow> (Inr (), set_dir ((to_name, i) # AList.delete to_name (AList.delete from_name (fs_Dir fs))) fs))"

subsection \<open>The root and the lock\<close>

definition safe_component :: "u32 \<Rightarrow> bool \<Rightarrow> u32 \<Rightarrow> u32 \<Rightarrow> bool" where
  "safe_component me last_one mode uid =
     (let safeOwner = (uid = me \<or> uid = 0);
          unsafeWrite = (mode AND 0x12 \<noteq> 0 \<and> (\<not> safeOwner \<or> mode AND 0x200 = 0))
      in \<not> (\<not> safeOwner \<or> unsafeWrite \<or> last_one \<and> (uid \<noteq> me \<or> mode AND 0x1FF \<noteq> 0x1C0)))"

fun walk_root :: "store_env \<Rightarrow> string list \<Rightarrow> string list \<Rightarrow> jerr option" where
  "walk_root env seen [] = None"
| "walk_root env seen (p # ps) =
     (case se_Walk env (seen @ [p]) of
        NoOpen e \<Rightarrow> Some ErrRepair
      | NoStat e \<Rightarrow> Some e
      | Opened mode uid \<Rightarrow>
          if safe_component (se_Uid env) (ps = []) mode uid then walk_root env (seen @ [p]) ps else Some ErrRepair)"

definition openRoot :: "store_env \<Rightarrow> string \<Rightarrow> unit prog" where
  "openRoot env path fs =
     (if \<not> IsAbs path \<or> Clean path \<noteq> path \<or> path = ''/'' then (Raise ErrInvalid, fs)
      else (case se_At env (Open ''/'') of
              Dies \<Rightarrow> (Dead, fs)
            | Fails e \<Rightarrow> (Raise e, fs)
            | Works \<Rightarrow>
                (case walk_root env [] (path_parts path) of Some e \<Rightarrow> (Raise e, fs) | None \<Rightarrow> (Ret (), fs))))"

definition ctx_err :: "store_env \<Rightarrow> nat \<Rightarrow> jerr option" where
  "ctx_err env t =
     (let due = (case se_Deadline env of None \<Rightarrow> False | Some d \<Rightarrow> d \<le> t);
          gone = (case se_Cancel env of None \<Rightarrow> False | Some c \<Rightarrow> c \<le> t)
      in if gone \<and> (case (se_Cancel env, se_Deadline env) of (Some c, Some d) \<Rightarrow> c < d | _ \<Rightarrow> True) then Some CtxCanceled
         else if due then Some CtxDeadline else None)"

text \<open>
  The polls of \<^verbatim>\<open>lock\<close>, five milliseconds or more apart; the value is the error of the loop
  and the number of polls made.
\<close>

partial_function (option) poll_lock :: "store_env \<Rightarrow> nat \<Rightarrow> nat \<Rightarrow> (jerr option \<times> nat) option" where
  "poll_lock env n t =
     (case ctx_err env t of
        Some e \<Rightarrow> Some (Some e, n)
      | None \<Rightarrow>
          (case se_Flock env n of
             Acquired \<Rightarrow> Some (None, Suc n)
           | FlockError e \<Rightarrow> Some (Some e, Suc n)
           | Busy \<Rightarrow>
               (let fires = t + 5 + se_Late env n in
                case ctx_err env fires of
                  Some e \<Rightarrow> Some (Some e, Suc n)
                | None \<Rightarrow> poll_lock env (Suc n) fires)))"

declare poll_lock.simps [code]

text \<open>What others do to the directory while the lock is awaited is \<^verbatim>\<open>others\<close>.\<close>

definition lock_store :: "store_env \<Rightarrow> (fsys \<Rightarrow> fsys) \<Rightarrow> bool \<Rightarrow> nat prog" where
  "lock_store env others create =
     (case se_Deadline env of
        None \<Rightarrow> raise ErrInvalid
      | Some d \<Rightarrow>
          (case ctx_err env (se_Start env) of
             Some e \<Rightarrow> raise e
           | None \<Rightarrow>
               thenDo (wrapped (openFile env ''lock'' ''lock'' (if create then RDWR_CREAT else RDWR))) (\<lambda>i fs.
                 (case poll_lock env 0 (se_Start env) of
                    None \<Rightarrow> (Dead, others fs)
                  | Some (Some e, n) \<Rightarrow> (Raise e, others fs)
                  | Some (None, n) \<Rightarrow>
                      thenDo (wrapped (pass (se_At env (Fstat ''locked'')))) (\<lambda>_.
                      thenDo (wrapped (pass (se_At env (Lstat ''locked'')))) (\<lambda>_ fs.
                        (if map_of (fs_Dir fs) ''lock'' \<noteq> Some i \<or> nlink fs i \<noteq> 1
                         then (Raise ErrRepair, fs) else (Ret i, fs)))) (others fs)))))"

subsection \<open>Reading\<close>

definition readBounded :: "store_env \<Rightarrow> string \<Rightarrow> int \<Rightarrow> string prog" where
  "readBounded env name limit =
     thenDo (wrapped (openFile env name name RDONLY)) (\<lambda>i.
     thenDo (pass (se_At env (SizeOf name))) (\<lambda>_ fs.
       (case fs_Node fs i of
          None \<Rightarrow> (Raise (StorageErr ''EIO''), fs)
        | Some n \<Rightarrow>
            if limit < int (length (nd_Data n)) then (Raise ErrRepair, fs)
            else thenDo (pass (se_At env (ReadAll name))) (\<lambda>_. ret (nd_Data n)) fs)))"

definition lift :: "jerr + 'a \<Rightarrow> 'a prog" where
  "lift r = (case r of Inl e \<Rightarrow> raise e | Inr x \<Rightarrow> ret x)"

definition read_store :: "store_env \<Rightarrow> Limits \<Rightarrow> string \<Rightarrow> disk prog" where
  "read_store env limits expected =
     thenDo (readBounded env ''namespace'' 65) (\<lambda>ns.
       if length ns \<noteq> 65 \<or> ns ! 64 \<noteq> CHR 0x0A \<or> \<not> isHex (take 64 ns) then raise ErrRepair
       else thenDo (readBounded env ''journal.json'' (lm_Bytes limits)) (\<lambda>b.
         lift (decode_image limits expected (take 64 ns) b)))"

subsection \<open>Writing\<close>

abbreviation fault_hook :: "store_env \<Rightarrow> string \<Rightarrow> unit prog" where
  "fault_hook env stage \<equiv> pass (se_At env (Hook stage))"

text \<open>One fixed slot holds the orphan of a crashed write.\<close>

definition remove_orphan :: "store_env \<Rightarrow> unit prog" where
  "remove_orphan env fs =
     (case openFile env ''old'' ''snapshot.tmp'' RDONLY fs of
        (Ret i, fs') \<Rightarrow> sys (se_At env (Unlink ''old'')) (unlinkat ''snapshot.tmp'') fs'
      | (Raise e, fs') \<Rightarrow> if e = ENOENT then (Ret (), fs') else (Raise e, fs')
      | (Dead, fs') \<Rightarrow> (Dead, fs'))"

definition write_snapshot :: "store_env \<Rightarrow> string \<Rightarrow> nat \<Rightarrow> unit prog" where
  "write_snapshot env b i =
     (let half = length b div 2 in
      thenDo (write_file env ''head'' i (take half b)) (\<lambda>_.
      thenDo (fault_hook env ''partial_write'') (\<lambda>_.
      thenDo (write_file env ''tail'' i (drop half b)) (\<lambda>_.
      thenDo (fault_hook env ''before_file_sync'') (\<lambda>_.
      thenDo (sys (se_At env (Sync ''snapshot.tmp'')) (sync_file i)) (\<lambda>_.
      thenDo (fault_hook env ''after_file_sync'') (\<lambda>_.
      thenDo (pass (se_At env CloseFile)) (\<lambda>_.
      thenDo (pass (se_At env (Context ''before_rename''))) (\<lambda>_.
      thenDo (fault_hook env ''before_rename'') (\<lambda>_.
      thenDo (sys (se_At env Rename) (renameat ''snapshot.tmp'' ''journal.json'')) (\<lambda>_.
      thenDo (fault_hook env ''after_rename'') (\<lambda>_.
      thenDo (sys (se_At env (Sync ''root'')) sync_dir) (\<lambda>_.
        fault_hook env ''after_directory_sync'')))))))))))))"

definition write_store :: "store_env \<Rightarrow> Limits \<Rightarrow> disk \<Rightarrow> unit prog" where
  "write_store env limits d =
     (if \<not> validate limits d then raise ErrRepair
      else if \<not> image_fits limits d then raise ErrFull
      else thenDo (fault_hook env ''before_temp'') (\<lambda>_.
           thenDo (remove_orphan env) (\<lambda>_.
           thenDo (openFile env ''tmp'' ''snapshot.tmp'' WRONLY_CREAT_EXCL) (\<lambda>i.
             deferred (sys (se_At env (Unlink ''tmp'')) (unlinkat ''snapshot.tmp''))
               (write_snapshot env (marshal d) i)))))"

subsection \<open>Transactions\<close>

record store =
  st_Root :: string
  st_Limits :: Limits
  st_Namespace :: string

definition transaction ::
    "store_env \<Rightarrow> (fsys \<Rightarrow> fsys) \<Rightarrow> store \<Rightarrow> (disk \<Rightarrow> (jerr + 'r) \<times> bool \<times> disk) \<Rightarrow> 'r prog" where
  "transaction env others s fn =
     thenDo (openRoot env (st_Root s)) (\<lambda>_.
     thenDo (lock_store env others False) (\<lambda>_.
     thenDo (read_store env (st_Limits s) (st_Namespace s)) (\<lambda>d.
     thenDo (pass (se_At env (Context ''before_fn''))) (\<lambda>_.
       (let (r, changed, d') = fn d in
        if changed then thenDo (write_store env (st_Limits s) d') (\<lambda>_. lift r) else lift r)))))"

text \<open>The operations of a store on its directory: the checks in front and one transaction.\<close>

fun store_op :: "(string \<Rightarrow> string) \<Rightarrow> store_env \<Rightarrow> (fsys \<Rightarrow> fsys) \<Rightarrow> store \<Rightarrow> jop \<Rightarrow> result option prog" where
  "store_op sha env others s (JLookup k digest) =
     (if valid_key k then transaction env others s (\<lambda>d. (lookup sha d k digest, False, d)) else raise ErrInvalid)"
| "store_op sha env others s (JAdmit x tok a) =
     (if valid_key (ad_Key a) then transaction env others s (admit_fn sha x tok a) else raise ErrInvalid)"
| "store_op sha env others s (JFinalize k attempt status reason backend nav) =
     (if outcome_args_ok k attempt status reason backend nav
      then transaction env others s (finalize_fn sha k attempt status reason backend nav) else raise ErrInvalid)"
| "store_op sha env others s (JCollect x) = transaction env others s (collect_fn x)"

subsection \<open>Opening and creating a store\<close>

definition newStore :: "string \<Rightarrow> Limits \<Rightarrow> jerr + store" where
  "newStore root_path l =
     (case normalize_limits l of
        Inl e \<Rightarrow> Inl e
      | Inr l \<Rightarrow> Inr \<lparr>st_Root = root_path, st_Limits = l, st_Namespace = []\<rparr>)"

text \<open>Opening keeps the namespace of the image it read.\<close>

definition Open_store :: "store_env \<Rightarrow> (fsys \<Rightarrow> fsys) \<Rightarrow> string \<Rightarrow> Limits \<Rightarrow> store prog" where
  "Open_store env others root_path l =
     (case newStore root_path l of
        Inl e \<Rightarrow> raise e
      | Inr s \<Rightarrow> transaction env others s (\<lambda>d. (Inr (s\<lparr>st_Namespace := dk_Namespace d\<rparr>), False, d)))"

fun absent :: "store_env \<Rightarrow> string list \<Rightarrow> unit prog" where
  "absent env [] = ret ()"
| "absent env (name # names) =
     (\<lambda>fs. (case se_At env (Lstat name) of
              Dies \<Rightarrow> (Dead, fs)
            | Fails e \<Rightarrow> if e = ENOENT then absent env names fs else (Raise ErrRepair, fs)
            | Works \<Rightarrow>
                (case map_of (fs_Dir fs) name of
                   Some i \<Rightarrow> (Raise ErrRepair, fs)
                 | None \<Rightarrow> absent env names fs)))"

definition new_image :: "Limits \<Rightarrow> string \<Rightarrow> disk" where
  "new_image limits ns =
     \<lparr>dk_Version = 1, dk_Namespace = ns, dk_Limits = limits, dk_Clock = \<lparr>el_Logical = 0, el_Boot = [], el_Seconds = 0\<rparr>,
      dk_Events = [], dk_Records = [], dk_Null = False\<rparr>"

definition bootstrap :: "store_env \<Rightarrow> (fsys \<Rightarrow> fsys) \<Rightarrow> store \<Rightarrow> store prog" where
  "bootstrap env others s =
     thenDo (openRoot env (st_Root s)) (\<lambda>_.
     thenDo (absent env [''namespace'', ''journal.json'', ''snapshot.tmp'']) (\<lambda>_.
     thenDo (lock_store env others True) (\<lambda>_.
     thenDo (sys (se_At env Names) (\<lambda>fs. (Inr (map fst (fs_Dir fs)), fs))) (\<lambda>names.
       if \<not> list_all (\<lambda>n. n = ''lock'') names then raise ErrRepair
       else (case se_Token env of
               None \<Rightarrow> raise (StorageErr ''entropy'')
             | Some t \<Rightarrow>
                 (let ns = hexEncode t in
                  thenDo (openFile env ''namespace'' ''namespace'' WRONLY_CREAT_EXCL) (\<lambda>i.
                  thenDo (write_file env ''namespace'' i (ns @ [CHR 0x0A])) (\<lambda>_.
                  thenDo (sys (se_At env (Sync ''namespace'')) (sync_file i)) (\<lambda>_.
                  thenDo (sys (se_At env (Sync ''new_root'')) sync_dir) (\<lambda>_.
                  thenDo (fault_hook env ''after_namespace_sync'') (\<lambda>_.
                    (case advance (se_Sample env) (new_image (st_Limits s) ns) of
                       Inl e \<Rightarrow> raise e
                     | Inr (p, d) \<Rightarrow>
                         thenDo (write_store env (st_Limits s) d) (\<lambda>_. ret (s\<lparr>st_Namespace := ns\<rparr>))))))))))))))"

definition Initialize_store :: "store_env \<Rightarrow> (fsys \<Rightarrow> fsys) \<Rightarrow> string \<Rightarrow> Limits \<Rightarrow> store prog" where
  "Initialize_store env others root_path l =
     (case newStore root_path l of Inl e \<Rightarrow> raise e | Inr s \<Rightarrow> bootstrap env others s)"

end
