(* ===== verification/JournalStoreFacts.thy ===== *)
theory JournalStoreFacts
  imports JournalStore
begin

text \<open>
  What the programs of \<^verbatim>\<open>JournalStore\<close> do to a store that is in order: each step keeps
  the image and the images a crash may bring back, or replaces the image by a whole new one, and a
  transaction ends the way the journal's own transaction does, or by a fault that left the old image
  or the new one.
\<close>


subsection \<open>What a text decodes to\<close>

lemma all_some_eq: "all_some xs = Some ys \<longleftrightarrow> xs = map Some ys"
  by (induction xs arbitrary: ys rule: all_some.induct) auto

lemma tree_records_keys:
  "tree_records (TObj m) = Some (b, rs) \<Longrightarrow> map fst rs = map fst m"
proof -
  assume "tree_records (TObj m) = Some (b, rs)"
  then have "map (\<lambda>(k, j). map_option (Pair k) (tree_record j)) m = map Some rs"
    by (auto simp: all_some_eq)
  then show ?thesis
  proof (induction m arbitrary: rs)
    case (Cons p m)
    then show ?case by (cases p; cases rs) auto
  qed simp
qed

lemma tree_disk_records:
  assumes "tree_disk j = Some d" and "within_budget b 0 j"
  shows "distinct (map fst (dk_Records d))"
  using assms(1)
proof (cases j rule: tree_disk.cases)
  case (1 a v c ns e l f el g vs h rs)
  from assms(1) obtain x ys where r: "tree_records rs = Some (x, ys)" "dk_Records d = ys"
    by (auto simp: 1 split: if_splits option.splits prod.splits)
  show ?thesis
  proof (cases rs)
    case (TObj m)
    then have "map fst ys = map fst m" using r(1) tree_records_keys by blast
    then show ?thesis using assms(2) r(2) by (simp add: 1 TObj)
  qed (use r in auto)
qed auto

lemma decoded_ok:
  assumes "decode_image limits expected ns b = Inr d"
  shows "journal_ok limits d" and "dk_Namespace d = ns" and "expected = [] \<or> expected = ns"
    and "decode_image limits [] ns b = Inr d"
proof -
  from assms have s: "strictJSON b" and c: "Option.bind (read_document b) tree_disk = Some d"
    and v: "validate limits d" "dk_Namespace d = ns" "expected = [] \<or> expected = ns"
      "compact_out b = marshal d"
    by (auto simp: decode_image_def split: if_splits option.splits)
  then show "dk_Namespace d = ns" "expected = [] \<or> expected = ns" "decode_image limits [] ns b = Inr d"
    by (auto simp: decode_image_def)
  from c obtain j where j: "read_document b = Some j" "tree_disk j = Some d" by (cases "read_document b") auto
  from s j(1) have "within_budget \<lparr>bd_Bytes = max 1 (int (length b)), bd_Depth = 16, bd_Entries = 10000\<rparr> 0 j"
    by (simp add: strictJSON_def strict_Validate_iff)
  from tree_disk_records [OF j(2) this] v(1) show "journal_ok limits d" by (simp add: journal_ok_def)
qed

lemma decode_expected:
  "decode_image limits expected ns b =
     (if expected = [] \<or> expected = ns then decode_image limits [] ns b else Inl ErrRepair)"
  by (auto simp: decode_image_def split: option.split)

subsection \<open>The image of a directory\<close>

definition image_in :: "Limits \<Rightarrow> string \<Rightarrow> fsys \<Rightarrow> (string \<times> nat) list \<Rightarrow> disk option" where
  "image_in limits ns fs dir =
     (case map_of dir ''journal.json'' of
        None \<Rightarrow> None
      | Some i \<Rightarrow>
          (case fs_Node fs i of
             None \<Rightarrow> None
           | Some n \<Rightarrow> (case decode_image limits [] ns (nd_Data n) of Inl e \<Rightarrow> None | Inr d \<Rightarrow> Some d)))"

definition fs_image :: "Limits \<Rightarrow> string \<Rightarrow> fsys \<Rightarrow> disk option" where
  "fs_image limits ns fs = image_in limits ns fs (fs_Dir fs)"

text \<open>The images a crash of the machine may leave, the present one first.\<close>

definition fs_images :: "Limits \<Rightarrow> string \<Rightarrow> fsys \<Rightarrow> disk option list" where
  "fs_images limits ns fs = map (image_in limits ns fs) (fs_Dir fs # fs_Lost fs)"

definition owned :: "u32 \<Rightarrow> inode \<Rightarrow> bool" where
  "owned uid n \<longleftrightarrow>
     nd_Mode n AND S_IFMT = S_IFREG \<and> nd_Mode n AND 0x1FF = 0x180 \<and> nd_Uid n = uid \<and> nd_Links n = 0"

definition has_file :: "fsys \<Rightarrow> (string \<times> nat) list \<Rightarrow> string \<Rightarrow> (inode \<Rightarrow> bool) \<Rightarrow> bool" where
  "has_file fs dir name P \<longleftrightarrow>
     (case map_of dir name of
        None \<Rightarrow> False
      | Some i \<Rightarrow> (case fs_Node fs i of None \<Rightarrow> False | Some n \<Rightarrow> P n))"

definition dir_ok :: "Limits \<Rightarrow> u32 \<Rightarrow> string \<Rightarrow> fsys \<Rightarrow> (string \<times> nat) list \<Rightarrow> bool" where
  "dir_ok limits uid ns fs dir \<longleftrightarrow>
     distinct (map fst dir) \<and> distinct (map snd dir) \<and> list_all (\<lambda>(k, i). i < fs_Next fs \<and> fs_Node fs i \<noteq> None) dir
     \<and> has_file fs dir ''lock'' (owned uid)
     \<and> has_file fs dir ''namespace'' (\<lambda>n. owned uid n \<and> nd_Synced n \<and> nd_Data n = ns @ [CHR 0x0A])
     \<and> has_file fs dir ''journal.json''
         (\<lambda>n. owned uid n \<and> nd_Synced n \<and> int (length (nd_Data n)) \<le> lm_Bytes limits)
     \<and> image_in limits ns fs dir \<noteq> None"

definition store_ok :: "Limits \<Rightarrow> u32 \<Rightarrow> string \<Rightarrow> fsys \<Rightarrow> bool" where
  "store_ok limits uid ns fs \<longleftrightarrow>
     small_limits limits \<and> isHex ns \<and> list_all (dir_ok limits uid ns fs) (fs_Dir fs # fs_Lost fs)"

lemma store_dir_ok: "store_ok limits uid ns fs \<Longrightarrow> dir_ok limits uid ns fs (fs_Dir fs)"
  by (simp add: store_ok_def)

lemma has_fileE:
  assumes "has_file fs dir name P"
  obtains i n where "map_of dir name = Some i" "fs_Node fs i = Some n" "P n"
  using assms by (auto simp: has_file_def split: option.splits)

lemma image_in_ok: "image_in limits ns fs dir = Some d \<Longrightarrow> journal_ok limits d \<and> dk_Namespace d = ns"
  by (auto simp: image_in_def dest: decoded_ok split: option.splits sum.splits)

lemma fs_image_ok: "fs_image limits ns fs = Some d \<Longrightarrow> journal_ok limits d \<and> dk_Namespace d = ns"
  unfolding fs_image_def by (rule image_in_ok)

text \<open>Files the journal's own files are not, in any directory a crash may leave.\<close>

definition spare :: "nat \<Rightarrow> fsys \<Rightarrow> bool" where
  "spare i fs \<longleftrightarrow>
     list_all (\<lambda>dir. list_all (\<lambda>(k, j). if j = i then k = ''snapshot.tmp'' else True) dir) (fs_Dir fs # fs_Lost fs)"

lemma spare_other: "spare i fs \<Longrightarrow> dir \<in> set (fs_Dir fs # fs_Lost fs) \<Longrightarrow> map_of dir name = Some j \<Longrightarrow>
    name \<noteq> ''snapshot.tmp'' \<Longrightarrow> j \<noteq> i"
  by (fastforce simp: spare_def list_all_iff dest: map_of_SomeD)

text \<open>Changing a spare file, or the temporary name, leaves every image.\<close>

lemma has_file_cong:
  "map_of dir' name = map_of dir name \<Longrightarrow> (\<And>i. map_of dir name = Some i \<Longrightarrow> fs_Node fs' i = fs_Node fs i) \<Longrightarrow>
     has_file fs' dir' name P = has_file fs dir name P"
  by (simp add: has_file_def split: option.split)

lemma image_in_cong:
  "map_of dir' ''journal.json'' = map_of dir ''journal.json'' \<Longrightarrow>
   (\<And>i. map_of dir ''journal.json'' = Some i \<Longrightarrow> fs_Node fs' i = fs_Node fs i) \<Longrightarrow>
     image_in limits ns fs' dir' = image_in limits ns fs dir"
  by (simp add: image_in_def split: option.split)

lemma dir_ok_cong:
  assumes "dir_ok limits uid ns fs dir"
    and "\<And>name. name \<noteq> ''snapshot.tmp'' \<Longrightarrow> map_of dir' name = map_of dir name"
    and "\<And>name i. name \<noteq> ''snapshot.tmp'' \<Longrightarrow> map_of dir name = Some i \<Longrightarrow> fs_Node fs' i = fs_Node fs i"
    and "distinct (map fst dir')" "distinct (map snd dir')"
    and "list_all (\<lambda>(k, i). i < fs_Next fs' \<and> fs_Node fs' i \<noteq> None) dir'"
  shows "dir_ok limits uid ns fs' dir' \<and> image_in limits ns fs' dir' = image_in limits ns fs dir"
proof -
  have f: "has_file fs' dir' name P = has_file fs dir name P" if "name \<noteq> ''snapshot.tmp''" for name P
    by (rule has_file_cong) (use assms(2,3) that in blast)+
  have d: "image_in limits ns fs' dir' = image_in limits ns fs dir"
    by (rule image_in_cong) (simp_all add: assms(2) assms(3) [of "''journal.json''"])
  show ?thesis using assms(1,4-) by (simp add: dir_ok_def f d)
qed


subsection \<open>What one step does to a store\<close>

definition images_within :: "Limits \<Rightarrow> string \<Rightarrow> fsys \<Rightarrow> fsys \<Rightarrow> bool" where
  "images_within limits ns fs fs' \<longleftrightarrow> set (fs_images limits ns fs') \<subseteq> set (fs_images limits ns fs)"

text \<open>A step that leaves the image, and gives a crash no image it could not leave before.\<close>

definition keeps_image :: "Limits \<Rightarrow> u32 \<Rightarrow> string \<Rightarrow> fsys \<Rightarrow> fsys \<Rightarrow> bool" where
  "keeps_image limits uid ns fs fs' \<longleftrightarrow>
     store_ok limits uid ns fs' \<and> fs_image limits ns fs' = fs_image limits ns fs \<and> images_within limits ns fs fs'"

lemma keeps_image_refl: "store_ok limits uid ns fs \<Longrightarrow> keeps_image limits uid ns fs fs"
  by (simp add: keeps_image_def images_within_def)

lemma keeps_image_trans:
  "keeps_image limits uid ns fs fs1 \<Longrightarrow> keeps_image limits uid ns fs1 fs2 \<Longrightarrow> keeps_image limits uid ns fs fs2"
  by (auto simp: keeps_image_def images_within_def)

text \<open>The cases of \<^verbatim>\<open>dir_ok_cong\<close> that arise: nodes change outside the store's files.\<close>

lemma nodes_keep:
  assumes ok: "store_ok limits uid ns fs" and "fs_Dir fs' = fs_Dir fs" "fs_Lost fs' = fs_Lost fs"
    and "fs_Next fs \<le> fs_Next fs'"
    and nodes: "\<And>j. fs_Node fs j \<noteq> None \<Longrightarrow> fs_Node fs' j \<noteq> None"
    and same: "\<And>dir name j. dir \<in> set (fs_Dir fs # fs_Lost fs) \<Longrightarrow> name \<noteq> ''snapshot.tmp'' \<Longrightarrow>
      map_of dir name = Some j \<Longrightarrow> fs_Node fs' j = fs_Node fs j"
  shows "keeps_image limits uid ns fs fs'"
proof -
  have d: "dir_ok limits uid ns fs' dir \<and> image_in limits ns fs' dir = image_in limits ns fs dir"
    if "dir \<in> set (fs_Dir fs # fs_Lost fs)" for dir
  proof (rule dir_ok_cong)
    show "dir_ok limits uid ns fs dir" using ok that by (auto simp: store_ok_def list_all_iff)
    then have *: "distinct (map fst dir)" "distinct (map snd dir)"
      "list_all (\<lambda>(k, i). i < fs_Next fs \<and> fs_Node fs i \<noteq> None) dir"
      by (simp_all add: dir_ok_def)
    then show "distinct (map fst dir)" "distinct (map snd dir)" by simp_all
    show "list_all (\<lambda>(k, i). i < fs_Next fs' \<and> fs_Node fs' i \<noteq> None) dir"
      using *(3) nodes assms(4) by (fastforce simp: list_all_iff)
    show "fs_Node fs' i = fs_Node fs i" if "name \<noteq> ''snapshot.tmp''" "map_of dir name = Some i" for name i
      using same [OF \<open>dir \<in> _\<close> that] .
  qed simp
  have "store_ok limits uid ns fs'"
    using ok d by (auto simp: store_ok_def assms(2,3) list_all_iff)
  moreover have "fs_images limits ns fs' = fs_images limits ns fs"
    using d by (simp add: fs_images_def assms(2,3))
  moreover have "fs_image limits ns fs' = fs_image limits ns fs"
    using d by (simp add: fs_image_def assms(2))
  ultimately show ?thesis by (simp add: keeps_image_def images_within_def)
qed

lemma node_change_keeps:
  assumes "store_ok limits uid ns fs" and "spare i fs"
    and "fs' = fs\<lparr>fs_Node := (fs_Node fs)(i := map_option f (fs_Node fs i))\<rparr>"
  shows "keeps_image limits uid ns fs fs'"
  by (rule nodes_keep [OF assms(1)]) (use spare_other [OF assms(2)] in \<open>auto simp: assms(3)\<close>)

lemma append_keeps:
  "store_ok limits uid ns fs \<Longrightarrow> spare i fs \<Longrightarrow> keeps_image limits uid ns fs (append_data i b fs)"
  unfolding append_data_def by (rule node_change_keeps) simp_all

lemma sync_file_keeps:
  "store_ok limits uid ns fs \<Longrightarrow> spare i fs \<Longrightarrow> sync_file i fs = (r, fs') \<Longrightarrow> keeps_image limits uid ns fs fs'"
  unfolding sync_file_def by (rule node_change_keeps) auto

lemma set_dir_simps [simp]:
  "fs_Dir (set_dir dir fs) = dir"
  "fs_Lost (set_dir dir fs) = fs_Dir fs # fs_Lost fs"
  "fs_Node (set_dir dir fs) = fs_Node fs"
  "fs_Next (set_dir dir fs) = fs_Next fs"
  by (simp_all add: set_dir_def)

text \<open>A new directory that differs in the temporary name only.\<close>

lemma set_dir_keeps:
  assumes ok: "store_ok limits uid ns fs"
    and "\<And>name. name \<noteq> ''snapshot.tmp'' \<Longrightarrow> map_of dir name = map_of (fs_Dir fs) name"
    and "distinct (map fst dir)" "distinct (map snd dir)"
    and "list_all (\<lambda>(k, i). i < fs_Next fs \<and> fs_Node fs i \<noteq> None) dir"
  shows "keeps_image limits uid ns fs (set_dir dir fs)"
proof -
  have d: "dir_ok limits uid ns fs dir \<and> image_in limits ns fs dir = image_in limits ns fs (fs_Dir fs)"
    by (rule dir_ok_cong) (use assms store_dir_ok [OF ok] in auto)
  have f: "has_file (set_dir dir fs) x name P = has_file fs x name P" for x name P
    by (rule has_file_cong) simp_all
  have i: "image_in limits ns (set_dir dir fs) x = image_in limits ns fs x" for x
    by (rule image_in_cong) simp_all
  have cong: "dir_ok limits uid ns (set_dir dir fs) x = dir_ok limits uid ns fs x"
    "image_in limits ns (set_dir dir fs) x = image_in limits ns fs x" for x
    by (simp_all add: dir_ok_def f i)
  show ?thesis
    using ok d
    by (auto simp: keeps_image_def store_ok_def images_within_def fs_images_def fs_image_def cong list_all_iff)
qed

lemma unlink_keeps:
  assumes ok: "store_ok limits uid ns fs" and "unlinkat ''snapshot.tmp'' fs = (r, fs')"
  shows "keeps_image limits uid ns fs fs'"
proof -
  have d: "distinct (map fst (fs_Dir fs))" "distinct (map snd (fs_Dir fs))"
    "list_all (\<lambda>(k, i). i < fs_Next fs \<and> fs_Node fs i \<noteq> None) (fs_Dir fs)"
    using store_dir_ok [OF ok] by (simp_all add: dir_ok_def)
  have "keeps_image limits uid ns fs (set_dir (AList.delete ''snapshot.tmp'' (fs_Dir fs)) fs)"
  proof (rule set_dir_keeps [OF ok])
    show "distinct (map snd (AList.delete ''snapshot.tmp'' (fs_Dir fs)))"
      using d(2) by (simp add: AList.delete_eq distinct_map_filter)
    show "list_all (\<lambda>(k, i). i < fs_Next fs \<and> fs_Node fs i \<noteq> None) (AList.delete ''snapshot.tmp'' (fs_Dir fs))"
      using d(3) by (auto simp: AList.delete_eq list_all_iff)
  qed (use d in \<open>auto simp: delete_conv' distinct_delete\<close>)
  with assms(2) ok show ?thesis
    by (auto simp: unlinkat_def keeps_image_refl split: option.splits)
qed

lemma create_tmp_keeps:
  assumes ok: "store_ok limits uid ns fs" and "map_of (fs_Dir fs) ''snapshot.tmp'' = None"
    and "create_node env ''snapshot.tmp'' fs = (i, fs')"
  shows "keeps_image limits uid ns fs fs'" and "spare i fs'" and "i < fs_Next fs'"
    and "map_of (fs_Dir fs') ''snapshot.tmp'' = Some i"
    and "\<exists>n. fs_Node fs' i = Some n \<and> nd_Data n = []"
proof -
  define node where "node = \<lparr>nd_Mode = S_IFREG OR (0x180 AND NOT (se_Umask env)), nd_Uid = se_Uid env, nd_Links = 0,
                  nd_Data = [], nd_Synced = False\<rparr>"
  let ?mid = "fs\<lparr>fs_Node := (fs_Node fs)(i \<mapsto> node), fs_Next := Suc i\<rparr>"
  have fs': "fs' = set_dir ((''snapshot.tmp'', i) # fs_Dir fs) ?mid" and i: "i = fs_Next fs"
    using assms(3) by (auto simp: create_node_def Let_def set_dir_def node_def)
  have below: "j < i" if "dir \<in> set (fs_Dir fs # fs_Lost fs)" "(name, j) \<in> set dir" for dir name j
    using ok that by (fastforce simp: store_ok_def dir_ok_def list_all_iff i)
  have mid: "keeps_image limits uid ns fs ?mid"
  proof (rule nodes_keep [OF ok])
    fix dir name j
    assume "dir \<in> set (fs_Dir fs # fs_Lost fs)" "map_of dir name = Some j"
    then have "j < i" using below map_of_SomeD by metis
    then show "fs_Node ?mid j = fs_Node fs j" by simp
  qed (simp_all add: i)
  then have okm: "store_ok limits uid ns ?mid" by (simp add: keeps_image_def)
  have d: "distinct (map fst (fs_Dir fs))" "distinct (map snd (fs_Dir fs))"
    "list_all (\<lambda>(k, i). i < fs_Next ?mid \<and> fs_Node ?mid i \<noteq> None) (fs_Dir fs)"
    using store_dir_ok [OF okm] by (simp_all add: dir_ok_def)
  have "keeps_image limits uid ns ?mid fs'"
    unfolding fs'
  proof (rule set_dir_keeps [OF okm])
    show "distinct (map fst ((''snapshot.tmp'', i) # fs_Dir fs))"
      using d(1) assms(2) by (simp add: map_of_eq_None_iff)
    show "distinct (map snd ((''snapshot.tmp'', i) # fs_Dir fs))"
      using d(2) below [of "fs_Dir fs"] by force
  qed (use d in simp_all)
  with mid show "keeps_image limits uid ns fs fs'" by (rule keeps_image_trans)
  show "spare i fs'"
    using below by (fastforce simp: spare_def list_all_iff fs')
  show "i < fs_Next fs'" "map_of (fs_Dir fs') ''snapshot.tmp'' = Some i" by (simp_all add: fs')
  show "\<exists>n. fs_Node fs' i = Some n \<and> nd_Data n = []"
    by (simp add: fs' node_def)
qed


text \<open>A step after which the image is \<^verbatim>\<open>d\<close>, and which a crash may undo.\<close>

definition replaces_image :: "Limits \<Rightarrow> u32 \<Rightarrow> string \<Rightarrow> fsys \<Rightarrow> disk \<Rightarrow> fsys \<Rightarrow> bool" where
  "replaces_image limits uid ns fs d fs' \<longleftrightarrow>
     store_ok limits uid ns fs' \<and> fs_image limits ns fs' = Some d
     \<and> set (fs_images limits ns fs') \<subseteq> insert (Some d) (set (fs_images limits ns fs))"

lemma keeps_then_replaces:
  "keeps_image limits uid ns fs fs1 \<Longrightarrow> replaces_image limits uid ns fs1 d fs2 \<Longrightarrow> replaces_image limits uid ns fs d fs2"
  by (auto simp: keeps_image_def replaces_image_def images_within_def)

lemma replaces_then_keeps:
  "replaces_image limits uid ns fs d fs1 \<Longrightarrow> keeps_image limits uid ns fs1 fs2 \<Longrightarrow> replaces_image limits uid ns fs d fs2"
  by (auto simp: keeps_image_def replaces_image_def images_within_def)

text \<open>The temporary file while it is written: its content so far, and whether it is synced.\<close>

definition at_file :: "Limits \<Rightarrow> u32 \<Rightarrow> string \<Rightarrow> fsys \<Rightarrow> nat \<Rightarrow> string \<Rightarrow> bool \<Rightarrow> fsys \<Rightarrow> bool" where
  "at_file limits uid ns fs0 i b synced fs \<longleftrightarrow>
     keeps_image limits uid ns fs0 fs \<and> spare i fs \<and> map_of (fs_Dir fs) ''snapshot.tmp'' = Some i
     \<and> (case fs_Node fs i of
          None \<Rightarrow> False
        | Some n \<Rightarrow> owned uid n \<and> nd_Data n = b \<and> (synced \<longrightarrow> nd_Synced n))"

lemma at_file_keeps: "at_file limits uid ns fs0 i b synced fs \<Longrightarrow> keeps_image limits uid ns fs0 fs"
  by (simp add: at_file_def)

lemma spare_cong: "fs_Dir fs' = fs_Dir fs \<Longrightarrow> fs_Lost fs' = fs_Lost fs \<Longrightarrow> spare i fs' = spare i fs"
  by (simp add: spare_def)

lemma at_file_append:
  assumes "at_file limits uid ns fs0 i b synced fs"
  shows "at_file limits uid ns fs0 i (b @ c) False (append_data i c fs)"
proof -
  have "store_ok limits uid ns fs" "spare i fs" using assms by (simp_all add: at_file_def keeps_image_def)
  from keeps_image_trans [OF at_file_keeps [OF assms] append_keeps [OF this, of c]] this(2) assms show ?thesis
    using spare_cong [of "append_data i c fs" fs i]
    by (auto simp: at_file_def append_data_def owned_def split: option.splits)
qed

lemma at_file_sync:
  assumes "at_file limits uid ns fs0 i b synced fs" and "sync_file i fs = (r, fs')"
  shows "at_file limits uid ns fs0 i b True fs'"
proof -
  have "store_ok limits uid ns fs" "spare i fs" using assms by (simp_all add: at_file_def keeps_image_def)
  from keeps_image_trans [OF at_file_keeps [OF assms(1)] sync_file_keeps [OF this assms(2)]] this(2) assms show ?thesis
    using spare_cong [of fs' fs i]
    by (auto simp: at_file_def sync_file_def owned_def split: option.splits)
qed

lemma rename_replaces:
  assumes at: "at_file limits uid ns fs0 i b True fs"
    and b: "decode_image limits [] ns b = Inr d" "int (length b) \<le> lm_Bytes limits"
    and ren: "renameat ''snapshot.tmp'' ''journal.json'' fs = (r, fs')"
  shows "replaces_image limits uid ns fs0 d fs'"
proof -
  from at have ok: "store_ok limits uid ns fs" and sp: "spare i fs" and tmp: "map_of (fs_Dir fs) ''snapshot.tmp'' = Some i"
    by (simp_all add: at_file_def keeps_image_def)
  from at obtain n where n: "fs_Node fs i = Some n" "owned uid n" "nd_Data n = b" "nd_Synced n"
    by (auto simp: at_file_def split: option.splits)
  let ?rest = "AList.delete ''journal.json'' (AList.delete ''snapshot.tmp'' (fs_Dir fs))"
  let ?dir = "(''journal.json'', i) # ?rest"
  have fs': "fs' = set_dir ?dir fs" using ren tmp by (simp add: renameat_def)
  have ok_dir: "dir_ok limits uid ns fs (fs_Dir fs)" by (rule store_dir_ok [OF ok])
  then have D: "distinct (map fst (fs_Dir fs))" "distinct (map snd (fs_Dir fs))"
    "list_all (\<lambda>(k, i). i < fs_Next fs \<and> fs_Node fs i \<noteq> None) (fs_Dir fs)"
    "has_file fs (fs_Dir fs) ''lock'' (owned uid)"
    "has_file fs (fs_Dir fs) ''namespace'' (\<lambda>n. owned uid n \<and> nd_Synced n \<and> nd_Data n = ns @ [CHR 0x0A])"
    by (simp_all add: dir_ok_def)
  have i: "(''snapshot.tmp'', i) \<in> set (fs_Dir fs)" using tmp by (rule map_of_SomeD)
  have fresh: "i \<notin> snd ` set ?rest"
    using sp by (auto simp: AList.delete_eq spare_def list_all_iff)
  have files: "has_file fs ?dir name P = has_file fs (fs_Dir fs) name P"
    if "name \<noteq> ''journal.json''" "name \<noteq> ''snapshot.tmp''" for name P
    by (rule has_file_cong) (use that in \<open>simp_all add: delete_conv'\<close>)
  have img: "image_in limits ns fs ?dir = Some d"
    using n b by (simp add: image_in_def)
  have "dir_ok limits uid ns fs ?dir"
    unfolding dir_ok_def
  proof (intro conjI)
    show "distinct (map fst ?dir)" using D(1) by (auto simp: AList.delete_eq distinct_map_filter)
    show "distinct (map snd ?dir)" using D(2) fresh by (simp add: AList.delete_eq distinct_map_filter)
    show "list_all (\<lambda>(k, i). i < fs_Next fs \<and> fs_Node fs i \<noteq> None) ?dir"
      using D(3) i by (auto simp: AList.delete_eq list_all_iff)
    show "has_file fs ?dir ''journal.json'' (\<lambda>n. owned uid n \<and> nd_Synced n \<and> int (length (nd_Data n)) \<le> lm_Bytes limits)"
      using n b by (simp add: has_file_def)
  qed (use D(4,5) img in \<open>simp_all add: files\<close>)
  moreover have f: "has_file (set_dir ?dir fs) x name P = has_file fs x name P" for x name P
    by (rule has_file_cong) simp_all
  have im: "image_in limits ns (set_dir ?dir fs) x = image_in limits ns fs x" for x
    by (rule image_in_cong) simp_all
  have "dir_ok limits uid ns (set_dir ?dir fs) x = dir_ok limits uid ns fs x" for x
    by (simp add: dir_ok_def f im)
  ultimately have "replaces_image limits uid ns fs d fs'"
    using ok img by (auto simp: replaces_image_def fs' store_ok_def list_all_iff fs_image_def fs_images_def im)
  then show ?thesis by (rule keeps_then_replaces [OF at_file_keeps [OF at]])
qed

lemma sync_dir_settles:
  assumes "replaces_image limits uid ns fs0 d fs" and "sync_dir fs = (r, fs')"
  shows "replaces_image limits uid ns fs0 d fs'" and "fs_images limits ns fs' = [Some d]"
proof -
  have fs': "fs' = fs\<lparr>fs_Lost := []\<rparr>" using assms(2) by (simp add: sync_dir_def)
  have f: "has_file fs' x name P = has_file fs x name P" for x name P
    by (rule has_file_cong) (simp_all add: fs')
  have im: "image_in limits ns fs' x = image_in limits ns fs x" for x
    by (rule image_in_cong) (simp_all add: fs')
  have ok: "dir_ok limits uid ns fs' x = dir_ok limits uid ns fs x" for x
    by (simp add: dir_ok_def f im) (simp add: fs')
  have dirs: "fs_Dir fs' = fs_Dir fs" "fs_Lost fs' = []" by (simp_all add: fs')
  have img: "image_in limits ns fs (fs_Dir fs) = Some d"
    using assms(1) by (simp add: replaces_image_def fs_image_def)
  show "fs_images limits ns fs' = [Some d]" by (simp add: fs_images_def im dirs img)
  then show "replaces_image limits uid ns fs0 d fs'"
    using assms(1) by (auto simp: replaces_image_def store_ok_def ok fs_image_def im dirs)
qed

subsection \<open>Programs\<close>

text \<open>
  From a state with \<^verbatim>\<open>P\<close>, a program that returns leaves \<^verbatim>\<open>Q\<close>, and one that
  raises or dies leaves \<^verbatim>\<open>E\<close>.
\<close>

definition runs :: "(fsys \<Rightarrow> bool) \<Rightarrow> 'a prog \<Rightarrow> ('a \<Rightarrow> fsys \<Rightarrow> bool) \<Rightarrow> (fsys \<Rightarrow> bool) \<Rightarrow> bool" where
  "runs P p Q E \<longleftrightarrow> (\<forall>fs. P fs \<longrightarrow> (case p fs of (Ret x, fs') \<Rightarrow> Q x fs' | (_, fs') \<Rightarrow> E fs'))"

lemma runsI:
  assumes "\<And>fs x fs'. P fs \<Longrightarrow> p fs = (Ret x, fs') \<Longrightarrow> Q x fs'"
    and "\<And>fs e fs'. P fs \<Longrightarrow> p fs = (Raise e, fs') \<Longrightarrow> E fs'"
    and "\<And>fs fs'. P fs \<Longrightarrow> p fs = (Dead, fs') \<Longrightarrow> E fs'"
  shows "runs P p Q E"
  using assms by (force simp: runs_def split: prod.split outcome.split)

lemma runs_ret: "runs P p Q E \<Longrightarrow> P fs \<Longrightarrow> p fs = (Ret x, fs') \<Longrightarrow> Q x fs'"
  by (fastforce simp: runs_def)

lemma runs_raise: "runs P p Q E \<Longrightarrow> P fs \<Longrightarrow> p fs = (Raise e, fs') \<Longrightarrow> E fs'"
  by (fastforce simp: runs_def)

lemma runs_dead: "runs P p Q E \<Longrightarrow> P fs \<Longrightarrow> p fs = (Dead, fs') \<Longrightarrow> E fs'"
  by (fastforce simp: runs_def)

lemma runs_then [intro]:
  assumes "runs P p R E" and "\<And>x. runs (R x) (k x) Q E"
  shows "runs P (thenDo p k) Q E"
proof -
  have "case thenDo p k fs of (Ret x, fs') \<Rightarrow> Q x fs' | (_, fs') \<Rightarrow> E fs'" if "P fs" for fs
  proof (cases "p fs")
    case (Pair r fs1)
    then show ?thesis
      using assms(2) runs_ret [OF assms(1) that] runs_raise [OF assms(1) that] runs_dead [OF assms(1) that]
      by (cases r) (auto simp: thenDo_def runs_def)
  qed
  then show ?thesis by (simp add: runs_def)
qed

lemma runs_sys:
  assumes "\<And>fs. P fs \<Longrightarrow> E fs" and "\<And>fs x fs'. P fs \<Longrightarrow> act fs = (Inr x, fs') \<Longrightarrow> Q x fs'"
    and "\<And>fs e fs'. P fs \<Longrightarrow> act fs = (Inl e, fs') \<Longrightarrow> E fs'"
  shows "runs P (sys a act) Q E"
  by (rule runsI; use assms in \<open>auto simp: sys_def split: answer.splits sum.splits prod.splits\<close>)

lemma runs_pass: "(\<And>fs. P fs \<Longrightarrow> E fs) \<Longrightarrow> runs P (pass a) (\<lambda>_. P) E"
  unfolding pass_def by (rule runs_sys) auto

lemma runs_write_file:
  assumes "\<And>fs n. P fs \<Longrightarrow> E (append_data i (take n b) fs)" and "\<And>fs. P fs \<Longrightarrow> Q (append_data i b fs)"
  shows "runs P (write_file env part i b) (\<lambda>_. Q) E"
  by (rule runsI; use assms in \<open>auto simp: write_file_def split: answer.splits\<close>)

lemma runs_deferred:
  assumes "runs P p Q E" and "\<And>x. runs (Q x) c (\<lambda>_. Q x) (Q x)" and "runs E c (\<lambda>_. E) E"
    and "\<And>x fs. Q x fs \<Longrightarrow> E fs"
  shows "runs P (deferred c p) Q E"
proof -
  have "case deferred c p fs of (Ret x, fs') \<Rightarrow> Q x fs' | (_, fs') \<Rightarrow> E fs'" if "P fs" for fs
  proof (cases "p fs")
    case (Pair r fs1)
    obtain r2 fs2 where c: "c fs1 = (r2, fs2)" by (cases "c fs1")
    have q: "Q x fs2" if "Q x fs1" for x
      using assms(2) [of x] that c by (cases r2) (auto dest: runs_ret runs_raise runs_dead)
    have e: "E fs2" if "E fs1"
      using assms(3) that c by (cases r2) (auto dest: runs_ret runs_raise runs_dead)
    show ?thesis
      using Pair c q e assms(4) runs_ret [OF assms(1) that] runs_raise [OF assms(1) that] runs_dead [OF assms(1) that]
      by (cases r; cases r2) (auto simp: deferred_def)
  qed
  then show ?thesis by (simp add: runs_def)
qed

text \<open>What a write leaves, however it ends.\<close>

definition written :: "Limits \<Rightarrow> u32 \<Rightarrow> string \<Rightarrow> fsys \<Rightarrow> disk \<Rightarrow> fsys \<Rightarrow> bool" where
  "written limits uid ns fs0 d fs \<longleftrightarrow> keeps_image limits uid ns fs0 fs \<or> replaces_image limits uid ns fs0 d fs"

lemma snapshot_runs:
  assumes b: "decode_image limits [] ns b = Inr d" "int (length b) \<le> lm_Bytes limits"
  shows "runs (at_file limits uid ns fs0 i [] False) (write_snapshot env b i)
     (\<lambda>_ fs. replaces_image limits uid ns fs0 d fs \<and> fs_images limits ns fs = [Some d]) (written limits uid ns fs0 d)"
  unfolding write_snapshot_def Let_def
proof (intro runs_then)
  let ?h = "length b div 2"
  let ?W = "at_file limits uid ns fs0 i"
  note keep = at_file_keeps [of limits uid ns fs0 i]
  have w: "?W x s fs \<Longrightarrow> written limits uid ns fs0 d fs" for x s fs
    by (auto simp: written_def dest: keep)
  show "runs (?W [] False) (write_file env ''head'' i (take ?h b)) (\<lambda>_. ?W (take ?h b) False) (written limits uid ns fs0 d)"
    by (rule runs_write_file) (auto intro: w dest: at_file_append [where b = "[]"])
  show "runs (?W (take ?h b) False) (fault_hook env ''partial_write'') (\<lambda>_. ?W (take ?h b) False) (written limits uid ns fs0 d)"
    by (rule runs_pass) (rule w)
  show "runs (?W (take ?h b) False) (write_file env ''tail'' i (drop ?h b)) (\<lambda>_. ?W b False) (written limits uid ns fs0 d)"
    by (rule runs_write_file) (auto intro: w dest: at_file_append [where b = "take ?h b" and c = "drop ?h b"] at_file_append)
  show "runs (?W b False) (fault_hook env ''before_file_sync'') (\<lambda>_. ?W b False) (written limits uid ns fs0 d)"
    by (rule runs_pass) (rule w)
  show "runs (?W b False) (sys (se_At env (Sync ''snapshot.tmp'')) (sync_file i)) (\<lambda>_. ?W b True) (written limits uid ns fs0 d)"
    by (rule runs_sys) (auto intro: w dest: at_file_sync)
  show "runs (?W b True) (fault_hook env ''after_file_sync'') (\<lambda>_. ?W b True) (written limits uid ns fs0 d)"
    "runs (?W b True) (pass (se_At env CloseFile)) (\<lambda>_. ?W b True) (written limits uid ns fs0 d)"
    "runs (?W b True) (pass (se_At env (Context ''before_rename''))) (\<lambda>_. ?W b True) (written limits uid ns fs0 d)"
    "runs (?W b True) (fault_hook env ''before_rename'') (\<lambda>_. ?W b True) (written limits uid ns fs0 d)"
    by (rule runs_pass, rule w, assumption)+
  let ?R = "replaces_image limits uid ns fs0 d"
  have r: "?R fs \<Longrightarrow> written limits uid ns fs0 d fs" for fs by (simp add: written_def)
  show "runs (?W b True) (sys (se_At env Rename) (renameat ''snapshot.tmp'' ''journal.json'')) (\<lambda>_. ?R) (written limits uid ns fs0 d)"
    by (rule runs_sys) (auto intro: w r dest: rename_replaces [OF _ b])
  show "runs ?R (fault_hook env ''after_rename'') (\<lambda>_. ?R) (written limits uid ns fs0 d)"
    by (rule runs_pass) (rule r)
  let ?S = "\<lambda>fs. ?R fs \<and> fs_images limits ns fs = [Some d]"
  show "runs ?R (sys (se_At env (Sync ''root'')) sync_dir) (\<lambda>_. ?S) (written limits uid ns fs0 d)"
    by (rule runs_sys) (auto intro: r dest: sync_dir_settles)
  show "runs ?S (fault_hook env ''after_directory_sync'') (\<lambda>_ fs. ?S fs) (written limits uid ns fs0 d)"
    by (rule runs_pass) (auto intro: r)
qed


subsection \<open>Programs of the store\<close>

text \<open>Programs that change nothing.\<close>

definition still :: "'a prog \<Rightarrow> bool" where
  "still p \<longleftrightarrow> (\<forall>fs. snd (p fs) = fs)"

lemma still_same: "still p \<Longrightarrow> p fs = (r, fs') \<Longrightarrow> fs' = fs"
  by (metis snd_conv still_def)

lemma still_iff: "still p \<longleftrightarrow> (\<forall>fs r fs'. p fs = (r, fs') \<longrightarrow> fs' = fs)"
  by (metis snd_conv still_def surj_pair)

lemma still_then [intro]: "still p \<Longrightarrow> (\<And>x. still (k x)) \<Longrightarrow> still (thenDo p k)"
  unfolding still_iff by (fastforce simp: thenDo_def split: prod.splits outcome.splits)

lemma still_sys [intro]: "(\<And>fs. snd (act fs) = fs) \<Longrightarrow> still (sys a act)"
  by (auto simp: still_def sys_def split: answer.split sum.split prod.split) (metis snd_conv)+

text \<open>A program is weakened at both ends.\<close>

lemma runs_mono:
  assumes "runs P p Q E" and "\<And>x fs. Q x fs \<Longrightarrow> Q' x fs" and "\<And>fs. E fs \<Longrightarrow> E' fs"
  shows "runs P p Q' E'"
  by (rule runsI) (use assms in \<open>blast dest: runs_ret runs_raise runs_dead\<close>)+

lemma still_wrapped [intro]: "still p \<Longrightarrow> still (wrapped p)"
  unfolding still_iff by (fastforce simp: wrapped_def split: prod.splits outcome.splits)

lemma still_simps [simp]: "still (ret x)" "still (raise e)" "still (pass a)" "still (lift r)"
  by (auto simp: still_def ret_def raise_def pass_def sys_def lift_def split: answer.split sum.split)

lemma thenDo_cases:
  assumes "thenDo p k fs = (r, fs')"
  obtains (next_step) x fs1 where "p fs = (Ret x, fs1)" "k x fs1 = (r, fs')"
    | (raised) e where "p fs = (Raise e, fs')" "r = Raise e"
    | (died) "p fs = (Dead, fs')" "r = Dead"
  using assms by (auto simp: thenDo_def split: prod.splits outcome.splits)

lemma thenDo_ret: "thenDo p k fs = (Ret y, fs') \<longleftrightarrow> (\<exists>x fs1. p fs = (Ret x, fs1) \<and> k x fs1 = (Ret y, fs'))"
  by (auto simp: thenDo_def split: prod.splits outcome.splits)

lemma wrapped_ret [simp]: "wrapped p fs = (Ret x, fs') \<longleftrightarrow> p fs = (Ret x, fs')"
  by (auto simp: wrapped_def split: prod.splits outcome.splits)

lemma sys_ret: "sys a act fs = (Ret x, fs') \<longleftrightarrow> a = Works \<and> act fs = (Inr x, fs')"
  by (auto simp: sys_def split: answer.splits sum.splits prod.splits)

lemma pass_ret [simp]: "pass a fs = (Ret x, fs') \<longleftrightarrow> a = Works \<and> fs' = fs"
  by (auto simp: pass_def sys_ret)

lemma openat_read: "flags = RDONLY \<or> flags = RDWR \<Longrightarrow> snd (openat env flags name fs) = fs"
  by (auto simp: openat_def split: option.split)

lemma still_openFile [intro]: "flags = RDONLY \<or> flags = RDWR \<Longrightarrow> still (openFile env role name flags)"
  unfolding openFile_def using openat_read by (intro still_then still_sys) auto

lemma openFile_opened:
  assumes "openFile env role name flags fs = (Ret i, fs')" and "flags = RDONLY \<or> flags = RDWR"
  shows "map_of (fs_Dir fs) name = Some i" and "private_file env i fs" and "fs' = fs"
proof -
  show same: "fs' = fs" by (rule still_same [OF still_openFile [OF assms(2)] assms(1)])
  from assms(1) obtain fs1 where 1: "sys (se_At env (Open role)) (openat env flags name) fs = (Ret i, fs1)"
    "sys (se_At env (Fstat role)) (\<lambda>fs. (if private_file env i fs then Inr i else Inl ErrRepair, fs)) fs1 = (Ret i, fs')"
    unfolding openFile_def by (auto simp: thenDo_ret sys_ret split: if_splits)
  then have "openat env flags name fs = (Inr i, fs1)" by (simp add: sys_ret)
  with assms(2) show "map_of (fs_Dir fs) name = Some i"
    by (auto simp: openat_def split: option.splits if_splits)
  have "fs1 = fs" using openat_read [OF assms(2)] \<open>openat env flags name fs = (Inr i, fs1)\<close> by (metis snd_conv)
  then show "private_file env i fs" using 1(2) by (auto simp: sys_ret split: if_splits)
qed

lemma nlink_one:
  assumes "nlink fs i = 1" and "map_of (fs_Dir fs) name = Some i" and "fs_Node fs i = Some n"
  shows "nd_Links n = 0"
proof -
  have "(name, i) \<in> set (filter (\<lambda>(k, j). j = i) (fs_Dir fs))"
    using map_of_SomeD [OF assms(2)] by simp
  then have "0 < length (filter (\<lambda>(k, j). j = i) (fs_Dir fs))" by (metis length_pos_if_in_set)
  moreover have "nd_Links n + length (filter (\<lambda>(k, j). j = i) (fs_Dir fs)) = 1"
    using assms(1,3) by (simp add: nlink_def)
  ultimately show ?thesis by linarith
qed

lemma private_owned:
  assumes "private_file env i fs" and "map_of (fs_Dir fs) name = Some i"
  obtains n where "fs_Node fs i = Some n" "owned (se_Uid env) n"
  using assms nlink_one [of fs i name]
  by (auto simp: private_file_def owned_def split: option.splits)

lemma still_readBounded [intro]: "still (readBounded env name limit)"
  unfolding readBounded_def
proof (intro still_then still_wrapped still_openFile)
  fix i and u :: unit
  show "still (\<lambda>fs. case fs_Node fs i of None \<Rightarrow> (Raise (StorageErr ''EIO''), fs)
      | Some n \<Rightarrow> if limit < int (length (nd_Data n)) then (Raise ErrRepair, fs)
          else thenDo (pass (se_At env (ReadAll name))) (\<lambda>_. ret (nd_Data n)) fs)"
  proof -
    have "still (thenDo (pass (se_At env (ReadAll name))) (\<lambda>_. ret y))" for y :: string
      by (intro still_then) simp_all
    then show ?thesis by (auto simp: still_def split: option.split)
  qed
qed simp_all

lemma readBounded_read:
  assumes "readBounded env name limit fs = (Ret b, fs')"
  obtains i n where "map_of (fs_Dir fs) name = Some i" "fs_Node fs i = Some n" "nd_Data n = b"
proof -
  from assms obtain i fs1 where i: "openFile env name name RDONLY fs = (Ret i, fs1)"
    and n: "\<exists>n. fs_Node fs1 i = Some n \<and> nd_Data n = b"
    unfolding readBounded_def
    by (auto simp: thenDo_ret ret_def split: option.splits if_splits)
  have "fs1 = fs" by (rule still_same [OF still_openFile i]) simp
  then show thesis using openFile_opened(1) [OF i] n that by auto
qed

lemma lift_ret [simp]: "lift r fs = (Ret x, fs') \<longleftrightarrow> r = Inr x \<and> fs' = fs"
  by (auto simp: lift_def raise_def ret_def split: sum.splits)

lemma still_read_store [intro]: "still (read_store env limits expected)"
  unfolding read_store_def by (intro still_then still_readBounded) (auto intro!: still_then)

lemma read_store_image:
  assumes ok: "store_ok limits uid ns fs" and "read_store env limits expected fs = (Ret d, fs')"
  shows "fs_image limits ns fs = Some d" and "expected = [] \<or> expected = ns"
proof -
  from assms(2) obtain nst fs1 where nst: "readBounded env ''namespace'' 65 fs = (Ret nst, fs1)"
    and rest: "(if length nst \<noteq> 65 \<or> nst ! 64 \<noteq> CHR 0x0A \<or> \<not> isHex (take 64 nst) then raise ErrRepair
       else thenDo (readBounded env ''journal.json'' (lm_Bytes limits)) (\<lambda>b.
         lift (decode_image limits expected (take 64 nst) b))) fs1 = (Ret d, fs')"
    unfolding read_store_def by (auto simp: thenDo_ret)
  have fs1: "fs1 = fs" by (rule still_same [OF still_readBounded nst])
  from rest obtain b fs2 where b: "readBounded env ''journal.json'' (lm_Bytes limits) fs = (Ret b, fs2)"
    and dec: "decode_image limits expected (take 64 nst) b = Inr d"
    unfolding fs1 by (auto simp: thenDo_ret raise_def split: if_splits)
  have "length ns = 64" using ok by (simp add: store_ok_def isHex_def)
  moreover from nst obtain i n where "map_of (fs_Dir fs) ''namespace'' = Some i" "fs_Node fs i = Some n" "nd_Data n = nst"
    by (rule readBounded_read)
  then have "nst = ns @ [CHR 0x0A]"
    using store_dir_ok [OF ok] by (simp add: dir_ok_def has_file_def)
  ultimately have ns: "take 64 nst = ns" by simp
  from b obtain i n where "map_of (fs_Dir fs) ''journal.json'' = Some i" "fs_Node fs i = Some n" "nd_Data n = b"
    by (rule readBounded_read)
  then show "fs_image limits ns fs = Some d"
    using decoded_ok(4) [OF dec] by (simp add: fs_image_def image_in_def ns)
  show "expected = [] \<or> expected = ns" using decoded_ok(3) [OF dec] ns by simp
qed

lemma remove_orphan_runs: "runs (keeps_image limits uid ns fs0) (remove_orphan env) (\<lambda>_. keeps_image limits uid ns fs0) (keeps_image limits uid ns fs0)"
proof -
  have "keeps_image limits uid ns fs0 fs'"
    if k: "keeps_image limits uid ns fs0 fs" and r: "remove_orphan env fs = (r, fs')" for fs r fs'
  proof (cases "openFile env ''old'' ''snapshot.tmp'' RDONLY fs")
    case (Pair o1 fs1)
    have same: "fs1 = fs" by (rule still_same [OF still_openFile Pair]) simp
    show ?thesis
    proof (cases o1)
      case (Ret i)
      then have u: "sys (se_At env (Unlink ''old'')) (unlinkat ''snapshot.tmp'') fs = (r, fs')"
        using r Pair same by (simp add: remove_orphan_def)
      have ok: "store_ok limits uid ns fs" using k by (simp add: keeps_image_def)
      have "fs' = fs \<or> (\<exists>r2. unlinkat ''snapshot.tmp'' fs = (r2, fs'))"
        using u by (auto simp: sys_def split: answer.splits sum.splits prod.splits)
      then show ?thesis using keeps_image_trans [OF k] unlink_keeps [OF ok] k by blast
    qed (use r Pair same k in \<open>auto simp: remove_orphan_def split: if_splits\<close>)
  qed
  then show ?thesis by (auto simp: runs_def split: prod.split outcome.split)
qed

lemma private_mode: "private_file env i fs \<Longrightarrow> fs_Node fs i = Some n \<Longrightarrow>
    nd_Mode n AND S_IFMT = S_IFREG \<and> nd_Mode n AND 0x1FF = 0x180 \<and> nd_Uid n = se_Uid env"
  by (auto simp: private_file_def)

lemma open_tmp_runs:
  assumes uid: "se_Uid env = uid"
  shows "runs (keeps_image limits uid ns fs0) (openFile env ''tmp'' ''snapshot.tmp'' WRONLY_CREAT_EXCL)
    (\<lambda>i. at_file limits uid ns fs0 i [] False) (keeps_image limits uid ns fs0)"
  unfolding openFile_def
proof (intro runs_then)
  let ?K = "keeps_image limits uid ns fs0"
  let ?M = "\<lambda>i fs. ?K fs \<and> spare i fs \<and> map_of (fs_Dir fs) ''snapshot.tmp'' = Some i \<and> (\<exists>n. fs_Node fs i = Some n \<and> nd_Data n = [])"
  show "runs ?K (sys (se_At env (Open ''tmp'')) (openat env WRONLY_CREAT_EXCL ''snapshot.tmp'')) ?M ?K"
  proof (rule runs_sys)
    fix fs x fs'
    assume k: "?K fs" and "openat env WRONLY_CREAT_EXCL ''snapshot.tmp'' fs = (Inr x, fs')"
    then have n: "map_of (fs_Dir fs) ''snapshot.tmp'' = None" and c: "create_node env ''snapshot.tmp'' fs = (x, fs')"
      by (auto simp: openat_def split: option.splits prod.splits)
    from k have ok: "store_ok limits uid ns fs" by (simp add: keeps_image_def)
    from create_tmp_keeps [OF ok n c] keeps_image_trans [OF k] show "?M x fs'" by blast
  qed (auto simp: openat_def split: option.splits prod.splits)
  show "runs (?M i) (sys (se_At env (Fstat ''tmp'')) (\<lambda>fs. (if private_file env i fs then Inr i else Inl ErrRepair, fs)))
      (\<lambda>i. at_file limits uid ns fs0 i [] False) ?K" for i
  proof (rule runs_sys)
    fix fs x fs'
    assume m: "?M i fs" and a: "(if private_file env i fs then Inr i else Inl ErrRepair, fs) = (Inr x, fs')"
    then have p: "private_file env i fs" "x = i" "fs' = fs" by (auto split: if_splits)
    from private_owned [OF p(1)] m obtain n where "fs_Node fs i = Some n" "owned uid n" using uid by blast
    then show "at_file limits uid ns fs0 x [] False fs'" using m p by (auto simp: at_file_def)
  qed auto
qed

lemma replaces_again:
  "replaces_image limits uid ns fs0 d fs \<Longrightarrow> fs_images limits ns fs = [Some d] \<Longrightarrow> keeps_image limits uid ns fs fs' \<Longrightarrow>
     fs_images limits ns fs' \<noteq> [] \<and> set (fs_images limits ns fs') = {Some d}"
  by (auto simp: keeps_image_def images_within_def fs_images_def)

definition settled_on :: "Limits \<Rightarrow> u32 \<Rightarrow> string \<Rightarrow> fsys \<Rightarrow> disk \<Rightarrow> fsys \<Rightarrow> bool" where
  "settled_on limits uid ns fs0 d fs \<longleftrightarrow>
     replaces_image limits uid ns fs0 d fs \<and> set (fs_images limits ns fs) = {Some d}"

lemma write_runs:
  assumes uid: "se_Uid env = uid" and ns: "dk_Namespace d = ns" and dist: "distinct (map fst (dk_Records d))"
    and small: "small_limits limits"
  shows "runs (keeps_image limits uid ns fs0) (write_store env limits d)
     (\<lambda>_ fs. settled_on limits uid ns fs0 (canonical d) fs \<and> validate limits d \<and> image_fits limits d)
     (\<lambda>fs. keeps_image limits uid ns fs0 fs \<or>
           replaces_image limits uid ns fs0 (canonical d) fs \<and> validate limits d \<and> image_fits limits d)"
    (is "runs ?K _ ?Q ?E")
proof (cases "validate limits d \<and> image_fits limits d")
  case True
  then have v: "journal_ok limits d" using dist by (simp add: journal_ok_def)
  have b: "decode_image limits [] ns (marshal d) = Inr (canonical d)"
    using decode_marshal [OF v small, of "[]"] ns by simp
  have len: "int (length (marshal d)) \<le> lm_Bytes limits" using True by (simp add: image_fits_def Let_def)
  have unlink: "runs P (sys a (unlinkat ''snapshot.tmp'')) (\<lambda>_. P) P"
    if "\<And>fs fs'. P fs \<Longrightarrow> keeps_image limits uid ns fs fs' \<Longrightarrow> P fs'" and "\<And>fs. P fs \<Longrightarrow> store_ok limits uid ns fs" for P a
    by (rule runs_sys) (use that unlink_keeps in blast)+
  have "runs ?K (write_store env limits d)
      (\<lambda>_ fs. settled_on limits uid ns fs0 (canonical d) fs) (written limits uid ns fs0 (canonical d))"
    unfolding write_store_def
  proof (simp only: True simp_thms if_False, intro runs_then)
    have w: "written limits uid ns fs0 (canonical d) fs" if "?K fs" for fs
      using that by (simp add: written_def)
    show "runs ?K (fault_hook env ''before_temp'') (\<lambda>_. ?K) (written limits uid ns fs0 (canonical d))"
      by (rule runs_pass) (rule w)
    show "runs ?K (remove_orphan env) (\<lambda>_. ?K) (written limits uid ns fs0 (canonical d))"
      by (rule runs_mono [OF remove_orphan_runs]) (simp_all add: w)
    show "runs ?K (openFile env ''tmp'' ''snapshot.tmp'' WRONLY_CREAT_EXCL) (\<lambda>i. at_file limits uid ns fs0 i [] False)
        (written limits uid ns fs0 (canonical d))"
      by (rule runs_mono [OF open_tmp_runs [OF uid]]) (simp_all add: w)
    show "runs (at_file limits uid ns fs0 i [] False)
        (deferred (sys (se_At env (Unlink ''tmp'')) (unlinkat ''snapshot.tmp'')) (write_snapshot env (marshal d) i))
        (\<lambda>_ fs. settled_on limits uid ns fs0 (canonical d) fs) (written limits uid ns fs0 (canonical d))" for i
    proof (rule runs_deferred)
      show "runs (at_file limits uid ns fs0 i [] False) (write_snapshot env (marshal d) i)
          (\<lambda>_ fs. settled_on limits uid ns fs0 (canonical d) fs) (written limits uid ns fs0 (canonical d))"
        by (rule runs_mono [OF snapshot_runs [OF b len]]) (simp_all add: settled_on_def)
      show "runs (settled_on limits uid ns fs0 (canonical d)) (sys (se_At env (Unlink ''tmp'')) (unlinkat ''snapshot.tmp''))
          (\<lambda>_. settled_on limits uid ns fs0 (canonical d)) (settled_on limits uid ns fs0 (canonical d))"
        by (rule unlink)
          (auto simp: settled_on_def replaces_image_def keeps_image_def images_within_def fs_images_def)
      show "runs (written limits uid ns fs0 (canonical d)) (sys (se_At env (Unlink ''tmp'')) (unlinkat ''snapshot.tmp''))
          (\<lambda>_. written limits uid ns fs0 (canonical d)) (written limits uid ns fs0 (canonical d))"
        by (rule unlink)
          (auto simp: written_def keeps_image_def replaces_image_def images_within_def)
    qed (simp add: written_def settled_on_def)
  qed
  then show ?thesis
    by (rule runs_mono) (use True in \<open>auto simp: written_def\<close>)
next
  case False
  then show ?thesis by (auto simp: runs_def write_store_def raise_def)
qed


subsection \<open>Transactions\<close>

lemma still_openRoot [intro]: "still (openRoot env path)"
  by (auto simp: still_iff openRoot_def split: if_splits answer.splits option.splits)

lemma lock_store_result:
  assumes "lock_store env others False fs = (r, fs')"
  shows "fs' = fs \<or> fs' = others fs"
    and "r = Ret i \<Longrightarrow> fs' = others fs \<and> map_of (fs_Dir fs') ''lock'' = Some i
      \<and> map_of (fs_Dir fs) ''lock'' = Some i \<and> private_file env i fs"
proof -
  let ?open = "wrapped (openFile env ''lock'' ''lock'' RDWR)"
  let ?k = "\<lambda>i fs. (case poll_lock env 0 (se_Start env) of
                    None \<Rightarrow> (Dead, others fs)
                  | Some (Some e, n) \<Rightarrow> (Raise e, others fs)
                  | Some (None, n) \<Rightarrow>
                      thenDo (wrapped (pass (se_At env (Fstat ''locked'')))) (\<lambda>_.
                      thenDo (wrapped (pass (se_At env (Lstat ''locked'')))) (\<lambda>_ fs.
                        (if map_of (fs_Dir fs) ''lock'' \<noteq> Some i \<or> nlink fs i \<noteq> 1
                         then (Raise ErrRepair, fs) else (Ret i, fs)))) (others fs))"
  let ?check = "\<lambda>i fs. (if map_of (fs_Dir fs) ''lock'' \<noteq> Some i \<or> nlink fs i \<noteq> 1
                         then (Raise ErrRepair, fs) else (Ret i, fs))"
  have st: "still ?open" by (intro still_wrapped still_openFile) simp
  have check: "still (thenDo (wrapped (pass (se_At env (Fstat ''locked''))))
      (\<lambda>_. thenDo (wrapped (pass (se_At env (Lstat ''locked'')))) (\<lambda>_. ?check i)))" for i
  proof -
    have "still (?check i)" by (simp add: still_def)
    then show ?thesis by (intro still_then still_wrapped still_simps)
  qed
  have k: "snd (?k i fs1) = others fs1" for i fs1
  proof -
    have "snd (thenDo (wrapped (pass (se_At env (Fstat ''locked''))))
        (\<lambda>_. thenDo (wrapped (pass (se_At env (Lstat ''locked'')))) (\<lambda>_. ?check i)) (others fs1)) = others fs1"
      using check [of i] by (simp add: still_def)
    then show ?thesis by (simp split: option.split)
  qed
  consider (none) "r = Raise ErrInvalid" "fs' = fs" | (ctx) e where "r = Raise e" "fs' = fs"
    | (go) "thenDo ?open ?k fs = (r, fs')"
    using assms by (auto simp: lock_store_def raise_def split: option.splits)
  then have "(fs' = fs \<or> fs' = others fs) \<and> (r = Ret i \<longrightarrow> fs' = others fs \<and> map_of (fs_Dir fs') ''lock'' = Some i
      \<and> map_of (fs_Dir fs) ''lock'' = Some i \<and> private_file env i fs)"
  proof cases
    case go
    then show ?thesis
    proof (cases rule: thenDo_cases)
      case (next_step j fs1)
      have fs1: "fs1 = fs" by (rule still_same [OF st next_step(1)])
      have o1: "openFile env ''lock'' ''lock'' RDWR fs = (Ret j, fs)" using next_step(1) fs1 by simp
      have fs': "fs' = others fs"
        using k [where i = j and ?fs1.0 = fs] by (simp only: next_step(2) [unfolded fs1] snd_conv)
      have "j = i \<and> map_of (fs_Dir (others fs)) ''lock'' = Some i" if r: "r = Ret i"
      proof -
        from next_step(2) r fs1 have "thenDo (wrapped (pass (se_At env (Fstat ''locked''))))
            (\<lambda>_. thenDo (wrapped (pass (se_At env (Lstat ''locked'')))) (\<lambda>_. ?check j)) (others fs) = (Ret i, fs')"
          by (auto split: option.splits prod.splits)
        then show ?thesis by (auto simp: thenDo_ret split: if_splits)
      qed
      with fs' openFile_opened(1,2) [OF o1] show ?thesis by auto
    qed (use still_same [OF st] in auto)
  qed auto
  then show "fs' = fs \<or> fs' = others fs"
    "r = Ret i \<Longrightarrow> fs' = others fs \<and> map_of (fs_Dir fs') ''lock'' = Some i
      \<and> map_of (fs_Dir fs) ''lock'' = Some i \<and> private_file env i fs" by auto
qed

definition outcome_of_result :: "jerr + 'a \<Rightarrow> 'a outcome" where
  "outcome_of_result r = (case r of Inl e \<Rightarrow> Raise e | Inr x \<Rightarrow> Ret x)"

lemma lift_outcome: "lift r fs = (outcome_of_result r, fs)"
  by (simp add: lift_def outcome_of_result_def raise_def ret_def split: sum.split)

text \<open>A changed image keeps its namespace and has a record for a key at most once.\<close>

definition names_kept :: "string \<Rightarrow> (jerr + 'r) \<times> bool \<times> disk \<Rightarrow> bool" where
  "names_kept ns out \<longleftrightarrow>
     (case out of (res, c, d) \<Rightarrow> c \<longrightarrow> dk_Namespace d = ns \<and> distinct (map fst (dk_Records d)))"

text \<open>How a transaction ends, by what its function answered on the image it read.\<close>

lemma transaction_cases:
  assumes ok: "store_ok limits uid ns fs" "store_ok limits uid ns (others fs)" and lim: "st_Limits s = limits"
    and t: "transaction env others s fn fs = (r, fs')"
    and img: "fs_image limits ns (others fs) = Some d"
    and fn: "names_kept ns (fn d)"
  obtains (stopped) "\<And>x. r \<noteq> Ret x" "fs' = fs \<or> fs' = others fs"
    | (answered) res d2 where "fn d = (res, False, d2)" "r = outcome_of_result res" "fs' = others fs"
    | (changed) res d2 where "fn d = (res, True, d2)" "r = outcome_of_result res" "validate limits d2" "image_fits limits d2"
        "settled_on limits uid ns (others fs) (canonical d2) fs'"
    | (failed) res d2 where "fn d = (res, True, d2)" "\<And>x. r \<noteq> Ret x"
        "keeps_image limits uid ns (others fs) fs'
         \<or> replaces_image limits uid ns (others fs) (canonical d2) fs' \<and> validate limits d2 \<and> image_fits limits d2"
proof -
  let ?body = "\<lambda>d. (let (r, changed, d') = fn d in
        if changed then thenDo (write_store env (st_Limits s) d') (\<lambda>_. lift r) else lift r)"
  from t show thesis
    unfolding transaction_def
  proof (cases rule: thenDo_cases)
    case (next_step u1 fs1)
    have fs1: "fs1 = fs" by (rule still_same [OF still_openRoot next_step(1)])
    from next_step(2) show thesis unfolding fs1
    proof (cases rule: thenDo_cases)
      case lock: (next_step i fs2)
      have L: "fs2 = others fs" "map_of (fs_Dir fs) ''lock'' = Some i" "private_file env i fs"
        using lock_store_result(2) [OF lock(1)] by auto
      have uid: "se_Uid env = uid"
      proof -
        from private_owned [OF L(3,2)] obtain n where n: "fs_Node fs i = Some n" "owned (se_Uid env) n" .
        moreover have "has_file fs (fs_Dir fs) ''lock'' (owned uid)" using store_dir_ok [OF ok(1)] by (simp add: dir_ok_def)
        ultimately show ?thesis using L(2) by (simp add: has_file_def owned_def)
      qed
      from lock(2) show thesis unfolding L(1)
      proof (cases rule: thenDo_cases)
        case read: (next_step d1 fs3)
        have fs3: "fs3 = others fs" by (rule still_same [OF still_read_store read(1)])
        have d1: "d1 = d" using read_store_image(1) [OF ok(2), unfolded lim [symmetric], OF read(1)] img lim by simp
        from read(2) show thesis unfolding fs3 d1
        proof (cases rule: thenDo_cases)
          case ctx: (next_step u2 fs4)
          have fs4: "fs4 = others fs" using ctx(1) by simp
          obtain res c d2 where f: "fn d = (res, c, d2)" by (cases "fn d") auto
          show thesis
          proof (cases c)
            case False
            then show thesis using ctx(2) f fs4 by (intro answered [of res d2]) (simp_all add: lift_outcome)
          next
            case True
            then have body: "thenDo (write_store env limits d2) (\<lambda>_. lift res) (others fs) = (r, fs')"
              using ctx(2) f fs4 lim by simp
            have small: "small_limits limits" using ok(1) by (simp add: store_ok_def)
            have f': "fn d = (res, True, d2)" using f True by simp
            have names: "dk_Namespace d2 = ns" "distinct (map fst (dk_Records d2))"
              using fn by (simp_all add: f' names_kept_def)
            note w = write_runs [OF uid names small, where ?fs0.0 = "others fs"]
            have k: "keeps_image limits uid ns (others fs) (others fs)" by (rule keeps_image_refl [OF ok(2)])
            from body show thesis
            proof (cases rule: thenDo_cases)
              case (next_step u3 fs5)
              from runs_ret [OF w k next_step(1)] next_step(2) show thesis
                using f True by (intro changed [of res d2]) (simp_all add: lift_outcome)
            next
              case (raised e)
              from runs_raise [OF w k raised(1)] raised(2) show thesis
                using f True by (intro failed [of res d2]) simp_all
            next
              case died
              from runs_dead [OF w k died(1)] died(2) show thesis
                using f True by (intro failed [of res d2]) simp_all
            qed
          qed
        next
          case (raised e)
          then show thesis using still_same [OF still_simps(3) raised(1)] by (intro stopped) simp_all
        next
          case died
          then show thesis using still_same [OF still_simps(3) died(1)] by (intro stopped) simp_all
        qed
      next
        case (raised e)
        then show thesis using still_same [OF still_read_store raised(1)] by (intro stopped) simp_all
      next
        case died
        then show thesis using still_same [OF still_read_store died(1)] by (intro stopped) simp_all
      qed
    next
      case (raised e)
      then show thesis using lock_store_result(1) [OF raised(1)] by (intro stopped) simp_all
    next
      case died
      then show thesis using lock_store_result(1) [OF died(1)] by (intro stopped) simp_all
    qed
  next
    case (raised e)
    then show thesis using still_same [OF still_openRoot raised(1)] by (intro stopped) simp_all
  next
    case died
    then show thesis using still_same [OF still_openRoot died(1)] by (intro stopped) simp_all
  qed
qed

subsection \<open>Operations of a store against the journal's\<close>

lemma op_names_admit:
  assumes "journal_ok limits d" and "admit_fn sha x tok a d = (res, True, d2)"
  shows "dk_Namespace d2 = dk_Namespace d \<and> distinct (map fst (dk_Records d2))"
  using admit_distinct [of d sha x tok a] keeps_admit [OF assms(2)] assms
  by (simp add: journal_ok_def keeps_records_def)

lemma op_names_finalize:
  assumes "journal_ok limits d" and "finalize_fn sha k attempt status reason backend nav d = (res, True, d2)"
  shows "dk_Namespace d2 = dk_Namespace d \<and> distinct (map fst (dk_Records d2))"
  using assms by (auto simp: finalize_fn_def Let_def journal_ok_def distinct_update split: option.splits if_splits)

lemma op_names_collect:
  assumes "journal_ok limits d" and "collect_fn x d = (res, True, d2)"
  shows "dk_Namespace d2 = dk_Namespace d \<and> distinct (map fst (dk_Records d2))"
  using assms keeps_collect [OF assms(2)]
  by (auto simp: collect_fn_def journal_ok_def keeps_records_def split: sum.splits if_splits)

text \<open>
  How an operation of the store ends: stopped before it read, or with the outcome the journal's
  transaction has on the image it read, or by a fault that left the old image or the new one.
\<close>

lemma commit_shapes:
  assumes "commit limits (image_fits limits) (res, c, d2) d = (jres, j2)"
  shows "\<not> c \<Longrightarrow> jres = res \<and> j2 = d"
    and "c \<Longrightarrow> validate limits d2 \<Longrightarrow> image_fits limits d2 \<Longrightarrow> jres = res \<and> j2 = d2"
  using assms by (auto simp: commit_def)

lemma transaction_commits:
  assumes ok: "store_ok limits uid ns fs" "store_ok limits uid ns (others fs)" and lim: "st_Limits s = limits"
    and t: "transaction env others s fn fs = (r, fs')" and img: "fs_image limits ns (others fs) = Some d"
    and fn: "names_kept ns (fn d)"
    and j: "commit limits (image_fits limits) (fn d) d = (jres, d')"
  obtains (stopped) "\<And>x. r \<noteq> Ret x" "fs' = fs \<or> fs' = others fs"
    | (same) "r = outcome_of_result jres" "fs' = others fs" "d' = d"
    | (replaced) "r = outcome_of_result jres" "settled_on limits uid ns (others fs) (canonical d') fs'"
    | (faulted) "\<And>x. r \<noteq> Ret x"
        "keeps_image limits uid ns (others fs) fs' \<or> replaces_image limits uid ns (others fs) (canonical d') fs'"
proof (cases rule: transaction_cases [where others = others and fs = fs and fn = fn and d = d, OF ok lim t img fn])
  case 1
  then show thesis by (rule that(1))
next
  case (2 res d2)
  then show thesis using commit_shapes(1) [OF j [unfolded 2(1)]] by (intro that(2)) auto
next
  case (3 res d2)
  then show thesis using commit_shapes(2) [OF j [unfolded 3(1)]] by (intro that(3)) auto
next
  case (4 res d2)
  then show thesis using commit_shapes(2) [OF j [unfolded 4(1)]] by (intro that(4)) auto
qed

lemma store_op_commits:
  assumes ok: "store_ok limits uid ns fs" "store_ok limits uid ns (others fs)" and lim: "st_Limits s = limits"
    and t: "store_op sha env others s op fs = (r, fs')" and img: "fs_image limits ns (others fs) = Some d"
    and j: "japply sha limits (image_fits limits) op d = (jres, d')"
  obtains (stopped) "\<And>x. r \<noteq> Ret x" "fs' = fs \<or> fs' = others fs"
    | (same) "r = outcome_of_result jres" "fs' = others fs" "d' = d"
    | (replaced) "r = outcome_of_result jres" "settled_on limits uid ns (others fs) (canonical d') fs'"
    | (faulted) "\<And>x. r \<noteq> Ret x"
        "keeps_image limits uid ns (others fs) fs' \<or> replaces_image limits uid ns (others fs) (canonical d') fs'"
proof -
  note outs = stopped same replaced faulted
  have trans: thesis
    if "transaction env others s fn fs = (r, fs')" "commit limits (image_fits limits) (fn d) d = (jres, d')"
      "names_kept ns (fn d)" for fn
  proof (cases rule: transaction_commits [where others = others and fs = fs and fn = fn and d = d, OF ok lim that(1) img that(3,2)])
    case 1
    then show thesis by (rule outs(1))
  next
    case 2
    then show thesis by (rule outs(2))
  next
    case 3
    then show thesis by (rule outs(3))
  next
    case 4
    then show thesis by (rule outs(4))
  qed
  have refused: thesis if "raise ErrInvalid fs = (r, fs')"
    using that by (intro outs(1)) (auto simp: raise_def)
  note d = fs_image_ok [OF img]
  show thesis
  proof (cases op)
    case (JLookup k digest)
    show thesis
    proof (cases "valid_key k")
      case True
      with JLookup t j show thesis by (intro trans [of "\<lambda>d. (lookup sha d k digest, False, d)"]) (simp_all add: names_kept_def)
    qed (use refused t JLookup in simp)
  next
    case (JAdmit x tok a)
    show thesis
    proof (cases "valid_key (ad_Key a)")
      case True
      with JAdmit t j d op_names_admit [of limits d] show thesis by (intro trans [of "admit_fn sha x tok a"]) (auto simp: names_kept_def)
    qed (use refused t JAdmit in simp)
  next
    case (JFinalize k attempt status reason backend nav)
    show thesis
    proof (cases "outcome_args_ok k attempt status reason backend nav")
      case True
      with JFinalize t j d op_names_finalize [of limits d] show thesis
        by (intro trans [of "finalize_fn sha k attempt status reason backend nav"]) (auto simp: names_kept_def)
    qed (use refused t JFinalize in simp)
  next
    case (JCollect x)
    with t j d op_names_collect [of limits d] show thesis by (intro trans [of "collect_fn x"]) (auto simp: names_kept_def)
  qed
qed

end
