(* ===== verification/StoreNotify.thy ===== *)
theory StoreNotify
  imports NotifyJournal JournalStoreFacts
begin

text \<open>
  The store's directory as an admission port: other processes use the store before a call and while
  it waits for the lock, processes die and the machine crashes in between, and any system call may
  fail. The store obeys the contract of \<^verbatim>\<open>NotifyJournal\<close> all the same.
\<close>

subsection \<open>Events of a store\<close>

datatype store_event = StoreOp store_env jop | MachineCrash nat "nat \<Rightarrow> string"

fun store_step :: "(string \<Rightarrow> string) \<Rightarrow> store \<Rightarrow> store_event \<Rightarrow> fsys \<Rightarrow> fsys" where
  "store_step sha s (StoreOp env op) fs = snd (store_op sha env (\<lambda>fs. fs) s op fs)"
| "store_step sha s (MachineCrash n junk) fs = crash n junk fs"

definition store_run :: "(string \<Rightarrow> string) \<Rightarrow> store \<Rightarrow> store_event list \<Rightarrow> fsys \<Rightarrow> fsys" where
  "store_run sha s es fs = fold (store_step sha s) es fs"

text \<open>What happened before a call, what others do while it waits for the lock, and its own environment.\<close>

record call_env_store =
  sc_Before :: "store_event list"
  sc_Waiting :: "(store_env \<times> jop) list"
  sc_Env :: store_env

definition store_call ::
    "(string \<Rightarrow> string) \<Rightarrow> store \<Rightarrow> call_env_store \<Rightarrow> jop \<Rightarrow> fsys \<Rightarrow> (jerr + result option) \<times> fsys" where
  "store_call sha s e op fs =
     (let fs0 = store_run sha s (sc_Before e) fs;
          others = store_run sha s (map (\<lambda>(env, op). StoreOp env op) (sc_Waiting e))
      in case store_op sha (sc_Env e) others s op fs0 of
           (Ret x, fs') \<Rightarrow> (Inr x, fs')
         | (Raise err, fs') \<Rightarrow> (Inl err, fs')
         | (Dead, fs') \<Rightarrow> (Inl (StorageErr ''killed''), fs'))"

definition store_port :: "(string \<Rightarrow> string) \<Rightarrow> store \<Rightarrow> (call_env_store, fsys) admission_port" where
  "store_port sha s =
     \<lparr>ap_Lookup = (\<lambda>e k g. store_call sha s e (JLookup k g)),
      ap_Admit = (\<lambda>e a. store_call sha s e (JAdmit (se_Sample (sc_Env e)) (se_Token (sc_Env e)) a)),
      ap_FinalizeOutcome = (\<lambda>e k attempt status why backend nav.
        store_call sha s e (JFinalize k attempt status why backend nav))\<rparr>"

subsection \<open>Images move forward\<close>

definition later_image :: "disk option \<Rightarrow> disk option \<Rightarrow> bool" where
  "later_image x y = (case (x, y) of (Some d, Some e) \<Rightarrow> keeps_records d e | _ \<Rightarrow> False)"

text \<open>Whatever image a crash may leave later has kept the records of one it may leave now.\<close>

definition store_later :: "Limits \<Rightarrow> string \<Rightarrow> fsys \<Rightarrow> fsys \<Rightarrow> bool" where
  "store_later limits ns fs fs' \<longleftrightarrow>
     (\<forall>y \<in> set (fs_images limits ns fs'). \<exists>x \<in> set (fs_images limits ns fs). later_image x y)"

lemma store_images:
  assumes "store_ok limits uid ns fs" and "x \<in> set (fs_images limits ns fs)"
  obtains d where "x = Some d" "journal_ok limits d"
proof -
  from assms obtain dir where dir: "dir \<in> set (fs_Dir fs # fs_Lost fs)" "x = image_in limits ns fs dir"
    by (auto simp: fs_images_def)
  with assms(1) obtain d where "x = Some d" by (auto simp: store_ok_def dir_ok_def list_all_iff)
  then show thesis using dir that image_in_ok by metis
qed

lemma fs_image_in: "fs_image limits ns fs \<in> set (fs_images limits ns fs)"
  by (simp add: fs_image_def fs_images_def)

lemma store_has_image:
  assumes "store_ok limits uid ns fs"
  obtains d where "fs_image limits ns fs = Some d" "journal_ok limits d"
  using store_images [OF assms fs_image_in] .

lemma store_later_refl: "store_ok limits uid ns fs \<Longrightarrow> store_later limits ns fs fs"
  unfolding store_later_def later_image_def by (force elim: store_images intro: keeps_refl)

lemma store_later_trans:
  assumes ok: "store_ok limits uid ns fs" and 1: "store_later limits ns fs fs1" and 2: "store_later limits ns fs1 fs2"
  shows "store_later limits ns fs fs2"
  unfolding store_later_def
proof
  fix z
  assume "z \<in> set (fs_images limits ns fs2)"
  with 2 obtain y where y: "y \<in> set (fs_images limits ns fs1)" "later_image y z" by (auto simp: store_later_def)
  with 1 obtain x where x: "x \<in> set (fs_images limits ns fs)" "later_image x y" by (auto simp: store_later_def)
  from store_images [OF ok x(1)] obtain d where d: "x = Some d" "journal_ok limits d" .
  with x(2) obtain e where e: "y = Some e" "keeps_records d e" by (cases y) (auto simp: later_image_def)
  with y(2) obtain f where f: "z = Some f" "keeps_records e f" by (cases z) (auto simp: later_image_def)
  have "later_image x z" using keeps_trans [OF e(2) f(2) d(2)] by (simp add: later_image_def d f)
  then show "\<exists>x \<in> set (fs_images limits ns fs). later_image x z" using x(1) by blast
qed

lemma keeps_later:
  assumes "store_ok limits uid ns fs" and "keeps_image limits uid ns fs fs'"
  shows "store_later limits ns fs fs'"
  using assms store_later_refl [OF assms(1)] by (auto simp: store_later_def keeps_image_def images_within_def)

lemma map_of_sorted:
  assumes "distinct (map fst xs)"
  shows "map_of (sort_key fst xs) = map_of xs"
proof
  fix k
  have "distinct (map fst (sort_key fst xs))" using assms by (simp add: distinct_map)
  then have "map_of (sort_key fst xs) k = Some v \<longleftrightarrow> map_of xs k = Some v" for v
    using assms by (simp add: map_of_eq_Some_iff)
  then show "map_of (sort_key fst xs) k = map_of xs k" by (metis not_None_eq)
qed

lemma canonical_simps [simp]:
  "dk_Namespace (canonical d) = dk_Namespace d" "dk_Limits (canonical d) = dk_Limits d" "dk_Clock (canonical d) = dk_Clock d"
  by (simp_all add: canonical_def)

lemma canonical_records: "journal_ok limits d \<Longrightarrow> map_of (dk_Records (canonical d)) = map_of (dk_Records d)"
  by (simp add: canonical_def journal_ok_def map_of_sorted)

lemma keeps_canonical [simp]:
  assumes "journal_ok limits d"
  shows "keeps_records (canonical d) e = keeps_records d e" and "keeps_records e (canonical d) = keeps_records e d"
  by (simp_all add: keeps_records_def canonical_records [OF assms])

lemma replaces_later:
  assumes "store_ok limits uid ns fs" and "fs_image limits ns fs = Some d" and "journal_ok limits d2" "keeps_records d d2"
    and "replaces_image limits uid ns fs (canonical d2) fs'"
  shows "store_later limits ns fs fs'"
  unfolding store_later_def
proof
  fix y
  assume "y \<in> set (fs_images limits ns fs')"
  with assms(5) consider "y = Some (canonical d2)" | "y \<in> set (fs_images limits ns fs)" by (auto simp: replaces_image_def)
  then show "\<exists>x \<in> set (fs_images limits ns fs). later_image x y"
  proof cases
    case 1
    have "later_image (Some d) y" using assms(4) keeps_canonical(2) [OF assms(3)] by (simp add: 1 later_image_def)
    then show ?thesis using assms(2) fs_image_in by metis
  next
    case 2
    then show ?thesis using store_later_refl [OF assms(1)] by (simp add: store_later_def)
  qed
qed

subsection \<open>A crash of the machine\<close>

lemma crash_simps:
  "fs_Dir (crash n junk fs) = (fs_Dir fs # fs_Lost fs) ! (n mod length (fs_Dir fs # fs_Lost fs))"
  "fs_Lost (crash n junk fs) = []"
  "fs_Next (crash n junk fs) = fs_Next fs"
  "fs_Node (crash n junk fs) i =
     map_option (\<lambda>nd. if nd_Synced nd then nd else nd\<lparr>nd_Data := junk i, nd_Synced := True\<rparr>) (fs_Node fs i)"
  by (simp_all add: crash_def Let_def)

lemma crash_dir: "fs_Dir (crash n junk fs) \<in> set (fs_Dir fs # fs_Lost fs)"
  unfolding crash_simps by (rule nth_mem) simp

lemma has_file_crash:
  assumes "has_file fs dir name P"
    and "\<And>nd i. P nd \<Longrightarrow> Q (if nd_Synced nd then nd else nd\<lparr>nd_Data := junk i, nd_Synced := True\<rparr>)"
  shows "has_file (crash n junk fs) dir name Q"
  using assms(1)
proof (rule has_fileE)
  fix i nd
  assume "map_of dir name = Some i" "fs_Node fs i = Some nd" "P nd"
  with assms(2) [of nd i] show ?thesis by (simp add: has_file_def crash_simps)
qed

lemma crash_dir_ok:
  assumes "dir_ok limits uid ns fs dir"
  shows "dir_ok limits uid ns (crash n junk fs) dir \<and> image_in limits ns (crash n junk fs) dir = image_in limits ns fs dir"
proof -
  have f: "has_file fs dir ''lock'' (owned uid)"
    "has_file fs dir ''namespace'' (\<lambda>n. owned uid n \<and> nd_Synced n \<and> nd_Data n = ns @ [CHR 0x0A])"
    "has_file fs dir ''journal.json'' (\<lambda>n. owned uid n \<and> nd_Synced n \<and> int (length (nd_Data n)) \<le> lm_Bytes limits)"
    using assms by (simp_all add: dir_ok_def)
  have "image_in limits ns (crash n junk fs) dir = image_in limits ns fs dir"
    using f(3) by (rule has_fileE) (simp add: image_in_def crash_simps)
  moreover have "has_file (crash n junk fs) dir ''lock'' (owned uid)"
    by (rule has_file_crash [OF f(1)]) (simp add: owned_def)
  moreover have "has_file (crash n junk fs) dir ''namespace'' (\<lambda>n. owned uid n \<and> nd_Synced n \<and> nd_Data n = ns @ [CHR 0x0A])"
    by (rule has_file_crash [OF f(2)]) simp
  moreover have "has_file (crash n junk fs) dir ''journal.json''
      (\<lambda>n. owned uid n \<and> nd_Synced n \<and> int (length (nd_Data n)) \<le> lm_Bytes limits)"
    by (rule has_file_crash [OF f(3)]) simp
  ultimately show ?thesis
    using assms by (auto simp: dir_ok_def crash_simps list_all_iff)
qed

lemma crash_later:
  assumes "store_ok limits uid ns fs"
  shows "store_ok limits uid ns (crash n junk fs)" and "store_later limits ns fs (crash n junk fs)"
proof -
  let ?fs = "crash n junk fs"
  have "dir_ok limits uid ns fs (fs_Dir ?fs)"
    using assms crash_dir [of n junk fs] by (auto simp: store_ok_def list_all_iff)
  from crash_dir_ok [OF this, of n junk] have c: "dir_ok limits uid ns ?fs (fs_Dir ?fs)"
    "image_in limits ns ?fs (fs_Dir ?fs) = image_in limits ns fs (fs_Dir ?fs)" by simp_all
  then show "store_ok limits uid ns ?fs" using assms by (simp add: store_ok_def crash_simps(2))
  have "fs_images limits ns ?fs = [image_in limits ns fs (fs_Dir ?fs)]"
    by (simp only: fs_images_def crash_simps(2) list.map c(2))
  moreover have "image_in limits ns fs (fs_Dir ?fs) \<in> set (fs_images limits ns fs)"
    unfolding fs_images_def set_map by (rule imageI [OF crash_dir])
  ultimately have "set (fs_images limits ns ?fs) \<subseteq> set (fs_images limits ns fs)" by simp
  then show "store_later limits ns fs ?fs"
    using store_later_refl [OF assms] by (auto simp: store_later_def)
qed

subsection \<open>Operations move forward\<close>

lemma store_op_later:
  assumes ok: "store_ok limits uid ns fs" "store_ok limits uid ns (others fs)" "store_later limits ns fs (others fs)"
    and lim: "st_Limits s = limits" and t: "store_op sha env others s op fs = (r, fs')"
  shows "store_ok limits uid ns fs' \<and> store_later limits ns fs fs'"
proof -
  from store_has_image [OF ok(2)] obtain d where d: "fs_image limits ns (others fs) = Some d" "journal_ok limits d" .
  obtain jres d' where j: "japply sha limits (image_fits limits) op d = (jres, d')" by fastforce
  have d': "journal_ok limits d'" "keeps_records d d'"
    using japply_keeps [OF d(2), of sha "image_fits limits" op] japply_keeps_records [of d sha limits "image_fits limits" op] j
    by simp_all
  have rep: "store_ok limits uid ns fs' \<and> store_later limits ns fs fs'"
    if "replaces_image limits uid ns (others fs) (canonical d') fs'"
    using store_later_trans [OF ok(1,3) replaces_later [OF ok(2) d(1) d' that]] that by (simp add: replaces_image_def)
  have keep: "store_ok limits uid ns fs' \<and> store_later limits ns fs fs'"
    if "keeps_image limits uid ns (others fs) fs'"
    using store_later_trans [OF ok(1,3) keeps_later [OF ok(2) that]] that by (simp add: keeps_image_def)
  show ?thesis
  proof (cases rule: store_op_commits [where others = others and fs = fs and d = d, OF ok(1,2) lim t d(1) j])
    case 1
    then show ?thesis using ok store_later_refl [OF ok(1)] by auto
  next
    case 2
    then show ?thesis using ok by simp
  next
    case 3
    then show ?thesis using rep by (simp add: settled_on_def)
  next
    case 4
    then show ?thesis using rep keep by blast
  qed
qed

lemma store_step_later:
  assumes "store_ok limits uid ns fs" and "st_Limits s = limits"
  shows "store_ok limits uid ns (store_step sha s e fs) \<and> store_later limits ns fs (store_step sha s e fs)"
proof (cases e)
  case (StoreOp env op)
  obtain r fs' where t: "store_op sha env (\<lambda>fs. fs) s op fs = (r, fs')" by fastforce
  from store_op_later [OF assms(1) assms(1) store_later_refl [OF assms(1)] assms(2) t] t show ?thesis
    by (simp add: StoreOp)
next
  case (MachineCrash n junk)
  then show ?thesis using crash_later [OF assms(1)] by simp
qed

lemma store_run_later:
  assumes "store_ok limits uid ns fs" and "st_Limits s = limits"
  shows "store_ok limits uid ns (store_run sha s es fs) \<and> store_later limits ns fs (store_run sha s es fs)"
  using assms(1)
proof (induction es arbitrary: fs)
  case Nil
  then show ?case using store_later_refl by (simp add: store_run_def)
next
  case (Cons e es)
  let ?fs = "store_step sha s e fs"
  from store_step_later [OF Cons.prems assms(2), of sha e] have s1: "store_ok limits uid ns ?fs" "store_later limits ns fs ?fs"
    by simp_all
  from Cons.IH [OF s1(1)] store_later_trans [OF Cons.prems s1(2)] show ?case by (auto simp: store_run_def)
qed

text \<open>A call: the state its lock was granted in, and how it went from there.\<close>

lemma store_call_cases:
  assumes ok: "store_ok limits uid ns fs" and lim: "st_Limits s = limits"
    and t: "store_call sha s e op fs = (res, fs')"
  obtains fs1 d jres d' where "store_ok limits uid ns fs1" "store_later limits ns fs fs1"
    "fs_image limits ns fs1 = Some d" "journal_ok limits d" "japply sha limits (image_fits limits) op d = (jres, d')"
    "\<And>x. res = Inr x \<Longrightarrow> jres = Inr x \<and> (fs' = fs1 \<and> d' = d \<or> settled_on limits uid ns fs1 (canonical d') fs')"
    "store_ok limits uid ns fs'" "store_later limits ns fs fs'"
proof -
  let ?fs0 = "store_run sha s (sc_Before e) fs"
  let ?others = "store_run sha s (map (\<lambda>(env, op). StoreOp env op) (sc_Waiting e))"
  from store_run_later [OF ok lim] have 0: "store_ok limits uid ns ?fs0" "store_later limits ns fs ?fs0" by simp_all
  from store_run_later [OF 0(1) lim] have 1: "store_ok limits uid ns (?others ?fs0)" "store_later limits ns ?fs0 (?others ?fs0)"
    by simp_all
  from store_has_image [OF 1(1)] obtain d where d: "fs_image limits ns (?others ?fs0) = Some d" "journal_ok limits d" .
  obtain jres d' where j: "japply sha limits (image_fits limits) op d = (jres, d')" by fastforce
  obtain r where op: "store_op sha (sc_Env e) ?others s op ?fs0 = (r, fs')"
    and res: "res = (case r of Ret x \<Rightarrow> Inr x | Raise err \<Rightarrow> Inl err | Dead \<Rightarrow> Inl (StorageErr ''killed''))"
    using t by (auto simp: store_call_def Let_def split: prod.splits outcome.splits)
  from store_op_later [where others = ?others, OF 0(1) 1 lim op]
  have end_ok: "store_ok limits uid ns fs'" "store_later limits ns fs fs'"
    using store_later_trans [OF ok 0(2)] by auto
  have shape: "jres = Inr x \<and> (fs' = ?others ?fs0 \<and> d' = d \<or> settled_on limits uid ns (?others ?fs0) (canonical d') fs')"
    if "res = Inr x" for x
  proof -
    have r: "r = Ret x" using that res by (cases r) auto
    show ?thesis
      by (cases rule: store_op_commits [where others = ?others and fs = ?fs0 and d = d, OF 0(1) 1(1) lim op d(1) j])
        (auto simp: r outcome_of_result_def split: sum.splits)
  qed
  show thesis
    by (rule that [OF 1(1) store_later_trans [OF ok 0(2) 1(2)] d j shape end_ok])
qed

subsection \<open>The contract\<close>

definition store_retained :: "Limits \<Rightarrow> string \<Rightarrow> fsys \<Rightarrow> jrecord \<Rightarrow> bool" where
  "store_retained limits ns fs r =
     (case fs_image limits ns fs of None \<Rightarrow> False | Some d \<Rightarrow> retained_at limits d r)"

text \<open>A call that succeeds: the journal's operation ran on the image its lock found.\<close>

lemma store_call_success:
  assumes ok: "store_ok limits uid ns fs" and lim: "st_Limits s = limits"
    and t: "store_call sha s e op fs = (Inr x, fs')"
  obtains (ran) fs1 d d' where "store_ok limits uid ns fs1" "store_later limits ns fs fs1"
    "fs_image limits ns fs1 = Some d" "journal_ok limits d" "japply sha limits (image_fits limits) op d = (Inr x, d')"
    "fs' = fs1 \<and> d' = d \<or> settled_on limits uid ns fs1 (canonical d') fs'" "journal_ok limits d'"
    "store_ok limits uid ns fs'" "store_retained limits ns fs' r \<Longrightarrow> retained_at limits d' r"
  using ok lim t
proof (cases rule: store_call_cases)
  case (1 fs1 d jres d')
  have j: "japply sha limits (image_fits limits) op d = (Inr x, d')"
    and fs: "fs' = fs1 \<and> d' = d \<or> settled_on limits uid ns fs1 (canonical d') fs'"
    using 1(5) 1(6) [OF refl] by simp_all
  have ok': "journal_ok limits d'" using japply_keeps [OF 1(4), of sha "image_fits limits" op] by (simp add: j)
  have "fs_image limits ns fs' = Some d' \<or> fs_image limits ns fs' = Some (canonical d')"
    using fs 1(3) fs_image_in [of limits ns fs'] by (auto simp: settled_on_def)
  then have "store_retained limits ns fs' r \<Longrightarrow> retained_at limits d' r"
    by (auto simp: store_retained_def retained_at_def)
  with 1(1-4) j fs ok' 1(7) show thesis by (rule ran)
qed

text \<open>After a fresh admission every image a crash may leave holds the record.\<close>

lemma fresh_settled:
  assumes ok: "store_ok limits uid ns fs" and lim: "st_Limits s = limits"
    and t: "store_call sha s e (JAdmit x tok a) fs = (Inr (Some r), fs')" and fresh: "rs_Fresh r"
  obtains (settled) d d' where "journal_ok limits d'" "japply sha limits (image_fits limits) (JAdmit x tok a) d = (Inr (Some r), d')"
    "map_of (dk_Records d') (scoped sha (dk_Namespace d') (ad_Key a)) = Some (rs_Record r)"
    "store_ok limits uid ns fs'" "set (fs_images limits ns fs') = {Some (canonical d')}"
  using ok lim t
proof (cases rule: store_call_success [where r = "rs_Record r"])
  case (ran fs1 d d')
  note st = fresh_stored(1,2) [OF ran(5) fresh]
  from fresh_admission [OF ran(5) fresh] have "map_of (dk_Records d) (scoped sha (dk_Namespace d) (ad_Key a)) = None" .
  then have "d' \<noteq> d" using st by auto
  with ran(6) have "set (fs_images limits ns fs') = {Some (canonical d')}" by (simp add: settled_on_def)
  with ran(7,5) show thesis using st ran(8) by (intro settled) simp_all
qed

text \<open>What is settled in all images stays in whatever image is there later.\<close>

lemma settled_later:
  assumes "set (fs_images limits ns fs) = {Some (canonical d)}" and "journal_ok limits d"
    and "store_later limits ns fs fs1" and "fs_image limits ns fs1 = Some e"
  shows "keeps_records d e"
proof -
  have "Some e \<in> set (fs_images limits ns fs1)" using assms(4) fs_image_in by metis
  with assms(1,3) have "later_image (Some (canonical d)) (Some e)" by (auto simp: store_later_def)
  then show ?thesis using keeps_canonical(1) [OF assms(2)] by (simp add: later_image_def)
qed

lemma finalize_changes:
  assumes "japply sha limits fits (JFinalize k attempt status why backend nav) d = (Inr x, d')"
  shows "d' \<noteq> d"
  using assms
proof (cases rule: finalize_success)
  case (1 r)
  have "jc_State (settled_record status why backend nav r) \<noteq> ''dispatching''"
    using terminal_not_dispatching [OF 1(4)] by (simp add: settled_record_def)
  then have "settled_record status why backend nav r \<noteq> r" using 1(3) by metis
  with 1(1,6) show ?thesis by auto
qed

lemma store_settled_stays:
  assumes ok: "store_ok limits uid ns st" and lim: "st_Limits s = limits"
    and adm: "store_call sha s e (JAdmit x tok a) st = (Inr (Some r), st1)" and fresh: "rs_Fresh r"
    and fin: "store_call sha s e' (JFinalize (ad_Key a) (jc_Attempt (rs_Record r)) status why backend (Some nav)) st1 = (Inr y, st2)"
    and later: "store_later limits ns st2 st3" and ok3: "store_ok limits uid ns st3"
    and look: "store_call sha s e'' (JLookup (ad_Key a) g) st3 = (Inr (Some r'), st4)"
    and retained: "store_retained limits ns st4 (rs_Record r)"
  shows "jc_Receipt (rs_Record r') = settles (jc_Receipt (rs_Record r)) status why backend nav"
  using ok lim adm fresh
proof (cases rule: fresh_settled)
  case A: (settled d0 d1)
  from A(4) lim fin show ?thesis
  proof (cases rule: store_call_success [where r = "rs_Record r"])
    case F: (ran f1 e1 e2)
    have set2: "set (fs_images limits ns st2) = {Some (canonical e2)}"
      using F(6) finalize_changes [OF F(5)] by (auto simp: settled_on_def)
    from ok3 lim look show ?thesis
    proof (cases rule: store_call_success [where r = "rs_Record r"])
      case L: (ran f3 d3 d4)
      have k1: "keeps_records d1 e1" by (rule settled_later [OF A(5,1) F(2,3)])
      have k3: "keeps_records e2 d3"
        by (rule settled_later [OF set2 F(7) store_later_trans [OF F(8) later L(2)] L(3)])
      show ?thesis by (rule settled_outcome [OF A(1,3) k1 F(4,5) k3 L(5) L(9) [OF retained]])
    qed
  qed
qed

lemma store_fresh_apart:
  assumes ok: "store_ok limits uid ns st" and lim: "st_Limits s = limits"
    and adm: "store_call sha s e (JAdmit x tok a) st = (Inr (Some r), st1)" and fresh: "rs_Fresh r"
    and later: "store_later limits ns st1 st2" and ok2: "store_ok limits uid ns st2"
    and adm': "store_call sha s e' (JAdmit x' tok' a') st2 = (Inr (Some r'), st3)" and fresh': "rs_Fresh r'"
    and key: "ad_Key a' = ad_Key a"
  shows "retention_apart limits (rs_Record r) (rs_Record r')"
  using ok lim adm fresh
proof (cases rule: fresh_settled)
  case A: (settled d0 d1)
  from ok2 lim adm' show ?thesis
  proof (cases rule: store_call_success [where r = "rs_Record r"])
    case F: (ran f2 d2 d3)
    have "keeps_records d1 d2" by (rule settled_later [OF A(5,1) store_later_trans [OF A(4) later F(2)] F(3)])
    from fresh_apart [OF A(1) A(3) [folded key] this F(5) fresh'] show ?thesis by (simp add: retention_apart_def)
  qed
qed

lemma store_digest_stays:
  assumes ok: "store_ok limits uid ns st" and lim: "st_Limits s = limits"
    and adm: "store_call sha s e (JAdmit x tok a) st = (Inr (Some r), st1)" and fresh: "rs_Fresh r"
    and later: "store_later limits ns st1 st2" and ok2: "store_ok limits uid ns st2"
    and look: "store_call sha s e' (JLookup (ad_Key a) g) st2 = (Inr (Some r'), st3)"
    and retained: "store_retained limits ns st3 (rs_Record r)"
  shows "g = ad_Digest a"
  using ok lim adm fresh
proof (cases rule: fresh_settled)
  case A: (settled d0 d1)
  from ok2 lim look show ?thesis
  proof (cases rule: store_call_success [where r = "rs_Record r"])
    case L: (ran f2 d2 d3)
    have k: "keeps_records d1 d2" by (rule settled_later [OF A(5,1) store_later_trans [OF A(4) later L(2)] L(3)])
    from looked_digest [OF A(1,3) k L(5) L(9) [OF retained]] fresh_digest [OF A(2) fresh] show ?thesis
      by (simp add: hexEncode_inject)
  qed
qed

lemma store_call_later:
  assumes "store_ok (st_Limits s) uid ns st" and "store_call sha s e op st = (res, st')"
  shows "store_ok (st_Limits s) uid ns st' \<and> store_later (st_Limits s) ns st st'"
  using assms(1) refl assms(2) by (cases rule: store_call_cases) simp

interpretation store_admission:
  admission_contract "store_port sha s" "store_ok (st_Limits s) uid ns" "store_later (st_Limits s) ns"
    "retention_apart (st_Limits s)" "store_retained (st_Limits s) ns" for sha s uid ns
proof
  show "store_later (st_Limits s) ns st st" if "store_ok (st_Limits s) uid ns st" for st
    by (rule store_later_refl [OF that])
  show "store_later (st_Limits s) ns st st2"
    if "store_ok (st_Limits s) uid ns st" "store_later (st_Limits s) ns st st1" "store_later (st_Limits s) ns st1 st2"
    for st st1 st2
    by (rule store_later_trans [OF that])
  show "store_ok (st_Limits s) uid ns st' \<and> store_later (st_Limits s) ns st st'"
    if "store_ok (st_Limits s) uid ns st" "ap_Lookup (store_port sha s) e k g st = (res, st')" for st e k g res st'
    by (rule store_call_later [OF that(1)]) (use that(2) in \<open>simp add: store_port_def\<close>)
  show "store_ok (st_Limits s) uid ns st' \<and> store_later (st_Limits s) ns st st'"
    if "store_ok (st_Limits s) uid ns st" "ap_Admit (store_port sha s) e a st = (res, st')" for st e a res st'
    by (rule store_call_later [OF that(1)]) (use that(2) in \<open>simp add: store_port_def\<close>)
  show "store_ok (st_Limits s) uid ns st' \<and> store_later (st_Limits s) ns st st'"
    if "store_ok (st_Limits s) uid ns st"
      "ap_FinalizeOutcome (store_port sha s) e k attempt status why backend onav st = (res, st')"
    for st e k attempt status why backend onav res st'
    by (rule store_call_later [OF that(1)]) (use that(2) in \<open>simp add: store_port_def\<close>)
  show "retention_apart (st_Limits s) (rs_Record r) (rs_Record r')"
    if "store_ok (st_Limits s) uid ns st" "ap_Admit (store_port sha s) e a st = (Inr (Some r), st1)" "rs_Fresh r"
      "store_later (st_Limits s) ns st1 st2" "store_ok (st_Limits s) uid ns st2"
      "ap_Admit (store_port sha s) e' a' st2 = (Inr (Some r'), st3)" "rs_Fresh r'" "ad_Key a' = ad_Key a"
    for st e a r st1 st2 e' a' r' st3
    by (rule store_fresh_apart [OF that(1) refl _ that(3-5) _ that(7,8)])
      (use that(2,6) in \<open>simp_all add: store_port_def\<close>)
  show "jc_Receipt (rs_Record r') = settles (jc_Receipt (rs_Record r)) status why backend nav"
    if "store_ok (st_Limits s) uid ns st" "ap_Admit (store_port sha s) e a st = (Inr (Some r), st1)" "rs_Fresh r"
      "ap_FinalizeOutcome (store_port sha s) e' (ad_Key a) (jc_Attempt (rs_Record r)) status why backend (Some nav) st1
         = (Inr x, st2)"
      "store_later (st_Limits s) ns st2 st3" "store_ok (st_Limits s) uid ns st3"
      "ap_Lookup (store_port sha s) e'' (ad_Key a) g st3 = (Inr (Some r'), st4)"
      "store_retained (st_Limits s) ns st4 (rs_Record r)"
    for st e a r st1 e' status why backend nav x st2 st3 e'' g r' st4
    by (rule store_settled_stays [OF that(1) refl _ that(3) _ that(5,6) _ that(8)])
      (use that(2,4,7) in \<open>simp_all add: store_port_def\<close>)
  show "g = ad_Digest a"
    if "store_ok (st_Limits s) uid ns st" "ap_Admit (store_port sha s) e a st = (Inr (Some r), st1)" "rs_Fresh r"
      "store_later (st_Limits s) ns st1 st2" "store_ok (st_Limits s) uid ns st2"
      "ap_Lookup (store_port sha s) e' (ad_Key a) g st2 = (Inr (Some r'), st3)"
      "store_retained (st_Limits s) ns st3 (rs_Record r)"
    for st e a r st1 st2 e' g r' st3
    by (rule store_digest_stays [OF that(1) refl _ that(3-5) _ that(7)])
      (use that(2,6) in \<open>simp_all add: store_port_def\<close>)
qed

end
