(* ===== verification/StoreHealthy.thy ===== *)
theory StoreHealthy
  imports JournalStoreFacts
begin

text \<open>
  A store that works: where every system call does what it should, the lock is free and the
  directory is in order, an operation ends the way the journal's own transaction does.
\<close>

subsection \<open>Files that open\<close>

lemma count_entries: "distinct (map snd xs) \<Longrightarrow> (k, i) \<in> set xs \<Longrightarrow> length (filter (\<lambda>(k, j). j = i) xs) = 1"
proof (induction xs)
  case (Cons p xs)
  obtain k' j where p: "p = (k', j)" by (cases p)
  show ?case
  proof (cases "j = i")
    case True
    then have "\<forall>q \<in> set xs. \<not> (case q of (k, j) \<Rightarrow> j = i)" using Cons.prems(1) by (force simp: p)
    then show ?thesis by (simp add: p True filter_empty_conv)
  next
    case False
    then show ?thesis using Cons p by simp
  qed
qed simp

lemma linked_once:
  assumes "dir_ok limits uid ns fs (fs_Dir fs)" and "map_of (fs_Dir fs) name = Some i" and "fs_Node fs i = Some n"
    and "owned uid n"
  shows "nlink fs i = 1"
  using assms count_entries [OF _ map_of_SomeD [OF assms(2)]] by (simp add: nlink_def dir_ok_def owned_def)

lemma opens_file:
  assumes "dir_ok limits uid ns fs (fs_Dir fs)" and "has_file fs (fs_Dir fs) name (owned uid)"
    and "\<And>x. se_At env x = Works" and "se_Uid env = uid" and "flags = RDONLY \<or> flags = RDWR"
  obtains (opened) i n where "openFile env role name flags fs = (Ret i, fs)" "map_of (fs_Dir fs) name = Some i"
    "fs_Node fs i = Some n" "owned uid n" "nlink fs i = 1"
  using assms(2)
proof (rule has_fileE)
  fix i n
  assume f: "map_of (fs_Dir fs) name = Some i" "fs_Node fs i = Some n" "owned uid n"
  then have l: "nlink fs i = 1" by (rule linked_once [OF assms(1)])
  have "S_IFREG \<noteq> S_IFLNK" "S_IFREG \<noteq> S_IFDIR" by (simp_all add: S_IFREG_def S_IFLNK_def S_IFDIR_def)
  with f l have "openat env flags name fs = (Inr i, fs)" "private_file env i fs"
    using assms(4,5) by (auto simp: openat_def private_file_def owned_def)
  then have "openFile env role name flags fs = (Ret i, fs)" by (simp add: openFile_def thenDo_ret sys_ret assms(3))
  then show thesis using f l by (rule opened)
qed

lemma has_file_mono: "has_file fs dir name P \<Longrightarrow> (\<And>n. P n \<Longrightarrow> Q n) \<Longrightarrow> has_file fs dir name Q"
  by (auto simp: has_file_def split: option.splits)

lemma reads_file:
  assumes "dir_ok limits uid ns fs (fs_Dir fs)" and "has_file fs (fs_Dir fs) name P"
    and P: "\<And>n. P n \<Longrightarrow> owned uid n \<and> int (length (nd_Data n)) \<le> limit"
    and "\<And>x. se_At env x = Works" and "se_Uid env = uid"
  obtains (read_all) i n where "readBounded env name limit fs = (Ret (nd_Data n), fs)" "map_of (fs_Dir fs) name = Some i"
    "fs_Node fs i = Some n" "P n"
proof -
  have "has_file fs (fs_Dir fs) name (owned uid)" using has_file_mono [OF assms(2)] P by blast
  then obtain i n where f: "openFile env name name RDONLY fs = (Ret i, fs)" "map_of (fs_Dir fs) name = Some i"
      "fs_Node fs i = Some n"
    using opens_file [where role = name and flags = RDONLY, OF assms(1) _ assms(4,5)] by metis
  have "P n" using assms(2) f(2,3) by (simp add: has_file_def)
  moreover have "readBounded env name limit fs = (Ret (nd_Data n), fs)"
    using f P [OF \<open>P n\<close>] by (simp add: readBounded_def thenDo_ret assms(4) thenDo_def pass_def sys_def wrapped_def ret_def)
  ultimately show thesis using f(2,3) read_all by blast
qed

lemma reads_image:
  assumes ok: "store_ok limits uid ns fs" and img: "fs_image limits ns fs = Some d"
    and works: "\<And>x. se_At env x = Works" and uid: "se_Uid env = uid" and expected: "expected = [] \<or> expected = ns"
  shows "read_store env limits expected fs = (Ret d, fs)"
proof -
  note dir = store_dir_ok [OF ok]
  have hex: "isHex ns" using ok by (simp add: store_ok_def)
  then have len: "length ns = 64" by (simp add: isHex_def)
  from dir have f: "has_file fs (fs_Dir fs) ''namespace'' (\<lambda>n. owned uid n \<and> nd_Synced n \<and> nd_Data n = ns @ [CHR 0x0A])"
    "has_file fs (fs_Dir fs) ''journal.json'' (\<lambda>n. owned uid n \<and> nd_Synced n \<and> int (length (nd_Data n)) \<le> lm_Bytes limits)"
    by (simp_all add: dir_ok_def)
  from reads_file [where limit = 65, OF dir f(1) _ works uid] len
  have nst: "readBounded env ''namespace'' 65 fs = (Ret (ns @ [CHR 0x0A]), fs)" by force
  from reads_file [where limit = "lm_Bytes limits", OF dir f(2) _ works uid]
  obtain i n where j: "readBounded env ''journal.json'' (lm_Bytes limits) fs = (Ret (nd_Data n), fs)"
    "map_of (fs_Dir fs) ''journal.json'' = Some i" "fs_Node fs i = Some n" by blast
  have "decode_image limits [] ns (nd_Data n) = Inr d"
    using img j by (auto simp: fs_image_def image_in_def split: sum.splits)
  then have "decode_image limits expected ns (nd_Data n) = Inr d"
    using expected by (subst decode_expected) auto
  then show ?thesis
    using hex len by (simp add: read_store_def thenDo_def nst j lift_def ret_def nth_append)
qed

subsection \<open>A write that succeeds\<close>

text \<open>The slot of the temporary file: empty, or an orphan the store owns.\<close>

definition slot_ok :: "u32 \<Rightarrow> fsys \<Rightarrow> bool" where
  "slot_ok uid fs \<longleftrightarrow>
     (case map_of (fs_Dir fs) ''snapshot.tmp'' of
        None \<Rightarrow> True
      | Some i \<Rightarrow> (case fs_Node fs i of None \<Rightarrow> False | Some n \<Rightarrow> owned uid n))"

lemma orphan_removed:
  assumes "dir_ok limits uid ns fs (fs_Dir fs)" and "slot_ok uid fs" and works: "\<And>x. se_At env x = Works" and "se_Uid env = uid"
  shows "\<exists>fs'. remove_orphan env fs = (Ret (), fs') \<and> map_of (fs_Dir fs') ''snapshot.tmp'' = None
    \<and> fs_Next fs' = fs_Next fs \<and> set (fs_Dir fs') \<subseteq> set (fs_Dir fs)"
proof (cases "map_of (fs_Dir fs) ''snapshot.tmp''")
  case None
  then have "openFile env ''old'' ''snapshot.tmp'' RDONLY fs = (Raise ENOENT, fs)"
    by (simp add: openFile_def thenDo_def sys_def works openat_def)
  then show ?thesis using None by (simp add: remove_orphan_def)
next
  case (Some i)
  then have "has_file fs (fs_Dir fs) ''snapshot.tmp'' (owned uid)"
    using assms(2) by (simp add: slot_ok_def has_file_def split: option.splits)
  then obtain j where "openFile env ''old'' ''snapshot.tmp'' RDONLY fs = (Ret j, fs)"
    using opens_file [OF assms(1) _ works assms(4), of "''snapshot.tmp''" RDONLY "''old''"] by metis
  then show ?thesis
    using Some delete_keys [of "''snapshot.tmp''" "fs_Dir fs"]
    by (auto simp: remove_orphan_def sys_def works unlinkat_def set_dir_def map_of_eq_None_iff AList.delete_eq)
qed

lemma created_file:
  assumes works: "\<And>x. se_At env x = Works" and "se_Uid env = uid" and umask: "se_Umask env AND 0x180 = 0"
    and free: "map_of (fs_Dir fs) name = None" and unused: "\<forall>(k, j) \<in> set (fs_Dir fs). j < fs_Next fs"
    and flags: "flags = WRONLY_CREAT_EXCL \<or> flags = RDWR_CREAT"
  shows "openFile env role name flags fs = (Ret (fs_Next fs), snd (create_node env name fs))"
proof -
  obtain i fs' where c: "create_node env name fs = (i, fs')" by fastforce
  have "filter (\<lambda>(k, j). j = fs_Next fs) (fs_Dir fs) = []" using unused by (auto simp: filter_empty_conv)
  then have l: "nlink fs' i = 1" and n: "fs_Node fs' i = Some \<lparr>nd_Mode = S_IFREG OR (0x180 AND NOT (se_Umask env)), nd_Uid = uid,
      nd_Links = 0, nd_Data = [], nd_Synced = False\<rparr>" and i: "i = fs_Next fs"
    using c assms(2) by (auto simp: create_node_def nlink_def set_dir_def Let_def)
  have *: "0x180 AND NOT (se_Umask env) = 0x180"
  proof (rule bit_eqI)
    fix k
    show "bit (0x180 AND NOT (se_Umask env)) k \<longleftrightarrow> bit (0x180 :: u32) k"
      using arg_cong [OF umask, of "\<lambda>w. bit w k"] by (auto simp: bit_simps)
  qed
  have "private_file env i fs'"
    using assms(2) by (simp add: private_file_def n l * S_IFREG_def S_IFMT_def)
  then show ?thesis
    using flags by (auto simp: openFile_def thenDo_ret sys_ret works openat_def free c i)
qed

lemma created_dir:
  "fs_Dir (snd (create_node env name fs)) = (name, fs_Next fs) # fs_Dir fs"
  "fs_Next (snd (create_node env name fs)) = Suc (fs_Next fs)"
  by (simp_all add: create_node_def Let_def set_dir_def)

lemma snapshot_written:
  assumes works: "\<And>x. se_At env x = Works" and tmp: "map_of (fs_Dir fs) ''snapshot.tmp'' = Some i"
  shows "\<exists>fs'. write_snapshot env b i fs = (Ret (), fs')"
  using tmp by (simp add: write_snapshot_def thenDo_ret sys_ret works write_file_def append_data_def sync_file_def
      sync_dir_def renameat_def Let_def)

lemma run_ret: "p fs = (Ret x, fs1) \<Longrightarrow> thenDo p k fs = k x fs1"
  by (simp add: thenDo_def)

lemma run_hook: "se_At env (Hook stage) = Works \<Longrightarrow> fault_hook env stage fs = (Ret (), fs)"
  by (simp add: pass_def sys_def)

lemma temporary_written:
  assumes works: "\<And>x. se_At env x = Works" and "se_Umask env AND 0x180 = 0"
    and free: "map_of (fs_Dir fs) ''snapshot.tmp'' = None" and unused: "\<forall>(k, j) \<in> set (fs_Dir fs). j < fs_Next fs"
  shows "\<exists>fs'. thenDo (openFile env ''tmp'' ''snapshot.tmp'' WRONLY_CREAT_EXCL) (\<lambda>i.
      deferred (sys (se_At env (Unlink ''tmp'')) (unlinkat ''snapshot.tmp'')) (write_snapshot env b i)) fs = (Ret (), fs')
    \<and> slot_ok uid fs'"
proof -
  let ?fs2 = "snd (create_node env ''snapshot.tmp'' fs)"
  note o = created_file [where role = "''tmp''" and flags = WRONLY_CREAT_EXCL, OF works refl assms(2) free unused, simplified]
  have "map_of (fs_Dir ?fs2) ''snapshot.tmp'' = Some (fs_Next fs)" by (simp add: created_dir)
  from snapshot_written [OF works this, of b] obtain fs3 where 3: "write_snapshot env b (fs_Next fs) ?fs2 = (Ret (), fs3)" ..
  show ?thesis
    by (cases "map_of (fs_Dir fs3) ''snapshot.tmp''")
      (simp_all add: thenDo_ret o deferred_def 3 sys_def works unlinkat_def slot_ok_def set_dir_def delete_conv')
qed

lemma image_written:
  assumes ok: "store_ok limits uid ns fs" and "slot_ok uid fs" and works: "\<And>x. se_At env x = Works"
    and "se_Uid env = uid" and "se_Umask env AND 0x180 = 0" and "validate limits d" and "image_fits limits d"
  shows "\<exists>fs'. write_store env limits d fs = (Ret (), fs') \<and> slot_ok uid fs'"
proof -
  note dir = store_dir_ok [OF ok]
  from orphan_removed [OF dir assms(2) works assms(4)] obtain fs1 where
    1: "remove_orphan env fs = (Ret (), fs1)" "map_of (fs_Dir fs1) ''snapshot.tmp'' = None"
    "fs_Next fs1 = fs_Next fs" "set (fs_Dir fs1) \<subseteq> set (fs_Dir fs)" by blast
  have "\<forall>(k, j) \<in> set (fs_Dir fs1). j < fs_Next fs1" using dir 1(3,4) by (auto simp: dir_ok_def list_all_iff)
  from temporary_written [OF works assms(5) 1(2) this, where uid = uid and b = "marshal d"] show ?thesis
    using assms(6,7) by (simp only: write_store_def simp_thms if_False run_ret [where p = "fault_hook env ''before_temp''", OF run_hook [OF works]]
        run_ret [where p = "remove_orphan env" and fs = fs, OF 1(1)])
qed

subsection \<open>An operation that goes through\<close>

text \<open>The root and the lock of a call: a safe path, a deadline ahead, and the lock granted at once.\<close>

definition reachable_root :: "store_env \<Rightarrow> string \<Rightarrow> bool" where
  "reachable_root env path \<longleftrightarrow>
     IsAbs path \<and> Clean path = path \<and> path \<noteq> ''/'' \<and> walk_root env [] (path_parts path) = None"

definition lock_free :: "store_env \<Rightarrow> bool" where
  "lock_free env \<longleftrightarrow>
     (case se_Deadline env of None \<Rightarrow> False | Some t \<Rightarrow> se_Start env < t) \<and> se_Cancel env = None \<and> se_Flock env 0 = Acquired"

lemma locks_store:
  assumes ok: "store_ok limits uid ns fs" "store_ok limits uid ns (others fs)"
    and same: "map_of (fs_Dir (others fs)) ''lock'' = map_of (fs_Dir fs) ''lock''"
    and works: "\<And>x. se_At env x = Works" and uid: "se_Uid env = uid" and free: "lock_free env"
  shows "\<exists>i. lock_store env others False fs = (Ret i, others fs)"
proof -
  note dir = store_dir_ok [OF ok(1)] store_dir_ok [OF ok(2)]
  have f: "has_file fs (fs_Dir fs) ''lock'' (owned uid)" "has_file (others fs) (fs_Dir (others fs)) ''lock'' (owned uid)"
    using dir by (simp_all add: dir_ok_def)
  obtain i where i: "openFile env ''lock'' ''lock'' RDWR fs = (Ret i, fs)" "map_of (fs_Dir fs) ''lock'' = Some i"
    using opens_file [OF dir(1) f(1) works uid, of RDWR "''lock''"] by metis
  have l: "nlink (others fs) i = 1"
    using opens_file [OF dir(2) f(2) works uid, of RDWR "''lock''"] same i(2) by (metis option.inject)
  have ctx: "ctx_err env (se_Start env) = None" using free by (auto simp: ctx_err_def lock_free_def split: option.splits)
  have "poll_lock env 0 (se_Start env) = Some (None, Suc 0)"
    using free by (subst poll_lock.simps) (simp add: ctx lock_free_def)
  then show ?thesis
    using free i l same by (auto simp: lock_store_def lock_free_def ctx thenDo_def works wrapped_def pass_def sys_def split: option.splits)
qed

lemma transaction_works:
  assumes ok: "store_ok limits uid ns fs" "store_ok limits uid ns (others fs)"
    and same: "map_of (fs_Dir (others fs)) ''lock'' = map_of (fs_Dir fs) ''lock''" and slot: "slot_ok uid (others fs)"
    and works: "\<And>x. se_At env x = Works" and uid: "se_Uid env = uid" and umask: "se_Umask env AND 0x180 = 0"
    and rt: "reachable_root env (st_Root s)" and free: "lock_free env" and lim: "st_Limits s = limits"
    and expected: "st_Namespace s = [] \<or> st_Namespace s = ns" and img: "fs_image limits ns (others fs) = Some d"
  shows "fst (transaction env others s fn fs) = outcome_of_result (fst (commit limits (image_fits limits) (fn d) d))
    \<and> slot_ok uid (snd (transaction env others s fn fs))"
proof -
  have 1: "openRoot env (st_Root s) fs = (Ret (), fs)"
    using rt by (simp add: openRoot_def reachable_root_def works)
  obtain i where 2: "lock_store env others False fs = (Ret i, others fs)" using locks_store [where others = others and fs = fs, OF ok same works uid free] by blast
  note 3 = reads_image [OF ok(2) img works uid expected]
  obtain r ch d2 where f: "fn d = (r, ch, d2)" by (cases "fn d") auto
  have 4: "transaction env others s fn fs =
      (if ch then thenDo (write_store env limits d2) (\<lambda>_. lift r) else lift r) (others fs)"
    by (simp add: transaction_def thenDo_def 1 2 3 lim f pass_def sys_def works)
  show ?thesis
  proof (cases "ch \<and> validate limits d2 \<and> image_fits limits d2")
    case True
    with image_written [OF ok(2) slot works uid umask, of d2] obtain fs' where
      "write_store env limits d2 (others fs) = (Ret (), fs')" "slot_ok uid fs'" by blast
    then show ?thesis using True by (simp add: 4 f commit_def thenDo_def lift_outcome)
  next
    case False
    then show ?thesis using slot
      by (auto simp: 4 f commit_def thenDo_def lift_outcome write_store_def raise_def outcome_of_result_def)
  qed
qed

lemma store_op_works:
  assumes ok: "store_ok limits uid ns fs" "store_ok limits uid ns (others fs)"
    and same: "map_of (fs_Dir (others fs)) ''lock'' = map_of (fs_Dir fs) ''lock''" and slot: "slot_ok uid (others fs)"
      "slot_ok uid fs"
    and works: "\<And>x. se_At env x = Works" and uid: "se_Uid env = uid" and umask: "se_Umask env AND 0x180 = 0"
    and rt: "reachable_root env (st_Root s)" and free: "lock_free env" and lim: "st_Limits s = limits"
    and expected: "st_Namespace s = [] \<or> st_Namespace s = ns" and img: "fs_image limits ns (others fs) = Some d"
  shows "fst (store_op sha env others s op fs) = outcome_of_result (fst (japply sha limits (image_fits limits) op d))
    \<and> slot_ok uid (snd (store_op sha env others s op fs))"
proof -
  have t: "fst (transaction env others s fn fs) = outcome_of_result (fst (commit limits (image_fits limits) (fn d) d))"
    "slot_ok uid (snd (transaction env others s fn fs))" for fn :: "disk \<Rightarrow> (jerr + result option) \<times> bool \<times> disk"
    using transaction_works [where others = others and fs = fs and fn = fn,
        OF ok same slot(1) works uid umask rt free lim expected img] by simp_all
  show ?thesis using slot(2) by (cases op) (auto simp: t raise_def outcome_of_result_def)
qed

end
