(* ===== verification/StoreInit.thy ===== *)
theory StoreInit
  imports JournalStoreFacts
begin

text \<open>
  How a store comes to be: when \<^verbatim>\<open>Initialize\<close> succeeds, the directory held nothing but the
  lock, and now it is in order, with an empty image that a crash of the machine cannot take back.
\<close>

subsection \<open>Tables of inodes\<close>

definition table_ok :: "fsys \<Rightarrow> bool" where
  "table_ok fs \<longleftrightarrow>
     distinct (map fst (fs_Dir fs)) \<and> distinct (map snd (fs_Dir fs))
     \<and> list_all (\<lambda>(k, i). i < fs_Next fs \<and> fs_Node fs i \<noteq> None) (fs_Dir fs)"

text \<open>Other processes keep the table in order and change no mode, owner or foreign link of a file.\<close>

definition same_owner :: "inode \<Rightarrow> inode option \<Rightarrow> bool" where
  "same_owner n m \<longleftrightarrow>
     (case m of
        None \<Rightarrow> False
      | Some n' \<Rightarrow> nd_Mode n' = nd_Mode n \<and> nd_Uid n' = nd_Uid n \<and> nd_Links n' = nd_Links n)"

lemma table_created:
  assumes "table_ok fs" and "map_of (fs_Dir fs) name = None" and "create_node env name fs = (i, fs')"
  shows "table_ok fs'" and "i = fs_Next fs" and "fs_Dir fs' = (name, i) # fs_Dir fs"
    and "fs_Node fs' = (fs_Node fs)(i \<mapsto>
      \<lparr>nd_Mode = S_IFREG OR (0x180 AND NOT (se_Umask env)), nd_Uid = se_Uid env, nd_Links = 0, nd_Data = [], nd_Synced = False\<rparr>)"
  using assms by (force simp: create_node_def Let_def table_ok_def set_dir_def list_all_iff map_of_eq_None_iff less_Suc_eq)+

lemma created:
  assumes "table_ok fs" and "openFile env role name WRONLY_CREAT_EXCL fs = (Ret i, fs')"
  shows "map_of (fs_Dir fs) name = None" and "fs_Dir fs' = (name, i) # fs_Dir fs"
    and "fs_Node fs' = (fs_Node fs)(i := fs_Node fs' i)" and "i = fs_Next fs"
    and "table_ok fs'"
    and "\<exists>n. fs_Node fs' i = Some n \<and> owned (se_Uid env) n \<and> nd_Data n = []"
proof -
  from assms(2) obtain fs1 where "openat env WRONLY_CREAT_EXCL name fs = (Inr i, fs1)"
    and p: "private_file env i fs1" "fs' = fs1"
    by (auto simp: openFile_def thenDo_ret sys_ret split: if_splits)
  then have none: "map_of (fs_Dir fs) name = None" and c: "create_node env name fs = (i, fs')"
    by (auto simp: openat_def split: option.splits prod.splits)
  then show "map_of (fs_Dir fs) name = None" by simp
  from table_created [OF assms(1) none c] show "table_ok fs'" "i = fs_Next fs" "fs_Dir fs' = (name, i) # fs_Dir fs"
    and "fs_Node fs' = (fs_Node fs)(i := fs_Node fs' i)" by simp_all
  from table_created(4) [OF assms(1) none c] obtain n where n: "fs_Node fs' i = Some n" "nd_Links n = 0" "nd_Data n = []"
    by simp
  show "\<exists>n. fs_Node fs' i = Some n \<and> owned (se_Uid env) n \<and> nd_Data n = []"
    using private_mode [OF p(1), of n] p(2) n by (simp add: owned_def)
qed

lemma opened_or_created:
  assumes ok: "table_ok fs" and o: "openFile env role name RDWR_CREAT fs = (Ret i, fs1)"
  shows "table_ok fs1 \<and> map_of (fs_Dir fs1) name = Some i \<and> private_file env i fs1"
proof -
  from o have "openat env RDWR_CREAT name fs = (Inr i, fs1)" and p: "private_file env i fs1"
    by (auto simp: openFile_def thenDo_ret sys_ret split: if_splits)
  then consider "fs1 = fs" "map_of (fs_Dir fs) name = Some i" | "map_of (fs_Dir fs) name = None" "create_node env name fs = (i, fs1)"
    by (auto simp: openat_def split: option.splits prod.splits if_splits)
  then show ?thesis
  proof cases
    case 2
    from table_created [OF ok 2] show ?thesis using p by simp
  qed (use ok p in simp)
qed

subsection \<open>The lock of a new store\<close>

lemma new_lock:
  assumes ok: "table_ok fs" and t: "lock_store env others True fs = (Ret i, fs2)"
    and tame: "\<And>fs1. table_ok fs1 \<Longrightarrow> table_ok (others fs1)"
      "\<And>fs1 j n. fs_Node fs1 j = Some n \<Longrightarrow> same_owner n (fs_Node (others fs1) j)"
  shows "table_ok fs2 \<and> map_of (fs_Dir fs2) ''lock'' = Some i \<and> nlink fs2 i = 1
    \<and> (\<exists>n. fs_Node fs2 i = Some n \<and> nd_Mode n AND S_IFMT = S_IFREG \<and> nd_Mode n AND 0x1FF = 0x180 \<and> nd_Uid n = se_Uid env)"
proof -
  from t obtain fs1 j where o: "openFile env ''lock'' ''lock'' RDWR_CREAT fs = (Ret j, fs1)"
    and k: "fs2 = others fs1" "j = i" "map_of (fs_Dir fs2) ''lock'' = Some i" "nlink fs2 i = 1"
    by (auto simp: lock_store_def raise_def thenDo_ret split: option.splits prod.splits if_splits)
  from opened_or_created [OF ok o] have p: "table_ok fs1" "private_file env i fs1" using k(2) by simp_all
  then obtain n where n: "fs_Node fs1 i = Some n" by (auto simp: private_file_def split: option.splits)
  from tame(2) [OF n] private_mode [OF p(2) n] tame(1) [OF p(1)] k show ?thesis
    by (auto simp: same_owner_def split: option.splits)
qed

lemma still_absent: "absent env names fs = (Ret (), fs') \<Longrightarrow> fs' = fs"
  by (induction names) (auto simp: ret_def split: answer.splits if_splits option.splits)

lemma only_entry:
  assumes "distinct (map fst xs)" and "list_all (\<lambda>k. k = name) (map fst xs)" and "map_of xs name = Some i"
  shows "xs = [(name, i)]"
proof (cases xs)
  case (Cons p ys)
  have "ys = []" using assms(1,2) by (cases ys) (auto simp: Cons)
  then show ?thesis using assms(2,3) by (cases p) (simp add: Cons)
qed (use assms in simp)

lemma write_file_ret: "write_file env part i b fs = (Ret x, fs') \<longleftrightarrow> se_At env (WriteAt part) = Works \<and> fs' = append_data i b fs"
  by (auto simp: write_file_def split: answer.splits)

subsection \<open>The first image\<close>

lemma first_write:
  assumes ok: "table_ok fs" and dir: "fs_Dir fs = [(''namespace'', j), (''lock'', i)]" and lost: "fs_Lost fs = []"
    and t: "write_store env limits d fs = (Ret (), fs')"
  obtains (wrote) k n fs3 where "validate limits d" "image_fits limits d" "k \<noteq> i" "k \<noteq> j"
    "fs_Dir fs' = [(''journal.json'', k), (''namespace'', j), (''lock'', i)]" "fs_Lost fs' = []" "table_ok fs'"
    "fs_Node fs' = (fs_Node fs)(k := Some n)" "owned (se_Uid env) n" "nd_Synced n" "nd_Data n = marshal d"
proof -
  let ?b = "marshal d"
  from t have v: "validate limits d" "image_fits limits d"
    by (auto simp: write_store_def raise_def split: if_splits)
  with t obtain fs1 k fs2 where 1: "remove_orphan env fs = (Ret (), fs1)"
    and 2: "openFile env ''tmp'' ''snapshot.tmp'' WRONLY_CREAT_EXCL fs1 = (Ret k, fs2)"
    and 3: "deferred (sys (se_At env (Unlink ''tmp'')) (unlinkat ''snapshot.tmp'')) (write_snapshot env ?b k) fs2 = (Ret (), fs')"
    by (auto simp: write_store_def thenDo_ret)
  have no: "openat env RDONLY ''snapshot.tmp'' fs = (Inl ENOENT, fs)" by (simp add: openat_def dir)
  have "fs1 = fs"
    using 1 no by (auto simp: remove_orphan_def openFile_def thenDo_def sys_def split: answer.splits if_splits)
  note new = created [OF ok 2 [unfolded this]]
  from new(6) obtain m where m: "fs_Node fs2 k = Some m" "owned (se_Uid env) m" "nd_Data m = []" by blast
  have lt: "i < k" "j < k" using ok new(4) by (simp_all add: table_ok_def dir)
  let ?n = "m\<lparr>nd_Data := ?b, nd_Synced := True\<rparr>"
  let ?fs3 = "fs2\<lparr>fs_Dir := [(''journal.json'', k), (''namespace'', j), (''lock'', i)], fs_Lost := [],
      fs_Node := (fs_Node fs2)(k := Some ?n)\<rparr>"
  from 3 obtain fs3 where w: "write_snapshot env ?b k fs2 = (Ret (), fs3)"
    and u: "\<exists>r. sys (se_At env (Unlink ''tmp'')) (unlinkat ''snapshot.tmp'') fs3 = (r, fs')"
    by (auto simp: deferred_def split: prod.splits outcome.splits)
  have "fs3 = ?fs3"
    using w new(2) dir m
    by (auto simp: write_snapshot_def thenDo_ret sys_ret write_file_ret append_data_def sync_file_def sync_dir_def
        renameat_def set_dir_def Let_def)
  moreover have "unlinkat ''snapshot.tmp'' ?fs3 = (Inl ENOENT, ?fs3)" by (simp add: unlinkat_def)
  ultimately have fs': "fs' = ?fs3" using u by (auto simp: sys_def split: answer.splits)
  show thesis
  proof (rule wrote [OF v])
    show "k \<noteq> i" "k \<noteq> j" using lt by simp_all
    show "fs_Node fs' = (fs_Node fs)(k := Some ?n)" using new(3) by (simp add: fs' fun_eq_iff)
    show "table_ok fs'" using new(5) dir new(2) lt by (simp add: fs' table_ok_def)
    show "owned (se_Uid env) ?n" using m(2) by (simp add: owned_def)
  qed (simp_all add: fs')
qed

subsection \<open>A new store is in order\<close>

lemma bootstrap_establishes:
  assumes ok: "table_ok fs" and t: "bootstrap env others s fs = (Ret s', fs')" and small: "small_limits (st_Limits s)"
    and tame: "\<And>fs1. table_ok fs1 \<Longrightarrow> table_ok (others fs1)"
      "\<And>fs1 j n. fs_Node fs1 j = Some n \<Longrightarrow> same_owner n (fs_Node (others fs1) j)"
  obtains (fresh) d where "st_Limits s' = st_Limits s" "st_Root s' = st_Root s"
    "store_ok (st_Limits s) (se_Uid env) (st_Namespace s') fs'"
    "fs_images (st_Limits s) (st_Namespace s') fs' = [Some d]" "dk_Records d = []"
proof -
  let ?l = "st_Limits s"
  from t obtain i fs2 where "lock_store env others True fs = (Ret i, fs2)"
    and rest: "thenDo (sys (se_At env Names) (\<lambda>fs. (Inr (map fst (fs_Dir fs)), fs))) (\<lambda>names.
       if \<not> list_all (\<lambda>n. n = ''lock'') names then raise ErrRepair
       else (case se_Token env of
               None \<Rightarrow> raise (StorageErr ''entropy'')
             | Some t \<Rightarrow>
                 (let ns = hexEncode t in
                  thenDo (openFile env ''namespace'' ''namespace'' WRONLY_CREAT_EXCL) (\<lambda>i.
                  thenDo (write_file env ''namespace'' i (ns @ [CHR 0x0A])) (\<lambda>_.
                  thenDo (sys (se_At env (Sync ''namespace'')) (sync_file i)) (\<lambda>_.
                  thenDo (sys (se_At env (Sync ''new_root'')) sync_dir) (\<lambda>_.
                  thenDo (fault_hook env ''after_namespace_sync'') (\<lambda>_.
                    (case advance (se_Sample env) (new_image ?l ns) of
                       Inl e \<Rightarrow> raise e
                     | Inr (p, d) \<Rightarrow>
                         thenDo (write_store env ?l d) (\<lambda>_. ret (s\<lparr>st_Namespace := ns\<rparr>))))))))))) fs2 = (Ret s', fs')"
    by (auto simp del: absent.simps simp: bootstrap_def thenDo_ret dest!: still_absent still_same [OF still_openRoot])
  from new_lock [OF ok this(1) tame] obtain n1 where lk: "table_ok fs2" "map_of (fs_Dir fs2) ''lock'' = Some i" "nlink fs2 i = 1"
    "fs_Node fs2 i = Some n1" "nd_Mode n1 AND S_IFMT = S_IFREG" "nd_Mode n1 AND 0x1FF = 0x180" "nd_Uid n1 = se_Uid env"
    by blast
  from rest obtain t0 ns j fs3 p d where "list_all (\<lambda>n. n = ''lock'') (map fst (fs_Dir fs2))"
    and ns: "ns = hexEncode t0" and cr: "openFile env ''namespace'' ''namespace'' WRONLY_CREAT_EXCL fs2 = (Ret j, fs3)"
    and ad: "advance (se_Sample env) (new_image ?l ns) = Inr (p, d)"
    and w: "write_store env ?l d (fs3\<lparr>fs_Node := (fs_Node fs3)(j := map_option (\<lambda>n. n\<lparr>nd_Data := nd_Data n @ ns @ [CHR 0x0A],
          nd_Synced := True\<rparr>) (fs_Node fs3 j)), fs_Lost := []\<rparr>) = (Ret (), fs')" and s': "s' = s\<lparr>st_Namespace := ns\<rparr>"
    by (auto simp: thenDo_ret sys_ret write_file_ret append_data_def sync_file_def sync_dir_def raise_def ret_def Let_def
        option.map_comp comp_def split: if_splits option.splits sum.splits prod.splits)
  let ?fs4 = "fs3\<lparr>fs_Node := (fs_Node fs3)(j := map_option (\<lambda>n. n\<lparr>nd_Data := nd_Data n @ ns @ [CHR 0x0A],
          nd_Synced := True\<rparr>) (fs_Node fs3 j)), fs_Lost := []\<rparr>"
  have dir2: "fs_Dir fs2 = [(''lock'', i)]" using lk(1,2) \<open>list_all _ _\<close> by (intro only_entry) (simp_all add: table_ok_def)
  then have links: "nd_Links n1 = 0" using lk(3,4) by (simp add: nlink_def)
  note new = created [OF lk(1) cr]
  from new(6) obtain m where m: "fs_Node fs3 j = Some m" "owned (se_Uid env) m" "nd_Data m = []" by blast
  have ij: "i < j" using lk(1) new(4) by (simp add: table_ok_def dir2)
  have "table_ok ?fs4" using new(5) m(1) by (auto simp: table_ok_def list_all_iff)
  from first_write [OF this _ _ w, of j i] new(2) dir2 obtain k n where f: "validate ?l d" "image_fits ?l d" "k \<noteq> i" "k \<noteq> j"
    "fs_Dir fs' = [(''journal.json'', k), (''namespace'', j), (''lock'', i)]" "fs_Lost fs' = []" "table_ok fs'"
    "fs_Node fs' = (fs_Node ?fs4)(k := Some n)" "owned (se_Uid env) n" "nd_Synced n" "nd_Data n = marshal d"
    by auto
  have d: "dk_Records d = []" "dk_Namespace d = ns"
    using ad by (auto simp: advance_def new_image_def Let_def split: if_splits)
  have hex: "isHex ns" using f(1) d(2) by (simp add: validate_def disk_header_ok_def)
  have "decode_image ?l [] ns (marshal d) = Inr (canonical d)"
    using decode_marshal [of ?l d "[]"] f(1) d small by (simp add: journal_ok_def)
  then have img: "image_in ?l ns fs' (fs_Dir fs') = Some (canonical d)" by (simp add: image_in_def f(5,8,11))
  have node: "fs_Node fs' j = Some (m\<lparr>nd_Data := ns @ [CHR 0x0A], nd_Synced := True\<rparr>)" "fs_Node fs' i = Some n1"
    "fs_Node fs' k = Some n"
    using f(3,4,8) m new(3) lk(4) ij by (simp_all add: fun_upd_def)
  have "int (length (marshal d)) \<le> lm_Bytes ?l" using f(2) by (simp add: image_fits_def Let_def)
  then have "dir_ok ?l (se_Uid env) ns fs' (fs_Dir fs')"
    using f(7,9-11) img m(2) lk(5-7) links
    by (simp add: dir_ok_def table_ok_def has_file_def f(5) node owned_def)
  then have "store_ok ?l (se_Uid env) ns fs'" using hex small by (simp add: store_ok_def f(6))
  moreover have "fs_images ?l ns fs' = [Some (canonical d)]" using img by (simp add: fs_images_def f(6))
  moreover have "dk_Records (canonical d) = []" by (simp add: canonical_def d(1))
  ultimately show thesis using s' by (intro fresh [of "canonical d"]) simp_all
qed

end
