(* ===== verification/StoreProperties.thy ===== *)
theory StoreProperties
  imports StoreNotify StoreHealthy StoreInit NotifyProperties
begin

text \<open>
  The properties of the journal's storage: its lock, its JSON, its transactions, crashes of the
  machine, and a notification call on top of them. Then examples: a store in which all works.
\<close>

subsection \<open>Waiting for the lock\<close>

lemma poll_returns:
  assumes "se_Deadline env = Some d"
  shows "\<exists>e m. poll_lock env n t = Some (e, m) \<and> n \<le> m \<and> (if t < d then 5 * (m - n) < d - t + 5 else m = n)
     \<and> (case e of None \<Rightarrow> 0 < m \<and> se_Flock env (m - 1) = Acquired | Some _ \<Rightarrow> True)"
proof (induction "d - t" arbitrary: n t rule: less_induct)
  case less
  show ?case
  proof (cases "ctx_err env t")
    case (Some e)
    then show ?thesis by (subst poll_lock.simps) auto
  next
    case None
    have t: "t < d" using None assms by (auto simp: ctx_err_def Let_def split: if_splits option.splits)
    show ?thesis
    proof (cases "se_Flock env n")
      case Busy
      let ?t = "t + 5 + se_Late env n"
      show ?thesis
      proof (cases "ctx_err env ?t")
        case (Some e)
        then show ?thesis using None Busy t by (subst poll_lock.simps) (simp add: Let_def)
      next
        case again: None
        have t': "?t < d" using again assms by (auto simp: ctx_err_def Let_def split: if_splits option.splits)
        have lt: "d - ?t < d - t" using t by simp
        from less [OF lt, of "Suc n"] t' obtain e m where
          "poll_lock env (Suc n) ?t = Some (e, m)" "Suc n \<le> m" "5 * (m - Suc n) < d - ?t + 5"
          "case e of None \<Rightarrow> 0 < m \<and> se_Flock env (m - 1) = Acquired | Some _ \<Rightarrow> True" by auto
        then show ?thesis using None Busy again t t' by (subst poll_lock.simps) (auto simp: Let_def)
      qed
    qed (use None t in \<open>subst poll_lock.simps; simp\<close>)+
  qed
qed

text \<open>
  Property C15. Waiting for the lock ends: with a deadline, the polls of \<^verbatim>\<open>lock\<close> return whatever
  the other holders do and however late the timers fire, after at most one poll per five
  milliseconds up to the deadline and none when it has passed; without an error only when the last
  poll got the lock.
\<close>

theorem lock_wait_ends:
  assumes "se_Deadline env = Some d"
  shows "\<exists>e polls. poll_lock env 0 (se_Start env) = Some (e, polls)
    \<and> (if se_Start env < d then 5 * polls < d - se_Start env + 5 else polls = 0)
    \<and> (case e of None \<Rightarrow> 0 < polls \<and> se_Flock env (polls - 1) = Acquired | Some _ \<Rightarrow> True)"
  using poll_returns [OF assms, of 0 "se_Start env"] by (simp only: diff_zero) blast

subsection \<open>JSON\<close>

text \<open>
  Property C14. The strict check of a JSON text accepts exactly the valid UTF-8 texts whose escapes are
  well-paired and that read as one document within the budget: no deeper, no wider and with no
  object that has a key twice.
\<close>

theorem strict_check_exactly:
  "strict_Validate s b \<longleftrightarrow>
     1 \<le> bd_Depth b \<and> 1 \<le> bd_Entries b \<and> 1 \<le> bd_Bytes b \<and> int (length s) \<le> bd_Bytes b \<and> valid_utf8 s \<and> scan_strings s \<and>
     (case read_document s of None \<Rightarrow> False | Some j \<Rightarrow> within_budget b 0 j)"
  by (rule strict_Validate_iff)

text \<open>
  Property C13. What a store writes it reads back: the text of a valid image passes the strict and the
  canonical checks of reading and decodes to the image, its records in the order of their keys.
\<close>

theorem image_round_trip:
  assumes "journal_ok limits d" and "normalize_limits l = Inr limits" and "expected = [] \<or> expected = dk_Namespace d"
  shows "decode_image limits expected (dk_Namespace d) (marshal d) = Inr (canonical d)
    \<and> journal_ok limits (canonical d) \<and> map_of (dk_Records (canonical d)) = map_of (dk_Records d)"
  using decode_marshal [OF assms(1) normalized_small [OF assms(2)] assms(3)] assms(1) canonical_records by simp

subsection \<open>Transactions\<close>

text \<open>
  Property C6. A store implements the journal: whatever system calls fail, wherever the process dies and
  whatever others did while it waited for the lock, an operation leaves a store in order; if it
  succeeds it answers what the journal's operation answers on the image it found, and either changed
  nothing or no crash of the machine can take the journal's new image back; otherwise every image a
  crash may leave is one it found or that new image.
\<close>

theorem store_implements_journal:
  assumes "store_ok limits uid ns fs" and "store_ok limits uid ns (others fs)" and "st_Limits s = limits"
    and "store_op sha env others s op fs = (r, fs')" and "fs_image limits ns (others fs) = Some d"
    and "japply sha limits (image_fits limits) op d = (jres, d')"
  shows "store_ok limits uid ns fs'
    \<and> (case r of
         Ret x \<Rightarrow> jres = Inr x \<and> (fs' = others fs \<and> d' = d \<or> set (fs_images limits ns fs') = {Some (canonical d')})
       | _ \<Rightarrow> set (fs_images limits ns fs')
               \<subseteq> insert (Some (canonical d')) (set (fs_images limits ns fs) \<union> set (fs_images limits ns (others fs))))"
proof (cases rule: store_op_commits [where others = others and fs = fs and d = d, OF assms])
  case 1
  then show ?thesis using assms(1,2) by (cases r) auto
next
  case 2
  then show ?thesis using assms(2) by (cases jres) (auto simp: outcome_of_result_def)
next
  case 3
  then show ?thesis by (cases jres) (auto simp: outcome_of_result_def settled_on_def replaces_image_def)
next
  case 4
  then show ?thesis
    by (cases r) (auto simp: keeps_image_def replaces_image_def images_within_def)
qed

text \<open>
  Property C17. A store works: with a safe root, a free lock before the deadline and system calls that do
  what they should, an operation answers exactly what the journal's operation answers, and leaves
  the slot of the temporary file clean for the next one.
\<close>

theorem healthy_store_answers:
  assumes "store_ok (st_Limits s) (se_Uid env) ns fs" and "slot_ok (se_Uid env) fs" and "\<And>x. se_At env x = Works"
    and "se_Umask env AND 0x180 = 0" and "reachable_root env (st_Root s)" and "lock_free env"
    and "st_Namespace s = [] \<or> st_Namespace s = ns" and "fs_image (st_Limits s) ns fs = Some d"
    and "store_op sha env (\<lambda>fs. fs) s op fs = (r, fs')"
  shows "r = outcome_of_result (fst (japply sha (st_Limits s) (image_fits (st_Limits s)) op d)) \<and> slot_ok (se_Uid env) fs'"
  using store_op_works [where others = "\<lambda>fs. fs" and sha = sha and op = op, OF assms(1,1) refl assms(2,2,3) refl assms(4-6) refl assms(7,8)]
  by (simp add: assms(9))

text \<open>
  Property C7. An admission is durable: once a fresh admission was reported, its record is in the image
  after any sequence of operations of any processes, with any failures, deaths and crashes of the
  machine, in the state of that admission or settled, until its retention has passed.
\<close>

theorem admission_survives_crashes:
  assumes "store_ok (st_Limits s) uid ns fs" and "store_call sha s e (JAdmit x tok a) fs = (Inr (Some r), fs1)"
    and "rs_Fresh r" and "fs2 = store_run sha s es fs1"
  shows "\<exists>d. fs_image (st_Limits s) ns fs2 = Some d
    \<and> ((\<exists>r'. map_of (dk_Records d) (scoped sha ns (ad_Key a)) = Some r' \<and> same_admission (rs_Record r) r')
       \<or> lm_Retention (st_Limits s) \<le> logical d - jc_Created (rs_Record r))"
  using assms(1) refl assms(2,3)
proof (cases rule: fresh_settled)
  case A: (settled d0 d1)
  have run: "store_ok (st_Limits s) uid ns fs2" "store_later (st_Limits s) ns fs1 fs2"
    using store_run_later [OF A(4) refl] by (simp_all add: assms(4))
  from store_has_image [OF run(1)] obtain d where d: "fs_image (st_Limits s) ns fs2 = Some d" .
  have k: "keeps_records d1 d" by (rule settled_later [OF A(5,1) run(2) d])
  have "dk_Namespace d1 = ns" using fs_image_ok [OF d] k by (simp add: keeps_records_def)
  with A(3) k journal_limits [OF A(1)] d show ?thesis by (auto simp: keeps_records_def)
qed

text \<open>
  Property C5. Notifications are delivered once also across crashes: if two calls with the same request
  identifier from the same caller both deliver, then whatever happened to the store during and
  between them, crashes of processes and of the machine included, the logical clock advanced by the
  retention between their admissions.
\<close>

theorem delivers_once_despite_crashes:
  assumes "store_ok (st_Limits s) uid ns fs"
    and "Notify sha (store_port sha s) env p c dl fs = (out, evs, fs1)" and "Delivered r req \<in> set evs"
    and "Notify sha (store_port sha s) env' p' c' dl' (store_run sha s es fs1) = (out', evs', fs2)"
    and "Delivered r' req' \<in> set evs'"
    and "np_RequestID p = Some ident" and "np_RequestID p' = Some ident" and "Scope sha c = Scope sha c'"
  shows "jc_Created (rs_Record r) \<le> jc_Created (rs_Record r')
    \<and> lm_Retention (st_Limits s) \<le> jc_Created (rs_Record r') - jc_Created (rs_Record r)"
proof -
  have ok1: "store_ok (st_Limits s) uid ns fs1" using store_admission.Notify_later [OF assms(1,2)] by simp
  have run: "store_ok (st_Limits s) uid ns (store_run sha s es fs1)"
    "store_later (st_Limits s) ns fs1 (store_run sha s es fs1)"
    using store_run_later [OF ok1 refl] by simp_all
  from store_admission.delivered_apart [OF assms(1-3) run(2) assms(4,5) run(1) assms(6-8)] show ?thesis
    by (simp add: retention_apart_def)
qed

text \<open>
  Property C16. A store is created in order: when \<^verbatim>\<open>Initialize\<close> succeeds the directory held nothing
  but the lock when it was locked, and now the store is in order with an empty image no crash can
  take back.
\<close>

theorem initialize_establishes:
  assumes "table_ok fs" and "Initialize_store env others path l fs = (Ret s, fs')"
    and "\<And>fs1. table_ok fs1 \<Longrightarrow> table_ok (others fs1)"
    and "\<And>fs1 j n. fs_Node fs1 j = Some n \<Longrightarrow> same_owner n (fs_Node (others fs1) j)"
  shows "normalize_limits l = Inr (st_Limits s) \<and> st_Root s = path
    \<and> store_ok (st_Limits s) (se_Uid env) (st_Namespace s) fs'
    \<and> (\<exists>d. fs_images (st_Limits s) (st_Namespace s) fs' = [Some d] \<and> dk_Records d = [])"
proof -
  from assms(2) obtain limits where l: "normalize_limits l = Inr limits"
    and b: "bootstrap env others \<lparr>st_Root = path, st_Limits = limits, st_Namespace = []\<rparr> fs = (Ret s, fs')"
    by (auto simp: Initialize_store_def newStore_def raise_def split: sum.splits)
  have "small_limits (st_Limits \<lparr>st_Root = path, st_Limits = limits, st_Namespace = []\<rparr>)"
    using normalized_small [OF l] by simp
  from assms(1) b this assms(3,4) show ?thesis
    by (cases rule: bootstrap_establishes [where others = others]) (simp_all add: l)
qed

subsection \<open>The size of a text\<close>

lemma length_escape: "length (escape_json s) \<le> 6 * length s"
proof (induction s rule: escape_json.induct)
  case (2 c cs)
  let ?n = "rune_len (c # cs)"
  have a: "length (escape_ascii x) \<le> 6" for x by (simp add: escape_ascii_def hex_escape_def)
  have r: "length (escape_rune x) \<le> 6 * length x" if "x \<noteq> []" for x
    using that a [of "hd x"] by (cases x) (auto simp: escape_rune_def)
  show ?case
  proof (cases "?n = 0")
    case True
    with 2 show ?thesis by (simp add: escape_json.simps(2))
  next
    case False
    have "length (take ?n (c # cs)) + length (drop ?n (c # cs)) = length (c # cs)" by (simp flip: length_append)
    moreover have "length (escape_rune (take ?n (c # cs))) \<le> 6 * length (take ?n (c # cs))"
      by (rule r) (use False in simp)
    ultimately show ?thesis using 2(2) [OF refl False] False by (simp add: escape_json.simps(2) Let_def)
  qed
qed simp

fun tree_cost :: "jtree \<Rightarrow> nat" where
  "tree_cost TNull = 4"
| "tree_cost (TBool b) = 5"
| "tree_cost (TNum s) = length s"
| "tree_cost (TStr s) = 6 * length s + 2"
| "tree_cost (TArr xs) = 2 + sum_list (map (\<lambda>x. tree_cost x + 1) xs)"
| "tree_cost (TObj m) = 2 + sum_list (map (\<lambda>(k, x). 6 * length k + 4 + tree_cost x) m)"

lemma length_commas: "length (commas xs) \<le> sum_list (map (\<lambda>x. length x + 1) xs)"
  by (induction xs rule: commas.induct) auto

lemma sum_mono: "(\<And>x. x \<in> set xs \<Longrightarrow> f x \<le> g x) \<Longrightarrow> sum_list (map f xs) \<le> sum_list (map g xs)" for f g :: "'a \<Rightarrow> nat"
  by (induction xs) (auto simp: add_mono)

lemma length_quote: "length (quote_json s) \<le> 6 * length s + 2"
  using length_escape [of s] by (simp add: quote_json_def)

lemma length_print: "length (print_tree j) \<le> tree_cost j"
proof (induction j)
  case (TArr xs)
  have "sum_list (map (\<lambda>x. length x + 1) (map print_tree xs)) \<le> sum_list (map (\<lambda>x. tree_cost x + 1) xs)"
    unfolding map_map comp_def by (rule sum_mono) (use TArr in auto)
  then show ?case using length_commas [of "map print_tree xs"] by simp
next
  case (TObj m)
  let ?f = "\<lambda>(k, x). quote_json k @ '':'' @ print_tree x"
  have "sum_list (map (\<lambda>x. length x + 1) (map ?f m)) \<le> sum_list (map (\<lambda>(k, x). 6 * length k + 4 + tree_cost x) m)"
    unfolding map_map comp_def
  proof (rule sum_mono)
    fix kx
    assume "kx \<in> set m"
    moreover have "snd kx \<in> Basic_BNFs.snds kx" by (cases kx) simp
    ultimately have "length (print_tree (snd kx)) \<le> tree_cost (snd kx)" by (rule TObj)
    then show "length (?f kx) + 1 \<le> (case kx of (k, x) \<Rightarrow> 6 * length k + 4 + tree_cost x)"
      using length_quote [of "fst kx"] by (cases kx) simp
  qed
  then show ?case using length_commas [of "map ?f m"] by simp
qed (use length_quote in simp_all)

lemma show_u64: "length (show_nat (unat x)) \<le> 20" for x :: u64
proof (rule show_nat_digits)
  show "unat x < 10 ^ 20" by (rule order.strict_trans2 [OF unsigned_less]) simp
qed simp

lemma int_num_cost: "0 \<le> x \<Longrightarrow> x < 2 ^ 63 \<Longrightarrow> tree_cost (int_num x) \<le> 20"
  using show_nat_digits [of 20 "nat x"] by (simp add: int_num_def Itoa_def)

lemma length_hex: "length (hexEncode s) = 2 * length s"
  by (induction s) (simp_all add: hexEncode_def)

lemma hash_length: "length (journal_hash sample_sha xs) = 64" "length (session_hash sample_sha ns k) = 64"
  "length (scoped sample_sha ns k) = 64"
  by (simp_all add: journal_hash_def session_hash_def scoped_def Let_def length_hex)

lemma call_image_cost:
  assumes "tree_cost (record_tree r) \<le> 25000"
  shows "image_fits sample_limits (call_image now s r)"
proof -
  let ?d = "call_image now s r"
  have l: "tree_cost (limits_tree sample_limits) \<le> 300"
    using int_num_cost [of 10000] int_num_cost [of 8388608] show_u64 [of MinRetention]
    by (simp add: limits_tree_def sample_limits_def num_def)
  have e: "tree_cost (event_tree \<lparr>rv_At = now, rv_Session = session_hash sample_sha sample_ns request_id\<rparr>) \<le> 1000"
    using show_u64 [of now] by (simp add: event_tree_def num_def hash_length)
  have c: "tree_cost (elapsed_tree (dk_Clock ?d)) \<le> 1000"
    using show_u64 [of now] show_u64 [of s]
    by (simp add: elapsed_tree_def num_def call_image_def sample_image_def empty_journal_def)
  have v: "tree_cost (int_num 1) \<le> 20" by (rule int_num_cost) simp_all
  have d: "tree_cost (disk_tree (?d\<lparr>dk_Records := []\<rparr>)) \<le> 4000"
    and d': "tree_cost (disk_tree ?d) \<le> 4500 + tree_cost (record_tree r)"
    using l e c v
    by (simp_all add: disk_tree_def call_image_def sample_image_def empty_journal_def hash_length sample_ns_def)
  have "dk_Records ?d = [(scoped sample_sha sample_ns request_id, r)]" by (simp add: call_image_def)
  then show ?thesis
    using length_print [of "disk_tree ?d"] length_print [of "disk_tree (?d\<lparr>dk_Records := []\<rparr>)"] length_print [of "record_tree r"]
      d d' assms
    by (simp add: image_fits_def marshal_def Let_def entry_size_def hash_length sample_limits_def)
qed

lemma call_record_cost:
  "tree_cost (record_tree (call_record c now)) \<le> 20000" "tree_cost (record_tree (settled_call c now)) \<le> 25000"
proof -
  have p: "length (policy_text sample_policy) \<le> 1024"
  proof -
    have "sn_Policy (ad_Decision (call_admission c)) = policy_text sample_policy"
      by (simp add: call_admission_def service_snapshot_def Let_def split: prod.split)
    then show ?thesis using call_admission_valid(3) [of c] by (simp add: validSnapshot_def validText_def)
  qed
  have s: "tree_cost (snapshot_tree (ad_Decision (call_admission c))) \<le> 9000"
    using p by (simp add: call_admission_def snapshot_tree_def navigation_tree_def target_tree_def sample_navigation_def
        nav_result_def service_snapshot_def no_target_def)
  have n: "tree_cost (navigation_tree sample_navigation) \<le> 1000"
    by (simp add: navigation_tree_def sample_navigation_def nav_result_def)
  have k: "ky_Kind request_id = Explicit" "ky_Request request_id = ''q1''" 
    by (simp_all add: request_id_def request_key_def sample_payload_def Let_def split: prod.split)
  have a: "ad_Key (call_admission c) = request_id" "ad_TrackingID (call_admission c) = hexEncode (replicate 32 c)" "length (ad_Digest (call_admission c)) = 32"
    by (simp_all add: call_admission_def digest_def)
  show "tree_cost (record_tree (call_record c now)) \<le> 20000"
    using s show_u64 [of now]
    by (simp add: call_record_def new_record_def record_tree_def num_def hash_length new_receipt_def receipt_tree_def a k length_hex)
  show "tree_cost (record_tree (settled_call c now)) \<le> 25000"
    using s n show_u64 [of now]
    by (simp add: settled_call_def settled_record_def call_record_def new_record_def record_tree_def num_def hash_length new_receipt_def receipt_tree_def a k length_hex)
qed

subsection \<open>A store in which all works\<close>

definition sample_senv :: "u64 \<Rightarrow> char \<Rightarrow> store_env" where
  "sample_senv s c =
     \<lparr>se_At = (\<lambda>_. Works), se_Short = 0, se_Uid = 0, se_Umask = 0x12, se_Walk = (\<lambda>_. Opened 0x41C0 0), se_Start = 0,
      se_Deadline = Some 100, se_Cancel = None, se_Flock = (\<lambda>n. if n = 0 then Acquired else Busy), se_Late = (\<lambda>_. 0),
      se_Sample = clock_sample ''b1'' s, se_Token = sample_token c\<rparr>"

definition sample_store :: store where
  "sample_store = \<lparr>st_Root = ''/j'', st_Limits = sample_limits, st_Namespace = sample_ns\<rparr>"

definition sample_file :: "string \<Rightarrow> inode" where
  "sample_file b = \<lparr>nd_Mode = 0x8180, nd_Uid = 0, nd_Links = 0, nd_Data = b, nd_Synced = True\<rparr>"

definition sample_fs :: "disk \<Rightarrow> fsys" where
  "sample_fs d =
     \<lparr>fs_Dir = [(''lock'', 0), (''namespace'', 1), (''journal.json'', 2)], fs_Lost = [],
      fs_Node = [0 \<mapsto> sample_file [], 1 \<mapsto> sample_file (sample_ns @ [CHR 0x0A]), 2 \<mapsto> sample_file (marshal d)],
      fs_Next = 3\<rparr>"

definition sample_call_env :: "store_event list \<Rightarrow> u64 \<Rightarrow> char \<Rightarrow> call_env_store" where
  "sample_call_env es s c = \<lparr>sc_Before = es, sc_Waiting = [], sc_Env = sample_senv s c\<rparr>"

lemma sample_senv_simps [simp]:
  "se_At (sample_senv s c) x = Works" "se_Uid (sample_senv s c) = 0" "se_Umask (sample_senv s c) AND 0x180 = 0"
  "se_Sample (sample_senv s c) = clock_sample ''b1'' s" "se_Token (sample_senv s c) = sample_token c"
  "lock_free (sample_senv s c)"
  by (simp_all add: sample_senv_def lock_free_def)

lemma sample_reachable: "reachable_root (sample_senv s c) ''/j''"
  by (simp add: reachable_root_def sample_senv_def IsAbs_def safe_component_def) code_simp

lemma sample_store_simps [simp]:
  "st_Root sample_store = ''/j''" "st_Limits sample_store = sample_limits" "st_Namespace sample_store = sample_ns"
  by (simp_all add: sample_store_def)

lemma sample_small: "small_limits sample_limits"
  by (simp add: small_limits_def sample_limits_def)

text \<open>The store is in order, its slot is clean and its image is \<^verbatim>\<open>d\<close>.\<close>

definition holding :: "disk \<Rightarrow> fsys \<Rightarrow> bool" where
  "holding d fs \<longleftrightarrow> store_ok sample_limits 0 sample_ns fs \<and> slot_ok 0 fs \<and> fs_image sample_limits sample_ns fs = Some d"

lemma sample_fs_holds:
  assumes "journal_ok sample_limits d" and "dk_Namespace d = sample_ns" and "image_fits sample_limits d" and "canonical d = d"
  shows "holding d (sample_fs d)"
proof -
  have m: "decode_image sample_limits [] sample_ns (marshal d) = Inr d"
    using decode_marshal [OF assms(1) sample_small, of "[]"] by (simp add: assms)
  have l: "int (length (marshal d)) \<le> lm_Bytes sample_limits" using assms(3) by (simp add: image_fits_def Let_def)
  show ?thesis
    using sample_small sample_ns_hex l
    by (simp add: holding_def store_ok_def dir_ok_def has_file_def image_in_def fs_image_def slot_ok_def sample_fs_def
        sample_file_def owned_def S_IFMT_def S_IFREG_def m)
qed

lemma japply_fits:
  assumes "japply sha limits (\<lambda>_. True) op d = (r, d')" and "fits d'"
  shows "japply sha limits fits op d = (r, d')"
proof -
  have "commit limits fits out d = (r, d')" if "commit limits (\<lambda>_. True) out d = (r, d')"
    for out :: "(jerr + result option) \<times> bool \<times> disk"
    using that assms(2) by (auto simp: commit_def split: prod.splits if_splits)
  then show ?thesis using assms(1) by (cases op) (auto split: if_splits)
qed

lemma sample_store_call:
  assumes h: "holding d fs" and j: "japply sample_sha sample_limits (\<lambda>_. True) op d = (Inr x, d')"
    and fits: "image_fits sample_limits d'" and canon: "canonical d' = d'"
  obtains (called) fs' where "store_call sample_sha sample_store (sample_call_env [] s c) op fs = (Inr x, fs')" "holding d' fs'"
    "store_op sample_sha (sample_senv s c) (\<lambda>fs. fs) sample_store op fs = (Ret x, fs')"
proof -
  obtain r fs' where t: "store_op sample_sha (sample_senv s c) (\<lambda>fs. fs) sample_store op fs = (r, fs')" by fastforce
  have h': "store_ok sample_limits 0 sample_ns fs" "slot_ok 0 fs" "fs_image sample_limits sample_ns fs = Some d"
    using h by (simp_all add: holding_def)
  have j': "japply sample_sha sample_limits (image_fits sample_limits) op d = (Inr x, d')" by (rule japply_fits [where fits = "image_fits sample_limits", OF j fits])
  have "r = Ret x" and slot: "slot_ok 0 fs'"
    using store_op_works [where others = "\<lambda>fs. fs" and sha = sample_sha and op = op and env = "sample_senv s c"
        and s = sample_store and limits = sample_limits, OF h'(1,1) refl h'(2,2) _ _ _ _ _ _ _ h'(3)] t j' sample_reachable
    by (simp_all add: outcome_of_result_def)
  with t have t: "store_op sample_sha (sample_senv s c) (\<lambda>fs. fs) sample_store op fs = (Ret x, fs')" by simp
  have "store_ok sample_limits 0 sample_ns fs' \<and> fs_image sample_limits sample_ns fs' = Some d'"
  proof (cases rule: store_op_commits [where others = "\<lambda>fs. fs" and fs = fs and d = d, OF h'(1,1) sample_store_simps(2) t h'(3) j'])
    case 3
    then show ?thesis by (simp add: settled_on_def replaces_image_def canon)
  next
    case 2
    then have "fs' = fs" "d' = d" by blast+
    then show ?thesis using h'(1,3) by blast
  qed blast+
  moreover have "store_call sample_sha sample_store (sample_call_env [] s c) op fs = (Inr x, fs')"
  proof -
    have "store_run sample_sha sample_store [] = (\<lambda>fs. fs)" by (simp add: store_run_def fun_eq_iff)
    then show ?thesis using t by (simp add: store_call_def sample_call_env_def Let_def)
  qed
  ultimately show thesis using called slot t by (simp add: holding_def)
qed

text \<open>The images of the earlier examples fit, and have at most one record.\<close>

lemma small_tree:
  "tree_cost (limits_tree sample_limits) \<le> 300" "tree_cost (int_num 1) \<le> 20"
  "tree_cost (elapsed_tree (dk_Clock (sample_image now s ev recs))) \<le> 1000"
  "tree_cost (event_tree \<lparr>rv_At = t, rv_Session = session_hash sample_sha sample_ns k\<rparr>) \<le> 1000"
  using int_num_cost [of 10000] int_num_cost [of 8388608] show_u64 [of MinRetention] int_num_cost [of 1] show_u64 [of now]
    show_u64 [of s] show_u64 [of t]
  by (simp_all add: limits_tree_def sample_limits_def num_def event_tree_def hash_length elapsed_tree_def sample_image_def
      empty_journal_def)

lemma no_records_fit:
  assumes "length ev \<le> 1" and "list_all (\<lambda>v. rv_Session v = session_hash sample_sha sample_ns request_id) ev"
  shows "image_fits sample_limits (sample_image now s ev [])"
proof -
  let ?d = "sample_image now s ev []"
  have "tree_cost (event_tree v) \<le> 1000" if "v \<in> set ev" for v
    using small_tree(4) [of "rv_At v" request_id] assms(2) that by (auto simp: list_all_iff event_tree_def)
  then have "sum_list (map (\<lambda>v. tree_cost (event_tree v) + 1) ev) \<le> 1001" using assms(1) by (cases ev) auto
  then have "tree_cost (disk_tree ?d) \<le> 4500"
    using small_tree(1,2) small_tree(3) [of now s ev "[]"]
    by (simp add: disk_tree_def sample_image_def empty_journal_def sample_ns_def comp_def)
  then show ?thesis
    using length_print [of "disk_tree ?d"] by (simp add: image_fits_def marshal_def Let_def sample_limits_def)
qed

lemma single_canonical: "length (dk_Records d) \<le> 1 \<Longrightarrow> canonical d = d"
proof -
  assume "length (dk_Records d) \<le> 1"
  then have "sort_key fst (dk_Records d) = dk_Records d" by (cases "dk_Records d") auto
  then show ?thesis by (simp add: canonical_def)
qed

lemma call_canonical: "canonical (call_image now s r) = call_image now s r" "canonical (sample_image now s ev []) = sample_image now s ev []"
  by (rule single_canonical; simp add: call_image_def)+

lemma empty_holds: "holding (sample_image 0 0 [] []) (sample_fs (sample_image 0 0 [] []))"
  by (rule sample_fs_holds) (use empty_journal_ok in \<open>simp_all add: empty_sample_image no_records_fit call_canonical\<close>)

lemma store_port_calls:
  "ap_Lookup (store_port sha s) e = (\<lambda>k g. store_call sha s e (JLookup k g))"
  "ap_Admit (store_port sha s) e = (\<lambda>a. store_call sha s e (JAdmit (se_Sample (sc_Env e)) (se_Token (sc_Env e)) a))"
  "ap_FinalizeOutcome (store_port sha s) e = (\<lambda>k attempt status why backend nav.
     store_call sha s e (JFinalize k attempt status why backend nav))"
  by (simp_all add: store_port_def fun_eq_iff)

text \<open>A call over a store that works, from an image without records.\<close>

lemma store_sample_call:
  assumes h: "holding (sample_image now s ev []) fs"
    and ad: "advance (clock_sample ''b1'' s') (sample_image now s ev []) = Inr (True, sample_image now' s' ev [])"
    and ev: "filter (recent now' 60) ev = []" and fits: "image_fits sample_limits (sample_image now s ev [])"
  obtains evs req fs' where
    "Notify sample_sha (store_port sample_sha sample_store) (sample_ports (sample_call_env [] s' c) c) sample_payload
       sample_caller sample_deadline fs = (call_receipt c now', evs, fs')"
    "Delivered (call_result c now') req \<in> set evs" "holding (call_image now' s' (settled_call c now')) fs'"
proof -
  let ?e = "sample_call_env [] s' c" and ?d = "sample_image now s ev []"
  have e: "se_Sample (sc_Env ?e) = clock_sample ''b1'' s'" "se_Token (sc_Env ?e) = sample_token c"
    by (simp_all add: sample_call_env_def)
  have ok: "journal_ok sample_limits ?d" using h fs_image_ok by (auto simp: holding_def)
  have ok1: "journal_ok sample_limits (call_image now' s' (call_record c now'))"
    using japply_keeps [OF ok] call_admit [OF ok ad ev] by (metis snd_conv)
  have look: "japply sample_sha sample_limits (\<lambda>_. True) (JLookup request_id (digest sample_sha sample_payload)) ?d = (Inr None, ?d)"
    by (simp add: request_id_valid commit_def lookup_def)
  from sample_store_call [OF h look fits call_canonical(2)] obtain fs0 where 0:
    "store_call sample_sha sample_store ?e (JLookup request_id (digest sample_sha sample_payload)) fs = (Inr None, fs0)"
    "holding ?d fs0" by metis
  have small: "image_fits sample_limits (call_image now' s' (call_record c now'))"
    "image_fits sample_limits (call_image now' s' (settled_call c now'))"
    using call_record_cost [of c now'] by (auto intro: call_image_cost)
  from sample_store_call [OF 0(2) call_admit [OF ok ad ev] small(1) call_canonical(1)] obtain fs1 where 1:
    "store_call sample_sha sample_store ?e (JAdmit (clock_sample ''b1'' s') (sample_token c) (call_admission c)) fs0
       = (Inr (Some (call_result c now')), fs1)" "holding (call_image now' s' (call_record c now')) fs1" by metis
  from sample_store_call [OF 1(2) call_finalize [OF ok1] small(2) call_canonical(1)] obtain fs2 where 2:
    "store_call sample_sha sample_store ?e (JFinalize request_id (jc_Attempt (call_record c now')) ''submitted'' ''accepted''
       ''native'' (Some sample_navigation)) fs1 = (Inr None, fs2)" "holding (call_image now' s' (settled_call c now')) fs2"
    by metis
  have attempt: "jc_Attempt (rs_Record (call_result c now')) = jc_Attempt (call_record c now')" by (simp add: call_result_def)
  show thesis
    by (rule port_call [where port = "store_port sample_sha sample_store" and e = ?e and c = c and now = now'
          and ?st0.0 = fs0 and ?st1.0 = fs1 and ?st2.0 = fs2 and st = fs])
      (use 0(1) 1(1) 2 that in \<open>simp_all only: store_port_calls e attempt\<close>)
qed

lemma first_store_call:
  obtains evs req fs' where
    "Notify sample_sha (store_port sample_sha sample_store) (sample_ports (sample_call_env [] 0 CHR ''a'') CHR ''a'') sample_payload
       sample_caller sample_deadline (sample_fs (sample_image 0 0 [] [])) = (call_receipt CHR ''a'' 0, evs, fs')"
    "Delivered (call_result CHR ''a'' 0) req \<in> set evs" "holding (call_image 0 0 (settled_call CHR ''a'' 0)) fs'"
  by (rule store_sample_call [OF empty_holds call_start, of "CHR ''a''"]) (simp_all add: no_records_fit)

lemma new_store_ok: "store_ok (st_Limits sample_store) 0 sample_ns (sample_fs (sample_image 0 0 [] []))"
  using empty_holds by (simp add: holding_def)

lemma delivers_once_despite_crashes_witness:
  "jc_Created (rs_Record (call_result CHR ''a'' 0)) \<le> jc_Created (rs_Record (call_result CHR ''b'' 604801))
   \<and> lm_Retention (st_Limits sample_store)
       \<le> jc_Created (rs_Record (call_result CHR ''b'' 604801)) - jc_Created (rs_Record (call_result CHR ''a'' 0))"
proof -
  obtain evs req fs1 where 1:
    "Notify sample_sha (store_port sample_sha sample_store) (sample_ports (sample_call_env [] 0 CHR ''a'') CHR ''a'') sample_payload
       sample_caller sample_deadline (sample_fs (sample_image 0 0 [] [])) = (call_receipt CHR ''a'' 0, evs, fs1)"
    "Delivered (call_result CHR ''a'' 0) req \<in> set evs" and h1: "holding (call_image 0 0 (settled_call CHR ''a'' 0)) fs1"
    using first_store_call by metis
  let ?ev = "[\<lparr>rv_At = 0, rv_Session = session_hash sample_sha sample_ns request_id\<rparr>]"
  let ?d = "sample_image 604801 sample_late ?ev []"
  have fits: "image_fits sample_limits ?d" by (rule no_records_fit) simp_all
  from sample_store_call [OF h1 call_collects fits call_canonical(2)] obtain fs2 where 2:
    "store_op sample_sha (sample_senv sample_late CHR ''x'') (\<lambda>fs. fs) sample_store (JCollect (clock_sample ''b1'' sample_late)) fs1
       = (Ret None, fs2)" "holding ?d fs2" by metis
  let ?es = "[StoreOp (sample_senv sample_late CHR ''x'') (JCollect (clock_sample ''b1'' sample_late))]"
  have es: "store_run sample_sha sample_store ?es fs1 = fs2" using 2(1) by (simp add: store_run_def)
  from store_sample_call [OF 2(2) call_later _ fits, of "CHR ''b''"] obtain evs' req' fs3 where 3:
    "Notify sample_sha (store_port sample_sha sample_store) (sample_ports (sample_call_env [] sample_late CHR ''b'') CHR ''b'') sample_payload
       sample_caller sample_deadline (store_run sample_sha sample_store ?es fs1) = (call_receipt CHR ''b'' 604801, evs', fs3)"
    "Delivered (call_result CHR ''b'' 604801) req' \<in> set evs'"
    by (simp add: es recent_def) metis
  from delivers_once_despite_crashes [OF new_store_ok 1 3 sample_identity sample_identity refl] show ?thesis .
qed

lemma lock_wait_ends_witness:
  "\<exists>e polls. poll_lock ((sample_senv 0 CHR ''a'')\<lparr>se_Flock := (\<lambda>_. Busy)\<rparr>) 0 0 = Some (e, polls) \<and> polls \<le> 20"
  using lock_wait_ends [of "(sample_senv 0 CHR ''a'')\<lparr>se_Flock := (\<lambda>_. Busy)\<rparr>" 100] by (auto simp: sample_senv_def)

lemma image_round_trip_witness:
  "decode_image sample_limits sample_ns sample_ns (marshal (sample_image 0 0 [] [])) = Inr (canonical (sample_image 0 0 [] []))"
proof -
  have "normalize_limits sample_limits = Inr sample_limits" by (simp add: normalize_limits_def sample_limits_def MinRetention_def)
  from image_round_trip [OF sample_start_ok this, of sample_ns] show ?thesis by simp
qed

abbreviation sample_lookup :: jop where
  "sample_lookup \<equiv> JLookup request_id (digest sample_sha sample_payload)"

lemma sample_admit_ops:
  obtains fs' where
    "store_op sample_sha (sample_senv 0 CHR ''a'') (\<lambda>fs. fs) sample_store
       (JAdmit (clock_sample ''b1'' 0) (sample_token CHR ''a'') (call_admission CHR ''a'')) (sample_fs (sample_image 0 0 [] []))
     = (Ret (Some (call_result CHR ''a'' 0)), fs')"
    "japply sample_sha sample_limits (image_fits sample_limits)
       (JAdmit (clock_sample ''b1'' 0) (sample_token CHR ''a'') (call_admission CHR ''a'')) (sample_image 0 0 [] [])
     = (Inr (Some (call_result CHR ''a'' 0)), call_image 0 0 (call_record CHR ''a'' 0))"
    "store_call sample_sha sample_store (sample_call_env [] 0 CHR ''a'')
       (JAdmit (clock_sample ''b1'' 0) (sample_token CHR ''a'') (call_admission CHR ''a'')) (sample_fs (sample_image 0 0 [] []))
     = (Inr (Some (call_result CHR ''a'' 0)), fs')"
proof -
  have small: "image_fits sample_limits (call_image 0 0 (call_record CHR ''a'' 0))"
    using call_record_cost(1) [of "CHR ''a''" 0] by (auto intro: call_image_cost)
  note admit = call_admit [OF sample_start_ok call_start filter.simps(1), of "CHR ''a''"]
  from japply_fits [where fits = "image_fits sample_limits", OF admit small]
    sample_store_call [OF empty_holds admit small call_canonical(1), of 0 "CHR ''a''"] that
  show thesis by metis
qed

lemma store_implements_journal_witness:
  "\<exists>fs'. store_op sample_sha (sample_senv 0 CHR ''a'') (\<lambda>fs. fs) sample_store
       (JAdmit (clock_sample ''b1'' 0) (sample_token CHR ''a'') (call_admission CHR ''a'')) (sample_fs (sample_image 0 0 [] []))
     = (Ret (Some (call_result CHR ''a'' 0)), fs')
     \<and> set (fs_images sample_limits sample_ns fs') = {Some (call_image 0 0 (call_record CHR ''a'' 0))}"
proof -
  obtain fs' where op: "store_op sample_sha (sample_senv 0 CHR ''a'') (\<lambda>fs. fs) sample_store
       (JAdmit (clock_sample ''b1'' 0) (sample_token CHR ''a'') (call_admission CHR ''a'')) (sample_fs (sample_image 0 0 [] []))
     = (Ret (Some (call_result CHR ''a'' 0)), fs')" and j: "japply sample_sha sample_limits (image_fits sample_limits)
       (JAdmit (clock_sample ''b1'' 0) (sample_token CHR ''a'') (call_admission CHR ''a'')) (sample_image 0 0 [] [])
     = (Inr (Some (call_result CHR ''a'' 0)), call_image 0 0 (call_record CHR ''a'' 0))"
    using sample_admit_ops by metis
  have "dk_Records (call_image 0 0 (call_record CHR ''a'' 0)) \<noteq> dk_Records (sample_image 0 0 [] [])"
    by (simp add: call_image_def)
  then have "call_image 0 0 (call_record CHR ''a'' 0) \<noteq> sample_image 0 0 [] []" by metis
  moreover have "fs_image (st_Limits sample_store) sample_ns (sample_fs (sample_image 0 0 [] [])) = Some (sample_image 0 0 [] [])"
    using empty_holds by (simp add: holding_def)
  ultimately show ?thesis
    using store_implements_journal [where others = "\<lambda>fs. fs", OF new_store_ok new_store_ok refl op _ j [folded sample_store_simps(2)]] op
    by (simp add: call_canonical)
qed

lemma healthy_store_answers_witness:
  "fst (store_op sample_sha (sample_senv 0 CHR ''a'') (\<lambda>fs. fs) sample_store
     (JAdmit (clock_sample ''b1'' 0) (sample_token CHR ''a'') (call_admission CHR ''a'')) (sample_fs (sample_image 0 0 [] [])))
   = Ret (Some (call_result CHR ''a'' 0))"
proof -
  obtain fs' where op: "store_op sample_sha (sample_senv 0 CHR ''a'') (\<lambda>fs. fs) sample_store
       (JAdmit (clock_sample ''b1'' 0) (sample_token CHR ''a'') (call_admission CHR ''a'')) (sample_fs (sample_image 0 0 [] []))
     = (Ret (Some (call_result CHR ''a'' 0)), fs')" and j: "japply sample_sha sample_limits (image_fits sample_limits)
       (JAdmit (clock_sample ''b1'' 0) (sample_token CHR ''a'') (call_admission CHR ''a'')) (sample_image 0 0 [] [])
     = (Inr (Some (call_result CHR ''a'' 0)), call_image 0 0 (call_record CHR ''a'' 0))"
    using sample_admit_ops by metis
  have "Ret (Some (call_result CHR ''a'' 0)) = outcome_of_result (fst (japply sample_sha sample_limits (image_fits sample_limits)
       (JAdmit (clock_sample ''b1'' 0) (sample_token CHR ''a'') (call_admission CHR ''a'')) (sample_image 0 0 [] [])))"
    using healthy_store_answers [of sample_store "sample_senv 0 CHR ''a''" sample_ns _ "sample_image 0 0 [] []", OF _ _ _ _ _ _ _ _ op]
      empty_holds sample_reachable by (simp add: holding_def del: japply.simps store_op.simps)
  then show ?thesis by (simp only: op fst_conv)
qed

lemma admission_survives_crashes_witness:
  "\<exists>fs1 d. store_call sample_sha sample_store (sample_call_env [] 0 CHR ''a'')
       (JAdmit (clock_sample ''b1'' 0) (sample_token CHR ''a'') (call_admission CHR ''a'')) (sample_fs (sample_image 0 0 [] []))
     = (Inr (Some (call_result CHR ''a'' 0)), fs1)
     \<and> fs_image sample_limits sample_ns
         (store_run sample_sha sample_store [MachineCrash 1 (\<lambda>_. []), StoreOp (sample_senv 0 CHR ''b'') sample_lookup] fs1) = Some d"
proof -
  obtain fs1 where call: "store_call sample_sha sample_store (sample_call_env [] 0 CHR ''a'')
       (JAdmit (clock_sample ''b1'' 0) (sample_token CHR ''a'') (call_admission CHR ''a'')) (sample_fs (sample_image 0 0 [] []))
     = (Inr (Some (call_result CHR ''a'' 0)), fs1)" using sample_admit_ops by metis
  have "rs_Fresh (call_result CHR ''a'' 0)" by (simp add: call_result_def)
  from admission_survives_crashes [OF new_store_ok call this refl] call show ?thesis by auto
qed

text \<open>A new store in an empty directory.\<close>

definition no_files :: fsys where
  "no_files = \<lparr>fs_Dir = [], fs_Lost = [], fs_Node = (\<lambda>_. None), fs_Next = 0\<rparr>"

lemma no_files_simps [simp]: "fs_Dir no_files = []" "fs_Next no_files = 0" "fs_Lost no_files = []" "fs_Node no_files = (\<lambda>_. None)"
  by (simp_all add: no_files_def)

lemma sample_normalized: "normalize_limits sample_limits = Inr sample_limits"
  by (simp add: normalize_limits_def sample_limits_def MinRetention_def)

lemma initialize_runs:
  obtains fs' where "Initialize_store (sample_senv 0 CHR ''a'') (\<lambda>fs. fs) ''/j'' sample_limits no_files =
    (Ret \<lparr>st_Root = ''/j'', st_Limits = sample_limits, st_Namespace = hexEncode (replicate 32 CHR ''a'')\<rparr>, fs')"
proof -
  let ?env = "sample_senv 0 CHR ''a''" and ?ns = "hexEncode (replicate 32 CHR ''a'')"
  let ?s = "\<lparr>st_Root = ''/j'', st_Limits = sample_limits, st_Namespace = []\<rparr>"
  define fs1 where "fs1 = snd (create_node ?env ''lock'' no_files)"
  define j where "j = fs_Next fs1"
  define fs2 where "fs2 = snd (create_node ?env ''namespace'' fs1)"
  define made where "made = append_data j (?ns @ [CHR 0x0A]) fs2"
  define synced where "synced = snd (sync_file j made)"
  define fs3 where "fs3 = snd (sync_dir synced)"
  let ?d = "sample_image 0 0 [] []\<lparr>dk_Namespace := ?ns\<rparr>"
  have dir1: "fs_Dir fs1 = [(''lock'', 0)]" "fs_Next fs1 = 1" by (simp_all add: created_dir fs1_def)
  have dir3: "fs_Dir fs3 = [(''namespace'', j), (''lock'', 0)]" "fs_Next fs3 = 2" "j = 1"
    by (simp_all add: fs3_def synced_def made_def fs2_def j_def sync_dir_def sync_file_def append_data_def created_dir dir1)
  have root_ok: "openRoot ?env ''/j'' no_files = (Ret (), no_files)"
    using sample_reachable [of 0 "CHR ''a''"] by (simp add: openRoot_def reachable_root_def)
  have clear: "absent ?env [''namespace'', ''journal.json'', ''snapshot.tmp''] no_files = (Ret (), no_files)"
    by (simp add: ret_def)
  have open_lock: "openFile ?env ''lock'' ''lock'' RDWR_CREAT no_files = (Ret 0, fs1)"
    using created_file [where role = "''lock''" and flags = RDWR_CREAT and env = ?env and fs = no_files and name = "''lock''", OF _ refl]
    by (simp add: fs1_def)
  have once: "nlink fs1 0 = 1" by (simp add: nlink_def create_node_def set_dir_def Let_def fs1_def)
  have poll: "poll_lock ?env 0 0 = Some (None, Suc 0)"
    by (subst poll_lock.simps) (simp add: sample_senv_def ctx_err_def)
  have lock: "lock_store ?env (\<lambda>fs. fs) True no_files = (Ret 0, fs1)"
    using dir1 once poll open_lock
    by (simp add: lock_store_def sample_senv_def ctx_err_def thenDo_def wrapped_def pass_def sys_def)
  have names: "sys (se_At ?env Names) (\<lambda>fs. (Inr (map fst (fs_Dir fs)), fs)) fs1 = (Ret [''lock''], fs1)"
    by (simp add: sys_def dir1)
  have open_ns: "openFile ?env ''namespace'' ''namespace'' WRONLY_CREAT_EXCL fs1 = (Ret j, fs2)"
    using created_file [where role = "''namespace''" and flags = WRONLY_CREAT_EXCL and env = ?env and fs = fs1
        and name = "''namespace''", OF _ refl]
    by (simp add: dir1 fs2_def j_def)
  have write_ns: "write_file ?env ''namespace'' j (?ns @ [CHR 0x0A]) fs2 = (Ret (), made)" by (simp add: write_file_def made_def)
  have sync_ns: "sys (se_At ?env (Sync ''namespace'')) (sync_file j) made = (Ret (), synced)"
    by (simp add: sys_def sync_file_def synced_def)
  have sync_root: "sys (se_At ?env (Sync ''new_root'')) sync_dir synced = (Ret (), fs3)" by (simp add: sys_def sync_dir_def fs3_def)
  have hook: "fault_hook ?env ''after_namespace_sync'' fs3 = (Ret (), fs3)" by (rule run_hook) simp
  have ad: "advance (se_Sample ?env) (new_image sample_limits ?ns) = Inr (False, ?d)"
    by (simp add: advance_def clock_sample_def sample_text new_image_def sample_image_def empty_journal_def)
  have hex: "isHex ?ns" by (rule isHex_hexEncode) simp
  have v: "validate sample_limits ?d"
    by (simp add: validate_def disk_header_ok_def sample_image_def empty_journal_def hex sample_limits_def sample_text
        events_ok_def counts_balanced_def live_events_def live_records_def)
  have "tree_cost (disk_tree ?d) \<le> 4500"
    using small_tree(1,2) small_tree(3) [of 0 0 "[]" "[]"]
    by (simp add: disk_tree_def sample_image_def empty_journal_def length_hex)
  then have fits: "image_fits sample_limits ?d"
    using length_print [of "disk_tree ?d"] by (simp add: image_fits_def marshal_def Let_def sample_limits_def)
  have orphan: "remove_orphan ?env fs3 = (Ret (), fs3)"
    by (simp add: remove_orphan_def openFile_def thenDo_def sys_def openat_def dir3)
  have "map_of (fs_Dir fs3) ''snapshot.tmp'' = None" "\<forall>(k, i) \<in> set (fs_Dir fs3). i < fs_Next fs3" by (simp_all add: dir3)
  from temporary_written [where env = ?env and fs = fs3 and b = "marshal ?d" and uid = 0, OF _ _ this] obtain fs' where
    t: "thenDo (openFile ?env ''tmp'' ''snapshot.tmp'' WRONLY_CREAT_EXCL) (\<lambda>i.
      deferred (sys (se_At ?env (Unlink ''tmp'')) (unlinkat ''snapshot.tmp'')) (write_snapshot ?env (marshal ?d) i)) fs3
        = (Ret (), fs')"
    using sample_senv_simps(1,3) by blast
  have hook1: "fault_hook ?env ''before_temp'' fs3 = (Ret (), fs3)" by (rule run_hook) simp
  have w: "write_store ?env sample_limits ?d fs3 = (Ret (), fs')"
    using v fits
    by (simp only: write_store_def simp_thms if_False run_ret [where p = "fault_hook ?env ''before_temp''", OF hook1]
        run_ret [where p = "remove_orphan ?env" and fs = fs3, OF orphan] t)
  have stored: "thenDo (write_store ?env sample_limits ?d) (\<lambda>_. ret (?s\<lparr>st_Namespace := ?ns\<rparr>)) fs3
      = (Ret (?s\<lparr>st_Namespace := ?ns\<rparr>), fs')"
    by (simp add: thenDo_def w ret_def)
  have tok: "se_Token ?env = Some (replicate 32 CHR ''a'')" by (simp add: sample_token_def)
  have "bootstrap ?env (\<lambda>fs. fs) ?s no_files = (Ret (?s\<lparr>st_Namespace := ?ns\<rparr>), fs')"
    unfolding bootstrap_def
    by (simp only: store.simps tok Let_def list.pred_inject simp_thms if_False option.case ad sum.case prod.case
      run_ret [where p = "openRoot ?env ''/j''", OF root_ok]
      run_ret [where p = "absent ?env [''namespace'', ''journal.json'', ''snapshot.tmp'']", OF clear]
      run_ret [where p = "lock_store ?env (\<lambda>fs. fs) True", OF lock]
      run_ret [where p = "sys (se_At ?env Names) (\<lambda>fs. (Inr (map fst (fs_Dir fs)), fs))", OF names]
      run_ret [where p = "openFile ?env ''namespace'' ''namespace'' WRONLY_CREAT_EXCL", OF open_ns]
      run_ret [where p = "write_file ?env ''namespace'' j (?ns @ [CHR 0x0A])", OF write_ns]
      run_ret [where p = "sys (se_At ?env (Sync ''namespace'')) (sync_file j)", OF sync_ns]
      run_ret [where p = "sys (se_At ?env (Sync ''new_root'')) sync_dir", OF sync_root]
      run_ret [where p = "fault_hook ?env ''after_namespace_sync''", OF hook])
      (rule stored [unfolded store.simps])
  then have "Initialize_store ?env (\<lambda>fs. fs) ''/j'' sample_limits no_files = (Ret (?s\<lparr>st_Namespace := ?ns\<rparr>), fs')"
    by (simp add: Initialize_store_def newStore_def sample_normalized)
  then show thesis using that by simp
qed

lemma initialize_establishes_witness:
  "\<exists>fs' d. Initialize_store (sample_senv 0 CHR ''a'') (\<lambda>fs. fs) ''/j'' sample_limits no_files =
       (Ret \<lparr>st_Root = ''/j'', st_Limits = sample_limits, st_Namespace = hexEncode (replicate 32 CHR ''a'')\<rparr>, fs')
     \<and> fs_images sample_limits (hexEncode (replicate 32 CHR ''a'')) fs' = [Some d]"
proof -
  obtain fs' where t: "Initialize_store (sample_senv 0 CHR ''a'') (\<lambda>fs. fs) ''/j'' sample_limits no_files =
    (Ret \<lparr>st_Root = ''/j'', st_Limits = sample_limits, st_Namespace = hexEncode (replicate 32 CHR ''a'')\<rparr>, fs')"
    by (rule initialize_runs)
  have "table_ok no_files" by (simp add: table_ok_def no_files_def)
  from initialize_establishes [OF this t] t show ?thesis by (auto simp: same_owner_def)
qed

end
