(* ===== verification/Spec2Isabelle.thy ===== *)
theory Spec2Isabelle
  imports Sender Dedup SessionState TeamState Analyzer HookProperties NotifyProperties StoreProperties
begin

text \<open>
  A verification development for agent-notifications, a Go program that turns the hook events of
  coding agents (Claude Code, Codex, Qoder and others) into desktop and webhook notifications.

  How the program works. An agent runs the binary once per hook event. The process decodes the
  event, decides which status it stands for (from a transcript or from the event itself), refuses
  duplicates with lock files and with what the session remembers, and delivers the notification
  on the desktop and through a webhook. Processes share only files: lock files, one state file
  per session, one state file per team. Apart from hooks, an agent can ask for a notification itself:
  the service admits the request in a journal on disk, delivers it at most once, records the outcome
  and answers repeated requests from the journal.

  Theories and the code they model (paths under src/):
  \<^item> Prelude: Go's integers and clocks, the interfaces \<^verbatim>\<open>step_machine\<close>,
    \<^verbatim>\<open>absorbing_machine\<close> and \<^verbatim>\<open>keyed_store\<close>, which the component theories interpret.
  \<^item> GoStrings, Runes, Json: the parts of the standard library the code relies on (strings as
    bytes, UTF-8 decoding, decoded JSON objects).
  \<^item> WebhookError, CircuitBreaker, RateLimiter, Retry, Metrics, Template, Formatters, Payload,
    Sender: internal/webhook (redaction.go, circuitbreaker.go, ratelimiter.go, retry.go,
    metrics.go, runtime.go, formatters.go, webhook.go).
  \<^item> SessionName, NativeTitle: internal/sessionname (sessionname.go, native.go).
  \<^item> Config, ConfigDefaults: internal/config (config.go, config_accessors.go,
    config_validation.go, config_defaults.go, the profile merge of agents.go).
  \<^item> Status, Transcript, Analyzer: pkg/jsonl/jsonl.go and internal/analyzer.
  \<^item> Dedup, SessionState, TeamState: internal/dedup/dedup.go, internal/state/state.go,
    internal/teamstate/teamstate.go.
  \<^item> Markdown, Summary: internal/summary (markdown.go, text.go, actions.go, extraction.go,
    bodies.go, summary.go).
  \<^item> HookEvent: the events of internal/hooks, their decoding from wire data and the identities
    they are locked and remembered under (event.go, claude_source.go, codex_source.go,
    qoder_source.go, identity.go).
  \<^item> ClaudeTranscript, HookMessage: claude_transcript.go; message.go, enricher.go and
    notification_details.go of internal/hooks.
  \<^item> HookDelivery: delivery.go, both channels as a log of effects.
  \<^item> HookWorld, HookPolicy, HookHandler: the files hooks share and one call of the handler
    (classification.go and the policies, content.go, hooks.go). HookProperties: what a call
    guarantees, on top of all of the above.
  \<^item> Framing, JsonText: length-prefixed and hexadecimal texts that are hashed, strings as JSON
    writes them.
  \<^item> Journal: internal/agentnotify/journal/journal.go, the image on disk, its validation, its
    logical clock, and the four operations as transactions. JournalFacts: each operation keeps a
    valid image. JournalProperties: quotas, retention and the rate events.
  \<^item> Notification, Origin: internal/notification (delivery.go, readiness.go, admission.go and the
    two request builders) and internal/agentnotify/origin/origin.go.
  \<^item> NotifyService: internal/agentnotify/service.go with types.go and validation.go, one call of
    \<^verbatim>\<open>Notify\<close> and the gate in front of it. NotifyFacts: its branches as case rules.
    NotifyJournal: the contract of an admission port and the journal as one. NotifyProperties: what
    a call guarantees.
  \<^item> JsonTree, StrictJson: JSON documents, their printing and reading, and internal/strictjson/json.go
    over the tokens of the library's decoder, with the proof of what it accepts.
  \<^item> JournalCodec: the image as a JSON text and its strict, canonical reading
    (internal/agentnotify/journal/json.go, the second half of \<^verbatim>\<open>Store.read\<close>).
  \<^item> Paths, JournalStore: filepath.Clean and internal/agentnotify/journal/storage_unix.go, with
    \<^verbatim>\<open>Open\<close> and \<^verbatim>\<open>Initialize\<close> of journal.go, on a table of inodes. JournalStoreFacts:
    every operation keeps the image or replaces it whole, whatever fails. StoreNotify: the directory
    as an admission port, across crashes. StoreHealthy, StoreInit: an operation in which all works,
    and how a store comes to be. StoreProperties: what storage guarantees.

  Conventions. A struct is a record, an enumeration a datatype, a pointer an option, an error a
  value of a sum or option. State is passed explicitly; a clock reading is an argument. What is
  not in the repository or is left to the standard library's documentation (\<^verbatim>\<open>url.Parse\<close>,
  \<^verbatim>\<open>time.ParseDuration\<close>, \<^verbatim>\<open>time.Parse\<close>, the HTTP client, Unicode case tables,
  decoding of a JSON line, \<^verbatim>\<open>filepath.Join\<close>) is an argument of the definitions that use it.
  Concurrency is a step relation where several processes or callers interleave: the circuit
  breaker (one step per critical section), the lock files (one step per file operation, linked to the
  sequential acquisition by \<^verbatim>\<open>lock_steps_run_acquire\<close>) and the
  gate of the service (one step per critical section); around each journal transaction of a service
  call any transactions of other processes may run, and its storage may fail before or after the
  image is replaced. In the storage below it every system call, every check of the context and every
  fault hook is a site, at which an environment lets the call work, fail or kill the process; a crash
  of the machine brings back any directory since its last sync and leaves junk in unsynced files;
  others use the store before a call and while it waits for the lock. Team
  operations run under a file lock, so a sequence of operations is any interleaving. A call of the
  hook handler is sequential; its clock readings (one per phase), the transcript it reads (each
  parse and each poll), the host's deadline, focus and Do Not Disturb are fields of its
  environment, and the enricher of Codex turns is the default one. Regular expressions are
  matchers on bytes that follow the leftmost-first rule.

  What is shown. For each component an invariant or a frame lemma and the behaviour of its
  operations on every branch, and for the program as a whole the properties listed in the
  manifest: a lock admits one of any number of racing processes while it is fresh (and two can win
  a stale one), recorded notifications answer the duplicate and cooldown questions exactly, a
  team's completion is claimed once per cycle, the transcript verdict is that of the current
  response except for a mention of the session limit in the last three assistant messages, a webhook send counted as a success was accepted by the server, errors are
  redacted, identity fields cannot be overridden, configured profiles override per field, and the
  resilience patterns (retry, limiter, breaker) follow their specifications. For a hook as a
  whole: a hook that announced something, fired once more within two seconds, announces nothing, a
  question respects the cooldown, a delayed Stop keeps its reservation exactly if it was
  delivered, the webhook does not depend on the desktop, banners respect focus, Do Not Disturb
  and the deadline, a delivery is recorded exactly once, an event writes one session's state and at
  most one team's and deletes only what the cleanup of a Stop finds old, and every call ends with the same two shutdown steps. For the journal: every transaction
  leaves an image it will read back, quotas bound what is admitted, and a key is admitted once per
  retention period; an admission refused after a reboot can report a state to repair. For the
  service: a request is delivered once per retention period, a repeated request gets the first
  receipt and only for the same payload, a receipt safe to retry had no effect, and the journal
  accepts what the service asks of it. For the storage: what is written is read back, the strict JSON
  check accepts exactly the documents within its budget, an operation on the files refines the
  journal's operation whatever system calls fail, a reported admission survives any crash for its
  retention, so a request is delivered once also across crashes, waiting for the lock ends, and a new
  store is in order.

  Bounds. Recursions are structural or have a length measure; \<^verbatim>\<open>Wait\<close> of the limiter and
  the settle loop of a transcript run on a finite schedule of wake-ups (the settle loop polls until
  a deadline, so any finite list of polls is a possible run). \<^verbatim>\<open>truncateText\<close> is called with
  limits of at least 3 only. Integer arithmetic that can wrap (\<^verbatim>\<open>int64\<close> seconds) uses
  \<^verbatim>\<open>wrap64\<close>; floating-point tokens, rates and backoffs are exact rationals.

  The fuel of the JSON reader and of the strict check is twice the length of the text and more, which
  is enough for every text (\<^verbatim>\<open>read_fuel\<close>). The polls of the lock are a partial function, proved to
  return.

  Not modelled: the platform clocks under the journal and its Windows storage, the MCP transport and the
  shared service around the notification service, the configuration's document, store and resolver,
  the event adapters of the newer agents, installers, the setup wizard, the desktop notifier and
  daemon, audio, and the portable package (operating-system effects), the native plugins in other
  languages, and the goroutine and wait group around a webhook send.
\<close>

end
